(* ===== verification/Ev_Prelude.thy ===== *)
theory Ev_Prelude
  imports Main "HOL-Library.Monad_Syntax" "HOL-Library.Word"
begin

text \<open>
  Shared vocabulary of the development.

  A C function that may crash (dereference of a NULL or freed pointer, an access outside an
  allocated array, a failed assert) is a function into an option type: \<open>None\<close> is the crash,
  \<open>Some r\<close> the normal return with \<open>r\<close> the returned value and the new state. Error codes the C
  code returns (-1, 0, NULL) are ordinary values inside \<open>Some\<close>. The do-notation of
  Monad_Syntax sequences such steps.

  A C int is an int here (the code stays far below the width), and where the code looks at
  bits the bit operations on int are used; \<open>to_s32\<close> is the conversion of an unsigned 32-bit
  value to C int.
\<close>

unbundle bit_operations_syntax

named_theorems crash_simps \<open>rewrites for the option monad of possibly crashing steps\<close>

type_synonym 'a ptr = "'a option"

section \<open>The option monad\<close>

lemma bind_eq_Some_iff [crash_simps]:
  "Option.bind m f = Some r \<longleftrightarrow> (\<exists>x. m = Some x \<and> f x = Some r)"
  by (cases m) auto

lemma bind_SomeE:
  assumes "Option.bind m f = Some r"
  obtains x where "m = Some x" and "f x = Some r"
  using assms by (cases m) auto

definition assert_c :: "bool \<Rightarrow> unit option" where
  "assert_c b = (if b then Some () else None)"

lemma assert_c_Some [simp]: "assert_c b = Some u \<longleftrightarrow> b"
  by (simp add: assert_c_def)

lemma assert_c_True [simp]: "assert_c True = Some ()"
  by (simp add: assert_c_def)

section \<open>Bounded array access\<close>

definition nth_c :: "'a list \<Rightarrow> int \<Rightarrow> 'a option" where
  \<comment> \<open>a C array read: outside the allocated cells it is undefined behaviour\<close>
  "nth_c xs i = (if 0 \<le> i \<and> i < int (length xs) then Some (xs ! nat i) else None)"

definition upd_c :: "'a list \<Rightarrow> int \<Rightarrow> 'a \<Rightarrow> 'a list option" where
  "upd_c xs i x = (if 0 \<le> i \<and> i < int (length xs) then Some (xs[nat i := x]) else None)"

lemma nth_c_Some [crash_simps]:
  "nth_c xs i = Some x \<longleftrightarrow> 0 \<le> i \<and> i < int (length xs) \<and> xs ! nat i = x"
  by (auto simp: nth_c_def)

lemma upd_c_Some [crash_simps]:
  "upd_c xs i x = Some ys \<longleftrightarrow> 0 \<le> i \<and> i < int (length xs) \<and> ys = xs[nat i := x]"
  by (auto simp: upd_c_def)

section \<open>Signed 32-bit conversion and flag tests\<close>

definition to_s32 :: "int \<Rightarrow> int" where
  "to_s32 n = signed_take_bit 31 n"

definition has_bits :: "int \<Rightarrow> int \<Rightarrow> bool" where
  \<comment> \<open>the idiom (x & mask) == mask\<close>
  "has_bits x m \<longleftrightarrow> x AND m = m"

section \<open>Sums over lists and counting\<close>

lemma sum_list_update_add:
  fixes f :: "'a \<Rightarrow> nat"
  assumes "i < length xs"
  shows "sum_list (map f (xs[i := y])) + f (xs ! i) = sum_list (map f xs) + f y"
  using assms
proof (induction xs arbitrary: i)
  case Nil
  then show ?case by simp
next
  case (Cons x xs)
  then show ?case by (cases i) auto
qed

lemma sum_list_update_same:
  fixes f :: "'a \<Rightarrow> nat"
  assumes "i < length xs" and "f y = f (xs ! i)"
  shows "sum_list (map f (xs[i := y])) = sum_list (map f xs)"
  using sum_list_update_add [OF assms(1), of f y] assms(2) by simp

lemma count_list_remove1:
  "x \<in> set xs \<Longrightarrow> count_list xs y = count_list (remove1 x xs) y + (if x = y then 1 else 0)"
  by (induction xs) auto

lemma count_list_append' [simp]:
  "count_list (xs @ ys) x = count_list xs x + count_list ys x"
  by (induction xs) auto

section \<open>Searching a list from the front\<close>

fun find_index :: "('a \<Rightarrow> bool) \<Rightarrow> 'a list \<Rightarrow> nat option" where
  "find_index p [] = None"
| "find_index p (x # xs) = (if p x then Some 0 else map_option Suc (find_index p xs))"

lemma find_index_None: "find_index p xs = None \<longleftrightarrow> (\<forall>x \<in> set xs. \<not> p x)"
  by (induction xs) auto

lemma find_index_Some:
  "find_index p xs = Some i \<longleftrightarrow> i < length xs \<and> p (xs ! i) \<and> (\<forall>j < i. \<not> p (xs ! j))"
proof (induction xs arbitrary: i)
  case Nil
  then show ?case by simp
next
  case (Cons x xs)
  show ?case
  proof (cases i)
    case 0
    then show ?thesis by auto
  next
    case (Suc k)
    show ?thesis
    proof (cases "p x")
      case True
      then show ?thesis using Suc by auto
    next
      case False
      then have "find_index p (x # xs) = Some i \<longleftrightarrow> find_index p xs = Some k"
        using Suc by auto
      then show ?thesis
        using Suc False Cons.IH [of k] by (auto simp: less_Suc_eq_0_disj)
    qed
  qed
qed

end
