(* ===== verification/Ev_Types.thy ===== *)
theory Ev_Types
  imports Ev_Prelude
begin

text \<open>
  The data of the event path layer, after ev_internal.h and the evp part of cm_internal.h.

  Objects the C code reaches through pointers and shares (event items) live in a heap indexed
  by address; stones are reached only through the stone table and are identified by their slot
  in it (slots are never reused); queue items carry their address. NULL is \<open>None\<close>. Opaque
  library objects (FFS formats and buffers, ATL attribute lists, connections, application
  functions and data) are numbers: their addresses. \<open>effects\<close> records, newest first, what the
  code does to its environment.
\<close>

type_synonym addr = nat
type_synonym evid = nat
type_synonym FMFormat = nat
type_synonym conn = nat
type_synonym EVstone = int
type_synonym EVaction = int

section \<open>Event items\<close>

datatype event_pkg_contents = Event_App_Owned | Event_Freeable | Event_CM_Owned

datatype free_fn =
    App_free addr              \<comment> \<open>an application EVFreeFunction\<close>
  | Free_ioBuffer_fn           \<comment> \<open>free_ioBuffer of evp.c\<close>
  | Transform_free_fn          \<comment> \<open>transform_free_wrapper of response.c\<close>
  | Free_master_fn             \<comment> \<open>free_master_event of evp_threads.c\<close>

record event_item =
  ref_count :: int
  event_encoded :: bool
  contents :: event_pkg_contents
  encoded_event :: "addr ptr"
  event_len :: int
  decoded_event :: "addr ptr"
  encoded_eventv :: "addr ptr"
  reference_format :: "FMFormat ptr"
  ioBuffer :: "addr ptr"
  ev_format :: "addr ptr"
  ev_attrs :: "addr ptr"
  ev_cm :: "addr ptr"
  free_arg :: "addr ptr"
  free_func :: "free_fn ptr"

section \<open>Actions\<close>

datatype action_value =
    Action_NoAction | Action_Bridge | Action_Thread_Bridge | Action_Terminal | Action_Filter
  | Action_Immediate | Action_Multi | Action_Decode | Action_Encode_to_Buffer | Action_Split
  | Action_Store | Action_Congestion | Action_Source

datatype action_class = Immediate | Immediate_and_Multi | Bridge | Congestion

datatype encode_state =
  Accepts_All | Requires_Decoded | Requires_Contig_Encoded | Requires_Vector_Encoded

record queue_item =
  qi_addr :: addr
  qi_item :: evid
  qi_handled :: bool

type_synonym queue = "queue_item list"

record terminal_proto_vals =
  term_handler :: addr
  term_client_data :: "addr ptr"
  term_target_stone_id :: int

record bridge_action_vals =
  bri_conn :: "conn ptr"
  bri_remote_stone_id :: int
  bri_remote_path :: "addr ptr"
  bri_conn_failed :: bool
  bri_remote_contact :: "addr ptr"

record thread_bridge_action_vals =
  thr_target_stone_id :: int
  thr_target_cm :: addr
  thr_target_cm_shutdown :: bool

record decode_action_vals =
  decode_format :: addr
  target_reference_format :: "FMFormat ptr"
  decode_context :: "addr ptr"

record storage_proto_vals =
  store_target_stone_id :: int
  is_paused :: int
  is_sending :: bool
  max_stored :: int
  num_stored :: int
  store_queue :: queue

text \<open>
  The union \<open>o\<close> of a proto_action; reading a member that was not written is undefined. The
  state a response.c action keeps (mutable_response_data) is reached by its address.
\<close>

datatype action_data =
    AD_None
  | AD_Term terminal_proto_vals
  | AD_Bridge bridge_action_vals
  | AD_Thread thread_bridge_action_vals
  | AD_Decode decode_action_vals
  | AD_Imm "addr ptr"
  | AD_Store storage_proto_vals

record proto_action =
  action_type :: action_value
  input_format_requirements :: "addr ptr"
  matching_reference_formats :: "FMFormat list ptr"
  act_o :: action_data
  data_state :: encode_state
  act_attrs :: "addr ptr"
  event_length_sum :: int

datatype imm_fn = Filter_wrapper | Router_wrapper | Transform_wrapper
datatype multi_fn = Queued_wrapper
datatype int_free_fn = Free_imm_response | Free_multi_response

datatype response_data =
    RD_None
  | RD_Decode decode_action_vals
  | RD_Imm imm_fn addr "int_free_fn ptr"
  | RD_Multi multi_fn addr "int_free_fn ptr"

record response_cache_element =
  rc_reference_format :: "FMFormat ptr"
  rc_stage :: action_class
  rc_action_type :: action_value
  rc_proto_action_id :: int
  rc_requires_decoded :: bool
  rc_o :: response_data

section \<open>Stones\<close>

text \<open>The stall_source flags.\<close>

abbreviation (input) "Stall_None \<equiv> (0::int)"
abbreviation (input) "Stall_Overload \<equiv> (1::int)"
abbreviation (input) "Stall_Squelch \<equiv> (2::int)"
abbreviation (input) "Stall_Requested \<equiv> (4::int)"
abbreviation (input) "Stall_Upstream \<equiv> (8::int)"

record stone =
  local_id :: int
  default_action :: int
  is_frozen :: bool
  is_processing :: bool
  is_outputting :: bool
  is_draining :: int
  is_stalled :: int
  stall_from :: int
  queue_size :: int
  pending_output :: int
  response_cache :: "response_cache_element list"
  queue :: queue
  new_enqueue_flag :: bool
  write_callback :: int
  proto_actions :: "proto_action list"
  periodic_handle :: "addr ptr"
  stone_attrs :: "addr ptr"
  output_count :: int
  output_stone_ids :: "int list"
  last_remote_source :: "conn ptr"
  squelch_depth :: int
  unstall_callbacks :: "(addr \<times> addr ptr) list"

section \<open>Effects on the environment\<close>

datatype effect =
    Eff_free_func free_fn "addr ptr" "addr ptr"
  | Eff_return_buffer "addr ptr"
  | Eff_take_buffer addr
  | Eff_free_attr_list addr
  | Eff_add_ref_attr_list addr
  | Eff_free_FFSBuffer addr
  | Eff_free_FFSContext addr
  | Eff_int_free int_free_fn addr
  | Eff_response_data_free addr
  | Eff_remove_task addr
  | Eff_delayed_task int int
  | Eff_periodic_task int int int
  | Eff_delayed_submit int int EVstone evid    \<comment> \<open>EVdelayed_submit_func, which gets the reference\<close>
  | Eff_write_evcontrol conn int int
  | Eff_conn_close conn
  | Eff_conn_dereference "conn ptr"
  | Eff_conn_failed conn
  | Eff_register_close_handler conn int
  | Eff_write_event conn "FMFormat ptr" int evid
  | Eff_wake_server
  | Eff_message string

section \<open>The state of one CManager's event path layer\<close>

record action_state =
  last_active_stone :: int
  events_in_play :: int

record sink_table_elem =
  sink_name :: string
  sink_format_list :: "addr ptr"
  sink_handler :: addr
  sink_client_data :: "addr ptr"

record source_rec =
  src_format :: "addr ptr"
  src_reference_format :: "FMFormat ptr"
  local_stone_id :: int
  preencoded :: bool
  src_free_func :: "free_fn ptr"
  src_free_data :: "addr ptr"

record activation_rec =
  thread_id :: addr
  act_stone_id :: int

record evp =
  cm_addr :: addr                               \<comment> \<open>the CManager\<close>
  stone_base_num :: int
  stone_map :: "stone ptr list"
  stone_lookup_table :: "(int \<times> int) list"   \<comment> \<open>(global_id, local_id)\<close>
  as_ptr :: "action_state ptr"
  events :: "evid \<Rightarrow> event_item option"        \<comment> \<open>the live event items\<close>
  next_addr :: addr                             \<comment> \<open>addresses malloc has not handed out\<close>
  queue_items_free_list :: "addr list"
  current_event_list :: "evid list"
  taken_events_list :: "(addr \<times> evid) list"
  use_backpressure :: bool
  sink_handlers :: "sink_table_elem list"
  sources :: "(string \<times> addr) list"
  source_heap :: "addr \<Rightarrow> source_rec option"
  app_stone_close_handler :: "addr ptr"
  activation_stack :: "activation_rec list"
  in_get_conn :: int
  delay_task_pending :: bool
  locked :: int
  self_thread :: addr
  attr_int :: "addr \<Rightarrow> string \<Rightarrow> int option"  \<comment> \<open>what ATL's integer lookups answer\<close>
  effects :: "effect list"

definition emit :: "effect \<Rightarrow> evp \<Rightarrow> evp" where
  "emit x e = e\<lparr>effects := x # effects e\<rparr>"

lemma emit_sel [simp]:
  "stone_base_num (emit x e) = stone_base_num e" "stone_map (emit x e) = stone_map e"
  "stone_lookup_table (emit x e) = stone_lookup_table e" "as_ptr (emit x e) = as_ptr e"
  "events (emit x e) = events e" "next_addr (emit x e) = next_addr e"
  "queue_items_free_list (emit x e) = queue_items_free_list e"
  "current_event_list (emit x e) = current_event_list e"
  "taken_events_list (emit x e) = taken_events_list e"
  "use_backpressure (emit x e) = use_backpressure e" "locked (emit x e) = locked e"
  "cm_addr (emit x e) = cm_addr e" "attr_int (emit x e) = attr_int e" "effects (emit x e) = x # effects e"
  "activation_stack (emit x e) = activation_stack e" "self_thread (emit x e) = self_thread e"
  "in_get_conn (emit x e) = in_get_conn e" "delay_task_pending (emit x e) = delay_task_pending e"
  "sink_handlers (emit x e) = sink_handlers e" "sources (emit x e) = sources e"
  "source_heap (emit x e) = source_heap e"
  "app_stone_close_handler (emit x e) = app_stone_close_handler e"
  by (simp_all add: emit_def)

definition malloc :: "evp \<Rightarrow> addr \<times> evp" where
  \<comment> \<open>memory allocation, which the code never checks for failure: an address not used before\<close>
  "malloc e = (next_addr e, e\<lparr>next_addr := Suc (next_addr e)\<rparr>)"

section \<open>The environment: libraries and the application\<close>

text \<open>
  Code outside the repository's event path layer: FFS (encoding, decoding), the connection
  manager's network side, and the application's handlers, which run with the lock dropped and
  may change the event path state through its interface. Each is an argument of the model.
\<close>

record env =
  call_simple_handler :: "addr \<Rightarrow> addr ptr \<Rightarrow> addr ptr \<Rightarrow> addr ptr \<Rightarrow> evp \<Rightarrow> (int \<times> evp) option"
  call_raw_handler ::
    "addr \<Rightarrow> addr ptr \<Rightarrow> int \<Rightarrow> addr ptr \<Rightarrow> addr ptr \<Rightarrow> evp \<Rightarrow> (int \<times> evp) option"
  call_imm_handler :: "imm_fn \<Rightarrow> evid \<Rightarrow> addr \<Rightarrow> addr ptr \<Rightarrow> int \<Rightarrow> int list \<Rightarrow> evp \<Rightarrow> evp option"
  call_multi_handler ::
    "multi_fn \<Rightarrow> addr \<Rightarrow> addr \<Rightarrow> int \<Rightarrow> int list \<Rightarrow> int \<Rightarrow> evp \<Rightarrow> (int \<times> evp) option"
  call_unstall_cb :: "addr \<Rightarrow> int \<Rightarrow> addr ptr \<Rightarrow> evp \<Rightarrow> evp option"
  call_stone_close :: "addr \<Rightarrow> conn \<Rightarrow> int \<Rightarrow> evp \<Rightarrow> evp option"
  FFSencode :: "addr \<Rightarrow> FMFormat ptr \<Rightarrow> addr ptr \<Rightarrow> addr \<times> int"
  FFSdecode_in_place_possible :: "addr \<Rightarrow> bool"
  FFSdecode_in_place :: "addr ptr \<Rightarrow> addr ptr \<Rightarrow> addr option"
  FFS_est_decode_length :: "addr ptr \<Rightarrow> addr ptr \<Rightarrow> int \<Rightarrow> int"
  FMFormat_of_encode :: "addr ptr \<Rightarrow> FMFormat ptr"
  get_conn :: "addr ptr \<Rightarrow> evp \<Rightarrow> conn ptr \<times> evp"
  write_would_block :: "conn \<Rightarrow> evp \<Rightarrow> bool"
  wait_pending_write :: "conn \<Rightarrow> evp \<Rightarrow> evp option"
  write_event :: "conn \<Rightarrow> evid \<Rightarrow> evp \<Rightarrow> ((int \<times> int) \<times> evp) option"
                                              \<comment> \<open>result and length written\<close>
  connection_failed :: "conn \<Rightarrow> evp \<Rightarrow> evp option"  \<comment> \<open>runs the registered close handlers\<close>
  trace_warning :: bool                       \<comment> \<open>CMtrace_on(cm, EVWarning)\<close>
  thread_transfer :: "evid \<Rightarrow> addr \<Rightarrow> EVstone \<Rightarrow> evp \<Rightarrow> evp option"
                                              \<comment> \<open>thread_bridge_transfer to another CManager\<close>
  register_format_set :: "addr \<Rightarrow> FMFormat ptr"
  no_lazy_bridge :: bool                     \<comment> \<open>environment variable NoLazyBridge\<close>
  FFSTypeHandle_from_encode :: "addr \<Rightarrow> FMFormat \<Rightarrow> addr"
  install_response_handler ::
    "int \<Rightarrow> string \<Rightarrow> addr ptr \<Rightarrow> evp \<Rightarrow> ((addr ptr \<times> FMFormat list ptr) \<times> evp) option"
  determine_response :: "int \<Rightarrow> action_class \<Rightarrow> evid \<Rightarrow> evp \<Rightarrow> (int \<times> evp) option"
  usleep :: "evp \<Rightarrow> evp option"              \<comment> \<open>INT_CMusleep: other activity runs\<close>
  register_cm_format :: "addr \<Rightarrow> addr"
  FMformat_from_ID :: "addr \<Rightarrow> FMFormat ptr"

end
