(* ===== verification/Ev_Event.thy ===== *)
theory Ev_Event
  imports Ev_Types
begin

text \<open>
  Event items: allocation, reference counting, encoding and decoding, and the hand-over of
  event buffers to the application (evp.c, and clone_event of evp_threads.c).
\<close>

section \<open>Allocation and reference counts\<close>

definition empty_event :: event_item where
  \<comment> \<open>what malloc followed by memset 0 leaves\<close>
  "empty_event =
    \<lparr>ref_count = 0, event_encoded = False, contents = Event_App_Owned, encoded_event = None,
     event_len = 0, decoded_event = None, encoded_eventv = None, reference_format = None,
     ioBuffer = None, ev_format = None, ev_attrs = None, ev_cm = None, free_arg = None,
     free_func = None\<rparr>"

definition get_free_event :: "evp \<Rightarrow> evid \<times> evp" where
  "get_free_event e =
    (let (event, e) = malloc e;
         v = empty_event\<lparr>ref_count := 1, event_len := -1, ioBuffer := None\<rparr>
     in (event, e\<lparr>events := (events e)(event \<mapsto> v)\<rparr>))"

definition mod_event :: "evid \<Rightarrow> (event_item \<Rightarrow> event_item) \<Rightarrow> evp \<Rightarrow> evp option" where
  \<comment> \<open>a write through an event pointer; a freed event crashes\<close>
  "mod_event i f e =
    do { v \<leftarrow> events e i; Some (e\<lparr>events := (events e)(i \<mapsto> f v)\<rparr>) }"

definition reference_event :: "evid \<Rightarrow> evp \<Rightarrow> evp option" where
  "reference_event i = mod_event i (\<lambda>v. v\<lparr>ref_count := ref_count v + 1\<rparr>)"

definition free_ioBuffer :: "addr ptr \<Rightarrow> evp \<Rightarrow> evp option" where
  "free_ioBuffer client_data e = do { b \<leftarrow> client_data; Some (emit (Eff_free_FFSBuffer b) e) }"

definition call_free_func :: "free_fn ptr \<Rightarrow> addr ptr \<Rightarrow> addr ptr \<Rightarrow> evp \<Rightarrow> evp option" where
  \<comment> \<open>the call through event->free_func: a NULL function pointer crashes\<close>
  "call_free_func f a1 a2 e =
    (case f of
       None \<Rightarrow> None
     | Some Free_ioBuffer_fn \<Rightarrow> free_ioBuffer a2 e
     | Some g \<Rightarrow> Some (emit (Eff_free_func g a1 a2) e))"

definition return_contents :: "event_item \<Rightarrow> evp \<Rightarrow> evp option" where
  \<comment> \<open>the switch on event->contents of return_event\<close>
  "return_contents v e =
    (case contents v of
       Event_CM_Owned \<Rightarrow>
         Some (emit (Eff_return_buffer
           (if decoded_event v \<noteq> None then decoded_event v else encoded_event v)) e)
     | Event_Freeable \<Rightarrow> call_free_func (free_func v) (decoded_event v) (free_arg v) e
     | Event_App_Owned \<Rightarrow>
         (if free_func v \<noteq> None then call_free_func (free_func v) (free_arg v) None e
          else Some e))"

definition return_event :: "evid \<Rightarrow> evp \<Rightarrow> evp option" where
  "return_event i e =
    do {
      v \<leftarrow> events e i;
      let v = v\<lparr>ref_count := ref_count v - 1\<rparr>;
      let e = e\<lparr>events := (events e)(i \<mapsto> v)\<rparr>;
      if ref_count v = 0 then do {
        e \<leftarrow> return_contents v e;
        let e = (case ev_attrs v of None \<Rightarrow> e | Some a \<Rightarrow> emit (Eff_free_attr_list a) e);
        let e = (case ioBuffer v of None \<Rightarrow> e | Some b \<Rightarrow> emit (Eff_free_FFSBuffer b) e);
        Some (e\<lparr>events := (events e)(i := None)\<rparr>)
      }
      else Some e
    }"

section \<open>Encoding and decoding\<close>

definition encode_event :: "env \<Rightarrow> evid \<Rightarrow> evp \<Rightarrow> evp option" where
  "encode_event env i e =
    do {
      v \<leftarrow> events e i;
      if event_encoded v then Some e
      else if ioBuffer v \<noteq> None then Some e
      else
        let (buf, e) = malloc e;
            (enc, len) = FFSencode env buf (reference_format v) (decoded_event v)
        in mod_event i (\<lambda>v. v\<lparr>ioBuffer := Some buf, encoded_event := Some enc,
                               event_len := len, event_encoded := True\<rparr>) e
    }"

definition cod_encode_event :: "env \<Rightarrow> evid \<Rightarrow> evp \<Rightarrow> evp option" where
  "cod_encode_event env i e = encode_event env i e"

definition ensure_ev_owned :: "env \<Rightarrow> evid \<Rightarrow> evp \<Rightarrow> evp option" where
  "ensure_ev_owned env i e =
    do {
      v \<leftarrow> events e i;
      if contents v = Event_App_Owned \<and> free_func v = None then do {
        e \<leftarrow> encode_event env i e;
        e \<leftarrow> mod_event i (\<lambda>v. v\<lparr>decoded_event := None, event_encoded := True,
                                  contents := Event_CM_Owned\<rparr>) e;
        v \<leftarrow> events e i;
        assert_c (encoded_event v \<noteq> None);
        Some e
      }
      else Some e
    }"

definition attr_copy_list :: "addr \<Rightarrow> evp \<Rightarrow> addr \<times> evp" where
  "attr_copy_list a e =
    (let (n, e) = malloc e in (n, e\<lparr>attr_int := (attr_int e)(n := attr_int e a)\<rparr>))"

definition copy_attrs_to :: "evid \<Rightarrow> addr ptr \<Rightarrow> evp \<Rightarrow> evp option" where
  "copy_attrs_to i attrs e =
    (case attrs of
       None \<Rightarrow> mod_event i (\<lambda>v. v\<lparr>ev_attrs := None\<rparr>) e
     | Some a \<Rightarrow> (let (n, e) = attr_copy_list a e in
                   mod_event i (\<lambda>v. v\<lparr>ev_attrs := Some n\<rparr>) e))"

definition decode_action ::
    "env \<Rightarrow> evid \<Rightarrow> decode_action_vals \<Rightarrow> evp \<Rightarrow> (evid ptr \<times> evp) option" where
  "decode_action env i act e =
    do {
      v \<leftarrow> events e i;
      if \<not> event_encoded v then
        (if reference_format v = target_reference_format act then Some (Some i, e) else None)
      else if contents v = Event_CM_Owned then
        (if FFSdecode_in_place_possible env (decode_format act) then
           (case FFSdecode_in_place env (decode_context act) (encoded_event v) of
              None \<Rightarrow> Some (None, e)
            | Some decode_buffer \<Rightarrow> do {
                e \<leftarrow> mod_event i (\<lambda>v. v\<lparr>decoded_event := Some decode_buffer,
                       encoded_event := None, event_encoded := False,
                       reference_format := target_reference_format act\<rparr>) e;
                Some (Some i, e) })
         else do {
           let (decode_buffer, e) = malloc e;
           e \<leftarrow> mod_event i (\<lambda>v. v\<lparr>decoded_event := Some decode_buffer,
                  event_encoded := False\<rparr>) e;
           let e = emit (Eff_return_buffer (encoded_event v)) e;
           e \<leftarrow> mod_event i (\<lambda>v. v\<lparr>encoded_event := None,
                  reference_format := target_reference_format act\<rparr>) e;
           Some (Some i, e) })
      else do {
        let (new_event, e) = get_free_event e;
        let (decode_buffer, e) = malloc e;
        e \<leftarrow> mod_event new_event (\<lambda>v. v\<lparr>decoded_event := Some decode_buffer,
               event_encoded := False, encoded_event := None, event_len := 0,
               encoded_eventv := None, ev_cm := Some (cm_addr e),
               reference_format := target_reference_format act,
               contents := Event_CM_Owned\<rparr>) e;
        e \<leftarrow> copy_attrs_to new_event (ev_attrs v) e;
        e \<leftarrow> return_event i e;
        Some (Some new_event, e)
      }
    }"

fun cached_stage_for_action :: "proto_action \<Rightarrow> action_class option" where
  "cached_stage_for_action act =
    (case action_type act of
       Action_Congestion \<Rightarrow> Some Congestion
     | Action_Multi \<Rightarrow> Some Immediate_and_Multi
     | Action_Bridge \<Rightarrow> Some Bridge
     | Action_Terminal \<Rightarrow> Some Immediate
     | Action_Filter \<Rightarrow> Some Immediate
     | Action_Split \<Rightarrow> Some Immediate
     | Action_Immediate \<Rightarrow> Some Immediate
     | Action_Store \<Rightarrow> Some Immediate
     | Action_Thread_Bridge \<Rightarrow> Some Immediate
     | Action_NoAction \<Rightarrow> Some Immediate
     | _ \<Rightarrow> None)"

section \<open>Making the data of a submitted event reusable\<close>

definition reassign_memory_event :: "env \<Rightarrow> evid \<Rightarrow> bool \<Rightarrow> evp \<Rightarrow> (evid ptr \<times> evp) option" where
  "reassign_memory_event env i do_decode e =
    do {
      let (tmp, e) = get_free_event e;
      v \<leftarrow> events e i;
      \<comment> \<open>EVENT_ITEM_COPY_FIELDS copies everything but the reference count\<close>
      e \<leftarrow> mod_event tmp (\<lambda>t. v\<lparr>ref_count := 1\<rparr>) e;
      let e = (case ev_attrs v of None \<Rightarrow> e | Some a \<Rightarrow> emit (Eff_add_ref_attr_list a) e);
      e \<leftarrow> mod_event tmp (\<lambda>t. t\<lparr>ev_attrs := ev_attrs v\<rparr>) e;
      e \<leftarrow> mod_event i (\<lambda>v. v\<lparr>free_func := None, free_arg := None, ev_cm := Some (cm_addr e)\<rparr>) e;
      e \<leftarrow> encode_event env i e;
      e \<leftarrow> mod_event i (\<lambda>v. v\<lparr>decoded_event := None, contents := Event_Freeable,
             free_arg := ioBuffer v, ioBuffer := None, free_func := Some Free_ioBuffer_fn\<rparr>) e;
      v \<leftarrow> events e i;
      if do_decode then
        let (tmp_context, e) = malloc e in
        case FFSdecode_in_place env (Some tmp_context) (encoded_event v) of
          None \<Rightarrow> Some (None, e)
        | Some decode_buffer \<Rightarrow> do {
            e \<leftarrow> mod_event i (\<lambda>v. v\<lparr>decoded_event := Some decode_buffer, encoded_event := None,
                   event_encoded := False\<rparr>) e;
            let e = emit (Eff_free_FFSContext tmp_context) e;
            e \<leftarrow> mod_event i (\<lambda>v. v\<lparr>ref_count := ref_count v - 1\<rparr>) e;
            Some (Some tmp, e) }
      else do {
        e \<leftarrow> mod_event i (\<lambda>v. v\<lparr>ref_count := ref_count v - 1\<rparr>) e;
        Some (Some tmp, e) }
    }"

section \<open>Queue items and the events the application takes\<close>

definition get_queue_item :: "evp \<Rightarrow> addr \<times> evp" where
  \<comment> \<open>the free list first, then malloc\<close>
  "get_queue_item e =
    (case queue_items_free_list e of
       [] \<Rightarrow> malloc e
     | item # rest \<Rightarrow> (item, e\<lparr>queue_items_free_list := rest\<rparr>))"

definition free_queue_item :: "addr \<Rightarrow> evp \<Rightarrow> evp" where
  "free_queue_item item e = e\<lparr>queue_items_free_list := item # queue_items_free_list e\<rparr>"

definition ptr_int :: "addr ptr \<Rightarrow> int" where
  "ptr_int p = (case p of None \<Rightarrow> 0 | Some a \<Rightarrow> int a)"

definition in_buffer :: "addr ptr \<Rightarrow> int \<Rightarrow> addr ptr \<Rightarrow> bool" where
  \<comment> \<open>base <= event && event <= base + event_len; event_len is -1 until an event is encoded,
     and the pointer sum wraps\<close>
  "in_buffer p len event \<longleftrightarrow>
    ptr_int p \<le> ptr_int event \<and> ptr_int event \<le> (ptr_int p + len) mod 2 ^ 64"

definition event_matches :: "event_item \<Rightarrow> addr ptr \<Rightarrow> bool" where
  "event_matches v event \<longleftrightarrow>
    in_buffer (decoded_event v) (event_len v) event \<or>
    in_buffer (encoded_event v) (event_len v) event"

fun find_running :: "(evid \<Rightarrow> event_item option) \<Rightarrow> addr ptr \<Rightarrow> evid list \<Rightarrow> evid ptr option" where
  "find_running h event [] = Some None"
| "find_running h event (i # is) =
    do { v \<leftarrow> h i; if event_matches v event then Some (Some i) else find_running h event is }"

definition INT_EVtake_event_buffer :: "addr ptr \<Rightarrow> evp \<Rightarrow> (int \<times> evp) option" where
  "INT_EVtake_event_buffer event e =
    do {
      cur \<leftarrow> find_running (events e) event (current_event_list e);
      case cur of
        None \<Rightarrow> Some (0, e)
      | Some i \<Rightarrow> do {
          let (item, e) = get_queue_item e;
          e \<leftarrow> reference_event i e;
          Some (1, e\<lparr>taken_events_list := (item, i) # taken_events_list e\<rparr>) }
    }"

fun find_taken ::
    "(evid \<Rightarrow> event_item option) \<Rightarrow> addr ptr \<Rightarrow> (addr \<times> evid) list \<Rightarrow> (addr \<times> evid) ptr option"
  where
  "find_taken h event [] = Some None"
| "find_taken h event (t # ts) =
    do { v \<leftarrow> h (snd t); if event_matches v event then Some (Some t) else find_taken h event ts }"

definition INT_EVreturn_event_buffer :: "addr ptr \<Rightarrow> evp \<Rightarrow> evp option" where
  "INT_EVreturn_event_buffer event e =
    do {
      t \<leftarrow> find_taken (events e) event (taken_events_list e);
      case t of
        None \<Rightarrow> Some e
      | Some (item, i) \<Rightarrow> do {
          let e = e\<lparr>taken_events_list := remove1 (item, i) (taken_events_list e)\<rparr>;
          e \<leftarrow> return_event i e;
          Some (free_queue_item item e) }
    }"

section \<open>What the event operations leave alone\<close>

definition ev_frame :: "evp \<Rightarrow> evp \<Rightarrow> bool" where
  "ev_frame e e' \<longleftrightarrow>
    cm_addr e' = cm_addr e \<and> stone_base_num e' = stone_base_num e \<and> stone_map e' = stone_map e \<and>
    stone_lookup_table e' = stone_lookup_table e \<and> as_ptr e' = as_ptr e \<and>
    current_event_list e' = current_event_list e \<and>
    taken_events_list e' = taken_events_list e \<and> use_backpressure e' = use_backpressure e \<and>
    sink_handlers e' = sink_handlers e \<and> sources e' = sources e \<and>
    source_heap e' = source_heap e \<and> app_stone_close_handler e' = app_stone_close_handler e \<and>
    activation_stack e' = activation_stack e \<and> in_get_conn e' = in_get_conn e \<and>
    delay_task_pending e' = delay_task_pending e \<and> locked e' = locked e \<and>
    self_thread e' = self_thread e \<and> next_addr e \<le> next_addr e'"

lemma ev_frame_refl [simp, intro]: "ev_frame e e"
  by (simp add: ev_frame_def)

lemma ev_frame_trans [trans]: "ev_frame e e1 \<Longrightarrow> ev_frame e1 e2 \<Longrightarrow> ev_frame e e2"
  by (simp add: ev_frame_def)

lemma ev_frame_emit [simp]: "ev_frame e (emit x e1) = ev_frame e e1"
  by (simp add: ev_frame_def emit_def)

lemma ev_frame_events [simp]: "ev_frame e (e1\<lparr>events := h\<rparr>) = ev_frame e e1"
  by (simp add: ev_frame_def)

lemma ev_frame_mod_event: "mod_event i f e = Some e' \<Longrightarrow> ev_frame e e'"
  by (auto simp: mod_event_def crash_simps)

lemma ev_frame_malloc: "malloc e = (a, e') \<Longrightarrow> ev_frame e e'"
  by (auto simp: malloc_def ev_frame_def)

lemma ev_frame_get_free_event: "get_free_event e = (i, e') \<Longrightarrow> ev_frame e e'"
  by (auto simp: get_free_event_def malloc_def Let_def ev_frame_def)

lemma ev_frame_reference_event: "reference_event i e = Some e' \<Longrightarrow> ev_frame e e'"
  by (simp add: reference_event_def ev_frame_mod_event)

lemma ev_frame_call_free_func: "call_free_func f a1 a2 e = Some e' \<Longrightarrow> ev_frame e e'"
  by (auto simp: call_free_func_def free_ioBuffer_def crash_simps
      split: option.splits free_fn.splits)

lemma ev_frame_return_contents: "return_contents v e = Some e' \<Longrightarrow> ev_frame e e'"
  by (auto simp: return_contents_def ev_frame_call_free_func
      split: event_pkg_contents.splits if_splits dest: ev_frame_call_free_func)

lemma events_return_contents: "return_contents v e = Some e' \<Longrightarrow> events e' = events e"
  by (auto simp: return_contents_def call_free_func_def free_ioBuffer_def crash_simps
      split: event_pkg_contents.splits if_splits option.splits free_fn.splits)

lemma ev_frame_return_event:
  assumes "return_event i e = Some e'"
  shows "ev_frame e e'"
proof -
  obtain v where v: "events e i = Some v"
    using assms by (auto simp: return_event_def crash_simps)
  let ?v = "v\<lparr>ref_count := ref_count v - 1\<rparr>"
  let ?e = "e\<lparr>events := (events e)(i \<mapsto> ?v)\<rparr>"
  show ?thesis
  proof (cases "ref_count v = 1")
    case True
    then obtain e1 where e1: "return_contents ?v ?e = Some e1"
      using assms v by (auto simp: return_event_def crash_simps Let_def)
    have "ev_frame ?e e1" by (rule ev_frame_return_contents [OF e1])
    then have "ev_frame e e1" by (simp add: ev_frame_def)
    then show ?thesis
      using assms v e1 True
      by (auto simp: return_event_def Let_def crash_simps split: option.splits)
  next
    case False
    then show ?thesis using assms v by (auto simp: return_event_def Let_def)
  qed
qed

lemma ev_frame_encode_event: "encode_event env i e = Some e' \<Longrightarrow> ev_frame e e'"
  by (auto simp: encode_event_def mod_event_def malloc_def ev_frame_def crash_simps
      split: if_splits prod.splits)

lemma ev_frame_ensure_ev_owned:
  assumes "ensure_ev_owned env i e = Some e'"
  shows "ev_frame e e'"
  using assms
  by (auto simp: ensure_ev_owned_def crash_simps split: if_splits
      dest!: ev_frame_encode_event ev_frame_mod_event intro: ev_frame_trans)

lemma ev_frame_copy_attrs_to: "copy_attrs_to i a e = Some e' \<Longrightarrow> ev_frame e e'"
  by (auto simp: copy_attrs_to_def attr_copy_list_def mod_event_def malloc_def ev_frame_def
      Let_def crash_simps split: option.splits)

lemma ev_frame_get_queue_item:
  "get_queue_item e = (a, e') \<Longrightarrow> ev_frame e e' \<and> events e' = events e"
  by (auto simp: get_queue_item_def malloc_def ev_frame_def split: list.splits)

lemma ev_frame_free_queue_item [simp]: "ev_frame e (free_queue_item a e1) = ev_frame e e1"
  by (simp add: free_queue_item_def ev_frame_def)

section \<open>References to events\<close>

text \<open>
  An event is referenced from the queue of a stone, from the queue of a storage action and from
  the list of taken events. \<open>held\<close> counts the references that local variables of running
  code hold, or that were lost.
\<close>

definition queue_refs :: "queue \<Rightarrow> evid \<Rightarrow> nat" where
  "queue_refs q i = count_list (map qi_item q) i"

definition action_refs :: "evid \<Rightarrow> proto_action \<Rightarrow> nat" where
  "action_refs i a = (case act_o a of AD_Store s \<Rightarrow> queue_refs (store_queue s) i | _ \<Rightarrow> 0)"

definition stone_refs :: "evid \<Rightarrow> stone \<Rightarrow> nat" where
  "stone_refs i s = queue_refs (queue s) i + sum_list (map (action_refs i) (proto_actions s))"

definition slot_refs :: "evid \<Rightarrow> stone ptr \<Rightarrow> nat" where
  "slot_refs i p = (case p of None \<Rightarrow> 0 | Some s \<Rightarrow> stone_refs i s)"

definition evp_refs :: "evp \<Rightarrow> evid \<Rightarrow> nat" where
  "evp_refs e i =
    sum_list (map (slot_refs i) (stone_map e)) + count_list (map snd (taken_events_list e)) i"

definition ref_ok :: "evp \<Rightarrow> evid \<Rightarrow> nat \<Rightarrow> bool" where
  "ref_ok e i n \<longleftrightarrow>
    (case events e i of
       None \<Rightarrow> n = 0
     | Some v \<Rightarrow> i < next_addr e \<and> ref_count v = int n \<and> n > 0)"

definition rc_ok :: "(evid \<Rightarrow> nat) \<Rightarrow> evp \<Rightarrow> bool" where
  "rc_ok held e \<longleftrightarrow> (\<forall>i. ref_ok e i (evp_refs e i + held i))"

definition hold :: "evid \<Rightarrow> (evid \<Rightarrow> nat) \<Rightarrow> evid \<Rightarrow> nat" where
  "hold i held = held(i := Suc (held i))"

definition drop_held :: "evid \<Rightarrow> (evid \<Rightarrow> nat) \<Rightarrow> evid \<Rightarrow> nat" where
  "drop_held i held = held(i := held i - 1)"

lemma drop_hold [simp]: "drop_held i (hold i held) = held"
  by (simp add: drop_held_def hold_def)

lemma hold_drop [simp]: "held i > 0 \<Longrightarrow> hold i (drop_held i held) = held"
  by (simp add: drop_held_def hold_def)

lemma hold_simps [simp]: "hold i held j = held j + (if i = j then 1 else 0)"
  by (simp add: hold_def)

lemma evp_refs_frame: "ev_frame e e' \<Longrightarrow> evp_refs e' = evp_refs e"
  by (simp add: ev_frame_def evp_refs_def fun_eq_iff)

lemma rc_ok_cong:
  assumes "rc_ok held e" "ev_frame e e'"
    and "\<And>i. map_option ref_count (events e' i) = map_option ref_count (events e i)"
  shows "rc_ok held e'"
  unfolding rc_ok_def
proof
  fix i
  have "ref_ok e i (evp_refs e i + held i)" using assms(1) by (simp add: rc_ok_def)
  moreover have "next_addr e \<le> next_addr e'" using assms(2) by (simp add: ev_frame_def)
  ultimately show "ref_ok e' i (evp_refs e' i + held i)"
    using assms(3) [of i] evp_refs_frame [OF assms(2)]
    by (auto simp: ref_ok_def split: option.splits)
qed

lemma rc_live:
  assumes "rc_ok held e" "held i > 0 \<or> evp_refs e i > 0"
  obtains v where "events e i = Some v" "ref_count v = int (evp_refs e i + held i)" "i < next_addr e"
  using assms by (auto simp: rc_ok_def ref_ok_def split: option.splits dest: spec [of _ i])

lemma rc_get_free_event:
  assumes "rc_ok held e" "get_free_event e = (i, e')"
  shows "rc_ok (hold i held) e'"
  unfolding rc_ok_def
proof
  fix j
  have i: "i = next_addr e" and ev: "events e' i \<noteq> None" "j \<noteq> i \<Longrightarrow> events e' j = events e j"
    and na: "next_addr e' = Suc (next_addr e)"
    and rc: "events e' i = Some (empty_event\<lparr>ref_count := 1, event_len := -1, ioBuffer := None\<rparr>)"
    using assms(2) by (auto simp: get_free_event_def malloc_def Let_def)
  have fr: "evp_refs e' = evp_refs e"
    by (rule evp_refs_frame [OF ev_frame_get_free_event [OF assms(2)]])
  have j: "ref_ok e j (evp_refs e j + held j)" using assms(1) by (simp add: rc_ok_def)
  show "ref_ok e' j (evp_refs e' j + hold i held j)"
  proof (cases "j = i")
    case True
    then have "evp_refs e j + held j = 0"
      using j i by (auto simp: ref_ok_def split: option.splits)
    then show ?thesis using True rc na i fr by (simp add: ref_ok_def)
  next
    case False
    then show ?thesis using j ev(2) fr na by (auto simp: ref_ok_def split: option.splits)
  qed
qed

lemma rc_mod_event_at:
  assumes "rc_ok held e" "mod_event i f e = Some e'"
    and "\<And>v. events e i = Some v \<Longrightarrow> ref_count (f v) = ref_count v"
  shows "rc_ok held e'"
proof (rule rc_ok_cong [OF assms(1) ev_frame_mod_event [OF assms(2)]])
  fix j
  show "map_option ref_count (events e' j) = map_option ref_count (events e j)"
    using assms(2,3) by (auto simp: mod_event_def crash_simps)
qed

lemma rc_mod_event:
  assumes "rc_ok held e" "mod_event i f e = Some e'" "\<And>v. ref_count (f v) = ref_count v"
  shows "rc_ok held e'"
  by (rule rc_mod_event_at [OF assms(1,2)]) (rule assms(3))

lemma rc_split_event:
  \<comment> \<open>giving up one of several references without releasing the event\<close>
  assumes "rc_ok held e" "mod_event i (\<lambda>v. v\<lparr>ref_count := ref_count v - 1\<rparr>) e = Some e'"
    and h: "held i > 0" "evp_refs e i + held i > 1"
  shows "rc_ok (drop_held i held) e'"
  unfolding rc_ok_def
proof
  fix j
  obtain v where v: "events e i = Some v"
    and e': "e' = e\<lparr>events := (events e)(i \<mapsto> v\<lparr>ref_count := ref_count v - 1\<rparr>)\<rparr>"
    using assms(2) by (auto simp: mod_event_def crash_simps)
  have fr: "evp_refs e' = evp_refs e"
    by (rule evp_refs_frame [OF ev_frame_mod_event [OF assms(2)]])
  have "ref_ok e j (evp_refs e j + held j)" using assms(1) by (simp add: rc_ok_def)
  then show "ref_ok e' j (evp_refs e' j + drop_held i held j)"
    using v fr h by (auto simp: ref_ok_def e' drop_held_def split: option.splits)
qed

lemma rc_malloc: "rc_ok held e \<Longrightarrow> malloc e = (a, e') \<Longrightarrow> rc_ok held e'"
  by (erule rc_ok_cong [OF _ ev_frame_malloc]) (auto simp: malloc_def)

lemma rc_emit [simp]: "rc_ok held (emit x e) = rc_ok held e"
  by (simp add: rc_ok_def ref_ok_def evp_refs_def cong: option.case_cong)

lemma rc_get_queue_item: "rc_ok held e \<Longrightarrow> get_queue_item e = (a, e') \<Longrightarrow> rc_ok held e'"
  using ev_frame_get_queue_item [of e a e'] by (auto intro: rc_ok_cong)

lemma rc_free_queue_item [simp]: "rc_ok held (free_queue_item a e) = rc_ok held e"
  by (simp add: rc_ok_def ref_ok_def evp_refs_def free_queue_item_def cong: option.case_cong)

lemma rc_okD: "rc_ok held e \<Longrightarrow> ref_ok e j (evp_refs e j + held j)"
  by (simp add: rc_ok_def)

lemma rc_reference_event:
  assumes "rc_ok held e" "reference_event i e = Some e'"
  shows "rc_ok (hold i held) e'"
  unfolding rc_ok_def
proof
  fix j
  obtain v where v: "events e i = Some v"
    and e': "e' = e\<lparr>events := (events e)(i \<mapsto> v\<lparr>ref_count := ref_count v + 1\<rparr>)\<rparr>"
    using assms(2) by (auto simp: reference_event_def mod_event_def crash_simps)
  have fr: "evp_refs e' = evp_refs e"
    by (rule evp_refs_frame [OF ev_frame_reference_event [OF assms(2)]])
  show "ref_ok e' j (evp_refs e' j + hold i held j)"
    using rc_okD [OF assms(1), of j] v fr by (auto simp: ref_ok_def e' split: option.splits)
qed

lemma reference_event_live:
  assumes "rc_ok held e" "held i > 0 \<or> evp_refs e i > 0"
  obtains e' where "reference_event i e = Some e'"
proof -
  obtain v where "events e i = Some v" using rc_live [OF assms] by blast
  then show thesis using that by (simp add: reference_event_def mod_event_def)
qed

text \<open>What an event must satisfy for its final release not to crash.\<close>

definition free_ok :: "event_item \<Rightarrow> bool" where
  "free_ok v \<longleftrightarrow>
    (contents v = Event_Freeable \<longrightarrow> free_func v \<noteq> None \<and>
       (free_func v = Some Free_ioBuffer_fn \<longrightarrow> free_arg v \<noteq> None)) \<and>
    (contents v = Event_App_Owned \<longrightarrow> free_func v \<noteq> Some Free_ioBuffer_fn)"

lemma return_contents_total: "free_ok v \<Longrightarrow> \<exists>e'. return_contents v e = Some e'"
  by (auto simp: return_contents_def call_free_func_def free_ioBuffer_def free_ok_def
      split: event_pkg_contents.splits option.splits free_fn.splits)

lemma return_event_total:
  assumes "events e i = Some v" "free_ok v"
  obtains e' where "return_event i e = Some e'"
proof -
  let ?v = "v\<lparr>ref_count := ref_count v - 1\<rparr>"
  have "free_ok ?v" using assms(2) by (simp add: free_ok_def)
  then obtain e1 where "return_contents ?v (e\<lparr>events := (events e)(i \<mapsto> ?v)\<rparr>) = Some e1"
    using return_contents_total by blast
  then show ?thesis
    using that assms(1) by (cases "ref_count v = 1") (auto simp: return_event_def Let_def)
qed

lemma events_return_event:
  assumes "return_event i e = Some e'" "events e i = Some v"
  shows "events e' = (if ref_count v = 1 then (events e)(i := None)
                      else (events e)(i \<mapsto> v\<lparr>ref_count := ref_count v - 1\<rparr>))"
  using assms
  by (auto simp: return_event_def Let_def crash_simps split: if_splits option.splits
      dest!: events_return_contents)

lemma rc_return_event:
  assumes "rc_ok held e" "held i > 0" "return_event i e = Some e'"
  shows "rc_ok (drop_held i held) e'"
  unfolding rc_ok_def
proof
  fix j
  obtain v where v: "events e i = Some v" "ref_count v = int (evp_refs e i + held i)"
      "i < next_addr e"
    using rc_live [OF assms(1), of i] assms(2) by blast
  note ev = events_return_event [OF assms(3) v(1)]
  note fr = ev_frame_return_event [OF assms(3)]
  have j: "ref_ok e j (evp_refs e j + held j)" using assms(1) by (simp add: rc_ok_def)
  show "ref_ok e' j (evp_refs e' j + drop_held i held j)"
    using j v ev fr assms(2) evp_refs_frame [OF fr]
    by (auto simp: ref_ok_def drop_held_def ev_frame_def split: option.splits if_splits)
qed

lemma rc_encode_event:
  assumes "rc_ok held e" "encode_event env i e = Some e'"
  shows "rc_ok held e'"
proof (rule rc_ok_cong [OF assms(1) ev_frame_encode_event [OF assms(2)]])
  fix j
  show "map_option ref_count (events e' j) = map_option ref_count (events e j)"
    using assms(2) by (auto simp: encode_event_def mod_event_def malloc_def crash_simps
        split: if_splits prod.splits)
qed

lemma rc_ensure_ev_owned:
  assumes "rc_ok held e" "ensure_ev_owned env i e = Some e'"
  shows "rc_ok held e'"
proof -
  obtain v where v: "events e i = Some v"
    using assms(2) by (auto simp: ensure_ev_owned_def crash_simps)
  show ?thesis
  proof (cases "contents v = Event_App_Owned \<and> free_func v = None")
    case True
    then obtain e1 where e1: "encode_event env i e = Some e1"
      and e': "mod_event i (\<lambda>v. v\<lparr>decoded_event := None, event_encoded := True,
                 contents := Event_CM_Owned\<rparr>) e1 = Some e'"
      using assms(2) v by (fastforce simp: ensure_ev_owned_def crash_simps)
    show ?thesis by (rule rc_mod_event [OF rc_encode_event [OF assms(1) e1] e']) simp
  next
    case False
    then show ?thesis using assms v by (auto simp: ensure_ev_owned_def)
  qed
qed

lemma rc_copy_attrs_to:
  assumes "rc_ok held e" "copy_attrs_to i a e = Some e'"
  shows "rc_ok held e'"
proof (rule rc_ok_cong [OF assms(1) ev_frame_copy_attrs_to [OF assms(2)]])
  fix j
  show "map_option ref_count (events e' j) = map_option ref_count (events e j)"
    using assms(2)
    by (auto simp: copy_attrs_to_def attr_copy_list_def mod_event_def malloc_def crash_simps
        split: option.splits prod.splits)
qed

lemma mod_eventE:
  assumes "mod_event i f e = Some e'"
  obtains v where "events e i = Some v" "e' = e\<lparr>events := (events e)(i \<mapsto> f v)\<rparr>"
  using assms by (auto simp: mod_event_def crash_simps)

lemma get_free_event_events:
  "get_free_event e = (n, e') \<Longrightarrow> j \<noteq> n \<Longrightarrow> events e' j = events e j"
  by (auto simp: get_free_event_def malloc_def Let_def)

lemma rc_decode_action:
  assumes rc: "rc_ok held e" and h: "held i > 0" and d: "decode_action env i act e = Some (r, e')"
  shows "rc_ok (case r of None \<Rightarrow> held | Some j \<Rightarrow> hold j (drop_held i held)) e'"
proof -
  obtain v where v: "events e i = Some v" using rc_live [OF rc] h by blast
  consider (plain) "\<not> event_encoded v" | (cm) "event_encoded v" "contents v = Event_CM_Owned"
    | (app) "event_encoded v" "contents v \<noteq> Event_CM_Owned" by blast
  then show ?thesis
  proof cases
    case plain
    then show ?thesis using d v rc h by (auto simp: decode_action_def split: if_splits)
  next
    case cm
    show ?thesis
    proof (cases "FFSdecode_in_place_possible env (decode_format act)")
      case True
      then show ?thesis using d v cm rc h
        by (auto simp: decode_action_def crash_simps split: option.splits intro: rc_mod_event)
    next
      case False
      obtain b e1 where b: "malloc e = (b, e1)" by fastforce
      from d v cm False b obtain e2 where
        e2: "mod_event i (\<lambda>v. v\<lparr>decoded_event := Some b, event_encoded := False\<rparr>) e1 = Some e2"
        and e3: "mod_event i (\<lambda>v. v\<lparr>encoded_event := None,
               reference_format := target_reference_format act\<rparr>)
             (emit (Eff_return_buffer (encoded_event v)) e2) = Some e'" and r: "r = Some i"
        by (auto simp: decode_action_def crash_simps)
      have "rc_ok held e2" by (rule rc_mod_event [OF rc_malloc [OF rc b] e2]) simp
      then have "rc_ok held e'" by (intro rc_mod_event [OF _ e3]) simp_all
      then show ?thesis using r h by simp
    qed
  next
    case app
    obtain n e1 where n: "get_free_event e = (n, e1)" by fastforce
    obtain b e2 where b: "malloc e1 = (b, e2)" by fastforce
    from d v app n b obtain e3 e4 where
      e3: "mod_event n (\<lambda>v. v\<lparr>decoded_event := Some b,
               event_encoded := False, encoded_event := None, event_len := 0,
               encoded_eventv := None, ev_cm := Some (cm_addr e2),
               reference_format := target_reference_format act,
               contents := Event_CM_Owned\<rparr>) e2 = Some e3"
      and e4: "copy_attrs_to n (ev_attrs v) e3 = Some e4"
      and e5: "return_event i e4 = Some e'" and r: "r = Some n"
      by (auto simp: decode_action_def crash_simps)
    have "rc_ok (hold n held) e4"
      using rc_copy_attrs_to [OF rc_mod_event [OF rc_malloc [OF rc_get_free_event [OF rc n] b] e3] e4]
      by simp
    then have "rc_ok (drop_held i (hold n held)) e'"
      using e5 h by (auto intro: rc_return_event)
    moreover have "drop_held i (hold n held) = hold n (drop_held i held)"
      using h by (auto simp: drop_held_def hold_def fun_eq_iff)
    ultimately show ?thesis using r by simp
  qed
qed

lemma rc_take_event_buffer_aux:
  assumes "find_running h event l = Some (Some i)"
  shows "i \<in> set l \<and> (\<exists>v. h i = Some v \<and> event_matches v event)"
  using assms by (induction l) (auto simp: crash_simps split: if_splits)

lemma find_taken_Some:
  assumes "find_taken h event l = Some (Some t)"
  shows "t \<in> set l \<and> (\<exists>v. h (snd t) = Some v \<and> event_matches v event)"
  using assms by (induction l) (auto simp: crash_simps split: if_splits)

lemma rc_taken_push:
  assumes "rc_ok (hold i held) e"
  shows "rc_ok held (e\<lparr>taken_events_list := (a, i) # taken_events_list e\<rparr>)"
  unfolding rc_ok_def
proof
  fix j
  show "ref_ok (e\<lparr>taken_events_list := (a, i) # taken_events_list e\<rparr>) j
     (evp_refs (e\<lparr>taken_events_list := (a, i) # taken_events_list e\<rparr>) j + held j)"
    using rc_okD [OF assms, of j]
    by (auto simp: ref_ok_def evp_refs_def split: option.splits)
qed

lemma rc_taken_remove:
  assumes "rc_ok held e" "(a, i) \<in> set (taken_events_list e)"
  shows "rc_ok (hold i held) (e\<lparr>taken_events_list := remove1 (a, i) (taken_events_list e)\<rparr>)"
  unfolding rc_ok_def
proof
  fix j
  have c: "count_list (map snd l) j = count_list (map snd (remove1 (a, i) l)) j + (if i = j then 1 else 0)"
    if "(a, i) \<in> set l" for l :: "(addr \<times> evid) list"
    using that by (induction l) auto
  show "ref_ok (e\<lparr>taken_events_list := remove1 (a, i) (taken_events_list e)\<rparr>) j
     (evp_refs (e\<lparr>taken_events_list := remove1 (a, i) (taken_events_list e)\<rparr>) j + hold i held j)"
    using rc_okD [OF assms(1), of j] c [OF assms(2)]
    by (auto simp: ref_ok_def evp_refs_def split: option.splits)
qed

lemma rc_EVtake_event_buffer:
  assumes "rc_ok held e" "INT_EVtake_event_buffer event e = Some (r, e')"
  shows "rc_ok held e'"
proof -
  obtain c where c: "find_running (events e) event (current_event_list e) = Some c"
    using assms(2) by (auto simp: INT_EVtake_event_buffer_def crash_simps)
  show ?thesis
  proof (cases c)
    case None
    then show ?thesis using assms c by (auto simp: INT_EVtake_event_buffer_def)
  next
    case (Some i)
    obtain a e1 where a: "get_queue_item e = (a, e1)" by fastforce
    with Some c assms(2) obtain e2 where e2: "reference_event i e1 = Some e2"
      and e': "e' = e2\<lparr>taken_events_list := (a, i) # taken_events_list e2\<rparr>"
      by (auto simp: INT_EVtake_event_buffer_def crash_simps)
    show ?thesis unfolding e'
      by (rule rc_taken_push [OF rc_reference_event [OF rc_get_queue_item [OF assms(1) a] e2]])
  qed
qed

lemma rc_EVreturn_event_buffer:
  assumes "rc_ok held e" "INT_EVreturn_event_buffer event e = Some e'"
  shows "rc_ok held e'"
proof -
  obtain c where c: "find_taken (events e) event (taken_events_list e) = Some c"
    using assms(2) by (auto simp: INT_EVreturn_event_buffer_def crash_simps)
  show ?thesis
  proof (cases c)
    case None
    then show ?thesis using assms c by (auto simp: INT_EVreturn_event_buffer_def)
  next
    case (Some t)
    obtain a i where t: "t = (a, i)" by fastforce
    let ?e = "e\<lparr>taken_events_list := remove1 (a, i) (taken_events_list e)\<rparr>"
    from Some c t assms(2) obtain e1 where e1: "return_event i ?e = Some e1"
      and e': "e' = free_queue_item a e1"
      by (auto simp: INT_EVreturn_event_buffer_def crash_simps)
    have "(a, i) \<in> set (taken_events_list e)" using find_taken_Some c Some t by blast
    then have "rc_ok (hold i held) ?e" by (rule rc_taken_remove [OF assms(1)])
    then have "rc_ok (drop_held i (hold i held)) e1"
      by (rule rc_return_event) (simp_all add: e1)
    then show ?thesis unfolding e' by simp
  qed
qed

section \<open>Reusing the data of a submitted event\<close>

lemma reassign_parts:
  \<comment> \<open>everything but the final decrement\<close>
  assumes rc: "rc_ok held e" and h: "held i > 0 \<or> evp_refs e i > 0"
    and r: "reassign_memory_event env i do_decode e = Some (Some j, e')"
  shows "\<exists>e7. ev_frame e e7 \<and> rc_ok (hold j held) e7 \<and>
    mod_event i (\<lambda>v. v\<lparr>ref_count := ref_count v - 1\<rparr>) e7 = Some e' \<and> j \<noteq> i \<and> events e j = None"
proof -
  obtain v where v: "events e i = Some v" "i < next_addr e" using rc_live [OF rc] h by blast
  obtain n e1 where n: "get_free_event e = (n, e1)" by fastforce
  have ni: "n \<noteq> i" "events e1 i = Some v"
    and rn: "events e1 n = Some (empty_event\<lparr>ref_count := 1, event_len := -1, ioBuffer := None\<rparr>)"
    using n v by (auto simp: get_free_event_def malloc_def Let_def)
  from r n ni obtain e2 e3 e4 e5 e6 where
    e2: "mod_event n (\<lambda>t. v\<lparr>ref_count := 1\<rparr>) e1 = Some e2"
    and e3: "mod_event n (\<lambda>t. t\<lparr>ev_attrs := ev_attrs v\<rparr>)
       (case ev_attrs v of None \<Rightarrow> e2 | Some a \<Rightarrow> emit (Eff_add_ref_attr_list a) e2) = Some e3"
    and e4: "mod_event i (\<lambda>v. v\<lparr>free_func := None, free_arg := None,
        ev_cm := Some (cm_addr e3)\<rparr>) e3 = Some e4"
    and e5: "encode_event env i e4 = Some e5"
    and e6: "mod_event i (\<lambda>v. v\<lparr>decoded_event := None, contents := Event_Freeable,
             free_arg := ioBuffer v, ioBuffer := None, free_func := Some Free_ioBuffer_fn\<rparr>) e5
           = Some e6"
    by (auto simp: reassign_memory_event_def crash_simps)
  have "rc_ok (hold n held) e2"
    by (rule rc_mod_event_at [OF rc_get_free_event [OF rc n] e2]) (use rn in auto)
  then have "rc_ok (hold n held) e3"
    by (intro rc_mod_event [OF _ e3]) (auto split: option.splits)
  then have "rc_ok (hold n held) e4" by (rule rc_mod_event [OF _ e4]) simp
  then have "rc_ok (hold n held) e5" by (rule rc_encode_event [OF _ e5])
  then have r6: "rc_ok (hold n held) e6" by (rule rc_mod_event [OF _ e6]) simp
  have fr: "ev_frame e e6"
  proof -
    have "ev_frame e (case ev_attrs v of None \<Rightarrow> e2 | Some a \<Rightarrow> emit (Eff_add_ref_attr_list a) e2)"
      using ev_frame_trans [OF ev_frame_get_free_event [OF n] ev_frame_mod_event [OF e2]]
      by (auto split: option.splits)
    then show ?thesis
      using e3 e4 e5 e6 by (meson ev_frame_trans ev_frame_mod_event ev_frame_encode_event)
  qed
  have nj: "events e n = None"
    using n rc by (auto simp: get_free_event_def malloc_def Let_def rc_ok_def ref_ok_def
        split: option.splits dest: spec [of _ n])
  have "\<exists>e7. ev_frame e e7 \<and> rc_ok (hold n held) e7 \<and>
      mod_event i (\<lambda>v. v\<lparr>ref_count := ref_count v - 1\<rparr>) e7 = Some e' \<and> j = n"
  proof (cases do_decode)
    case False
    then show ?thesis using r n ni e2 e3 e4 e5 e6 fr r6
      by (auto simp: reassign_memory_event_def crash_simps)
  next
    case True
    obtain w where w: "events e6 i = Some w" using e6 by (auto elim: mod_eventE)
    obtain c e7 where c: "malloc e6 = (c, e7)" by fastforce
    from r n ni e2 e3 e4 e5 e6 w c True obtain d e8 where
      e8: "mod_event i (\<lambda>v. v\<lparr>decoded_event := Some d, encoded_event := None,
                   event_encoded := False\<rparr>) e7 = Some e8"
      and e9: "mod_event i (\<lambda>v. v\<lparr>ref_count := ref_count v - 1\<rparr>)
                 (emit (Eff_free_FFSContext c) e8) = Some e'" and jn: "j = n"
      by (auto simp: reassign_memory_event_def crash_simps split: option.splits)
    have "ev_frame e e8"
      using fr ev_frame_malloc [OF c] ev_frame_mod_event [OF e8] by (meson ev_frame_trans)
    moreover have "rc_ok (hold n held) e8"
      by (rule rc_mod_event [OF rc_malloc [OF r6 c] e8]) simp
    ultimately show ?thesis using e9 jn by (intro exI [of _ "emit (Eff_free_FFSContext c) e8"]) simp
  qed
  then show ?thesis using ni(1) nj by blast
qed

lemma rc_reassign_memory_event:
  assumes rc: "rc_ok held e" and h: "held i > 0" "evp_refs e i + held i > 1"
    and r: "reassign_memory_event env i do_decode e = Some (Some j, e')"
  shows "rc_ok (hold j (drop_held i held)) e'"
proof -
  obtain e7 where e7: "ev_frame e e7" "rc_ok (hold j held) e7"
    "mod_event i (\<lambda>v. v\<lparr>ref_count := ref_count v - 1\<rparr>) e7 = Some e'" "j \<noteq> i"
    using reassign_parts [OF rc _ r] h(1) by blast
  have "rc_ok (drop_held i (hold j held)) e'"
    by (rule rc_split_event [OF e7(2,3)]) (use h evp_refs_frame [OF e7(1)] in auto)
  moreover have "drop_held i (hold j held) = hold j (drop_held i held)"
    using h e7(4) by (auto simp: drop_held_def hold_def fun_eq_iff)
  ultimately show ?thesis by simp
qed

text \<open>
  A queued event whose data is copied before it is converted: the copy is released and the
  queue's reference restored, also when it was the only one.
\<close>

lemma rc_reassign_restore:
  assumes rc: "rc_ok held e" and h: "held i > 0 \<or> evp_refs e i > 0"
    and r: "reassign_memory_event env i do_decode e = Some (Some j, e1)"
    and e2: "return_event j e1 = Some e2" and e3: "reference_event i e2 = Some e3"
  shows "rc_ok held e3"
  unfolding rc_ok_def
proof
  obtain e7 where fr7: "ev_frame e e7" and r7: "rc_ok (hold j held) e7"
    and e1: "mod_event i (\<lambda>v. v\<lparr>ref_count := ref_count v - 1\<rparr>) e7 = Some e1"
    and ij: "j \<noteq> i" and new: "events e j = None"
    using reassign_parts [OF rc h r] by blast
  obtain v where v: "events e7 i = Some v"
    and ev1: "events e1 = (events e7)(i \<mapsto> v\<lparr>ref_count := ref_count v - 1\<rparr>)"
    using e1 by (auto elim: mod_eventE)
  have no: "evp_refs e j + held j = 0" using rc_okD [OF rc, of j] new by (simp add: ref_ok_def)
  have refs: "evp_refs e7 = evp_refs e" by (rule evp_refs_frame [OF fr7])
  obtain w where w: "events e7 j = Some w" "ref_count w = 1"
    using rc_okD [OF r7, of j] no by (auto simp: ref_ok_def refs split: option.splits)
  have ev2: "events e2 = (events e1)(j := None)"
    using events_return_event [OF e2, of w] w ij by (simp add: ev1)
  have ev3: "events e3 = (events e7)(j := None, i \<mapsto> v)"
    using e3 ij unfolding reference_event_def by (elim mod_eventE) (auto simp: ev2 ev1)
  have fr: "ev_frame e7 e3"
    using ev_frame_mod_event [OF e1] ev_frame_return_event [OF e2] ev_frame_reference_event [OF e3]
    by (meson ev_frame_trans)
  have na: "next_addr e7 \<le> next_addr e3" using fr by (simp add: ev_frame_def)
  fix k
  show "ref_ok e3 k (evp_refs e3 k + held k)"
    using rc_okD [OF r7, of k] no na ij v
    by (auto simp: ref_ok_def ev3 evp_refs_frame [OF fr] refs split: option.splits if_splits)
qed

end
