(* ===== verification/Ev_Interfaces.thy ===== *)
theory Ev_Interfaces
  imports Ev_Prelude
begin

text \<open>
  The contracts between components. A locale fixes the operations a client calls and assumes
  the laws the provider promises; each is interpreted on the definitions of the component that
  provides it, in that component's theory.
\<close>

section \<open>Tables searched from the front\<close>

text \<open>
  A table that only grows, searched linearly: the first entry with a key hides later ones. The
  global stone lookup table, the registered format list and the condition list are of
  this kind.
\<close>

locale first_match_table =
  fixes find :: "'t \<Rightarrow> 'k \<Rightarrow> 'v option"
    and add :: "'k \<Rightarrow> 'v \<Rightarrow> 't \<Rightarrow> 't"
  assumes find_add_new: "find t k = None \<Longrightarrow> find (add k v t) k = Some v"
    and find_add_old: "find t k = Some w \<Longrightarrow> find (add k v t) k = Some w"
    and find_add_other: "k \<noteq> k' \<Longrightarrow> find (add k v t) k' = find t k'"
begin

lemma find_add:
  "find (add k v t) k' =
    (if k = k' then (case find t k of None \<Rightarrow> Some v | Some w \<Rightarrow> Some w) else find t k')"
  using find_add_new find_add_old find_add_other by (auto split: option.splits)

lemma add_keeps: "find t k = Some w \<Longrightarrow> find (add k' v t) k = Some w"
  by (simp add: find_add)

lemma find_add_commute:
  "k1 \<noteq> k2 \<Longrightarrow> find (add k1 v1 (add k2 v2 t)) k = find (add k2 v2 (add k1 v1 t)) k"
  by (auto simp: find_add)

primrec add_all :: "('k \<times> 'v) list \<Rightarrow> 't \<Rightarrow> 't" where
  "add_all [] t = t"
| "add_all (kv # kvs) t = add_all kvs (add (fst kv) (snd kv) t)"

lemma find_add_all:
  "find (add_all kvs t) k = (case find t k of None \<Rightarrow> map_of kvs k | Some w \<Rightarrow> Some w)"
  by (induction kvs arbitrary: t) (auto simp: find_add split: option.splits)

end

section \<open>First-in first-out queues\<close>

locale fifo_queue =
  fixes rep :: "'q \<Rightarrow> 'a list \<Rightarrow> bool"      \<comment> \<open>the queue holds these elements, oldest first\<close>
    and is_mt :: "'q \<Rightarrow> bool"
    and enq :: "'a \<Rightarrow> 'q \<Rightarrow> 'q option"
    and deq :: "'q \<Rightarrow> ('a \<times> 'q) option"
  assumes rep_mt: "rep q xs \<Longrightarrow> is_mt q \<longleftrightarrow> xs = []"
    and rep_enq: "rep q xs \<Longrightarrow> \<exists>q'. enq x q = Some q' \<and> rep q' (xs @ [x])"
    and rep_deq: "rep q (x # xs) \<Longrightarrow> \<exists>q'. deq q = Some (x, q') \<and> rep q' xs"
begin

primrec enq_all :: "'a list \<Rightarrow> 'q \<Rightarrow> 'q option" where
  "enq_all [] q = Some q"
| "enq_all (x # xs) q = Option.bind (enq x q) (enq_all xs)"

primrec deq_n :: "nat \<Rightarrow> 'q \<Rightarrow> ('a list \<times> 'q) option" where
  "deq_n 0 q = Some ([], q)"
| "deq_n (Suc n) q =
    Option.bind (deq q) (\<lambda>(x, q). map_option (apfst (Cons x)) (deq_n n q))"

lemma enq_all_rep: "rep q xs \<Longrightarrow> \<exists>q'. enq_all ys q = Some q' \<and> rep q' (xs @ ys)"
proof (induction ys arbitrary: q xs)
  case Nil
  then show ?case by simp
next
  case (Cons y ys)
  from rep_enq [OF Cons.prems, of y] obtain q1 where q1: "enq y q = Some q1" "rep q1 (xs @ [y])"
    by blast
  show ?case using Cons.IH [OF q1(2)] q1(1) by auto
qed

lemma deq_n_rep: "rep q (xs @ ys) \<Longrightarrow> \<exists>q'. deq_n (length xs) q = Some (xs, q') \<and> rep q' ys"
proof (induction xs arbitrary: q)
  case Nil
  then show ?case by simp
next
  case (Cons x xs)
  from Cons.prems have "rep q (x # (xs @ ys))" by simp
  from rep_deq [OF this] obtain q1 where q1: "deq q = Some (x, q1)" "rep q1 (xs @ ys)"
    by blast
  show ?case using Cons.IH [OF q1(2)] q1(1) by auto
qed

lemma fifo:
  assumes "rep q []"
  shows "\<exists>q1 q2. enq_all xs q = Some q1 \<and> deq_n (length xs) q1 = Some (xs, q2) \<and> is_mt q2"
proof -
  obtain q1 where q1: "enq_all xs q = Some q1" "rep q1 ([] @ xs)"
    using enq_all_rep [OF assms] by blast
  then have "rep q1 (xs @ [])" by simp
  then obtain q2 where "deq_n (length xs) q1 = Some (xs, q2)" "rep q2 []"
    using deq_n_rep by blast
  then show ?thesis using q1(1) rep_mt by blast
qed

end

end
