(* ===== verification/Ev_Lookup.thy ===== *)
theory Ev_Lookup
  imports Ev_Event Ev_Interfaces
begin

text \<open>
  The stone table and the table from global to local stone ids (evp.c: lookup_local_stone,
  remove_stone_from_lookup, add_stone_to_lookup, lookup_global_stone, stone_struct,
  INT_EValloc_stone). A stone pointer is the index of its slot in the stone table.
\<close>

section \<open>The global id table\<close>

fun lookup_local_in :: "(int \<times> int) list \<Rightarrow> int \<Rightarrow> int" where
  \<comment> \<open>the search loop of lookup_local_stone over (global_id, local_id), ret initialised to -1\<close>
  "lookup_local_in [] stone_num = -1"
| "lookup_local_in ((g, l) # t) stone_num =
    (if g = stone_num then l else lookup_local_in t stone_num)"

definition lookup_local_stone :: "evp \<Rightarrow> int \<Rightarrow> int" where
  "lookup_local_stone e stone_num = lookup_local_in (stone_lookup_table e) stone_num"

fun lookup_global_in :: "(int \<times> int) list \<Rightarrow> int \<Rightarrow> int" where
  "lookup_global_in [] stone_num = -1"
| "lookup_global_in ((g, l) # t) stone_num =
    (if l = stone_num then g else lookup_global_in t stone_num)"

definition lookup_global_stone :: "evp \<Rightarrow> int \<Rightarrow> int" where
  "lookup_global_stone e stone_num = lookup_global_in (stone_lookup_table e) stone_num"

definition table_add :: "int \<Rightarrow> int \<Rightarrow> (int \<times> int) list \<Rightarrow> (int \<times> int) list" where
  "table_add g l t = t @ [(g, l)]"

definition add_stone_to_lookup :: "int \<Rightarrow> int \<Rightarrow> evp \<Rightarrow> evp" where
  "add_stone_to_lookup stone_num global_stone_num e =
    e\<lparr>stone_lookup_table := table_add global_stone_num stone_num (stone_lookup_table e)\<rparr>"

definition is_global :: "int \<Rightarrow> bool" where
  "is_global s \<longleftrightarrow> has_bits s 0x80000000"

definition INT_CMadd_stone_to_global_lookup :: "int \<Rightarrow> int \<Rightarrow> evp \<Rightarrow> evp" where
  "INT_CMadd_stone_to_global_lookup stone_num global_stone_num e =
    (if \<not> is_global global_stone_num then e
     else add_stone_to_lookup stone_num global_stone_num e)"

function shift_down :: "nat \<Rightarrow> 'a list \<Rightarrow> 'a list" where
  \<comment> \<open>for (i = stone; i < size - 1; i++) table[i] = table[i+1]\<close>
  "shift_down i t = (if Suc i < length t then shift_down (Suc i) (t[i := t ! Suc i]) else t)"
  by pat_completeness auto
termination by (relation "measure (\<lambda>(i, t). length t - i)") auto

declare shift_down.simps [simp del]

definition remove_from_table :: "(int \<times> int) list \<Rightarrow> int \<Rightarrow> (int \<times> int) list" where
  "remove_from_table t stone_num =
    (case find_index (\<lambda>en. fst en = stone_num) t of
       None \<Rightarrow> t
     | Some stone \<Rightarrow> shift_down stone t)"

definition remove_stone_from_lookup :: "int \<Rightarrow> evp \<Rightarrow> evp" where
  "remove_stone_from_lookup stone_num e =
    e\<lparr>stone_lookup_table := remove_from_table (stone_lookup_table e) stone_num\<rparr>"

section \<open>Stone pointers\<close>

definition stone_at :: "nat \<Rightarrow> evp \<Rightarrow> stone option" where
  \<comment> \<open>reading through a stone pointer; a freed stone crashes\<close>
  "stone_at s e = (if s < length (stone_map e) then stone_map e ! s else None)"

definition mod_stone :: "nat \<Rightarrow> (stone \<Rightarrow> stone) \<Rightarrow> evp \<Rightarrow> evp option" where
  "mod_stone s f e =
    do { st \<leftarrow> stone_at s e; Some (e\<lparr>stone_map := (stone_map e)[s := Some (f st)]\<rparr>) }"

definition stone_count :: "evp \<Rightarrow> int" where
  "stone_count e = int (length (stone_map e))"

definition stone_struct :: "int \<Rightarrow> evp \<Rightarrow> nat ptr option" where
  "stone_struct stone_num e =
    (let was_global = is_global stone_num;
         stone_num = (if was_global then lookup_local_stone e stone_num else stone_num)
     in if stone_count e \<le> stone_num - stone_base_num e then Some None
        else do {
          p \<leftarrow> nth_c (stone_map e) (stone_num - stone_base_num e);
          if was_global \<and> (case p of None \<Rightarrow> True | Some st \<Rightarrow> local_id st = -1) then Some None
          else Some (case p of None \<Rightarrow> None | Some st \<Rightarrow> Some (nat (stone_num - stone_base_num e)))
        })"

definition stone_deref :: "int \<Rightarrow> evp \<Rightarrow> nat option" where
  \<comment> \<open>stone_struct followed by a use of the pointer without a NULL test\<close>
  "stone_deref s e = do { p \<leftarrow> stone_struct s e; p }"

definition new_stone :: "int \<Rightarrow> addr \<Rightarrow> stone" where
  "new_stone stone_num attrs =
    \<lparr>local_id = stone_num, default_action = -1, is_frozen = False, is_processing = False,
     is_outputting = False, is_draining = 0, is_stalled = 0, stall_from = Stall_None,
     queue_size = 0, pending_output = 0, response_cache = [], queue = [],
     new_enqueue_flag = False, write_callback = -1, proto_actions = [], periodic_handle = None,
     stone_attrs = Some attrs, output_count = 0, output_stone_ids = [-1],
     last_remote_source = None, squelch_depth = 0, unstall_callbacks = []\<rparr>"

definition INT_EValloc_stone :: "evp \<Rightarrow> EVstone \<times> evp" where
  "INT_EValloc_stone e =
    (let stone_num = stone_count e + stone_base_num e;
         (attrs, e) = malloc e;
         e = e\<lparr>attr_int := (attr_int e)(attrs := (\<lambda>_. None))\<rparr>
     in (stone_num, e\<lparr>stone_map := stone_map e @ [Some (new_stone stone_num attrs)]\<rparr>))"

definition EVPinit :: "addr \<Rightarrow> int \<Rightarrow> bool \<Rightarrow> addr \<Rightarrow> (addr \<Rightarrow> string \<Rightarrow> int option) \<Rightarrow> evp" where
  \<comment> \<open>the memory is zeroed; the base number is 0 for the first instance and random after; the
     environment variable EVBackpressure decides the back pressure flag\<close>
  "EVPinit cm base backpressure thread attrs =
    \<lparr>cm_addr = cm, stone_base_num = base, stone_map = [], stone_lookup_table = [],
     as_ptr = None, events = (\<lambda>_. None), next_addr = 1, queue_items_free_list = [],
     current_event_list = [], taken_events_list = [], use_backpressure = backpressure,
     sink_handlers = [], sources = [], source_heap = (\<lambda>_. None),
     app_stone_close_handler = None, activation_stack = [], in_get_conn = 0,
     delay_task_pending = False, locked = 1, self_thread = thread, attr_int = attrs,
     effects = []\<rparr>"

section \<open>Laws of the global id table\<close>

interpretation global_ids: first_match_table map_of table_add
  by unfold_locales (auto simp: table_add_def map_add_def split: option.splits)

lemma lookup_local_in_map_of:
  "lookup_local_in t g = (case map_of t g of None \<Rightarrow> -1 | Some l \<Rightarrow> l)"
  by (induction t g rule: lookup_local_in.induct) auto

lemma shift_down_eq:
  "i < length t \<Longrightarrow> shift_down i t = take i t @ drop (Suc i) t @ [last t]"
proof (induction i t rule: shift_down.induct)
  case (1 i t)
  show ?case
  proof (cases "Suc i < length t")
    case False
    then have "length t = Suc i" using 1 by simp
    moreover have "take i t @ [last t] = t"
      using \<open>length t = Suc i\<close>
      by (metis append_butlast_last_id butlast_conv_take diff_Suc_1 length_0_conv nat.simps(3))
    ultimately show ?thesis by (subst shift_down.simps) simp
  next
    case True
    let ?t = "t[i := t ! Suc i]"
    have "shift_down i t = shift_down (Suc i) ?t" using True by (subst shift_down.simps) simp
    also have "\<dots> = take (Suc i) ?t @ drop (Suc (Suc i)) ?t @ [last ?t]"
      using 1 True by simp
    also have "take (Suc i) ?t = take i t @ [t ! Suc i]"
      using True by (simp add: take_Suc_conv_app_nth)
    also have "drop (Suc (Suc i)) ?t = drop (Suc (Suc i)) t" by simp
    also have "last ?t = last t" using True by (subst last_list_update) auto
    finally show ?thesis using True by (simp add: Cons_nth_drop_Suc)
  qed
qed

lemma length_shift_down [simp]: "length (shift_down i t) = length t"
  by (induction i t rule: shift_down.induct) (subst shift_down.simps, simp)

lemma remove_from_table_absent:
  "g \<notin> fst ` set t \<Longrightarrow> remove_from_table t g = t"
  by (auto simp: remove_from_table_def split: option.splits) (auto simp: find_index_Some)

lemma remove_from_table_present:
  assumes "distinct (map fst (xs @ (g, l) # ys))"
  shows "remove_from_table (xs @ (g, l) # ys) g
    = (if ys = [] then xs @ [(g, l)] else xs @ ys @ [last ys])"
proof -
  have "find_index (\<lambda>en. fst en = g) (xs @ (g, l) # ys) = Some (length xs)"
    using assms by (auto simp: find_index_Some nth_append dest!: nth_mem)
  then show ?thesis by (simp add: remove_from_table_def shift_down_eq)
qed

lemma map_of_dup_last: "ys \<noteq> [] \<Longrightarrow> map_of (xs @ ys @ [last ys]) = map_of (xs @ ys)"
  by (induction ys rule: rev_induct) (auto simp: fun_eq_iff map_add_def split: option.splits)

lemma remove_lookup:
  assumes "distinct (map fst t)" "t \<noteq> []" "fst (last t) \<noteq> g"
  shows "lookup_local_in (remove_from_table t g) g' = (if g' = g then -1 else lookup_local_in t g')"
proof (cases "g \<in> fst ` set t")
  case False
  then have "map_of t g = None" by (simp add: map_of_eq_None_iff)
  then show ?thesis using False by (simp add: remove_from_table_absent lookup_local_in_map_of)
next
  case True
  then obtain l xs ys where t: "t = xs @ (g, l) # ys" by (metis imageE prod.collapse split_list)
  have ys: "ys \<noteq> []" using assms(3) t by auto
  have d: "g \<notin> fst ` set xs" "g \<notin> fst ` set ys" using assms(1) t by auto
  have "map_of (remove_from_table t g) = map_of (xs @ ys)"
    using remove_from_table_present [of xs g l ys] assms(1) ys map_of_dup_last [OF ys, of xs]
    by (simp add: t)
  moreover have "map_of (xs @ ys) g' = (if g' = g then None else map_of t g')"
  proof (cases "g' = g")
    case True
    have "map_of xs g = None" "map_of ys g = None" using d by (simp_all add: map_of_eq_None_iff)
    then show ?thesis using True by (simp add: map_add_def)
  next
    case False
    then show ?thesis by (simp add: t map_add_def split: option.splits)
  qed
  ultimately show ?thesis by (simp add: lookup_local_in_map_of)
qed

section \<open>Laws of stone pointers\<close>

definition stones_wf :: "evp \<Rightarrow> bool" where
  "stones_wf e \<longleftrightarrow>
    0 \<le> stone_base_num e \<and> stone_base_num e + stone_count e < 2 ^ 31 \<and>
    (\<forall>s st. stone_at s e = Some st \<longrightarrow> local_id st = stone_base_num e + int s)"

lemma not_global: "0 \<le> s \<Longrightarrow> s < 2 ^ 31 \<Longrightarrow> \<not> is_global s"
proof -
  assume s: "0 \<le> s" "s < 2 ^ 31"
  have "s AND 0x80000000 = 0"
  proof (rule bit_eqI)
    fix n
    have "bit s n = False" if "31 \<le> n"
    proof -
      have "s < 2 ^ n" using s(2) power_increasing [of 31 n "2::int"] that by linarith
      then show ?thesis using s(1) by (simp add: bit_iff_odd div_pos_pos_trivial)
    qed
    moreover have "bit (0x80000000::int) n \<longleftrightarrow> n = 31"
      using bit_exp_iff [of 31 n, where ?'a = int] by simp
    ultimately show "bit (s AND 0x80000000) n = bit (0::int) n" by (auto simp: bit_and_iff)
  qed
  then show ?thesis by (simp add: is_global_def has_bits_def)
qed

lemma stone_at_Some: "stone_at s e = Some st \<longleftrightarrow> s < length (stone_map e) \<and> stone_map e ! s = Some st"
  by (simp add: stone_at_def)

lemma stone_struct_local:
  assumes "\<not> is_global n" "stone_base_num e \<le> n" "n < stone_base_num e + stone_count e"
  shows "stone_struct n e =
    Some (case stone_at (nat (n - stone_base_num e)) e of
            None \<Rightarrow> None | Some st \<Rightarrow> Some (nat (n - stone_base_num e)))"
  using assms by (auto simp: stone_struct_def stone_count_def nth_c_def stone_at_def split: option.splits)

lemma stone_struct_wf:
  assumes "stones_wf e" "stone_at s e = Some st"
  shows "stone_struct (local_id st) e = Some (Some s)"
proof -
  have l: "local_id st = stone_base_num e + int s" "s < length (stone_map e)"
    using assms by (auto simp: stones_wf_def stone_at_Some)
  then have "\<not> is_global (local_id st)"
    using assms by (intro not_global) (auto simp: stones_wf_def stone_count_def)
  then show ?thesis using l assms(2) by (simp add: stone_struct_local stone_count_def)
qed

lemma stone_struct_live:
  assumes "stone_struct n e = Some (Some s)"
  shows "\<exists>st. stone_at s e = Some st"
  using assms by (auto simp: stone_struct_def crash_simps stone_at_def Let_def nat_less_iff
      split: if_splits option.splits)

lemma stones_wf_alloc:
  assumes "stones_wf e" "INT_EValloc_stone e = (n, e')" "n < 2 ^ 31 - 1"
  shows "stones_wf e'"
  using assms by (auto simp: stones_wf_def INT_EValloc_stone_def malloc_def Let_def stone_count_def
      stone_at_def new_stone_def nth_append less_Suc_eq split: if_splits)

lemma rc_alloc_stone:
  assumes "rc_ok held e" "INT_EValloc_stone e = (n, e')"
  shows "rc_ok held e'"
  unfolding rc_ok_def
proof
  fix i
  have e': "e' = e\<lparr>next_addr := Suc (next_addr e), attr_int := attr_int e', stone_map := stone_map e'\<rparr>"
    and sm: "stone_map e' = stone_map e @ [Some (new_stone n (next_addr e))]"
    using assms(2) by (auto simp: INT_EValloc_stone_def malloc_def Let_def)
  have "evp_refs e' i = evp_refs e i"
    using arg_cong [OF e', of taken_events_list]
    by (simp add: evp_refs_def sm slot_refs_def stone_refs_def new_stone_def queue_refs_def)
  moreover have "events e' = events e" "next_addr e' = Suc (next_addr e)"
    using arg_cong [OF e', of events] arg_cong [OF e', of next_addr] by simp_all
  ultimately show "ref_ok e' i (evp_refs e' i + held i)"
    using rc_okD [OF assms(1), of i] by (auto simp: ref_ok_def split: option.splits)
qed

lemma rc_EVPinit: "rc_ok (\<lambda>_. 0) (EVPinit cm base bp thread attrs)"
  by (simp add: rc_ok_def ref_ok_def EVPinit_def evp_refs_def)

end
