(* ===== verification/Ev_Queue.thy ===== *)
theory Ev_Queue
  imports Ev_Lookup
begin

text \<open>
  Event queues of stones and storage actions (evp.c: raw_enqueue_event, raw_dequeue_event,
  dequeue_event, dequeue_item, EVdiscard_queue_item, empty_queue and the storage_queue
  operations). A queue is the list of its items from head to tail; Ev_Queue_Ptr relates it to
  the head and tail pointers of the code.
\<close>

section \<open>Operations on one queue\<close>

definition raw_enqueue_event :: "queue \<Rightarrow> evid \<Rightarrow> evp \<Rightarrow> (queue \<times> evp) option" where
  "raw_enqueue_event q event e =
    do {
      let (item, e) = get_queue_item e;
      e \<leftarrow> reference_event event e;
      Some (q @ [\<lparr>qi_addr = item, qi_item = event, qi_handled = False\<rparr>], e)
    }"

definition raw_dequeue_event :: "queue \<Rightarrow> evp \<Rightarrow> evid ptr \<times> queue \<times> evp" where
  "raw_dequeue_event q e =
    (case q of
       [] \<Rightarrow> (None, [], e)
     | item # rest \<Rightarrow> (Some (qi_item item), rest, free_queue_item (qi_addr item) e))"

fun unlink_item :: "addr \<Rightarrow> queue \<Rightarrow> (queue_item \<times> queue) option" where
  \<comment> \<open>the walk of dequeue_item; running off the end dereferences NULL\<close>
  "unlink_item a [] = None"
| "unlink_item a (item # rest) =
    (if qi_addr item = a then Some (item, rest)
     else do { (it, r) \<leftarrow> unlink_item a rest; Some (it, item # r) })"

fun return_all :: "queue \<Rightarrow> evp \<Rightarrow> evp option" where
  "return_all [] e = Some e"
| "return_all (item # rest) e = do { e \<leftarrow> return_event (qi_item item) e; return_all rest e }"

definition empty_queue :: "queue \<Rightarrow> evp \<Rightarrow> (queue \<times> evp) option" where
  "empty_queue q e = do { e \<leftarrow> return_all q e; Some ([], e) }"

section \<open>Operations on the queue of a stone\<close>

definition leave_queue :: "nat \<Rightarrow> queue \<Rightarrow> evp \<Rightarrow> evp option" where
  \<comment> \<open>the shared end of the dequeue operations: the new queue, stone->queue_size--,
     as->events_in_play--\<close>
  "leave_queue s q e =
    do {
      e \<leftarrow> mod_stone s (\<lambda>st. st\<lparr>queue := q, queue_size := queue_size st - 1\<rparr>) e;
      a \<leftarrow> as_ptr e;
      Some (e\<lparr>as_ptr := Some (a\<lparr>events_in_play := events_in_play a - 1\<rparr>)\<rparr>)
    }"

definition dequeue_event :: "nat \<Rightarrow> evp \<Rightarrow> (evid ptr \<times> evp) option" where
  "dequeue_event s e =
    do {
      st \<leftarrow> stone_at s e;
      let (event, q, e) = raw_dequeue_event (queue st) e;
      e \<leftarrow> leave_queue s q e;
      Some (event, e)
    }"

definition dequeue_item :: "nat \<Rightarrow> addr ptr \<Rightarrow> evp \<Rightarrow> (evid ptr \<times> evp) option" where
  "dequeue_item s to_dequeue e =
    do {
      st \<leftarrow> stone_at s e;
      assert_c (locked e > 0);
      case to_dequeue of
        None \<Rightarrow> Some (None, e)
      | Some a \<Rightarrow> do {
          (item, q) \<leftarrow> unlink_item a (queue st);
          e \<leftarrow> leave_queue s q (free_queue_item a e);
          Some (Some (qi_item item), e) }
    }"

definition EVdiscard_queue_item :: "int \<Rightarrow> addr ptr \<Rightarrow> evp \<Rightarrow> evp option" where
  "EVdiscard_queue_item s item e =
    do {
      stone \<leftarrow> stone_deref s e;
      (event, e) \<leftarrow> dequeue_item stone item e;
      case event of None \<Rightarrow> Some e | Some ev \<Rightarrow> return_event ev e
    }"

section \<open>Storage queues\<close>

text \<open>The operations table of a storage queue always is storage_queue_default_ops.\<close>

definition storage_queue_default_empty :: "queue \<Rightarrow> evp \<Rightarrow> (queue \<times> evp) option" where
  "storage_queue_default_empty q e = empty_queue q e"

definition storage_queue_default_enqueue ::
    "env \<Rightarrow> queue \<Rightarrow> evid \<Rightarrow> evp \<Rightarrow> (queue \<times> evp) option" where
  "storage_queue_default_enqueue env q item e =
    do { e \<leftarrow> ensure_ev_owned env item e; raw_enqueue_event q item e }"

definition storage_queue_default_dequeue :: "queue \<Rightarrow> evp \<Rightarrow> evid ptr \<times> queue \<times> evp" where
  "storage_queue_default_dequeue q e = raw_dequeue_event q e"

definition storage_queue_init :: queue where
  \<comment> \<open>the queue is zeroed; storage_queue_default_ops has no init\<close>
  "storage_queue_init = []"

definition storage_queue_cleanup :: "queue \<Rightarrow> evp \<Rightarrow> (queue \<times> evp) option" where
  "storage_queue_cleanup q e = storage_queue_default_empty q e"

definition storage_queue_empty :: "queue \<Rightarrow> evp \<Rightarrow> (queue \<times> evp) option" where
  "storage_queue_empty q e = storage_queue_default_empty q e"

definition storage_queue_enqueue ::
    "env \<Rightarrow> queue \<Rightarrow> evid \<Rightarrow> evp \<Rightarrow> (queue \<times> evp) option" where
  "storage_queue_enqueue env q item e = storage_queue_default_enqueue env q item e"

definition storage_queue_dequeue :: "queue \<Rightarrow> evp \<Rightarrow> evid ptr \<times> queue \<times> evp" where
  "storage_queue_dequeue q e = storage_queue_default_dequeue q e"

section \<open>Unlinking an item\<close>

lemma unlink_item_Some:
  assumes "unlink_item a q = Some (item, q')"
  shows "\<exists>xs ys. q = xs @ item # ys \<and> q' = xs @ ys \<and> qi_addr item = a \<and> a \<notin> qi_addr ` set xs"
  using assms
proof (induction q arbitrary: q')
  case Nil
  then show ?case by simp
next
  case (Cons x q)
  show ?case
  proof (cases "qi_addr x = a")
    case True
    then show ?thesis using Cons.prems by (intro exI [of _ "[]"] exI [of _ q]) auto
  next
    case False
    then obtain r where r: "unlink_item a q = Some (item, r)" "q' = x # r"
      using Cons.prems by (auto simp: crash_simps)
    from Cons.IH [OF r(1)] obtain xs ys where
      "q = xs @ item # ys \<and> r = xs @ ys \<and> qi_addr item = a \<and> a \<notin> qi_addr ` set xs" by blast
    then show ?thesis using False r(2) by (intro exI [of _ "x # xs"] exI [of _ ys]) auto
  qed
qed

lemma unlink_item_present:
  "a \<in> qi_addr ` set q \<Longrightarrow> \<exists>item q'. unlink_item a q = Some (item, q')"
  by (induction q) force+

lemma queue_refs_simps [simp]:
  "queue_refs [] i = 0"
  "queue_refs (x # q) i = queue_refs q i + (if qi_item x = i then 1 else 0)"
  "queue_refs (q @ r) i = queue_refs q i + queue_refs r i"
  by (simp_all add: queue_refs_def)

lemma queue_refs_unlink:
  "unlink_item a q = Some (item, q') \<Longrightarrow>
    queue_refs q i = queue_refs q' i + (if qi_item item = i then 1 else 0)"
  by (drule unlink_item_Some) auto

section \<open>References and the queues of stones\<close>

lemma evp_refs_mod_stone:
  assumes "stone_at s e = Some st"
  shows "evp_refs (e\<lparr>stone_map := (stone_map e)[s := Some st']\<rparr>) i + stone_refs i st
    = evp_refs e i + stone_refs i st'"
proof -
  have s: "s < length (stone_map e)" "stone_map e ! s = Some st"
    using assms by (simp_all add: stone_at_Some)
  have "sum_list (map (slot_refs i) ((stone_map e)[s := Some st'])) + slot_refs i (stone_map e ! s)
      = sum_list (map (slot_refs i) (stone_map e)) + slot_refs i (Some st')"
    by (rule sum_list_update_add [OF s(1)])
  then show ?thesis by (simp add: evp_refs_def s(2) slot_refs_def)
qed

lemma rc_transfer:
  assumes "rc_ok held e" "events e' = events e" "next_addr e' = next_addr e"
    and "\<And>i. evp_refs e' i + held' i = evp_refs e i + held i"
  shows "rc_ok held' e'"
  unfolding rc_ok_def
proof
  fix i
  show "ref_ok e' i (evp_refs e' i + held' i)"
    using rc_okD [OF assms(1), of i] assms(2-4) by (auto simp: ref_ok_def split: option.splits)
qed

lemma mod_stoneE:
  assumes "mod_stone s f e = Some e'"
  obtains st where "stone_at s e = Some st"
    "e' = e\<lparr>stone_map := (stone_map e)[s := Some (f st)]\<rparr>"
  using assms by (auto simp: mod_stone_def crash_simps)

lemma rc_mod_stone:
  assumes "rc_ok held e" "mod_stone s f e = Some e'"
    and "\<And>st i. stone_at s e = Some st \<Longrightarrow> stone_refs i (f st) + held' i = stone_refs i st + held i"
  shows "rc_ok held' e'"
proof -
  obtain st where st: "stone_at s e = Some st"
    and e': "e' = e\<lparr>stone_map := (stone_map e)[s := Some (f st)]\<rparr>"
    using assms(2) by (rule mod_stoneE)
  show ?thesis
  proof (rule rc_transfer [OF assms(1)])
    fix i
    show "evp_refs e' i + held' i = evp_refs e i + held i"
      using evp_refs_mod_stone [OF st, of "f st" i] assms(3) [OF st, of i] by (simp add: e')
  qed (simp_all add: e')
qed

lemma rc_mod_stone_same:
  assumes "rc_ok held e" "mod_stone s f e = Some e'"
    and "\<And>st. queue (f st) = queue st" "\<And>st. proto_actions (f st) = proto_actions st"
  shows "rc_ok held e'"
  by (rule rc_mod_stone [OF assms(1,2)]) (simp add: stone_refs_def assms(3,4))

lemma rc_as_ptr [simp]: "rc_ok held (e\<lparr>as_ptr := a\<rparr>) = rc_ok held e"
  by (simp add: rc_ok_def ref_ok_def evp_refs_def cong: option.case_cong)

lemma rc_leave_queue:
  assumes "rc_ok held e" "leave_queue s q e = Some e'"
    and "\<And>st i. stone_at s e = Some st \<Longrightarrow> queue_refs q i + held' i = queue_refs (queue st) i + held i"
  shows "rc_ok held' e'"
proof -
  from assms(2) obtain e1 a where
    e1: "mod_stone s (\<lambda>st. st\<lparr>queue := q, queue_size := queue_size st - 1\<rparr>) e = Some e1"
    and e': "e' = e1\<lparr>as_ptr := Some a\<rparr>"
    by (auto simp: leave_queue_def crash_simps)
  have "rc_ok held' e1"
    by (rule rc_mod_stone [OF assms(1) e1]) (use assms(3) in \<open>fastforce simp: stone_refs_def\<close>)
  then show ?thesis by (simp add: e')
qed

lemma rc_dequeue_event:
  assumes "rc_ok held e" "dequeue_event s e = Some (r, e')"
  shows "rc_ok (case r of None \<Rightarrow> held | Some i \<Rightarrow> hold i held) e'"
proof -
  obtain st where st: "stone_at s e = Some st"
    using assms(2) by (auto simp: dequeue_event_def crash_simps)
  show ?thesis
  proof (cases "queue st")
    case Nil
    then have "leave_queue s [] e = Some e'" "r = None"
      using assms(2) st by (auto simp: dequeue_event_def raw_dequeue_event_def crash_simps)
    then show ?thesis using st Nil by (auto intro: rc_leave_queue [OF assms(1)])
  next
    case (Cons it q)
    then have l: "leave_queue s q (free_queue_item (qi_addr it) e) = Some e'"
      and r: "r = Some (qi_item it)"
      using assms(2) st by (auto simp: dequeue_event_def raw_dequeue_event_def crash_simps)
    have "stone_at s (free_queue_item (qi_addr it) e) = stone_at s e"
      by (simp add: stone_at_def free_queue_item_def)
    then have "rc_ok (hold (qi_item it) held) e'"
      using st Cons by (intro rc_leave_queue [OF _ l]) (use assms(1) in auto)
    then show ?thesis by (simp add: r)
  qed
qed

lemma rc_dequeue_item:
  assumes "rc_ok held e" "dequeue_item s a e = Some (r, e')"
  shows "rc_ok (case r of None \<Rightarrow> held | Some i \<Rightarrow> hold i held) e'"
proof -
  obtain st where st: "stone_at s e = Some st"
    using assms(2) by (auto simp: dequeue_item_def crash_simps)
  show ?thesis
  proof (cases a)
    case None
    then show ?thesis using assms st by (auto simp: dequeue_item_def crash_simps)
  next
    case (Some x)
    then obtain it q where u: "unlink_item x (queue st) = Some (it, q)"
      and l: "leave_queue s q (free_queue_item x e) = Some e'" and r: "r = Some (qi_item it)"
      using assms(2) st by (auto simp: dequeue_item_def crash_simps)
    have "stone_at s (free_queue_item x e) = stone_at s e"
      by (simp add: stone_at_def free_queue_item_def)
    then have "rc_ok (hold (qi_item it) held) e'"
      using st queue_refs_unlink [OF u]
      by (intro rc_leave_queue [OF _ l]) (use assms(1) in auto)
    then show ?thesis by (simp add: r)
  qed
qed

lemma rc_EVdiscard_queue_item:
  assumes "rc_ok held e" "EVdiscard_queue_item s a e = Some e'"
  shows "rc_ok held e'"
proof -
  from assms(2) obtain st r e1 where d: "dequeue_item st a e = Some (r, e1)"
    and r: "case r of None \<Rightarrow> Some e1 = Some e' | Some ev \<Rightarrow> return_event ev e1 = Some e'"
    by (auto simp: EVdiscard_queue_item_def crash_simps split: option.splits)
  show ?thesis
    using rc_dequeue_item [OF assms(1) d] r
    by (auto split: option.splits dest: rc_return_event)
qed

end
