(* ===== verification/Ev_Stone.thy ===== *)
theory Ev_Stone
  imports Ev_Queue
begin

text \<open>
  Stones and their actions (evp.c: add_proto_action, the INT_EVassoc_*_action and
  INT_EVcreate_*_action family, INT_EVstone_set_output, the split targets, the response
  cache, determine_action, INT_EVfree_stone).
\<close>

section \<open>Proto actions and response cache elements\<close>

definition new_proto_action :: proto_action where
  \<comment> \<open>zeroed memory\<close>
  "new_proto_action =
    \<lparr>action_type = Action_NoAction, input_format_requirements = None,
     matching_reference_formats = None, act_o = AD_None, data_state = Accepts_All,
     act_attrs = None, event_length_sum = 0\<rparr>"

definition new_response :: response_cache_element where
  "new_response =
    \<lparr>rc_reference_format = None, rc_stage = Immediate, rc_action_type = Action_NoAction,
     rc_proto_action_id = 0, rc_requires_decoded = False, rc_o = RD_None\<rparr>"

definition add_proto_action :: "nat \<Rightarrow> evp \<Rightarrow> (EVaction \<times> evp) option" where
  "add_proto_action s e =
    do {
      st \<leftarrow> stone_at s e;
      e \<leftarrow> mod_stone s (\<lambda>st. st\<lparr>proto_actions := proto_actions st @ [new_proto_action]\<rparr>) e;
      Some (int (length (proto_actions st)), e)
    }"

definition set_proto_action :: "nat \<Rightarrow> EVaction \<Rightarrow> (proto_action \<Rightarrow> proto_action) \<Rightarrow> evp \<Rightarrow> evp option"
  where
  \<comment> \<open>a write to stone->proto_actions[a]\<close>
  "set_proto_action s a f e =
    do {
      st \<leftarrow> stone_at s e;
      act \<leftarrow> nth_c (proto_actions st) a;
      acts \<leftarrow> upd_c (proto_actions st) a (f act);
      mod_stone s (\<lambda>st. st\<lparr>proto_actions := acts\<rparr>) e
    }"

definition proto_action_at :: "nat \<Rightarrow> EVaction \<Rightarrow> evp \<Rightarrow> proto_action option" where
  "proto_action_at s a e = do { st \<leftarrow> stone_at s e; nth_c (proto_actions st) a }"

section \<open>The response cache\<close>

definition free_response :: "response_cache_element \<Rightarrow> evp \<Rightarrow> evp option" where
  "free_response resp e =
    (case (rc_action_type resp, rc_o resp) of
       (Action_Decode, RD_Decode d) \<Rightarrow>
         Some (case decode_context d of None \<Rightarrow> e | Some c \<Rightarrow> emit (Eff_free_FFSContext c) e)
     | (Action_Immediate, RD_Imm h c f) \<Rightarrow>
         Some (case f of None \<Rightarrow> e | Some g \<Rightarrow> emit (Eff_int_free g c) e)
     | (Action_Multi, RD_Multi h c f) \<Rightarrow>
         Some (case f of None \<Rightarrow> e | Some g \<Rightarrow> emit (Eff_int_free g c) e)
     | (Action_Decode, _) \<Rightarrow> None
     | (Action_Immediate, _) \<Rightarrow> None
     | (Action_Multi, _) \<Rightarrow> None
     | _ \<Rightarrow> Some e)"

fun free_response_cache :: "response_cache_element list \<Rightarrow> evp \<Rightarrow> evp option" where
  "free_response_cache [] e = Some e"
| "free_response_cache (r # rs) e = do { e \<leftarrow> free_response r e; free_response_cache rs e }"

definition clear_response_cache :: "nat \<Rightarrow> evp \<Rightarrow> evp option" where
  \<comment> \<open>the count is zeroed first, so free_response_cache sees an empty cache\<close>
  "clear_response_cache s e =
    do {
      e \<leftarrow> mod_stone s (\<lambda>st. st\<lparr>response_cache := []\<rparr>) e;
      st \<leftarrow> stone_at s e;
      free_response_cache (response_cache st) e
    }"

text \<open>
  fix_response_cache works on the allocated cells; cells at and past the count are stale. A
  memmove of a negative number of cells has a huge unsigned size and crashes.
\<close>

definition kills :: "FMFormat ptr \<Rightarrow> response_cache_element \<Rightarrow> bool" where
  "kills ref r \<longleftrightarrow> (rc_reference_format r = ref \<or> rc_reference_format r = None) \<and>
    rc_action_type r = Action_NoAction"

definition memmove_down :: "'a list \<Rightarrow> nat \<Rightarrow> int \<Rightarrow> 'a list option" where
  \<comment> \<open>memmove(&a[j], &a[j+1], n * size)\<close>
  "memmove_down cells j n =
    (if n < 0 \<or> int j + 1 + n > int (length cells) then None
     else Some (take j cells @ take (nat n) (drop (Suc j) cells) @ drop (j + nat n) cells))"

function fix_inner ::
    "FMFormat ptr \<Rightarrow> nat \<Rightarrow> nat \<Rightarrow> response_cache_element list \<Rightarrow> int
      \<Rightarrow> (response_cache_element list \<times> int) option" where
  "fix_inner ref i j cells count =
    (if j < i then do {
       r \<leftarrow> nth_c cells (int j);
       if kills ref r then do {
         cells \<leftarrow> memmove_down cells j (count - int j - 1);
         fix_inner ref i (Suc j) cells (count - 1) }
       else fix_inner ref i (Suc j) cells count }
     else Some (cells, count))"
  by pat_completeness auto
termination by (relation "measure (\<lambda>(ref, i, j, cells, count). i - j)") auto

declare fix_inner.simps [simp del]

fun fix_outer ::
    "nat \<Rightarrow> response_cache_element list \<Rightarrow> int \<Rightarrow> (response_cache_element list \<times> int) option"
  where
  \<comment> \<open>the iterations for the indices below the argument, downwards\<close>
  "fix_outer 0 cells count = Some (cells, count)"
| "fix_outer (Suc i) cells count =
    do {
      r \<leftarrow> nth_c cells (int i);
      (cells, count) \<leftarrow> fix_inner (rc_reference_format r) i 0 cells count;
      fix_outer i cells count
    }"

definition fix_response_cache :: "nat \<Rightarrow> evp \<Rightarrow> evp option" where
  "fix_response_cache s e =
    do {
      st \<leftarrow> stone_at s e;
      (cells, count) \<leftarrow> fix_outer (length (response_cache st)) (response_cache st)
                         (int (length (response_cache st)));
      mod_stone s (\<lambda>st. st\<lparr>response_cache := take (nat count) cells\<rparr>) e
    }"

definition compatible_stages :: "action_class \<Rightarrow> action_class \<Rightarrow> bool" where
  "compatible_stages real_stage cache_stage \<longleftrightarrow>
    real_stage = cache_stage \<or> (real_stage = Immediate_and_Multi \<and> cache_stage = Immediate)"

definition decode_target_is :: "response_cache_element \<Rightarrow> FMFormat ptr \<Rightarrow> bool option" where
  \<comment> \<open>the read of o.decode.target_reference_format\<close>
  "decode_target_is r f =
    (case rc_o r of RD_Decode d \<Rightarrow> Some (target_reference_format d = f) | _ \<Rightarrow> None)"

fun check_response_cache_from ::
    "int \<Rightarrow> response_cache_element list \<Rightarrow> action_class \<Rightarrow> event_item \<Rightarrow> int option" where
  "check_response_cache_from i [] stage ev = Some (-1)"
| "check_response_cache_from i (r # rs) stage ev =
    (if rc_reference_format r = reference_format ev then
       (if rc_action_type r = Action_NoAction \<and> stage \<noteq> rc_stage r then
          check_response_cache_from (i + 1) rs stage ev
        else if \<not> compatible_stages stage (rc_stage r) then
          check_response_cache_from (i + 1) rs stage ev
        else if event_encoded ev \<and> rc_requires_decoded r then
          check_response_cache_from (i + 1) rs stage ev
        else if \<not> event_encoded ev \<and> rc_action_type r = Action_Decode then do {
          same \<leftarrow> decode_target_is r (reference_format ev);
          if same then check_response_cache_from (i + 1) rs stage ev else Some i }
        else Some i)
     else if rc_reference_format r = None \<and> \<not> rc_requires_decoded r then Some i
     else check_response_cache_from (i + 1) rs stage ev)"

definition check_response_cache ::
    "response_cache_element list \<Rightarrow> action_class \<Rightarrow> event_item \<Rightarrow> int option" where
  "check_response_cache cache stage ev = check_response_cache_from 0 cache stage ev"

definition default_response ::
    "stone \<Rightarrow> action_class \<Rightarrow> FMFormat ptr \<Rightarrow> response_cache_element option" where
  \<comment> \<open>the entry determine_action installs when no response was found; the members it does not
     set are the memory malloc returned\<close>
  "default_response st stage ref =
    do {
      let dummy = new_response\<lparr>rc_reference_format := ref, rc_stage := stage\<rparr>;
      if default_action st = -1 then Some dummy
      else do {
        proto \<leftarrow> nth_c (proto_actions st) (default_action st);
        cs \<leftarrow> cached_stage_for_action proto;
        if compatible_stages stage cs then
          Some (dummy\<lparr>rc_proto_action_id := default_action st,
                      rc_action_type := action_type proto,
                      rc_requires_decoded := (data_state proto \<noteq> Accepts_All)\<rparr>)
        else Some dummy }
    }"

definition determine_action ::
    "env \<Rightarrow> nat \<Rightarrow> action_class \<Rightarrow> evid \<Rightarrow> evp \<Rightarrow> (int \<times> evp) option" where
  "determine_action env s stage i e =
    do {
      st \<leftarrow> stone_at s e;
      ev \<leftarrow> events e i;
      r \<leftarrow> check_response_cache (response_cache st) stage ev;
      if r \<noteq> -1 then Some (r, e)
      else do {
        (found, e) \<leftarrow> determine_response env (int s) stage i e;
        st \<leftarrow> stone_at s e;
        ev \<leftarrow> events e i;
        if found = 1 then do {
          r \<leftarrow> check_response_cache (response_cache st) stage ev;
          Some (r, e) }
        else do {
          resp \<leftarrow> default_response st stage (reference_format ev);
          e \<leftarrow> mod_stone s (\<lambda>st. st\<lparr>response_cache := response_cache st @ [resp]\<rparr>) e;
          Some (int (length (response_cache st)), e) }
      }
    }"

definition cod_decode_event ::
    "env \<Rightarrow> int \<Rightarrow> EVaction \<Rightarrow> evid \<Rightarrow> evp \<Rightarrow> (evid ptr \<times> evp) option" where
  "cod_decode_event env stone_num act_num i e =
    do {
      ev \<leftarrow> events e i;
      assert_c (decoded_event ev = None);
      s \<leftarrow> stone_deref stone_num e;
      act \<leftarrow> proto_action_at s act_num e;
      stage \<leftarrow> cached_stage_for_action act;
      (resp_id, e) \<leftarrow> determine_action env s stage i e;
      st \<leftarrow> stone_at s e;
      r \<leftarrow> nth_c (response_cache st) resp_id;
      (resp_id, e) \<leftarrow> (if rc_action_type r \<noteq> Action_Decode
                       then determine_action env s Immediate i e else Some (resp_id, e));
      st \<leftarrow> stone_at s e;
      r \<leftarrow> nth_c (response_cache st) resp_id;
      d \<leftarrow> (case rc_o r of RD_Decode d \<Rightarrow> Some d | _ \<Rightarrow> None);
      decode_action env i d e
    }"

section \<open>Associating actions\<close>

definition format_vector :: "FMFormat ptr \<Rightarrow> FMFormat list" where
  \<comment> \<open>a two-element array, the format and NULL: what precedes the first NULL\<close>
  "format_vector f = (case f of None \<Rightarrow> [] | Some x \<Rightarrow> [x])"

definition first_format :: "FMFormat list \<Rightarrow> FMFormat ptr" where
  "first_format fs = (case fs of [] \<Rightarrow> None | f # _ \<Rightarrow> Some f)"

definition append_proto_action :: "nat \<Rightarrow> proto_action \<Rightarrow> evp \<Rightarrow> evp option" where
  "append_proto_action s act =
    mod_stone s (\<lambda>st. st\<lparr>proto_actions := proto_actions st @ [act]\<rparr>)"

definition INT_EVassoc_terminal_action ::
    "env \<Rightarrow> EVstone \<Rightarrow> addr ptr \<Rightarrow> addr \<Rightarrow> addr ptr \<Rightarrow> evp \<Rightarrow> (EVaction \<times> evp) option" where
  "INT_EVassoc_terminal_action env stone_num format_list handler client_data e =
    do {
      s \<leftarrow> stone_deref stone_num e;
      st \<leftarrow> stone_at s e;
      let proto_num = int (length (proto_actions st));
      let action_num = int (length (response_cache st));
      let formats = map_option (\<lambda>fl. format_vector (register_format_set env fl)) format_list;
      let state = (if format_list \<noteq> None then Requires_Decoded else Requires_Contig_Encoded);
      let act = new_proto_action\<lparr>input_format_requirements := format_list,
            action_type := Action_Terminal,
            act_o := AD_Term \<lparr>term_handler = handler, term_client_data = client_data,
                             term_target_stone_id = 0\<rparr>,
            matching_reference_formats := formats, data_state := state\<rparr>;
      e \<leftarrow> (if format_list \<noteq> None then Some e
            else mod_stone s (\<lambda>st. st\<lparr>default_action := action_num\<rparr>) e);
      let resp = new_response\<lparr>rc_action_type := Action_Terminal,
            rc_requires_decoded := (state \<noteq> Accepts_All),
            rc_reference_format := (case formats of None \<Rightarrow> None | Some fs \<Rightarrow> first_format fs),
            rc_proto_action_id := proto_num\<rparr>;
      e \<leftarrow> append_proto_action s act e;
      e \<leftarrow> mod_stone s (\<lambda>st. st\<lparr>response_cache := response_cache st @ [resp]\<rparr>) e;
      Some (action_num, e)
    }"

definition INT_EVassoc_raw_terminal_action ::
    "env \<Rightarrow> EVstone \<Rightarrow> addr \<Rightarrow> addr ptr \<Rightarrow> evp \<Rightarrow> (EVaction \<times> evp) option" where
  "INT_EVassoc_raw_terminal_action env stone_num handler client_data e =
    INT_EVassoc_terminal_action env stone_num None handler client_data e"

definition INT_EVcreate_terminal_action ::
    "env \<Rightarrow> addr ptr \<Rightarrow> addr \<Rightarrow> addr ptr \<Rightarrow> evp \<Rightarrow> (EVstone \<times> evp) option" where
  "INT_EVcreate_terminal_action env format_list handler client_data e =
    do {
      let (stone, e) = INT_EValloc_stone e;
      (_, e) \<leftarrow> INT_EVassoc_terminal_action env stone format_list handler client_data e;
      Some (stone, e)
    }"

text \<open>The three actions whose handler response.c compiles from a specification.\<close>

definition INT_EVassoc_immediate_action ::
    "env \<Rightarrow> EVstone \<Rightarrow> string \<Rightarrow> addr ptr \<Rightarrow> evp \<Rightarrow> (EVaction \<times> evp) option" where
  "INT_EVassoc_immediate_action env stone_num action_spec client_data e =
    do {
      p \<leftarrow> stone_struct stone_num e;
      case p of
        None \<Rightarrow> Some (-1, e)
      | Some s \<Rightarrow> do {
          (action_num, e) \<leftarrow> add_proto_action s e;
          e \<leftarrow> set_proto_action s action_num (\<lambda>_. new_proto_action\<lparr>data_state := Requires_Decoded,
                 action_type := Action_Immediate\<rparr>) e;
          ((mrd, formats), e) \<leftarrow> install_response_handler env stone_num action_spec client_data e;
          e \<leftarrow> set_proto_action s action_num (\<lambda>act. act\<lparr>act_o := AD_Imm mrd,
                 matching_reference_formats := formats\<rparr>) e;
          e \<leftarrow> (if formats = Some [] then do {
                  e \<leftarrow> mod_stone s (\<lambda>st. st\<lparr>default_action := action_num\<rparr>) e;
                  set_proto_action s action_num (\<lambda>act. act\<lparr>data_state := Accepts_All\<rparr>) e }
                else Some e);
          e \<leftarrow> clear_response_cache s e;
          Some (action_num, e) }
    }"

definition assoc_response_action ::
    "action_value \<Rightarrow> env \<Rightarrow> EVstone \<Rightarrow> string \<Rightarrow> addr ptr \<Rightarrow> evp \<Rightarrow> (EVaction \<times> evp) option" where
  \<comment> \<open>the common body of INT_EVassoc_multi_action and INT_EVassoc_congestion_action; the count
     is incremented after the cell is written\<close>
  "assoc_response_action ty env stone_num action_spec client_data e =
    do {
      p \<leftarrow> stone_struct stone_num e;
      case p of
        None \<Rightarrow> Some (-1, e)
      | Some s \<Rightarrow> do {
          st \<leftarrow> stone_at s e;
          let action_num = int (length (proto_actions st));
          ((mrd, formats), e) \<leftarrow> install_response_handler env stone_num action_spec client_data e;
          e \<leftarrow> append_proto_action s (new_proto_action\<lparr>data_state := Requires_Decoded,
                 action_type := ty, act_o := AD_Imm mrd, matching_reference_formats := formats\<rparr>) e;
          e \<leftarrow> clear_response_cache s e;
          Some (action_num, e) }
    }"

definition INT_EVassoc_multi_action ::
    "env \<Rightarrow> EVstone \<Rightarrow> string \<Rightarrow> addr ptr \<Rightarrow> evp \<Rightarrow> (EVaction \<times> evp) option" where
  "INT_EVassoc_multi_action = assoc_response_action Action_Multi"

definition INT_EVassoc_congestion_action ::
    "env \<Rightarrow> EVstone \<Rightarrow> string \<Rightarrow> addr ptr \<Rightarrow> evp \<Rightarrow> (EVaction \<times> evp) option" where
  "INT_EVassoc_congestion_action = assoc_response_action Action_Congestion"

definition INT_EVassoc_filter_action ::
    "env \<Rightarrow> EVstone \<Rightarrow> addr ptr \<Rightarrow> addr \<Rightarrow> EVstone \<Rightarrow> addr ptr \<Rightarrow> evp \<Rightarrow> (EVaction \<times> evp) option" where
  "INT_EVassoc_filter_action env stone_num format_list handler out_stone_num client_data e =
    do {
      p \<leftarrow> stone_struct stone_num e;
      case p of
        None \<Rightarrow> Some (-1, e)
      | Some s \<Rightarrow> do {
          st \<leftarrow> stone_at s e;
          let num = int (length (proto_actions st));
          e \<leftarrow> append_proto_action s (new_proto_action\<lparr>input_format_requirements := format_list,
                 action_type := Action_Filter,
                 act_o := AD_Term \<lparr>term_handler = handler, term_client_data = client_data,
                                  term_target_stone_id = out_stone_num\<rparr>,
                 data_state := Requires_Decoded,
                 matching_reference_formats :=
                   map_option (\<lambda>fl. format_vector (register_format_set env fl)) format_list\<rparr>) e;
          e \<leftarrow> clear_response_cache s e;
          Some (num, e) }
    }"

definition new_store :: "EVstone \<Rightarrow> int \<Rightarrow> storage_proto_vals" where
  "new_store out_stone store_limit =
    \<lparr>store_target_stone_id = out_stone, is_paused = 0, is_sending = False,
     max_stored = store_limit, num_stored = 0, store_queue = storage_queue_init\<rparr>"

definition INT_EVassoc_store_action ::
    "EVstone \<Rightarrow> EVstone \<Rightarrow> int \<Rightarrow> evp \<Rightarrow> (EVaction \<times> evp) option" where
  "INT_EVassoc_store_action stone_num out_stone store_limit e =
    do {
      p \<leftarrow> stone_struct stone_num e;
      case p of
        None \<Rightarrow> Some (-1, e)
      | Some s \<Rightarrow> do {
          (action_num, e) \<leftarrow> add_proto_action s e;
          e \<leftarrow> set_proto_action s action_num (\<lambda>act. act\<lparr>data_state := Accepts_All,
                 action_type := Action_Store, matching_reference_formats := Some [],
                 act_o := AD_Store (new_store out_stone store_limit)\<rparr>) e;
          e \<leftarrow> clear_response_cache s e;
          e \<leftarrow> mod_stone s (\<lambda>st. st\<lparr>default_action := action_num\<rparr>) e;
          Some (action_num, e) }
    }"

definition INT_EVcreate_store_action :: "EVstone \<Rightarrow> int \<Rightarrow> evp \<Rightarrow> (EVstone \<times> evp) option" where
  "INT_EVcreate_store_action out_stone store_limit e =
    do {
      let (stone, e) = INT_EValloc_stone e;
      (_, e) \<leftarrow> INT_EVassoc_store_action stone out_stone store_limit e;
      Some (stone, e)
    }"

definition store_at :: "nat \<Rightarrow> EVaction \<Rightarrow> evp \<Rightarrow> storage_proto_vals option" where
  "store_at s a e =
    do { act \<leftarrow> proto_action_at s a e; case act_o act of AD_Store v \<Rightarrow> Some v | _ \<Rightarrow> None }"

definition set_store :: "nat \<Rightarrow> EVaction \<Rightarrow> storage_proto_vals \<Rightarrow> evp \<Rightarrow> evp option" where
  "set_store s a v e = set_proto_action s a (\<lambda>act. act\<lparr>act_o := AD_Store v\<rparr>) e"

definition INT_EVclear_stored :: "EVstone \<Rightarrow> EVaction \<Rightarrow> evp \<Rightarrow> evp option" where
  "INT_EVclear_stored stone_num action_num e =
    do {
      p \<leftarrow> stone_struct stone_num e;
      case p of
        None \<Rightarrow> Some e
      | Some s \<Rightarrow> do {
          v \<leftarrow> store_at s action_num e;
          (q, e) \<leftarrow> storage_queue_empty (store_queue v) e;
          set_store s action_num (v\<lparr>store_queue := q\<rparr>) e }
    }"

definition INT_EVassoc_conversion_action ::
    "env \<Rightarrow> EVstone \<Rightarrow> FMFormat \<Rightarrow> FMFormat \<Rightarrow> evp \<Rightarrow> evp option" where
  "INT_EVassoc_conversion_action env stone_id target_format incoming_format e =
    do {
      p \<leftarrow> stone_struct stone_id e;
      case p of
        None \<Rightarrow> Some e
      | Some s \<Rightarrow> do {
          let (ctx, e) = malloc e;
          let act = new_response\<lparr>rc_requires_decoded := False, rc_action_type := Action_Decode,
                rc_reference_format := Some incoming_format, rc_stage := Immediate,
                rc_o := RD_Decode \<lparr>decode_format = FFSTypeHandle_from_encode env ctx incoming_format,
                  target_reference_format = Some target_format, decode_context = Some ctx\<rparr>\<rparr>;
          mod_stone s (\<lambda>st. st\<lparr>response_cache := response_cache st @ [act]\<rparr>) e }
    }"

definition INT_EVassoc_mutated_imm_action ::
    "EVstone \<Rightarrow> EVaction \<Rightarrow> imm_fn \<Rightarrow> addr \<Rightarrow> FMFormat ptr \<Rightarrow> int_free_fn ptr \<Rightarrow> evp
      \<Rightarrow> (EVaction \<times> evp) option" where
  "INT_EVassoc_mutated_imm_action stone_id act_num func client_data ref ff e =
    do {
      p \<leftarrow> stone_struct stone_id e;
      case p of
        None \<Rightarrow> Some (-1, e)
      | Some s \<Rightarrow> do {
          st \<leftarrow> stone_at s e;
          act \<leftarrow> nth_c (proto_actions st) act_num;
          stage \<leftarrow> cached_stage_for_action act;
          let resp = new_response\<lparr>rc_action_type := Action_Immediate, rc_requires_decoded := True,
                rc_proto_action_id := act_num, rc_o := RD_Imm func client_data ff,
                rc_reference_format := ref, rc_stage := stage\<rparr>;
          e \<leftarrow> mod_stone s (\<lambda>st. st\<lparr>response_cache := response_cache st @ [resp]\<rparr>) e;
          Some (int (length (response_cache st)), e) }
    }"

definition multi_response ::
    "proto_action \<Rightarrow> EVaction \<Rightarrow> multi_fn \<Rightarrow> addr \<Rightarrow> int_free_fn ptr \<Rightarrow> bool \<Rightarrow> FMFormat ptr
      \<Rightarrow> response_cache_element option" where
  "multi_response act act_num func client_data ff dec ref =
    do {
      stage \<leftarrow> cached_stage_for_action act;
      Some (new_response\<lparr>rc_action_type := action_type act, rc_requires_decoded := dec,
              rc_proto_action_id := act_num, rc_o := RD_Multi func client_data ff,
              rc_stage := stage, rc_reference_format := ref\<rparr>) }"

definition INT_EVassoc_anon_multi_action ::
    "EVstone \<Rightarrow> EVaction \<Rightarrow> multi_fn \<Rightarrow> addr \<Rightarrow> FMFormat ptr \<Rightarrow> evp \<Rightarrow> (EVaction \<times> evp) option" where
  "INT_EVassoc_anon_multi_action stone_id act_num func client_data anon_target e =
    do {
      s \<leftarrow> stone_deref stone_id e;
      st \<leftarrow> stone_at s e;
      act \<leftarrow> nth_c (proto_actions st) act_num;
      resp \<leftarrow> multi_response act act_num func client_data None False anon_target;
      e \<leftarrow> mod_stone s (\<lambda>st. st\<lparr>response_cache := response_cache st @ [resp]\<rparr>) e;
      e \<leftarrow> fix_response_cache s e;
      Some (int (length (response_cache st)), e)
    }"

fun map_c :: "('a \<Rightarrow> 'b option) \<Rightarrow> 'a list \<Rightarrow> 'b list option" where
  "map_c f [] = Some []"
| "map_c f (x # xs) = do { y \<leftarrow> f x; ys \<leftarrow> map_c f xs; Some (y # ys) }"

definition INT_EVassoc_mutated_multi_action ::
    "EVstone \<Rightarrow> EVaction \<Rightarrow> multi_fn \<Rightarrow> addr \<Rightarrow> FMFormat list \<Rightarrow> int_free_fn ptr \<Rightarrow> evp
      \<Rightarrow> (EVaction \<times> evp) option" where
  \<comment> \<open>\<open>reference_formats\<close> is the array up to its NULL\<close>
  "INT_EVassoc_mutated_multi_action stone_id act_num func client_data reference_formats ff e =
    do {
      s \<leftarrow> stone_deref stone_id e;
      st \<leftarrow> stone_at s e;
      resps \<leftarrow> map_c (\<lambda>ref. do {
                 act \<leftarrow> nth_c (proto_actions st) act_num;
                 multi_response act act_num func client_data ff True (Some ref) })
               reference_formats;
      e \<leftarrow> mod_stone s (\<lambda>st. st\<lparr>response_cache := response_cache st @ resps\<rparr>) e;
      e \<leftarrow> fix_response_cache s e;
      Some (int (length (response_cache st)), e)
    }"

definition with_lock :: "(evp \<Rightarrow> ('a \<times> evp) option) \<Rightarrow> evp \<Rightarrow> ('a \<times> evp) option" where
  \<comment> \<open>an interface function around its INT_ function: CManager_lock of a lock the caller holds
     never returns\<close>
  "with_lock f e =
    (if locked e > 0 then None
     else do {
       (r, e) \<leftarrow> f (e\<lparr>locked := locked e + 1\<rparr>);
       Some (r, e\<lparr>locked := locked e - 1\<rparr>) })"

section \<open>Bridges\<close>

definition stone_close_registration :: "conn \<Rightarrow> EVstone \<Rightarrow> evp \<Rightarrow> evp" where
  "stone_close_registration c stone_num e = emit (Eff_register_close_handler c stone_num) e"

definition INT_EVassoc_bridge_action ::
    "env \<Rightarrow> EVstone \<Rightarrow> addr ptr \<Rightarrow> EVstone \<Rightarrow> evp \<Rightarrow> (EVaction \<times> evp) option" where
  "INT_EVassoc_bridge_action env stone_num contact_list remote_stone e =
    do {
      p \<leftarrow> stone_struct stone_num e;
      case p of
        None \<Rightarrow> Some (-1, e)
      | Some s \<Rightarrow> do {
          st \<leftarrow> stone_at s e;
          let action_num = int (length (proto_actions st));
          let e = (case contact_list of None \<Rightarrow> e | Some a \<Rightarrow> emit (Eff_add_ref_attr_list a) e);
          let (con, e) = (if no_lazy_bridge env then get_conn env contact_list e else (None, e));
          if no_lazy_bridge env \<and> con = None then Some (-1, e)
          else do {
            let e = (case con of None \<Rightarrow> e | Some c \<Rightarrow> stone_close_registration c stone_num e);
            e \<leftarrow> append_proto_action s (new_proto_action\<lparr>action_type := Action_Bridge,
                   act_o := AD_Bridge \<lparr>bri_conn = con, bri_remote_stone_id = remote_stone,
                     bri_remote_path = None, bri_conn_failed = False,
                     bri_remote_contact = contact_list\<rparr>\<rparr>) e;
            e \<leftarrow> mod_stone s (\<lambda>st. st\<lparr>default_action := action_num\<rparr>) e;
            e \<leftarrow> clear_response_cache s e;
            Some (action_num, e) } }
    }"

definition INT_EVcreate_bridge_action ::
    "env \<Rightarrow> addr ptr \<Rightarrow> EVstone \<Rightarrow> evp \<Rightarrow> (EVstone \<times> evp) option" where
  "INT_EVcreate_bridge_action env contact_list remote_stone e =
    do {
      let (stone, e) = INT_EValloc_stone e;
      (_, e) \<leftarrow> INT_EVassoc_bridge_action env stone contact_list remote_stone e;
      Some (stone, e)
    }"

definition EVassoc_output_action ::
    "env \<Rightarrow> EVstone \<Rightarrow> addr ptr \<Rightarrow> EVstone \<Rightarrow> evp \<Rightarrow> (EVaction \<times> evp) option" where
  "EVassoc_output_action env stone_num contact_list remote_stone e =
    with_lock (INT_EVassoc_bridge_action env stone_num contact_list remote_stone) e"

definition EVcreate_output_action ::
    "env \<Rightarrow> addr ptr \<Rightarrow> EVstone \<Rightarrow> evp \<Rightarrow> (EVstone \<times> evp) option" where
  "EVcreate_output_action env contact_list remote_stone e =
    with_lock (INT_EVcreate_bridge_action env contact_list remote_stone) e"

definition INT_EVassoc_thread_bridge_action ::
    "EVstone \<Rightarrow> addr \<Rightarrow> EVstone \<Rightarrow> evp \<Rightarrow> (EVaction \<times> evp) option" where
  "INT_EVassoc_thread_bridge_action stone_num target_cm target_stone e =
    do {
      p \<leftarrow> stone_struct stone_num e;
      case p of
        None \<Rightarrow> Some (-1, e)
      | Some s \<Rightarrow> do {
          st \<leftarrow> stone_at s e;
          let action_num = int (length (proto_actions st));
          e \<leftarrow> append_proto_action s (new_proto_action\<lparr>action_type := Action_Thread_Bridge,
                 act_o := AD_Thread \<lparr>thr_target_stone_id = target_stone, thr_target_cm = target_cm,
                                   thr_target_cm_shutdown = False\<rparr>\<rparr>) e;
          e \<leftarrow> mod_stone s (\<lambda>st. st\<lparr>default_action := action_num\<rparr>) e;
          e \<leftarrow> clear_response_cache s e;
          Some (action_num, e) }
    }"

definition INT_EVcreate_thread_bridge_action ::
    "addr \<Rightarrow> EVstone \<Rightarrow> evp \<Rightarrow> (EVstone \<times> evp) option" where
  "INT_EVcreate_thread_bridge_action target_cm target_stone e =
    do {
      let (stone, e) = INT_EValloc_stone e;
      (_, e) \<leftarrow> INT_EVassoc_thread_bridge_action stone target_cm target_stone e;
      Some (stone, e)
    }"

definition is_bridge_stone :: "EVstone \<Rightarrow> evp \<Rightarrow> bool option" where
  "is_bridge_stone stone_num e =
    do {
      s \<leftarrow> stone_deref stone_num e;
      st \<leftarrow> stone_at s e;
      if default_action st = -1 then Some False
      else do { act \<leftarrow> nth_c (proto_actions st) (default_action st);
                Some (action_type act = Action_Bridge) }
    }"

section \<open>Outputs\<close>

text \<open>
  \<open>output_stone_ids\<close> holds the initialised cells of the allocated array; reading or writing
  outside them is undefined.
\<close>

definition set_output :: "int list \<Rightarrow> int \<Rightarrow> int \<Rightarrow> EVstone \<Rightarrow> (int list \<times> int) option" where
  \<comment> \<open>the array and count part of INT_EVstone_set_output; a negative index or count writes in
     front of the array\<close>
  "set_output ids cnt output_index output_stone =
    (if output_index < 0 \<or> cnt < 0 then None
     else if output_index \<ge> cnt then
       Some (take (nat cnt) ids @ replicate (nat (output_index - cnt)) (-1)
               @ [output_stone], output_index + 1)
     else do { ids \<leftarrow> upd_c ids output_index output_stone; Some (ids, cnt) })"

definition INT_EVstone_set_output :: "EVstone \<Rightarrow> int \<Rightarrow> EVstone \<Rightarrow> evp \<Rightarrow> (int \<times> evp) option" where
  "INT_EVstone_set_output stone_num output_index output_stone e =
    do {
      p \<leftarrow> stone_struct stone_num e;
      case p of
        None \<Rightarrow> Some (-1, e)
      | Some s \<Rightarrow> do {
          st \<leftarrow> stone_at s e;
          (ids, n) \<leftarrow> set_output (output_stone_ids st) (output_count st) output_index output_stone;
          e \<leftarrow> mod_stone s (\<lambda>st. st\<lparr>output_stone_ids := ids, output_count := n\<rparr>) e;
          Some (1, e) }
    }"

definition INT_EVaction_set_output ::
    "EVstone \<Rightarrow> EVaction \<Rightarrow> int \<Rightarrow> EVstone \<Rightarrow> evp \<Rightarrow> (int \<times> evp) option" where
  "INT_EVaction_set_output stone_num act_num output_index output_stone e =
    INT_EVstone_set_output stone_num output_index output_stone e"

definition local_target :: "EVstone \<Rightarrow> evp \<Rightarrow> EVstone" where
  "local_target t e = (if is_global t then lookup_local_stone e t else t)"

definition add_target :: "int list \<Rightarrow> int \<Rightarrow> EVstone \<Rightarrow> (int list \<times> int) option" where
  "add_target ids n t =
    (if n < 0 then None else Some (take (nat n) ids @ [t], n + 1))"

definition INT_EVstone_add_split_target :: "EVstone \<Rightarrow> EVstone \<Rightarrow> evp \<Rightarrow> (int \<times> evp) option" where
  "INT_EVstone_add_split_target stone_num new_stone_target e =
    do {
      p \<leftarrow> stone_struct stone_num e;
      case p of
        None \<Rightarrow> Some (-1, e)
      | Some s \<Rightarrow> do {
          let t = local_target new_stone_target e;
          st \<leftarrow> stone_at s e;
          (ids, n) \<leftarrow> add_target (output_stone_ids st) (output_count st) t;
          e \<leftarrow> mod_stone s (\<lambda>st. st\<lparr>output_stone_ids := ids, output_count := n\<rparr>) e;
          Some (1, e) }
    }"

definition INT_EVaction_add_split_target ::
    "EVstone \<Rightarrow> EVaction \<Rightarrow> EVstone \<Rightarrow> evp \<Rightarrow> (int \<times> evp) option" where
  "INT_EVaction_add_split_target stone_num action_num new_stone_target e =
    INT_EVstone_add_split_target stone_num new_stone_target e"

function scan_target :: "int list \<Rightarrow> int \<Rightarrow> int \<Rightarrow> int \<Rightarrow> int option" where
  \<comment> \<open>the while loop of INT_EVstone_remove_split_target: the cell is read before the bound\<close>
  "scan_target ids target n pos =
    do {
      x \<leftarrow> nth_c ids pos;
      if x \<noteq> target \<and> pos < n then scan_target ids target n (pos + 1) else Some pos }"
  by pat_completeness auto
termination by (relation "measure (\<lambda>(ids, target, n, pos). nat (n - pos))") auto

declare scan_target.simps [simp del]

definition remove_target :: "int list \<Rightarrow> int \<Rightarrow> EVstone \<Rightarrow> (int list \<times> int) option" where
  "remove_target ids n target =
    do {
      pos \<leftarrow> scan_target ids target n 0;
      Some (shift_down (nat pos) (take (nat n) ids) @ drop (nat n) ids, n - 1) }"

definition INT_EVstone_remove_split_target :: "EVstone \<Rightarrow> EVstone \<Rightarrow> evp \<Rightarrow> evp option" where
  "INT_EVstone_remove_split_target stone_num stone_target e =
    do {
      p \<leftarrow> stone_struct stone_num e;
      case p of
        None \<Rightarrow> Some e
      | Some s \<Rightarrow> do {
          let t = local_target stone_target e;
          st \<leftarrow> stone_at s e;
          (ids, n) \<leftarrow> remove_target (output_stone_ids st) (output_count st) t;
          mod_stone s (\<lambda>st. st\<lparr>output_stone_ids := ids, output_count := n\<rparr>) e }
    }"

definition INT_EVaction_remove_split_target ::
    "EVstone \<Rightarrow> EVaction \<Rightarrow> EVstone \<Rightarrow> evp \<Rightarrow> evp option" where
  "INT_EVaction_remove_split_target stone_num action_num stone_target e =
    INT_EVstone_remove_split_target stone_num stone_target e"

fun add_split_targets :: "EVstone \<Rightarrow> EVstone list \<Rightarrow> evp \<Rightarrow> evp option" where
  "add_split_targets stone_num [] e = Some e"
| "add_split_targets stone_num (t # ts) e =
    do { (_, e) \<leftarrow> INT_EVstone_add_split_target stone_num t e;
         add_split_targets stone_num ts e }"

definition INT_EVassoc_split_action ::
    "EVstone \<Rightarrow> EVstone list ptr \<Rightarrow> evp \<Rightarrow> (EVaction \<times> evp) option" where
  \<comment> \<open>\<open>target_stone_list\<close> is the array up to its terminating -1\<close>
  "INT_EVassoc_split_action stone_num target_stone_list e =
    do {
      p \<leftarrow> stone_struct stone_num e;
      case p of
        None \<Rightarrow> Some (-1, e)
      | Some s \<Rightarrow> do {
          st \<leftarrow> stone_at s e;
          let action_num = int (length (proto_actions st));
          let targets = (case target_stone_list of None \<Rightarrow> [] | Some l \<Rightarrow> l);
          e \<leftarrow> add_split_targets stone_num targets e;
          e \<leftarrow> append_proto_action s (new_proto_action\<lparr>action_type := Action_Split\<rparr>) e;
          e \<leftarrow> mod_stone s (\<lambda>st. st\<lparr>output_count := int (length targets),
                 default_action := action_num\<rparr>) e;
          e \<leftarrow> clear_response_cache s e;
          Some (action_num, e) }
    }"

definition INT_EVcreate_split_action :: "EVstone list ptr \<Rightarrow> evp \<Rightarrow> (EVstone \<times> evp) option" where
  "INT_EVcreate_split_action target_stone_list e =
    do {
      let (stone, e) = INT_EValloc_stone e;
      (_, e) \<leftarrow> INT_EVassoc_split_action stone target_stone_list e;
      Some (stone, e)
    }"

fun set_outputs :: "EVstone \<Rightarrow> EVaction \<Rightarrow> int \<Rightarrow> EVstone list \<Rightarrow> evp \<Rightarrow> evp option" where
  "set_outputs stone action i [] e = Some e"
| "set_outputs stone action i (t # ts) e =
    do { (_, e) \<leftarrow> INT_EVaction_set_output stone action i t e;
         set_outputs stone action (i + 1) ts e }"

definition INT_EVcreate_immediate_action ::
    "env \<Rightarrow> string \<Rightarrow> EVstone list ptr \<Rightarrow> evp \<Rightarrow> (EVstone \<times> evp) option" where
  \<comment> \<open>\<open>target_list\<close> is the array up to its terminating 0. The interface function
     EVassoc_immediate_action is called, which locks again.\<close>
  "INT_EVcreate_immediate_action env action_spec target_list e =
    do {
      let (stone, e) = INT_EValloc_stone e;
      (action, e) \<leftarrow> with_lock (INT_EVassoc_immediate_action env stone action_spec None) e;
      e \<leftarrow> set_outputs stone action 0 (case target_list of None \<Rightarrow> [] | Some l \<Rightarrow> l) e;
      Some (stone, e)
    }"

section \<open>Freeing a stone\<close>

definition eff_opt :: "('a \<Rightarrow> effect) \<Rightarrow> 'a ptr \<Rightarrow> evp \<Rightarrow> evp" where
  "eff_opt f p e = (case p of None \<Rightarrow> e | Some a \<Rightarrow> emit (f a) e)"

definition free_proto_action :: "nat \<Rightarrow> EVaction \<Rightarrow> evp \<Rightarrow> evp option" where
  \<comment> \<open>one iteration of the loop of INT_EVfree_stone\<close>
  "free_proto_action s a e =
    do {
      act \<leftarrow> proto_action_at s a e;
      let e = eff_opt Eff_free_attr_list (act_attrs act) e;
      case action_type act of
        Action_Bridge \<Rightarrow> (case act_o act of
            AD_Bridge b \<Rightarrow>
              set_proto_action s a (\<lambda>act. act\<lparr>act_o := AD_Bridge (b\<lparr>bri_remote_contact := None,
                                       bri_remote_path := None\<rparr>)\<rparr>)
                (eff_opt Eff_free_attr_list (bri_remote_contact b)
                  (eff_opt (\<lambda>c. Eff_conn_dereference (Some c)) (bri_conn b) e))
          | _ \<Rightarrow> None)
      | Action_Decode \<Rightarrow> (case act_o act of
            AD_Decode d \<Rightarrow>
              set_proto_action s a (\<lambda>act. act\<lparr>act_o := AD_Decode (d\<lparr>decode_context := None\<rparr>)\<rparr>)
                (eff_opt Eff_free_FFSContext (decode_context d) e)
          | _ \<Rightarrow> None)
      | Action_Store \<Rightarrow> (case act_o act of
            AD_Store v \<Rightarrow> do {
              (q, e) \<leftarrow> storage_queue_cleanup (store_queue v) e;
              set_store s a (v\<lparr>store_queue := q\<rparr>) e }
          | _ \<Rightarrow> None)
      | x \<Rightarrow>
          (if x \<in> {Action_Immediate, Action_Multi, Action_Congestion} then
             (case act_o act of
                AD_Imm m \<Rightarrow> Some (eff_opt Eff_response_data_free m e)
              | _ \<Rightarrow> None)
           else Some e)
    }"

fun free_proto_actions :: "nat \<Rightarrow> int \<Rightarrow> nat \<Rightarrow> evp \<Rightarrow> evp option" where
  "free_proto_actions s a 0 e = Some e"
| "free_proto_actions s a (Suc n) e =
    do { e \<leftarrow> free_proto_action s a e; free_proto_actions s (a + 1) n e }"

partial_function (option) free_stone_queue :: "nat \<Rightarrow> evp \<Rightarrow> evp option" where
  \<comment> \<open>while (stone->queue->queue_head != NULL)\<close>
  "free_stone_queue s e =
    do {
      st \<leftarrow> stone_at s e;
      if queue st = [] then Some e
      else do {
        (event, e) \<leftarrow> dequeue_event s e;
        i \<leftarrow> event;
        e \<leftarrow> return_event i e;
        free_stone_queue s e }
    }"

definition INT_EVfree_stone :: "EVstone \<Rightarrow> evp \<Rightarrow> evp option" where
  "INT_EVfree_stone stone_num e =
    do {
      p \<leftarrow> stone_struct stone_num e;
      case p of
        None \<Rightarrow> Some e
      | Some s \<Rightarrow> do {
          st \<leftarrow> stone_at s e;
          if local_id st = -1 then Some e
          else do {
            let e = eff_opt Eff_remove_task (periodic_handle st) e;
            e \<leftarrow> mod_stone s (\<lambda>st. st\<lparr>periodic_handle := None\<rparr>) e;
            e \<leftarrow> free_proto_actions s 0 (length (proto_actions st)) e;
            e \<leftarrow> free_stone_queue s e;
            st \<leftarrow> stone_at s e;
            e \<leftarrow> free_response_cache (response_cache st) e;
            let e = eff_opt Eff_free_attr_list (stone_attrs st) e;
            let e = remove_stone_from_lookup stone_num e;
            slots \<leftarrow> upd_c (stone_map e) (local_id st - stone_base_num e) None;
            Some (e\<lparr>stone_map := slots\<rparr>) } }
    }"

section \<open>The output array\<close>

definition outputs_wf :: "int list \<Rightarrow> int \<Rightarrow> bool" where
  "outputs_wf ids n \<longleftrightarrow> 0 \<le> n \<and> n \<le> int (length ids)"

lemma set_output_spec:
  assumes "outputs_wf ids n" "0 \<le> i"
  shows "\<exists>ids' n'. set_output ids n i t = Some (ids', n') \<and> outputs_wf ids' n' \<and>
    n' = max n (i + 1) \<and> ids' ! nat i = t \<and>
    (\<forall>k. 0 \<le> k \<and> k < n' \<and> k \<noteq> i \<longrightarrow> ids' ! nat k = (if k < n then ids ! nat k else -1))"
proof (cases "i \<ge> n")
  case True
  let ?ids = "take (nat n) ids @ replicate (nat (i - n)) (-1) @ [t]"
  have l: "length (take (nat n) ids) = nat n"
    using assms by (auto simp: outputs_wf_def nat_le_iff)
  have nn: "nat n + nat (i - n) = nat i"
    using assms True by (simp add: outputs_wf_def nat_add_distrib [symmetric])
  have "length ?ids = nat i + 1" using l nn by simp
  moreover have "?ids ! nat i = t"
  proof -
    have "?ids ! (nat n + nat (i - n)) = t" using l by (simp add: nth_append)
    then show ?thesis using nn by simp
  qed
  moreover have "?ids ! nat k = (if k < n then ids ! nat k else -1)"
    if "0 \<le> k" "k < i + 1" "k \<noteq> i" for k
    using assms True l that by (auto simp: nth_append outputs_wf_def nat_less_iff)
  ultimately show ?thesis
    using assms True by (auto simp: set_output_def outputs_wf_def max_def)
next
  case False
  then show ?thesis
    using assms by (auto simp: set_output_def outputs_wf_def upd_c_def max_def nth_list_update)
qed

lemma scan_target_stops:
  assumes "0 \<le> pos" "scan_target ids target n pos = Some p"
  shows "pos \<le> p \<and> p < int (length ids) \<and> (p < n \<longrightarrow> ids ! nat p = target) \<and>
    (\<forall>k. pos \<le> k \<and> k < p \<longrightarrow> ids ! nat k \<noteq> target \<and> k < n)"
  using assms
proof (induction ids target n pos rule: scan_target.induct)
  case (1 ids target n pos)
  obtain x where x: "nth_c ids pos = Some x"
    using 1(3) by (subst (asm) scan_target.simps) (auto simp: crash_simps)
  show ?case
  proof (cases "x \<noteq> target \<and> pos < n")
    case True
    then have "scan_target ids target n (pos + 1) = Some p"
      using 1(3) x by (subst (asm) scan_target.simps) simp
    then have ih: "pos + 1 \<le> p \<and> p < int (length ids) \<and> (p < n \<longrightarrow> ids ! nat p = target) \<and>
        (\<forall>k. pos + 1 \<le> k \<and> k < p \<longrightarrow> ids ! nat k \<noteq> target \<and> k < n)"
      using 1(1) [OF x True] 1(2) by simp
    have "ids ! nat pos = x" using x by (simp add: crash_simps)
    then have "ids ! nat k \<noteq> target \<and> k < n" if "pos \<le> k" "k < p" for k
      using that ih True by (cases "k = pos") auto
    then show ?thesis using ih by auto
  next
    case False
    then have "p = pos" using 1(3) x by (subst (asm) scan_target.simps) auto
    then show ?thesis using x False by (auto simp: crash_simps)
  qed
qed

lemma scan_target_found:
  assumes "0 \<le> pos" "pos \<le> q" "q < n" "n \<le> int (length ids)" "ids ! nat q = target"
  shows "\<exists>p. scan_target ids target n pos = Some p \<and> p \<le> q"
  using assms
proof (induction ids target n pos rule: scan_target.induct)
  case (1 ids target n pos)
  have x: "nth_c ids pos = Some (ids ! nat pos)" using 1(2-5) by (simp add: nth_c_def)
  show ?case
  proof (cases "ids ! nat pos = target")
    case True
    then show ?thesis using x 1(3) by (subst scan_target.simps) auto
  next
    case False
    then have "pos \<noteq> q" using 1(6) by auto
    then show ?thesis using False x 1 by (subst scan_target.simps) auto
  qed
qed

lemma remove_target_present:
  assumes "ids = xs @ t # ys" "t \<notin> set xs"
  shows "remove_target ids (int (length ids)) t
    = Some (xs @ ys @ [last (t # ys)], int (length ids) - 1)"
proof -
  obtain p where p: "scan_target ids t (int (length ids)) 0 = Some p" "p \<le> int (length xs)"
    using scan_target_found [of 0 "int (length xs)" "int (length ids)" ids t] assms(1) by auto
  have "p = int (length xs)"
  proof (rule ccontr)
    assume "p \<noteq> int (length xs)"
    then have lt: "p < int (length xs)" using p(2) by simp
    have "0 \<le> p" "ids ! nat p = t" using scan_target_stops [OF _ p(1)] lt assms(1) by auto
    then show False using lt assms by (auto simp: nth_append nat_less_iff)
  qed
  then show ?thesis
    using p(1) assms(1) by (simp add: remove_target_def shift_down_eq)
qed

lemma remove_target_absent:
  \<comment> \<open>the count still drops, so the last output is lost\<close>
  assumes "0 \<le> n" "n < int (length ids)" "t \<notin> set (take (nat n) ids)"
  shows "remove_target ids n t = Some (ids, n - 1)"
proof -
  have "scan_target ids t n pos = Some n" if "0 \<le> pos" "pos \<le> n" for pos
    using assms that
  proof (induction ids t n pos rule: scan_target.induct)
    case (1 ids t n pos)
    have x: "nth_c ids pos = Some (ids ! nat pos)" using 1 by (simp add: nth_c_def)
    show ?case
    proof (cases "pos < n")
      case True
      then have "nat pos < length (take (nat n) ids)" using 1(3,5) by auto
      then have "take (nat n) ids ! nat pos \<in> set (take (nat n) ids)" by (rule nth_mem)
      then have "ids ! nat pos \<noteq> t" using 1(4,5) True by auto
      then show ?thesis using x 1 True by (subst scan_target.simps) auto
    next
      case False
      then show ?thesis using x 1 by (subst scan_target.simps) auto
    qed
  qed
  then have "scan_target ids t n 0 = Some n" using assms(1) by simp
  moreover have "shift_down (nat n) (take (nat n) ids) = take (nat n) ids"
    by (subst shift_down.simps) simp
  ultimately show ?thesis by (simp add: remove_target_def)
qed

lemma remove_target_reads_past_end:
  assumes "t \<notin> set ids"
  shows "remove_target ids (int (length ids)) t = None"
proof (cases "scan_target ids t (int (length ids)) 0")
  case None
  then show ?thesis by (simp add: remove_target_def)
next
  case (Some p)
  from scan_target_stops [OF _ this] have "p < int (length ids)" "0 \<le> p" "ids ! nat p = t" by auto
  then have "t \<in> set ids" by (metis nat_less_iff nth_mem)
  then show ?thesis using assms by simp
qed

section \<open>Searching the response cache\<close>

definition eligible :: "action_class \<Rightarrow> event_item \<Rightarrow> response_cache_element \<Rightarrow> bool" where
  \<comment> \<open>the entries check_response_cache accepts\<close>
  "eligible stage ev r \<longleftrightarrow>
    (if rc_reference_format r = reference_format ev then
       compatible_stages stage (rc_stage r) \<and>
       (rc_action_type r = Action_NoAction \<longrightarrow> stage = rc_stage r) \<and>
       (event_encoded ev \<longrightarrow> \<not> rc_requires_decoded r) \<and>
       (\<not> event_encoded ev \<and> rc_action_type r = Action_Decode \<longrightarrow>
          decode_target_is r (reference_format ev) = Some False)
     else rc_reference_format r = None \<and> \<not> rc_requires_decoded r)"

definition decode_wf :: "response_cache_element \<Rightarrow> bool" where
  "decode_wf r \<longleftrightarrow> (rc_action_type r = Action_Decode \<longrightarrow> (\<exists>d. rc_o r = RD_Decode d))"

lemma check_from:
  assumes "\<forall>r \<in> set cache. decode_wf r"
  shows "check_response_cache_from i cache stage ev =
    Some (case find_index (eligible stage ev) cache of None \<Rightarrow> -1 | Some k \<Rightarrow> i + int k)"
  using assms
proof (induction cache arbitrary: i)
  case Nil
  then show ?case by simp
next
  case (Cons r rs)
  have dw: "rc_action_type r = Action_Decode \<Longrightarrow> \<exists>d. rc_o r = RD_Decode d"
    using Cons.prems by (simp add: decode_wf_def)
  show ?case
  proof (cases "eligible stage ev r")
    case True
    then have "check_response_cache_from i (r # rs) stage ev = Some i"
      by (auto simp: eligible_def split: if_splits)
    then show ?thesis using True by simp
  next
    case False
    then have "check_response_cache_from i (r # rs) stage ev
        = check_response_cache_from (i + 1) rs stage ev"
      using dw by (auto simp: eligible_def decode_target_is_def split: if_splits)
    then show ?thesis using False Cons by (auto split: option.splits)
  qed
qed

section \<open>Actions and references to events\<close>

lemma rc_upd_stone:
  assumes "rc_ok held e" "stone_at s e = Some st" "queue st' = queue st"
    "proto_actions st' = proto_actions st"
  shows "rc_ok held (e\<lparr>stone_map := (stone_map e)[s := Some st']\<rparr>)"
proof (rule rc_transfer [OF assms(1)])
  fix i
  show "evp_refs (e\<lparr>stone_map := (stone_map e)[s := Some st']\<rparr>) i + held i = evp_refs e i + held i"
    using evp_refs_mod_stone [OF assms(2), of st' i] assms(3,4) by (simp add: stone_refs_def)
qed simp_all

lemma rc_set_proto_action:
  assumes "rc_ok held e" "set_proto_action s a f e = Some e'"
    and "\<And>act i. proto_action_at s a e = Some act \<Longrightarrow>
           action_refs i (f act) + held' i = action_refs i act + held i"
  shows "rc_ok held' e'"
proof -
  from assms(2) obtain st act where st: "stone_at s e = Some st"
    and act: "nth_c (proto_actions st) a = Some act"
    and e': "mod_stone s (\<lambda>st'. st'\<lparr>proto_actions := (proto_actions st)[nat a := f act]\<rparr>) e = Some e'"
    by (auto simp: set_proto_action_def crash_simps)
  have l: "nat a < length (proto_actions st)" "proto_actions st ! nat a = act"
    using act by (auto simp: crash_simps nat_less_iff)
  have "proto_action_at s a e = Some act" using st act by (simp add: proto_action_at_def)
  then have h: "action_refs i (f act) + held' i = action_refs i act + held i" for i by (rule assms(3))
  show ?thesis
  proof (rule rc_mod_stone [OF assms(1) e'])
    fix st' i
    assume "stone_at s e = Some st'"
    then have "st' = st" using st by simp
    then show "stone_refs i (st'\<lparr>proto_actions := (proto_actions st)[nat a := f act]\<rparr>) + held' i
        = stone_refs i st' + held i"
      using sum_list_update_add [OF l(1), of "action_refs i" "f act"] h [of i] l(2)
      by (simp add: stone_refs_def)
  qed
qed

lemma rc_append_proto_action:
  assumes "rc_ok held e" "append_proto_action s act e = Some e'" "\<And>i. action_refs i act = 0"
  shows "rc_ok held e'"
  using assms(2) unfolding append_proto_action_def
  by (rule rc_mod_stone [OF assms(1)]) (simp add: stone_refs_def assms(3))

lemma rc_add_proto_action:
  assumes "rc_ok held e" "add_proto_action s e = Some (a, e')"
  shows "rc_ok held e'"
proof -
  from assms(2) have "append_proto_action s new_proto_action e = Some e'"
    by (auto simp: add_proto_action_def append_proto_action_def crash_simps)
  then show ?thesis
    by (rule rc_append_proto_action [OF assms(1)]) (simp add: action_refs_def new_proto_action_def)
qed

lemma free_response_stones:
  assumes "free_response r e = Some e'"
  shows "ev_frame e e' \<and> events e' = events e"
  using assms
  by (auto simp: free_response_def emit_def ev_frame_def
      split: action_value.splits response_data.splits option.splits)

lemma free_response_cache_stones:
  "free_response_cache rs e = Some e' \<Longrightarrow> ev_frame e e' \<and> events e' = events e"
proof (induction rs arbitrary: e)
  case Nil
  then show ?case by simp
next
  case (Cons r rs)
  then obtain e1 where "free_response r e = Some e1" "free_response_cache rs e1 = Some e'"
    by (auto simp: crash_simps)
  then show ?case using free_response_stones Cons.IH by (metis ev_frame_trans)
qed

lemma rc_frame: "rc_ok held e \<Longrightarrow> ev_frame e e' \<Longrightarrow> events e' = events e \<Longrightarrow> rc_ok held e'"
  by (rule rc_ok_cong) simp_all

lemma clear_response_cache_eq:
  "clear_response_cache s e = mod_stone s (\<lambda>st. st\<lparr>response_cache := []\<rparr>) e"
  by (auto simp: clear_response_cache_def mod_stone_def stone_at_def
      split: option.splits)

lemma rc_clear_response_cache:
  "rc_ok held e \<Longrightarrow> clear_response_cache s e = Some e' \<Longrightarrow> rc_ok held e'"
  by (auto simp: clear_response_cache_eq mod_stone_def crash_simps intro!: rc_upd_stone)

lemma rc_fix_response_cache:
  "rc_ok held e \<Longrightarrow> fix_response_cache s e = Some e' \<Longrightarrow> rc_ok held e'"
  by (auto simp: fix_response_cache_def mod_stone_def crash_simps intro!: rc_upd_stone)

lemma action_refs_simps [simp]:
  "action_refs i (act\<lparr>action_type := t\<rparr>) = action_refs i act"
  "action_refs i (act\<lparr>data_state := d\<rparr>) = action_refs i act"
  "action_refs i (act\<lparr>matching_reference_formats := m\<rparr>) = action_refs i act"
  "action_refs i (act\<lparr>input_format_requirements := r\<rparr>) = action_refs i act"
  "action_refs i (act\<lparr>act_o := AD_Term tv\<rparr>) = 0"
  "action_refs i (act\<lparr>act_o := AD_Bridge bv\<rparr>) = 0"
  "action_refs i (act\<lparr>act_o := AD_Thread hv\<rparr>) = 0"
  "action_refs i (act\<lparr>act_o := AD_Decode dv\<rparr>) = 0"
  "action_refs i (act\<lparr>act_o := AD_Imm mv\<rparr>) = 0"
  "action_refs i (act\<lparr>act_o := AD_Store sv\<rparr>) = queue_refs (store_queue sv) i"
  "action_refs i new_proto_action = 0"
  by (simp_all add: action_refs_def new_proto_action_def)

lemma rc_assoc_terminal_action:
  assumes "rc_ok held e" "INT_EVassoc_terminal_action env n fl h c e = Some (a, e')"
  shows "rc_ok held e'"
proof -
  obtain s st where s: "stone_deref n e = Some s" "stone_at s e = Some st"
    using assms(2) by (auto simp: INT_EVassoc_terminal_action_def crash_simps)
  let ?k = "int (length (response_cache st))"
  let ?fs = "map_option (\<lambda>fl. format_vector (register_format_set env fl)) fl"
  let ?d = "if fl \<noteq> None then Requires_Decoded else Requires_Contig_Encoded"
  let ?act = "new_proto_action\<lparr>input_format_requirements := fl, action_type := Action_Terminal,
     act_o := AD_Term \<lparr>term_handler = h, term_client_data = c, term_target_stone_id = 0\<rparr>,
     matching_reference_formats := ?fs, data_state := ?d\<rparr>"
  let ?resp = "new_response\<lparr>rc_action_type := Action_Terminal,
     rc_requires_decoded := (?d \<noteq> Accepts_All),
     rc_reference_format := (case ?fs of None \<Rightarrow> None | Some fs \<Rightarrow> first_format fs),
     rc_proto_action_id := int (length (proto_actions st))\<rparr>"
  from assms(2) s obtain e1 e2 where
    e1: "(if fl \<noteq> None then Some e
          else mod_stone s (\<lambda>st. st\<lparr>default_action := ?k\<rparr>) e) = Some e1"
    and e2: "append_proto_action s ?act e1 = Some e2"
    and e3: "mod_stone s (\<lambda>st. st\<lparr>response_cache := response_cache st @ [?resp]\<rparr>) e2 = Some e'"
    by (simp only: INT_EVassoc_terminal_action_def crash_simps Let_def prod.inject option.inject
        bind.bind_lunit) blast
  have a0: "action_refs i ?act = 0" for i by simp
  have "rc_ok held e1" using e1 assms(1)
    by (auto simp: mod_stone_def crash_simps intro!: rc_upd_stone split: if_splits)
  then have "rc_ok held e2" using e2 a0 by (rule rc_append_proto_action)
  then show ?thesis using e3 by (rule rc_mod_stone_same) simp_all
qed

lemma rc_set_output:
  assumes "rc_ok held e" "INT_EVstone_set_output n i t e = Some (r, e')"
  shows "rc_ok held e'"
  using assms by (auto simp: INT_EVstone_set_output_def crash_simps mod_stone_def
      split: option.splits intro!: rc_upd_stone)

lemma rc_add_split_target:
  assumes "rc_ok held e" "INT_EVstone_add_split_target n t e = Some (r, e')"
  shows "rc_ok held e'"
  using assms by (auto simp: INT_EVstone_add_split_target_def crash_simps mod_stone_def
      split: option.splits intro!: rc_upd_stone)

lemma rc_remove_split_target:
  assumes "rc_ok held e" "INT_EVstone_remove_split_target n t e = Some e'"
  shows "rc_ok held e'"
  using assms by (auto simp: INT_EVstone_remove_split_target_def crash_simps mod_stone_def
      split: option.splits intro!: rc_upd_stone)

lemma rc_add_split_targets:
  "rc_ok held e \<Longrightarrow> add_split_targets n ts e = Some e' \<Longrightarrow> rc_ok held e'"
  by (induction ts arbitrary: e) (auto simp: crash_simps intro: rc_add_split_target)

lemma rc_assoc_split_action:
  assumes "rc_ok held e" "INT_EVassoc_split_action n ts e = Some (a, e')"
  shows "rc_ok held e'"
proof (cases "stone_struct n e = Some None")
  case True
  then show ?thesis using assms by (simp add: INT_EVassoc_split_action_def)
next
  case False
  let ?l = "case ts of None \<Rightarrow> [] | Some l \<Rightarrow> l"
  from False assms(2) obtain s k e1 e2 e3 where
    e1: "add_split_targets n ?l e = Some e1"
    and e2: "append_proto_action s (new_proto_action\<lparr>action_type := Action_Split\<rparr>) e1 = Some e2"
    and e3: "mod_stone s (\<lambda>st. st\<lparr>output_count := int (length ?l), default_action := k\<rparr>) e2 = Some e3"
    and e4: "clear_response_cache s e3 = Some e'"
    by (auto simp: INT_EVassoc_split_action_def crash_simps Let_def split: option.split_asm)
  have "rc_ok held e2"
    by (rule rc_append_proto_action [OF rc_add_split_targets [OF assms(1) e1] e2]) simp
  then have "rc_ok held e3" using e3 by (rule rc_mod_stone_same) simp_all
  then show ?thesis using e4 by (rule rc_clear_response_cache)
qed

lemma rc_assoc_filter_action:
  assumes "rc_ok held e" "INT_EVassoc_filter_action env n fl h out c e = Some (a, e')"
  shows "rc_ok held e'"
proof (cases "stone_struct n e = Some None")
  case True
  then show ?thesis using assms by (simp add: INT_EVassoc_filter_action_def)
next
  case False
  let ?act = "new_proto_action\<lparr>input_format_requirements := fl, action_type := Action_Filter,
     act_o := AD_Term \<lparr>term_handler = h, term_client_data = c, term_target_stone_id = out\<rparr>,
     data_state := Requires_Decoded, matching_reference_formats :=
       map_option (\<lambda>fl. format_vector (register_format_set env fl)) fl\<rparr>"
  from False assms(2) obtain s e1 where
    e1: "append_proto_action s ?act e = Some e1" and e2: "clear_response_cache s e1 = Some e'"
    by (auto simp: INT_EVassoc_filter_action_def crash_simps Let_def split: option.split_asm)
  show ?thesis
    by (rule rc_clear_response_cache [OF rc_append_proto_action [OF assms(1) e1] e2]) simp
qed

lemma rc_assoc_store_action:
  assumes "rc_ok held e" "INT_EVassoc_store_action n out limit e = Some (a, e')"
  shows "rc_ok held e'"
proof (cases "stone_struct n e = Some None")
  case True
  then show ?thesis using assms by (simp add: INT_EVassoc_store_action_def)
next
  case False
  with assms(2) obtain s k e1 e2 e3 where
    e1: "add_proto_action s e = Some (k, e1)"
    and e2: "set_proto_action s k (\<lambda>act. act\<lparr>data_state := Accepts_All, action_type := Action_Store,
      matching_reference_formats := Some [], act_o := AD_Store (new_store out limit)\<rparr>) e1 = Some e2"
    and e3: "clear_response_cache s e2 = Some e3"
    and e4: "mod_stone s (\<lambda>st. st\<lparr>default_action := k\<rparr>) e3 = Some e'"
    by (auto simp: INT_EVassoc_store_action_def crash_simps Let_def split: option.split_asm)
  have new: "action_refs i act = 0" if "proto_action_at s k e1 = Some act" for act i
    using e1 that by (auto simp: add_proto_action_def mod_stone_def proto_action_at_def stone_at_def
        crash_simps nth_append split: if_splits)
  have "rc_ok held e2"
    by (rule rc_set_proto_action [OF rc_add_proto_action [OF assms(1) e1] e2])
      (simp add: new new_store_def storage_queue_init_def)
  then have "rc_ok held e3" using e3 by (rule rc_clear_response_cache)
  then show ?thesis using e4 by (auto simp: mod_stone_def crash_simps intro!: rc_upd_stone)
qed

section \<open>Emptying queues\<close>

definition ev_ok :: "evp \<Rightarrow> bool" where
  "ev_ok e \<longleftrightarrow> (\<forall>i v. events e i = Some v \<longrightarrow> free_ok v)"

lemma ev_ok_return_event:
  assumes "ev_ok e" "return_event i e = Some e'"
  shows "ev_ok e'"
proof -
  obtain v where v: "events e i = Some v"
    using assms(2) by (auto simp: return_event_def crash_simps)
  show ?thesis
    using assms(1) events_return_event [OF assms(2) v] v
    by (auto simp: ev_ok_def free_ok_def split: if_splits)
qed

lemma return_all_ok:
  assumes "rc_ok (\<lambda>i. held i + queue_refs q i) e" "ev_ok e"
  shows "\<exists>e'. return_all q e = Some e' \<and> rc_ok held e' \<and> ev_ok e' \<and> ev_frame e e'"
  using assms
proof (induction q arbitrary: e)
  case Nil
  then show ?case by simp
next
  case (Cons x q)
  let ?h = "\<lambda>i. held i + queue_refs (x # q) i"
  have pos: "?h (qi_item x) > 0" by simp
  obtain v where v: "events e (qi_item x) = Some v"
    by (rule rc_live [OF Cons.prems(1)]) (use pos in auto)
  then have "free_ok v" using Cons.prems(2) by (simp add: ev_ok_def)
  then obtain e1 where e1: "return_event (qi_item x) e = Some e1"
    using return_event_total [of e "qi_item x" v] v by blast
  have "rc_ok (drop_held (qi_item x) ?h) e1" using rc_return_event [OF Cons.prems(1) pos e1] .
  moreover have "drop_held (qi_item x) ?h = (\<lambda>i. held i + queue_refs q i)"
    by (auto simp: drop_held_def)
  ultimately have "rc_ok (\<lambda>i. held i + queue_refs q i) e1" by simp
  from Cons.IH [OF this ev_ok_return_event [OF Cons.prems(2) e1]] obtain e' where
    "return_all q e1 = Some e'" "rc_ok held e'" "ev_ok e'" "ev_frame e1 e'" by blast
  then show ?case
    using e1 ev_frame_trans [OF ev_frame_return_event [OF e1]] by auto
qed

abbreviation set_stones :: "stone ptr list \<Rightarrow> evp \<Rightarrow> evp" where
  "set_stones m e \<equiv> e\<lparr>stone_map := m\<rparr>"

lemma return_contents_set_stones:
  "return_contents v (set_stones m e) = map_option (set_stones m) (return_contents v e)"
proof -
  have c: "call_free_func f x y (set_stones m e) = map_option (set_stones m) (call_free_func f x y e)"
    for f x y
    by (simp add: call_free_func_def free_ioBuffer_def emit_def
        split: option.split free_fn.split Option.bind_split)
  show ?thesis
    by (auto simp: return_contents_def c emit_def split: event_pkg_contents.split)
qed

lemma emit_set_stones: "emit x (set_stones m e) = set_stones m (emit x e)"
  by (simp add: emit_def)

lemma return_event_eq:
  assumes "events e i = Some v" "w = v\<lparr>ref_count := ref_count v - 1\<rparr>"
  shows "return_event i e =
    (let e1 = e\<lparr>events := (events e)(i \<mapsto> w)\<rparr> in
     if ref_count w = 0 then do {
       e2 \<leftarrow> return_contents w e1;
       let e3 = (case ev_attrs w of None \<Rightarrow> e2 | Some a \<Rightarrow> emit (Eff_free_attr_list a) e2);
       let e4 = (case ioBuffer w of None \<Rightarrow> e3 | Some b \<Rightarrow> emit (Eff_free_FFSBuffer b) e3);
       Some (e4\<lparr>events := (events e4)(i := None)\<rparr>) }
     else Some e1)"
  using assms by (simp add: return_event_def Let_def)

lemma return_event_set_stones:
  "return_event i (set_stones m e) = map_option (set_stones m) (return_event i e)"
proof (cases "events e i")
  case None
  then show ?thesis by (simp add: return_event_def)
next
  case (Some v)
  obtain w where w: "w = v\<lparr>ref_count := ref_count v - 1\<rparr>" by blast
  let ?e = "e\<lparr>events := (events e)(i \<mapsto> w)\<rparr>"
  have eq: "set_stones m e\<lparr>events := (events e)(i \<mapsto> w)\<rparr> = set_stones m ?e"
    by (rule evp.equality) simp_all
  have "return_contents w (set_stones m e\<lparr>events := (events e)(i \<mapsto> w)\<rparr>)
      = map_option (set_stones m) (return_contents w ?e)"
    by (simp only: return_contents_set_stones eq)
  moreover note return_event_eq [OF Some w]
  moreover have "events (set_stones m e) i = Some v" using Some by simp
  note return_event_eq [OF this w]
  ultimately show ?thesis
    by (cases "return_contents w ?e"; cases "ev_attrs w"; cases "ioBuffer w")
      (simp_all add: Let_def emit_set_stones)
qed

lemma return_all_set_stones:
  "return_all q (set_stones m e) = map_option (set_stones m) (return_all q e)"
proof (induction q arbitrary: e)
  case Nil
  then show ?case by simp
next
  case (Cons x q)
  then show ?case by (cases "return_event (qi_item x) e") (simp_all add: return_event_set_stones)
qed

lemma ev_ok_frame: "events e' = events e \<Longrightarrow> ev_ok e' = ev_ok e"
  by (simp add: ev_ok_def)

end
