(* ===== verification/Ev_Backpressure.thy ===== *)
theory Ev_Backpressure
  imports Ev_Stone
begin

text \<open>
  Back pressure (evp.c: foreach_source, backpressure_set_one, backpressure_set,
  backpressure_transition, backpressure_check, register_backpressure_callback,
  do_backpressure_unstall_callbacks, INT_EVstall_stone, INT_EVunstall_stone,
  INT_EVhandle_control_message).

  foreach_source walks all stones and, through stones that are not stalled, all their
  sources. Every level of the walk marks one more stone as seen, so the depth the model starts
  with is never used up. backpressure_transition re-enters itself when a source loses its last
  reason to be stalled; each nested call unstalls one more stone, and the first argument of the
  model bounds the nesting.
\<close>

section \<open>The walk over the sources of a stone\<close>

datatype source_info =
    Source_action EVstone EVaction int  \<comment> \<open>stone, action, would_recurse\<close>
  | Source_remote EVstone conn          \<comment> \<open>stone, connection\<close>

type_synonym source_cb = "source_info \<Rightarrow> evp \<Rightarrow> evp option"

definition output_matches :: "stone \<Rightarrow> EVstone \<Rightarrow> int option" where
  \<comment> \<open>for (i = 0; i < output_count; ++i) if (to_stone == output_stone_ids[i])\<close>
  "output_matches st to_stone =
    (if output_count st > int (length (output_stone_ids st)) then None
     else Some (int (count_list (take (nat (output_count st)) (output_stone_ids st)) to_stone)))"

definition action_matches :: "proto_action \<Rightarrow> EVstone \<Rightarrow> (int \<times> int) option" where
  \<comment> \<open>what the switch adds to matches and matches_recursive\<close>
  "action_matches act to_stone =
    (case action_type act of
       Action_Store \<Rightarrow> (case act_o act of
           AD_Store v \<Rightarrow> Some (if store_target_stone_id v = to_stone then (1, 0) else (0, 0))
         | _ \<Rightarrow> None)
     | Action_Filter \<Rightarrow> (case act_o act of
           AD_Term v \<Rightarrow> Some (if to_stone = term_target_stone_id v then (1, 1) else (0, 0))
         | _ \<Rightarrow> None)
     | _ \<Rightarrow> Some (0, 0))"

type_synonym action_loop = "int \<times> int \<times> int"   \<comment> \<open>cur_action, matches, matches_recursive\<close>

definition ph_matches :: "action_loop \<Rightarrow> int" where "ph_matches ph = fst (snd ph)"
definition ph_recursive :: "action_loop \<Rightarrow> int" where "ph_recursive ph = snd (snd ph)"

definition next_action :: "action_loop \<Rightarrow> int \<times> int \<Rightarrow> action_loop" where
  "next_action ph am = (fst ph + 1, ph_matches ph + fst am, ph_recursive ph + snd am)"

definition source_action_step ::
    "source_cb \<Rightarrow> (evp \<Rightarrow> evp option) \<Rightarrow> EVstone \<Rightarrow> bool \<Rightarrow> int \<Rightarrow> action_loop \<Rightarrow> evp \<Rightarrow> evp option"
  where
  \<comment> \<open>one action: the callback, then the walk to the sources of this stone\<close>
  "source_action_step cb recurse cur was_stalled a ph e =
    do {
      e \<leftarrow> (if ph_matches ph > 0 then cb (Source_action cur a (ph_recursive ph)) e else Some e);
      if \<not> was_stalled \<and> ph_recursive ph > 0 then recurse e else Some e
    }"

partial_function (option) source_actions ::
    "source_cb \<Rightarrow> (evp \<Rightarrow> evp option) \<Rightarrow> EVstone \<Rightarrow> EVstone \<Rightarrow> nat \<Rightarrow> bool \<Rightarrow> action_loop \<Rightarrow> evp
      \<Rightarrow> evp option" where
  \<comment> \<open>the loop over the actions of one stone; the count is read again at every iteration\<close>
  "source_actions cb recurse to_stone cur s was_stalled ph e =
    do {
      st \<leftarrow> stone_at s e;
      if fst ph < int (length (proto_actions st)) then do {
        act \<leftarrow> nth_c (proto_actions st) (fst ph);
        am \<leftarrow> action_matches act to_stone;
        e \<leftarrow> source_action_step cb recurse cur was_stalled (fst ph) (next_action ph am) e;
        source_actions cb recurse to_stone cur s was_stalled (next_action ph am) e }
      else Some e
    }"

definition visit_stone ::
    "source_cb \<Rightarrow> (EVstone \<Rightarrow> bool list \<Rightarrow> evp \<Rightarrow> evp option) \<Rightarrow> EVstone \<Rightarrow> bool list \<Rightarrow> nat \<Rightarrow> evp
      \<Rightarrow> evp option" where
  \<comment> \<open>the body of the loop over cur_stone\<close>
  "visit_stone cb inner to_stone seen k e =
    do {
      let cur = stone_base_num e + int k;
      p \<leftarrow> stone_struct cur e;
      if seen ! k then Some e
      else if p = None then Some e
      else do {
        s \<leftarrow> p;
        st \<leftarrow> stone_at s e;
        if local_id st = -1 then Some e
        else if cur = to_stone then
          (case last_remote_source st of
             None \<Rightarrow> Some e
           | Some c \<Rightarrow> cb (Source_remote cur c) e)
        else do {
          m \<leftarrow> output_matches st to_stone;
          source_actions cb (inner cur (seen[k := True])) to_stone cur s (is_stalled st \<noteq> 0)
            (0, m, m) e } }
    }"

fun visit_stones :: "(nat \<Rightarrow> evp \<Rightarrow> evp option) \<Rightarrow> nat list \<Rightarrow> evp \<Rightarrow> evp option" where
  "visit_stones visit [] e = Some e"
| "visit_stones visit (k # ks) e = do { e \<leftarrow> visit k e; visit_stones visit ks e }"

fun foreach_source_inner ::
    "nat \<Rightarrow> source_cb \<Rightarrow> EVstone \<Rightarrow> bool list \<Rightarrow> evp \<Rightarrow> evp option" where
  \<comment> \<open>the first argument bounds the depth: every level marks one more stone as seen. A stone
     allocated meanwhile by a callback makes the code read past the end of seen.\<close>
  "foreach_source_inner 0 cb to_stone seen e = None"
| "foreach_source_inner (Suc d) cb to_stone seen e =
    do {
      e \<leftarrow> visit_stones (visit_stone cb (foreach_source_inner d cb) to_stone seen)
            [0..<length seen] e;
      assert_c (length (stone_map e) = length seen);
      Some e
    }"

definition foreach_source :: "EVstone \<Rightarrow> source_cb \<Rightarrow> evp \<Rightarrow> evp option" where
  "foreach_source to_stone cb e =
    foreach_source_inner (Suc (length (stone_map e))) cb to_stone
      (replicate (length (stone_map e)) False) e"

section \<open>Callbacks\<close>

definition CONTROL_SQUELCH :: int where "CONTROL_SQUELCH = 0"
definition CONTROL_UNSQUELCH :: int where "CONTROL_UNSQUELCH = 1"

definition register_backpressure_callback ::
    "EVstone \<Rightarrow> addr \<Rightarrow> addr ptr \<Rightarrow> evp \<Rightarrow> evp option" where
  "register_backpressure_callback s cb user_data e =
    do {
      stone \<leftarrow> stone_deref s e;
      assert_c (locked e > 0);
      mod_stone stone (\<lambda>st. st\<lparr>unstall_callbacks := (cb, user_data) # unstall_callbacks st\<rparr>) e
    }"

fun run_unstall_callbacks ::
    "env \<Rightarrow> EVstone \<Rightarrow> (addr \<times> addr ptr) list \<Rightarrow> evp \<Rightarrow> evp option" where
  "run_unstall_callbacks env stone_id [] e = Some e"
| "run_unstall_callbacks env stone_id ((cb, user_data) # cbs) e =
    do { e \<leftarrow> call_unstall_cb env cb stone_id user_data e;
         run_unstall_callbacks env stone_id cbs e }"

definition do_backpressure_unstall_callbacks :: "env \<Rightarrow> EVstone \<Rightarrow> evp \<Rightarrow> evp option" where
  "do_backpressure_unstall_callbacks env stone_id e =
    do {
      stone \<leftarrow> stone_deref stone_id e;
      st \<leftarrow> stone_at stone e;
      assert_c (locked e > 0);
      if unstall_callbacks st = [] then Some e
      else do {
        e \<leftarrow> mod_stone stone (\<lambda>st. st\<lparr>unstall_callbacks := []\<rparr>) e;
        let e = e\<lparr>locked := locked e - 1\<rparr>;
        e \<leftarrow> run_unstall_callbacks env stone_id (unstall_callbacks st) e;
        Some (e\<lparr>locked := locked e + 1\<rparr>) }
    }"

section \<open>Stalling and unstalling\<close>

definition add_events_in_play :: "int \<Rightarrow> evp \<Rightarrow> evp option" where
  "add_events_in_play n e =
    do { a \<leftarrow> as_ptr e; Some (e\<lparr>as_ptr := Some (a\<lparr>events_in_play := events_in_play a + n\<rparr>)\<rparr>) }"

definition pause_store :: "nat \<Rightarrow> EVaction \<Rightarrow> int \<Rightarrow> evp \<Rightarrow> evp option" where
  \<comment> \<open>case Action_Store of backpressure_set_one\<close>
  "pause_store s a stalled e =
    do {
      v \<leftarrow> store_at s a e;
      if is_paused v \<noteq> stalled then do {
        e \<leftarrow> set_store s a (v\<lparr>is_paused := stalled\<rparr>) e;
        if is_sending v then
          (if stalled \<noteq> 0 then do {
             e \<leftarrow> add_events_in_play (-1) e;
             mod_stone s (\<lambda>st. st\<lparr>pending_output := pending_output st - 1\<rparr>) e }
           else do {
             e \<leftarrow> add_events_in_play 1 e;
             e \<leftarrow> mod_stone s (\<lambda>st. st\<lparr>pending_output := pending_output st + 1\<rparr>) e;
             Some (emit (Eff_delayed_task 0 0) e) })
        else Some e }
      else Some e
    }"

definition squelch_remote :: "nat \<Rightarrow> EVstone \<Rightarrow> conn \<Rightarrow> int \<Rightarrow> evp \<Rightarrow> evp option" where
  \<comment> \<open>case SOURCE_REMOTE\<close>
  "squelch_remote s stone_id c stalled e =
    do {
      st \<leftarrow> stone_at s e;
      let d = squelch_depth st;
      if stalled \<noteq> 0 then do {
        e \<leftarrow> mod_stone s (\<lambda>st. st\<lparr>squelch_depth := d + 1\<rparr>) e;
        Some (if d = 0 then emit (Eff_write_evcontrol c CONTROL_SQUELCH stone_id) e else e) }
      else do {
        e \<leftarrow> mod_stone s (\<lambda>st. st\<lparr>squelch_depth := d - 1\<rparr>) e;
        Some (if d - 1 = 0 then emit (Eff_write_evcontrol c CONTROL_UNSQUELCH stone_id) e else e) }
    }"

type_synonym transition_fn = "EVstone \<Rightarrow> int \<Rightarrow> int \<Rightarrow> evp \<Rightarrow> evp option"

definition recurse_source ::
    "env \<Rightarrow> transition_fn \<Rightarrow> nat \<Rightarrow> nat \<Rightarrow> EVstone \<Rightarrow> evp \<Rightarrow> evp option" where
  \<comment> \<open>the body of if (info->u.action.would_recurse)\<close>
  "recurse_source env transition to s stone_id e =
    do {
      t \<leftarrow> stone_at to e;
      e \<leftarrow> (if is_stalled t \<noteq> 0 then mod_stone s (\<lambda>st. st\<lparr>is_stalled := 1\<rparr>) e
            else do_backpressure_unstall_callbacks env stone_id e);
      t \<leftarrow> stone_at to e;
      transition stone_id Stall_Upstream (is_stalled t) e
    }"

definition backpressure_set_one ::
    "env \<Rightarrow> transition_fn \<Rightarrow> EVstone \<Rightarrow> source_info \<Rightarrow> evp \<Rightarrow> evp option" where
  \<comment> \<open>\<open>to_id\<close> is info->to_stone: the stone the walk started from, at every depth\<close>
  "backpressure_set_one env transition to_id info e =
    do {
      a \<leftarrow> as_ptr e;
      assert_c (events_in_play a \<ge> 0);
      case info of
        Source_action stone_id action would_recurse \<Rightarrow> do {
          to \<leftarrow> stone_deref to_id e;
          s \<leftarrow> stone_deref stone_id e;
          act \<leftarrow> proto_action_at s action e;
          e \<leftarrow> (if would_recurse \<noteq> 0 then recurse_source env transition to s stone_id e else Some e);
          t \<leftarrow> stone_at to e;
          act \<leftarrow> proto_action_at s action e;
          if action_type act = Action_Store then pause_store s action (is_stalled t) e else Some e }
      | Source_remote stone_id c \<Rightarrow> do {
          to \<leftarrow> stone_deref to_id e;
          s \<leftarrow> stone_deref stone_id e;
          t \<leftarrow> stone_at to e;
          squelch_remote s stone_id c (is_stalled t) e }
    }"

definition backpressure_set ::
    "env \<Rightarrow> transition_fn \<Rightarrow> EVstone \<Rightarrow> int \<Rightarrow> evp \<Rightarrow> evp option" where
  "backpressure_set env transition to_stone stalledp e =
    do {
      s \<leftarrow> stone_deref to_stone e;
      assert_c (use_backpressure e);
      st \<leftarrow> stone_at s e;
      if is_stalled st = stalledp then Some e
      else do {
        e \<leftarrow> mod_stone s (\<lambda>st. st\<lparr>is_stalled := stalledp\<rparr>) e;
        e \<leftarrow> (if stalledp = 0 then do_backpressure_unstall_callbacks env to_stone e else Some e);
        foreach_source to_stone (backpressure_set_one env transition to_stone) e }
    }"

definition stall_flags :: "int \<Rightarrow> int \<Rightarrow> int \<Rightarrow> int" where
  "stall_flags from src new_value = (if new_value \<noteq> 0 then from OR src else from AND NOT src)"

fun backpressure_transition :: "nat \<Rightarrow> env \<Rightarrow> EVstone \<Rightarrow> int \<Rightarrow> int \<Rightarrow> evp \<Rightarrow> evp option" where
  "backpressure_transition 0 env s src new_value e = None"
| "backpressure_transition (Suc n) env s src new_value e =
    do {
      stone \<leftarrow> stone_deref s e;
      assert_c (use_backpressure e);
      e \<leftarrow> mod_stone stone (\<lambda>st. st\<lparr>stall_from := stall_flags (stall_from st) src new_value\<rparr>) e;
      st \<leftarrow> stone_at stone e;
      backpressure_set env (backpressure_transition n env) s
        (if stall_from st \<noteq> 0 then 1 else 0) e
    }"

definition bp_depth :: "evp \<Rightarrow> nat" where
  \<comment> \<open>each nested transition unstalls one more stone\<close>
  "bp_depth e = length (stone_map e) + 2"

definition stone_threshold :: "evp \<Rightarrow> stone \<Rightarrow> string \<Rightarrow> int \<Rightarrow> int" where
  \<comment> \<open>get_int_attr leaves the default when the attribute is absent\<close>
  "stone_threshold e st atom default_value =
    (case stone_attrs st of
       None \<Rightarrow> default_value
     | Some l \<Rightarrow> (case attr_int e l atom of None \<Rightarrow> default_value | Some v \<Rightarrow> v))"

definition over_threshold :: "evp \<Rightarrow> stone \<Rightarrow> bool" where
  "over_threshold e st \<longleftrightarrow>
    queue_size st > (if is_stalled st \<noteq> 0
       then stone_threshold e st ''EV_BACKPRESSURE_LOW'' 50
       else stone_threshold e st ''EV_BACKPRESSURE_HIGH'' 200)"

definition backpressure_check :: "env \<Rightarrow> EVstone \<Rightarrow> evp \<Rightarrow> evp option" where
  "backpressure_check env s e =
    (if use_backpressure e then do {
       stone \<leftarrow> stone_deref s e;
       st \<leftarrow> stone_at stone e;
       backpressure_transition (bp_depth e) env s Stall_Overload (if over_threshold e st then 1 else 0) e }
     else Some e)"

definition INT_EVstall_stone :: "env \<Rightarrow> EVstone \<Rightarrow> evp \<Rightarrow> evp option" where
  "INT_EVstall_stone env s e = backpressure_transition (bp_depth e) env s Stall_Requested 1 e"

definition INT_EVunstall_stone :: "env \<Rightarrow> EVstone \<Rightarrow> evp \<Rightarrow> evp option" where
  "INT_EVunstall_stone env s e = backpressure_transition (bp_depth e) env s Stall_Requested 0 e"

fun control_loop ::
    "env \<Rightarrow> conn \<Rightarrow> int \<Rightarrow> int \<Rightarrow> nat \<Rightarrow> EVstone \<Rightarrow> evp \<Rightarrow> evp option" where
  \<comment> \<open>the loop over all stones; the number of stones left is the counter\<close>
  "control_loop env c type arg 0 s e = Some e"
| "control_loop env c type arg (Suc n) s e =
    do {
      p \<leftarrow> stone_struct s e;
      b \<leftarrow> is_bridge_stone s e;
      e \<leftarrow> (if b then do {
              stone \<leftarrow> p;
              st \<leftarrow> stone_at stone e;
              act \<leftarrow> nth_c (proto_actions st) (default_action st);
              v \<leftarrow> (case act_o act of AD_Bridge v \<Rightarrow> Some v | _ \<Rightarrow> None);
              if bri_conn v = Some c \<and> bri_remote_stone_id v = arg
              then backpressure_transition (bp_depth e) env s Stall_Squelch
                     (if type = CONTROL_SQUELCH then 1 else 0) e
              else Some e }
            else Some e);
      control_loop env c type arg n (s + 1) e
    }"

definition INT_EVhandle_control_message ::
    "env \<Rightarrow> conn \<Rightarrow> int \<Rightarrow> int \<Rightarrow> evp \<Rightarrow> evp option" where
  "INT_EVhandle_control_message env c type arg e =
    (if type = CONTROL_SQUELCH \<or> type = CONTROL_UNSQUELCH
     then control_loop env c type arg (length (stone_map e)) (stone_base_num e) e
     else None)"

section \<open>The depth of the walk does not matter\<close>

lemma visit_stones_cong:
  "(\<And>k e. k \<in> set ks \<Longrightarrow> f k e = g k e) \<Longrightarrow> visit_stones f ks e = visit_stones g ks e"
proof (induction ks arbitrary: e)
  case Nil
  then show ?case by simp
next
  case (Cons k ks)
  have "visit_stones f ks = visit_stones g ks" using Cons by (intro ext) simp
  then show ?case using Cons.prems by simp
qed

lemma count_unseen:
  "k < length seen \<Longrightarrow> \<not> seen ! k \<Longrightarrow>
    count_list (seen[k := True]) False < count_list seen False"
  by (induction seen arbitrary: k) (auto split: nat.splits simp: nth_Cons list_update.simps)

lemma foreach_depth:
  "count_list seen False < d \<Longrightarrow> count_list seen False < d' \<Longrightarrow>
    foreach_source_inner d cb to_stone seen e = foreach_source_inner d' cb to_stone seen e"
proof (induction d arbitrary: d' to_stone seen e)
  case 0
  then show ?case by simp
next
  case (Suc d)
  obtain c where d': "d' = Suc c" using Suc.prems(2) by (cases d') auto
  have "visit_stones (visit_stone cb (foreach_source_inner d cb) to_stone seen) [0..<length seen] e
      = visit_stones (visit_stone cb (foreach_source_inner c cb) to_stone seen) [0..<length seen] e"
  proof (rule visit_stones_cong)
    fix k e
    assume k: "k \<in> set [0..<length seen]"
    show "visit_stone cb (foreach_source_inner d cb) to_stone seen k e
        = visit_stone cb (foreach_source_inner c cb) to_stone seen k e"
    proof (cases "seen ! k")
      case True
      then show ?thesis by (simp add: visit_stone_def Let_def)
    next
      case False
      then have "count_list (seen[k := True]) False < count_list seen False"
        using k by (intro count_unseen) auto
      then have "foreach_source_inner d cb cur (seen[k := True])
          = foreach_source_inner c cb cur (seen[k := True])" for cur
        using Suc.prems d' by (intro ext Suc.IH) simp_all
      then show ?thesis by (simp add: visit_stone_def Let_def cong: if_cong)
    qed
  qed
  then show ?case by (simp add: d')
qed

section \<open>What changing flags keeps\<close>

definition act_store_queue :: "proto_action \<Rightarrow> queue" where
  "act_store_queue act = (case act_o act of AD_Store v \<Rightarrow> store_queue v | _ \<Rightarrow> [])"

lemma action_refs_store: "action_refs i = (\<lambda>act. queue_refs (act_store_queue act) i)"
  by (auto simp: action_refs_def act_store_queue_def split: action_data.splits)

definition same_queues :: "stone \<Rightarrow> stone \<Rightarrow> bool" where
  "same_queues st st' \<longleftrightarrow> local_id st' = local_id st \<and> queue st' = queue st \<and>
    map act_store_queue (proto_actions st') = map act_store_queue (proto_actions st)"

text \<open>
  An invariant of the state that does not look at the flags and counters of stones. Operations
  that only set those keep it, whatever it says of queues, events and the stone table.
\<close>

locale flag_invariant =
  fixes P :: "evp \<Rightarrow> bool"
  assumes P_stone: "P e \<Longrightarrow> stone_at s e = Some st \<Longrightarrow> same_queues st st' \<Longrightarrow>
      P (set_stones ((stone_map e)[s := Some st']) e)"
    and P_as_ptr: "P e \<Longrightarrow> P (e\<lparr>as_ptr := a\<rparr>)"
    and P_emit: "P e \<Longrightarrow> P (emit x e)"
    and P_locked: "P e \<Longrightarrow> P (e\<lparr>locked := n\<rparr>)"
begin

lemma P_mod_stone:
  assumes "P e" "mod_stone s f e = Some e'" "\<And>st. same_queues st (f st)"
  shows "P e'"
  using assms by (auto simp: mod_stone_def crash_simps intro: P_stone)

lemma P_set_proto_action:
  assumes "P e" "set_proto_action s a f e = Some e'"
    and "\<And>act. proto_action_at s a e = Some act \<Longrightarrow> act_store_queue (f act) = act_store_queue act"
  shows "P e'"
proof -
  from assms(2) obtain st act where st: "stone_at s e = Some st"
    and act: "nth_c (proto_actions st) a = Some act"
    and e': "mod_stone s (\<lambda>st'. st'\<lparr>proto_actions := (proto_actions st)[nat a := f act]\<rparr>) e = Some e'"
    by (auto simp: set_proto_action_def crash_simps)
  have l: "nat a < length (proto_actions st)" "proto_actions st ! nat a = act"
    using act by (auto simp: crash_simps nat_less_iff)
  have "act_store_queue (f act) = act_store_queue act"
    using assms(3) st act by (simp add: proto_action_at_def)
  then have "map act_store_queue ((proto_actions st)[nat a := f act])
      = map act_store_queue (proto_actions st)"
    using l by (simp add: map_update list_update_same_conv)
  then have "same_queues st (st\<lparr>proto_actions := (proto_actions st)[nat a := f act]\<rparr>)"
    by (simp add: same_queues_def)
  from P_stone [OF assms(1) st this] show ?thesis using e' st by (simp add: mod_stone_def)
qed

definition P_cb :: "source_cb \<Rightarrow> bool" where
  "P_cb cb \<longleftrightarrow> (\<forall>info e e'. P e \<longrightarrow> cb info e = Some e' \<longrightarrow> P e')"

lemma P_source_actions:
  assumes cb: "P_cb cb" and rec: "\<And>e e'. P e \<Longrightarrow> recurse e = Some e' \<Longrightarrow> P e'"
    and "source_actions cb recurse to_stone cur s was ph e = Some e'" "P e"
  shows "P e'"
proof -
  have "P_cb cb \<longrightarrow> (\<forall>e e'. P e \<longrightarrow> recurse e = Some e' \<longrightarrow> P e') \<longrightarrow> P e \<longrightarrow> P e'"
  proof (rule source_actions.raw_induct [where P = "\<lambda>cb recurse to_stone cur s was ph e y.
      P_cb cb \<longrightarrow> (\<forall>e e'. P e \<longrightarrow> recurse e = Some e' \<longrightarrow> P e') \<longrightarrow> P e \<longrightarrow> P y", OF _ assms(3)])
    fix sa cb recurse to_stone cur s was ph e y
    assume IH: "\<And>cb recurse to_stone cur s was ph e y.
        sa cb recurse to_stone cur s was ph e = Some y \<Longrightarrow>
        P_cb cb \<longrightarrow> (\<forall>e e'. P e \<longrightarrow> recurse e = Some e' \<longrightarrow> P e') \<longrightarrow> P e \<longrightarrow> P y"
      and body: "do {
        st \<leftarrow> stone_at s e;
        if fst ph < int (length (proto_actions st)) then do {
          act \<leftarrow> nth_c (proto_actions st) (fst ph);
          am \<leftarrow> action_matches act to_stone;
          e \<leftarrow> source_action_step cb recurse cur was (fst ph) (next_action ph am) e;
          sa cb recurse to_stone cur s was (next_action ph am) e }
        else Some e } = Some y"
    show "P_cb cb \<longrightarrow> (\<forall>e e'. P e \<longrightarrow> recurse e = Some e' \<longrightarrow> P e') \<longrightarrow> P e \<longrightarrow> P y"
    proof (intro impI)
      assume cb: "P_cb cb" and rec: "\<forall>e e'. P e \<longrightarrow> recurse e = Some e' \<longrightarrow> P e'" and Pe: "P e"
      from body obtain st where st: "stone_at s e = Some st" by (auto simp: crash_simps)
      show "P y"
      proof (cases "fst ph < int (length (proto_actions st))")
        case False
        then show ?thesis using body st Pe by simp
      next
        case True
        with body st obtain am e2 where
          step: "source_action_step cb recurse cur was (fst ph) (next_action ph am) e = Some e2"
          and rest: "sa cb recurse to_stone cur s was (next_action ph am) e2 = Some y"
          by (auto simp: crash_simps)
        let ?ph = "next_action ph am"
        from step obtain e3 where
          e3: "(if ph_matches ?ph > 0
                then cb (Source_action cur (fst ph) (ph_recursive ?ph)) e else Some e) = Some e3"
          and e2: "(if \<not> was \<and> ph_recursive ?ph > 0 then recurse e3 else Some e3) = Some e2"
          unfolding source_action_step_def bind_eq_Some_iff by blast
        have "P e3" using e3 Pe cb [unfolded P_cb_def] by (metis option.inject)
        then have "P e2" using e2 rec by (metis option.inject)
        then show ?thesis using IH [OF rest] cb rec by blast
      qed
    qed
  qed
  then show ?thesis using assms(4) cb rec by blast
qed

lemma P_visit_stones:
  "(\<And>k e e'. P e \<Longrightarrow> f k e = Some e' \<Longrightarrow> P e') \<Longrightarrow> P e \<Longrightarrow> visit_stones f ks e = Some e' \<Longrightarrow> P e'"
  by (induction ks arbitrary: e) (auto simp: crash_simps)

lemma P_foreach_source_inner:
  "P_cb cb \<Longrightarrow> P e \<Longrightarrow> foreach_source_inner d cb to_stone seen e = Some e' \<Longrightarrow> P e'"
proof (induction d arbitrary: to_stone seen e e')
  case 0
  then show ?case by simp
next
  case (Suc d)
  have visit: "P e2" if e1: "P e1"
    and v: "visit_stone cb (foreach_source_inner d cb) to_stone seen k e1 = Some e2" for k e1 e2
  proof -
    from v obtain p where p: "stone_struct (stone_base_num e1 + int k) e1 = Some p"
      by (auto simp: visit_stone_def Let_def crash_simps)
    show ?thesis
    proof (cases "seen ! k \<or> p = None")
      case True
      then show ?thesis using v p e1 by (auto simp: visit_stone_def Let_def split: if_splits)
    next
      case False
      then obtain s where s: "p = Some s" by auto
      from False v p s obtain st where st: "stone_at s e1 = Some st"
        by (auto simp: visit_stone_def Let_def crash_simps)
      let ?cur = "stone_base_num e1 + int k"
      have v': "(if local_id st = -1 then Some e1
          else if ?cur = to_stone then
            (case last_remote_source st of None \<Rightarrow> Some e1
             | Some c \<Rightarrow> cb (Source_remote ?cur c) e1)
          else do {
            m \<leftarrow> output_matches st to_stone;
            source_actions cb (foreach_source_inner d cb ?cur (seen[k := True])) to_stone ?cur s
              (is_stalled st \<noteq> 0) (0, m, m) e1 }) = Some e2"
        using v p s st False by (simp add: visit_stone_def Let_def)
      show ?thesis
      proof (cases "local_id st = -1 \<or> ?cur = to_stone")
        case True
        then show ?thesis using v' e1 Suc.prems(1)
          by (auto simp: P_cb_def split: if_splits option.splits)
      next
        case False
        then obtain m where "source_actions cb (foreach_source_inner d cb ?cur (seen[k := True]))
            to_stone ?cur s (is_stalled st \<noteq> 0) (0, m, m) e1 = Some e2"
          using v' by (auto simp: crash_simps)
        from P_source_actions [OF Suc.prems(1) _ this e1] show ?thesis
          using Suc.IH [OF Suc.prems(1)] by blast
      qed
    qed
  qed
  have v: "visit_stones (visit_stone cb (foreach_source_inner d cb) to_stone seen)
      [0..<length seen] e = Some e'"
    using Suc.prems(3) by (auto simp: crash_simps)
  show ?case by (rule P_visit_stones [OF _ Suc.prems(2) v]) (rule visit)
qed

definition unstall_ok :: "env \<Rightarrow> bool" where
  \<comment> \<open>the application's unstall callbacks keep the invariant\<close>
  "unstall_ok env \<longleftrightarrow>
    (\<forall>f s d e e'. P e \<longrightarrow> call_unstall_cb env f s d e = Some e' \<longrightarrow> P e')"

lemma P_run_unstall_callbacks:
  "unstall_ok env \<Longrightarrow> P e \<Longrightarrow> run_unstall_callbacks env s cbs e = Some e' \<Longrightarrow> P e'"
proof (induction env s cbs e rule: run_unstall_callbacks.induct)
  case (1 env s e)
  then show ?case by simp
next
  case (2 env s cb d cbs e)
  then obtain e1 where e1: "call_unstall_cb env cb s d e = Some e1"
    "run_unstall_callbacks env s cbs e1 = Some e'" by (auto simp: crash_simps)
  have "P e1" using 2(2,3) e1(1) unfolding unstall_ok_def by blast
  then show ?case using 2(1) [OF e1(1) 2(2)] e1(2) by blast
qed

lemma P_do_callbacks:
  assumes "unstall_ok env" "P e" "do_backpressure_unstall_callbacks env s e = Some e'"
  shows "P e'"
proof -
  from assms(3) obtain k st where k: "stone_at k e = Some st"
    and b: "(if unstall_callbacks st = [] then Some e
      else do {
        e \<leftarrow> mod_stone k (\<lambda>st. st\<lparr>unstall_callbacks := []\<rparr>) e;
        let e = e\<lparr>locked := locked e - 1\<rparr>;
        e \<leftarrow> run_unstall_callbacks env s (unstall_callbacks st) e;
        Some (e\<lparr>locked := locked e + 1\<rparr>) }) = Some e'"
    unfolding do_backpressure_unstall_callbacks_def bind_eq_Some_iff by blast
  show ?thesis
  proof (cases "unstall_callbacks st = []")
    case True
    then show ?thesis using b assms(2) by simp
  next
    case False
    with b obtain e1 e2 where e1: "mod_stone k (\<lambda>st. st\<lparr>unstall_callbacks := []\<rparr>) e = Some e1"
      and e2: "run_unstall_callbacks env s (unstall_callbacks st) (e1\<lparr>locked := locked e1 - 1\<rparr>) = Some e2"
      and e': "e' = e2\<lparr>locked := locked e2 + 1\<rparr>" by (auto simp: crash_simps Let_def)
    have "P e1" by (rule P_mod_stone [OF assms(2) e1]) (simp add: same_queues_def)
    then have "P e2" using P_run_unstall_callbacks [OF assms(1) _ e2] P_locked by blast
    then show ?thesis using e' P_locked by simp
  qed
qed

lemma P_add_events_in_play: "P e \<Longrightarrow> add_events_in_play n e = Some e' \<Longrightarrow> P e'"
  by (auto simp: add_events_in_play_def crash_simps intro: P_as_ptr)

lemma P_set_store:
  assumes "P e" "set_store s a v' e = Some e'" "store_at s a e = Some v"
    "store_queue v' = store_queue v"
  shows "P e'"
proof (rule P_set_proto_action [OF assms(1) assms(2) [unfolded set_store_def]])
  fix act
  assume "proto_action_at s a e = Some act"
  then show "act_store_queue (act\<lparr>act_o := AD_Store v'\<rparr>) = act_store_queue act"
    using assms(3,4) by (auto simp: store_at_def act_store_queue_def split: action_data.splits)
qed

lemma P_pause_store:
  assumes "P e" "pause_store s a stalled e = Some e'"
  shows "P e'"
proof -
  from assms(2) obtain v where v: "store_at s a e = Some v"
    by (auto simp: pause_store_def crash_simps)
  show ?thesis
  proof (cases "is_paused v = stalled")
    case True
    then show ?thesis using assms v by (simp add: pause_store_def)
  next
    case False
    with assms(2) v obtain e1 where e1: "set_store s a (v\<lparr>is_paused := stalled\<rparr>) e = Some e1"
      and b: "(if is_sending v then
          (if stalled \<noteq> 0 then do {
             e \<leftarrow> add_events_in_play (-1) e1;
             mod_stone s (\<lambda>st. st\<lparr>pending_output := pending_output st - 1\<rparr>) e }
           else do {
             e \<leftarrow> add_events_in_play 1 e1;
             e \<leftarrow> mod_stone s (\<lambda>st. st\<lparr>pending_output := pending_output st + 1\<rparr>) e;
             Some (emit (Eff_delayed_task 0 0) e) })
        else Some e1) = Some e'"
      by (auto simp: pause_store_def bind_eq_Some_iff)
    have P1: "P e1" by (rule P_set_store [OF assms(1) e1 v]) simp
    have m: "P e3" if "add_events_in_play n e1 = Some e2"
      "mod_stone s (\<lambda>st. st\<lparr>pending_output := pending_output st + n\<rparr>) e2 = Some e3" for n e2 e3
      by (rule P_mod_stone [OF P_add_events_in_play [OF P1 that(1)] that(2)])
        (simp add: same_queues_def)
    show ?thesis
      using b P1 m [of "-1"] m [of 1] P_emit by (auto simp: crash_simps split: if_splits)
  qed
qed

lemma P_squelch_remote:
  assumes "P e" "squelch_remote s i c stalled e = Some e'"
  shows "P e'"
proof -
  have m: "P e2" if "mod_stone s (\<lambda>st. st\<lparr>squelch_depth := d\<rparr>) e = Some e2" for d e2
    by (rule P_mod_stone [OF assms(1) that]) (simp add: same_queues_def)
  show ?thesis
    using assms(2) m P_emit
    by (auto simp: squelch_remote_def crash_simps Let_def split: if_splits)
qed

definition P_transition :: "transition_fn \<Rightarrow> bool" where
  "P_transition tr \<longleftrightarrow> (\<forall>s src v e e'. P e \<longrightarrow> tr s src v e = Some e' \<longrightarrow> P e')"

lemma P_recurse_source:
  assumes "unstall_ok env" "P_transition tr" "P e" "recurse_source env tr to s i e = Some e'"
  shows "P e'"
proof -
  from assms(4) obtain t t1 :: stone and e1 where
    e1: "(if is_stalled t \<noteq> 0 then mod_stone s (\<lambda>st. st\<lparr>is_stalled := 1\<rparr>) e
            else do_backpressure_unstall_callbacks env i e) = Some e1"
    and tr: "tr i Stall_Upstream (is_stalled t1) e1 = Some e'"
    unfolding recurse_source_def bind_eq_Some_iff by blast
  have "P e1"
  proof (cases "is_stalled t \<noteq> 0")
    case True
    then show ?thesis using e1 P_mod_stone [OF assms(3)] by (auto simp: same_queues_def)
  next
    case False
    then show ?thesis using e1 P_do_callbacks [OF assms(1,3)] by simp
  qed
  then show ?thesis using tr assms(2) unfolding P_transition_def by blast
qed

lemma P_set_one:
  assumes "unstall_ok env" "P_transition tr"
  shows "P_cb (backpressure_set_one env tr to_id)"
  unfolding P_cb_def
proof (intro allI impI)
  fix info e e'
  assume Pe: "P e" and so: "backpressure_set_one env tr to_id info e = Some e'"
  show "P e'"
  proof (cases info)
    case (Source_remote stone_id c)
    then obtain s and t :: stone where "squelch_remote s stone_id c (is_stalled t) e = Some e'"
      using so by (auto simp: backpressure_set_one_def crash_simps)
    then show ?thesis by (rule P_squelch_remote [OF Pe])
  next
    case (Source_action stone_id action wr)
    with so obtain to s e1 and t :: stone and act :: proto_action where
      e1: "(if wr \<noteq> 0 then recurse_source env tr to s stone_id e else Some e) = Some e1"
      and e': "(if action_type act = Action_Store then pause_store s action (is_stalled t) e1
                else Some e1) = Some e'"
      by (auto simp: backpressure_set_one_def bind_eq_Some_iff)
    have "P e1" using e1 Pe P_recurse_source [OF assms Pe] by (auto split: if_splits)
    then show ?thesis using e' P_pause_store by (auto split: if_splits)
  qed
qed

lemma P_backpressure_set:
  assumes "unstall_ok env" "P_transition tr" "P e" "backpressure_set env tr s v e = Some e'"
  shows "P e'"
proof -
  from assms(4) obtain k and st :: stone where
    b: "(if is_stalled st = v then Some e
      else do {
        e \<leftarrow> mod_stone k (\<lambda>st. st\<lparr>is_stalled := v\<rparr>) e;
        e \<leftarrow> (if v = 0 then do_backpressure_unstall_callbacks env s e else Some e);
        foreach_source s (backpressure_set_one env tr s) e }) = Some e'"
    unfolding backpressure_set_def bind_eq_Some_iff by blast
  show ?thesis
  proof (cases "is_stalled st = v")
    case True
    then show ?thesis using b assms(3) by simp
  next
    case False
    with b obtain e1 e2 where
      e1: "mod_stone k (\<lambda>st. st\<lparr>is_stalled := v\<rparr>) e = Some e1"
      and e2: "(if v = 0 then do_backpressure_unstall_callbacks env s e1 else Some e1) = Some e2"
      and e': "foreach_source s (backpressure_set_one env tr s) e2 = Some e'"
      by (auto simp: bind_eq_Some_iff)
    have "P e1" by (rule P_mod_stone [OF assms(3) e1]) (simp add: same_queues_def)
    then have "P e2" using e2 P_do_callbacks [OF assms(1)] by (auto split: if_splits)
    then show ?thesis
      using P_foreach_source_inner [OF P_set_one [OF assms(1,2)]] e' unfolding foreach_source_def
      by blast
  qed
qed

lemma P_backpressure_transition:
  "unstall_ok env \<Longrightarrow> P_transition (backpressure_transition n env)"
proof (induction n)
  case 0
  then show ?case by (simp add: P_transition_def)
next
  case (Suc n)
  show ?case
    unfolding P_transition_def
  proof (intro allI impI)
    fix s src v e e'
    assume Pe: "P e" and tr: "backpressure_transition (Suc n) env s src v e = Some e'"
    then obtain k e1 and st :: stone where
      e1: "mod_stone k (\<lambda>st. st\<lparr>stall_from := stall_flags (stall_from st) src v\<rparr>) e = Some e1"
      and bs: "backpressure_set env (backpressure_transition n env) s
        (if stall_from st \<noteq> 0 then 1 else 0) e1 = Some e'"
      unfolding backpressure_transition.simps bind_eq_Some_iff by blast
    have "P e1" by (rule P_mod_stone [OF Pe e1]) (simp add: same_queues_def)
    then show "P e'" using P_backpressure_set [OF Suc.prems Suc.IH [OF Suc.prems]] bs by blast
  qed
qed

lemma P_backpressure_check:
  assumes "unstall_ok env" "P e" "backpressure_check env s e = Some e'"
  shows "P e'"
  using assms(2,3) P_backpressure_transition [OF assms(1)]
  unfolding P_transition_def backpressure_check_def
  by (auto simp: bind_eq_Some_iff split: if_splits)

lemma P_stall_stone:
  assumes "unstall_ok env" "P e" "INT_EVstall_stone env s e = Some e'"
  shows "P e'"
  using assms(2,3) P_backpressure_transition [OF assms(1)]
  unfolding P_transition_def INT_EVstall_stone_def by blast

lemma P_unstall_stone:
  assumes "unstall_ok env" "P e" "INT_EVunstall_stone env s e = Some e'"
  shows "P e'"
  using assms(2,3) P_backpressure_transition [OF assms(1)]
  unfolding P_transition_def INT_EVunstall_stone_def by blast

end

lemma stone_refs_same_queues: "same_queues st st' \<Longrightarrow> stone_refs i st' = stone_refs i st"
proof -
  assume s: "same_queues st st'"
  have m: "map (action_refs i) acts = map (\<lambda>q. queue_refs q i) (map act_store_queue acts)" for acts
    by (simp add: action_refs_store comp_def)
  have "map (action_refs i) (proto_actions st') = map (action_refs i) (proto_actions st)"
    using s unfolding m by (simp only: same_queues_def)
  then show ?thesis using s by (simp add: stone_refs_def same_queues_def)
qed

interpretation rc_inv: flag_invariant "rc_ok held" for held
proof
  fix e s st st'
  assume rc: "rc_ok held e" and st: "stone_at s e = Some st" and sq: "same_queues st st'"
  show "rc_ok held (set_stones ((stone_map e)[s := Some st']) e)"
  proof (rule rc_transfer [OF rc])
    fix i
    show "evp_refs (set_stones ((stone_map e)[s := Some st']) e) i + held i = evp_refs e i + held i"
      using evp_refs_mod_stone [OF st, of st' i] stone_refs_same_queues [OF sq, of i] by simp
  qed simp_all
qed (simp_all add: rc_ok_def ref_ok_def evp_refs_def cong: option.case_cong)

interpretation ok_inv: flag_invariant ev_ok
  by unfold_locales (simp_all add: ev_ok_def)

interpretation wf_inv: flag_invariant stones_wf
  by unfold_locales
    (auto simp: stones_wf_def stone_count_def stone_at_def same_queues_def nth_list_update
      split: if_splits)

end
