(* ===== verification/Ev_Process.thy ===== *)
theory Ev_Process
  imports Ev_Backpressure
begin

text \<open>
  Processing of events (evp.c: enqueue_event, internal_path_submit, the activation stack,
  update_event_length_sum, process_events_stone, process_local_actions, do_bridge_action,
  stone_close_handler, the store operations and the submit family).

  Loops the code does not bound (more events may arrive while handlers run) are partial
  functions: \<open>None\<close> is a crash or a loop that does not end.
\<close>

section \<open>Submission to a stone of this process\<close>

definition action_state_of :: "int \<Rightarrow> evp \<Rightarrow> evp" where
  \<comment> \<open>allocation of evp->as on first use, with this last_active_stone\<close>
  "action_state_of n e =
    (case as_ptr e of
       None \<Rightarrow> e\<lparr>as_ptr := Some \<lparr>last_active_stone = n, events_in_play = 0\<rparr>\<rparr>
     | Some _ \<Rightarrow> e)"

definition enqueue_event :: "env \<Rightarrow> EVstone \<Rightarrow> evid \<Rightarrow> evp \<Rightarrow> evp option" where
  "enqueue_event env stone_id event e =
    do {
      p \<leftarrow> stone_struct stone_id e;
      let e = action_state_of 0 e;
      s \<leftarrow> p;
      st \<leftarrow> stone_at s e;
      (q, e) \<leftarrow> raw_enqueue_event (queue st) event e;
      e \<leftarrow> mod_stone s (\<lambda>st. st\<lparr>queue := q, new_enqueue_flag := True,
             queue_size := queue_size st + 1\<rparr>) e;
      e \<leftarrow> backpressure_check env stone_id e;
      a \<leftarrow> as_ptr e;
      Some (e\<lparr>as_ptr := Some \<lparr>last_active_stone = stone_id,
                            events_in_play = events_in_play a + 1\<rparr>\<rparr>)
    }"

definition internal_path_submit :: "env \<Rightarrow> EVstone \<Rightarrow> evid \<Rightarrow> evp \<Rightarrow> (int \<times> evp) option" where
  "internal_path_submit env local_path_id event e =
    do {
      assert_c (locked e > 0);
      e \<leftarrow> enqueue_event env local_path_id event e;
      Some (1, e)
    }"

definition submit :: "env \<Rightarrow> EVstone \<Rightarrow> evid \<Rightarrow> evp \<Rightarrow> evp option" where
  \<comment> \<open>internal_path_submit where the result is ignored\<close>
  "submit env target event e = do { (_, e) \<leftarrow> internal_path_submit env target event e; Some e }"

section \<open>The activation stack\<close>

definition push_activation_record_on_stack :: "int \<Rightarrow> evp \<Rightarrow> evp" where
  "push_activation_record_on_stack stone_id e =
    e\<lparr>activation_stack := \<lparr>thread_id = self_thread e, act_stone_id = stone_id\<rparr> # activation_stack e\<rparr>"

fun unlink_record :: "addr \<Rightarrow> activation_rec list \<Rightarrow> activation_rec list" where
  \<comment> \<open>the first record of the thread is unlinked; without one nothing changes\<close>
  "unlink_record self [] = []"
| "unlink_record self (r # rs) = (if thread_id r = self then rs else r # unlink_record self rs)"

definition pop_activation_record_from_stack :: "evp \<Rightarrow> evp" where
  "pop_activation_record_from_stack e =
    e\<lparr>activation_stack := unlink_record (self_thread e) (activation_stack e)\<rparr>"

fun find_record :: "addr \<Rightarrow> activation_rec list \<Rightarrow> activation_rec ptr" where
  "find_record self [] = None"
| "find_record self (r # rs) = (if thread_id r = self then Some r else find_record self rs)"

definition find_activation_record_from_stack :: "evp \<Rightarrow> activation_rec ptr" where
  "find_activation_record_from_stack e = find_record (self_thread e) (activation_stack e)"

definition INT_EVexecuting_stone :: "evp \<Rightarrow> EVstone" where
  "INT_EVexecuting_stone e =
    (case find_activation_record_from_stack e of None \<Rightarrow> -1 | Some r \<Rightarrow> act_stone_id r)"

section \<open>Attributes\<close>

definition get_int_attr :: "addr ptr \<Rightarrow> string \<Rightarrow> evp \<Rightarrow> int option" where
  "get_int_attr l atom e = (case l of None \<Rightarrow> None | Some a \<Rightarrow> attr_int e a atom)"

definition set_int_attr :: "addr \<Rightarrow> string \<Rightarrow> int \<Rightarrow> evp \<Rightarrow> evp" where
  "set_int_attr l atom v e = e\<lparr>attr_int := (attr_int e)(l := (attr_int e l)(atom := Some v))\<rparr>"

definition create_attr_list :: "evp \<Rightarrow> addr \<times> evp" where
  "create_attr_list e =
    (let (a, e) = malloc e in (a, e\<lparr>attr_int := (attr_int e)(a := (\<lambda>_. None))\<rparr>))"

definition update_event_length_sum :: "nat \<Rightarrow> EVaction \<Rightarrow> evid \<Rightarrow> evp \<Rightarrow> evp option" where
  "update_event_length_sum s a i e =
    do {
      v \<leftarrow> events e i;
      act \<leftarrow> proto_action_at s a e;
      case get_int_attr (ev_attrs v) ''CM_EVENT_SIZE'' e of
        None \<Rightarrow> Some e
      | Some eventlength \<Rightarrow> do {
          let total = (if eventlength \<ge> 0 then event_length_sum act + eventlength else -1);
          let (l, e) = (case act_attrs act of None \<Rightarrow> create_attr_list e | Some l \<Rightarrow> (l, e));
          e \<leftarrow> set_proto_action s a (\<lambda>act. act\<lparr>event_length_sum := total, act_attrs := Some l\<rparr>) e;
          Some (set_int_attr l ''EV_EVENT_LSUM'' total e) }
    }"

section \<open>Kinds of actions\<close>

definition is_immediate_action :: "response_cache_element \<Rightarrow> bool" where
  "is_immediate_action act \<longleftrightarrow> rc_action_type act \<in>
    {Action_Terminal, Action_Filter, Action_Split, Action_Immediate, Action_Store,
     Action_Thread_Bridge}"

definition is_multi_action :: "response_cache_element \<Rightarrow> bool" where
  "is_multi_action act \<longleftrightarrow> rc_action_type act = Action_Multi"

definition is_congestion_action :: "response_cache_element \<Rightarrow> bool" where
  "is_congestion_action act \<longleftrightarrow> rc_action_type act = Action_Congestion"

section \<open>One immediate action\<close>

definition drop_current :: "evid \<Rightarrow> evp \<Rightarrow> evp option" where
  \<comment> \<open>removal from current_event_list; the head is read without a NULL test\<close>
  "drop_current i e =
    (if current_event_list e = [] then None
     else Some (e\<lparr>current_event_list := remove1 i (current_event_list e)\<rparr>))"

definition term_vals :: "nat \<Rightarrow> EVaction \<Rightarrow> evp \<Rightarrow> terminal_proto_vals option" where
  "term_vals s a e =
    do { act \<leftarrow> proto_action_at s a e; case act_o act of AD_Term v \<Rightarrow> Some v | _ \<Rightarrow> None }"

definition call_handler :: "env \<Rightarrow> terminal_proto_vals \<Rightarrow> evid \<Rightarrow> evp \<Rightarrow> (int \<times> evp) option" where
  \<comment> \<open>the call of the application's handler, with the lock dropped\<close>
  "call_handler env v i e =
    do {
      ev \<leftarrow> events e i;
      let e = e\<lparr>locked := locked e - 1\<rparr>;
      (out, e) \<leftarrow>
        (if \<not> event_encoded ev
         then call_simple_handler env (term_handler v) (decoded_event ev) (term_client_data v)
                (ev_attrs ev) e
         else call_raw_handler env (term_handler v) (encoded_event ev) (event_len ev)
                (term_client_data v) (ev_attrs ev) e);
      Some (out, e\<lparr>locked := locked e + 1\<rparr>)
    }"

definition do_terminal_action ::
    "env \<Rightarrow> EVstone \<Rightarrow> nat \<Rightarrow> response_cache_element \<Rightarrow> evid \<Rightarrow> evp \<Rightarrow> (int \<times> evp) option" where
  \<comment> \<open>case Action_Terminal and Action_Filter; the result is added to more_pending\<close>
  "do_terminal_action env sid s act i e =
    do {
      let a = rc_proto_action_id act;
      v \<leftarrow> term_vals s a e;
      e \<leftarrow> update_event_length_sum s a i e;
      let e = e\<lparr>current_event_list := i # current_event_list e\<rparr>;
      e \<leftarrow> mod_stone s (\<lambda>st. st\<lparr>is_processing := True\<rparr>) e;
      p \<leftarrow> proto_action_at s a e;
      ev \<leftarrow> events e i;
      e \<leftarrow> (if data_state p = Requires_Contig_Encoded \<and> \<not> event_encoded ev
            then encode_event env i e else Some e);
      st \<leftarrow> stone_at s e;
      let e = push_activation_record_on_stack (local_id st) e;
      (out, e) \<leftarrow> call_handler env v i e;
      s' \<leftarrow> stone_deref sid e;
      let e = pop_activation_record_from_stack e;
      e \<leftarrow> mod_stone s' (\<lambda>st. st\<lparr>is_processing := False\<rparr>) e;
      e \<leftarrow> drop_current i e;
      (mp, e) \<leftarrow>
        (if rc_action_type act = Action_Filter \<and> out \<noteq> 0 then do {
           v \<leftarrow> term_vals s a e;
           e \<leftarrow> submit env (term_target_stone_id v) i e;
           Some (1, e) }
         else Some (0, e));
      e \<leftarrow> return_event i e;
      Some (mp, e)
    }"

partial_function (option) split_loop ::
    "env \<Rightarrow> nat \<Rightarrow> evid \<Rightarrow> int \<Rightarrow> int \<Rightarrow> evp \<Rightarrow> (int \<times> evp) option" where
  \<comment> \<open>for (t = 0; t < stone->output_count; t++)\<close>
  "split_loop env s i t mp e =
    do {
      st \<leftarrow> stone_at s e;
      if t < output_count st then do {
        target \<leftarrow> nth_c (output_stone_ids st) t;
        if target \<noteq> -1 then do {
          e \<leftarrow> submit env target i e;
          split_loop env s i (t + 1) (mp + 1) e }
        else split_loop env s i (t + 1) mp e }
      else Some (mp, e)
    }"

definition do_split_action ::
    "env \<Rightarrow> nat \<Rightarrow> response_cache_element \<Rightarrow> evid \<Rightarrow> evp \<Rightarrow> (int \<times> evp) option" where
  "do_split_action env s act i e =
    do {
      e \<leftarrow> update_event_length_sum s (rc_proto_action_id act) i e;
      (mp, e) \<leftarrow> split_loop env s i 0 0 e;
      e \<leftarrow> return_event i e;
      Some (mp, e)
    }"

definition do_immediate_action ::
    "env \<Rightarrow> EVstone \<Rightarrow> nat \<Rightarrow> response_cache_element \<Rightarrow> evid \<Rightarrow> evp \<Rightarrow> (int \<times> evp) option" where
  "do_immediate_action env sid s act i e =
    do {
      as0 \<leftarrow> as_ptr e;
      (func, client_data) \<leftarrow> (case rc_o act of RD_Imm f c _ \<Rightarrow> Some (f, c) | _ \<Rightarrow> None);
      st \<leftarrow> stone_at s e;
      e \<leftarrow> mod_stone s (\<lambda>st. st\<lparr>is_processing := True\<rparr>) e;
      ev \<leftarrow> events e i;
      e \<leftarrow> call_imm_handler env func i client_data (ev_attrs ev) (output_count st)
             (output_stone_ids st) e;
      s' \<leftarrow> stone_deref sid e;
      e \<leftarrow> mod_stone s' (\<lambda>st. st\<lparr>is_processing := False\<rparr>) e;
      e \<leftarrow> return_event i e;
      as1 \<leftarrow> as_ptr e;
      Some (if events_in_play as1 > events_in_play as0 then 1 else 0, e)
    }"

definition do_store_action ::
    "env \<Rightarrow> nat \<Rightarrow> response_cache_element \<Rightarrow> evid \<Rightarrow> evp \<Rightarrow> (int \<times> evp) option" where
  "do_store_action env s act i e =
    do {
      let a = rc_proto_action_id act;
      v \<leftarrow> store_at s a e;
      (q, e) \<leftarrow> storage_queue_enqueue env (store_queue v) i e;
      let n = num_stored v + 1;
      e \<leftarrow> set_store s a (v\<lparr>store_queue := q, num_stored := n\<rparr>) e;
      if n > max_stored v \<and> max_stored v \<noteq> -1 then do {
        let (last_event, q, e) = storage_queue_dequeue q e;
        l \<leftarrow> last_event;
        lv \<leftarrow> events e l;
        assert_c (ref_count lv > 0);
        e \<leftarrow> set_store s a (v\<lparr>store_queue := q, num_stored := n - 1\<rparr>) e;
        e \<leftarrow> submit env (store_target_stone_id v) l e;
        e \<leftarrow> return_event l e;
        Some (1, e) }
      else Some (0, e)
    }"

definition do_thread_bridge ::
    "env \<Rightarrow> nat \<Rightarrow> response_cache_element \<Rightarrow> evid \<Rightarrow> evp \<Rightarrow> (int \<times> evp) option" where
  \<comment> \<open>case Action_Thread_Bridge; after the target CM was shut down the code loops on the item it
     has dequeued, which is a stale pointer\<close>
  "do_thread_bridge env s act i e =
    do {
      p \<leftarrow> proto_action_at s (rc_proto_action_id act) e;
      v \<leftarrow> (case act_o p of AD_Thread v \<Rightarrow> Some v | _ \<Rightarrow> None);
      assert_c (\<not> thr_target_cm_shutdown v);
      e \<leftarrow> (if thr_target_cm v = cm_addr e then submit env (thr_target_stone_id v) i e
            else thread_transfer env i (thr_target_cm v) (thr_target_stone_id v) e);
      Some (0, e)
    }"

definition do_immediate ::
    "env \<Rightarrow> EVstone \<Rightarrow> nat \<Rightarrow> response_cache_element \<Rightarrow> evid \<Rightarrow> evp \<Rightarrow> (int \<times> bool \<times> evp) option" where
  \<comment> \<open>the switch on act->action_type: more_pending and did_something\<close>
  "do_immediate env sid s act i e =
    (case rc_action_type act of
       Action_Terminal \<Rightarrow> do { (m, e) \<leftarrow> do_terminal_action env sid s act i e; Some (m, True, e) }
     | Action_Filter \<Rightarrow> do { (m, e) \<leftarrow> do_terminal_action env sid s act i e; Some (m, True, e) }
     | Action_Split \<Rightarrow> do { (m, e) \<leftarrow> do_split_action env s act i e; Some (m, False, e) }
     | Action_Immediate \<Rightarrow> do { (m, e) \<leftarrow> do_immediate_action env sid s act i e; Some (m, True, e) }
     | Action_Store \<Rightarrow> do { (m, e) \<leftarrow> do_store_action env s act i e; Some (m, False, e) }
     | Action_Thread_Bridge \<Rightarrow> do { (m, e) \<leftarrow> do_thread_bridge env s act i e; Some (m, False, e) }
     | _ \<Rightarrow> None)"

section \<open>Processing the events of a stone\<close>

definition queue_next :: "queue \<Rightarrow> addr \<Rightarrow> addr ptr option" where
  \<comment> \<open>item->next; an item that is no longer in the queue is a stale pointer\<close>
  "queue_next q a =
    (case dropWhile (\<lambda>it. qi_addr it \<noteq> a) q of
       [] \<Rightarrow> None
     | _ # rest \<Rightarrow> Some (case rest of [] \<Rightarrow> None | it # _ \<Rightarrow> Some (qi_addr it)))"

definition queue_item_at :: "queue \<Rightarrow> addr \<Rightarrow> queue_item option" where
  "queue_item_at q a = find (\<lambda>it. qi_addr it = a) q"

fun map_queue_item :: "addr \<Rightarrow> (queue_item \<Rightarrow> queue_item) \<Rightarrow> queue \<Rightarrow> queue" where
  \<comment> \<open>the queue after a write to the item at this address\<close>
  "map_queue_item a f [] = []"
| "map_queue_item a f (it # q) = (if qi_addr it = a then f it # q else it # map_queue_item a f q)"

definition upd_item :: "nat \<Rightarrow> addr \<Rightarrow> (queue_item \<Rightarrow> queue_item) \<Rightarrow> evp \<Rightarrow> evp option" where
  \<comment> \<open>a write through an item pointer\<close>
  "upd_item s a f e =
    do {
      st \<leftarrow> stone_at s e;
      _ \<leftarrow> queue_item_at (queue st) a;
      mod_stone s (\<lambda>st. st\<lparr>queue := map_queue_item a f (queue st)\<rparr>) e
    }"

definition response_at :: "nat \<Rightarrow> int \<Rightarrow> evp \<Rightarrow> response_cache_element option" where
  "response_at s r e = do { st \<leftarrow> stone_at s e; nth_c (response_cache st) r }"

definition discard_unhandled :: "nat \<Rightarrow> addr \<Rightarrow> evp \<Rightarrow> evp option" where
  \<comment> \<open>no action was found: the event is dequeued and released\<close>
  "discard_unhandled s a e =
    do { (event, e) \<leftarrow> dequeue_item s (Some a) e; i \<leftarrow> event; return_event i e }"

definition decode_for_action ::
    "env \<Rightarrow> nat \<Rightarrow> action_class \<Rightarrow> addr \<Rightarrow> evid \<Rightarrow> response_cache_element \<Rightarrow> evp
      \<Rightarrow> (int ptr \<times> evp) option" where
  \<comment> \<open>the branch for Action_Decode: the new response id, or None when decoding failed\<close>
  "decode_for_action env s c a i resp e =
    do {
      ev \<leftarrow> events e i;
      e \<leftarrow> (if \<not> event_encoded ev then do {
              (old_data, e) \<leftarrow> reassign_memory_event env i False e;
              old \<leftarrow> old_data;
              e \<leftarrow> return_event old e;
              reference_event i e }
            else Some e);
      d \<leftarrow> (case rc_o resp of RD_Decode d \<Rightarrow> Some d | _ \<Rightarrow> None);
      (to_submit, e) \<leftarrow> decode_action env i d e;
      case to_submit of
        None \<Rightarrow> Some (None, e)
      | Some j \<Rightarrow> do {
          e \<leftarrow> upd_item s a (\<lambda>it. it\<lparr>qi_item := j\<rparr>) e;
          (resp_id, e) \<leftarrow> determine_action env s c j e;
          Some (Some resp_id, e) }
    }"

definition select_action ::
    "env \<Rightarrow> nat \<Rightarrow> action_class \<Rightarrow> addr \<Rightarrow> evid \<Rightarrow> evp \<Rightarrow> (response_cache_element ptr \<times> evp) option"
  where
  \<comment> \<open>from determine_action to act = &stone->response_cache[resp_id]\<close>
  "select_action env s c a i e =
    do {
      (resp_id, e) \<leftarrow> determine_action env s c i e;
      resp \<leftarrow> response_at s resp_id e;
      e \<leftarrow> (if rc_action_type resp = Action_NoAction \<and> c = Immediate_and_Multi
            then discard_unhandled s a e else Some e);
      if rc_action_type resp = Action_Decode then do {
        (r, e) \<leftarrow> decode_for_action env s c a i resp e;
        case r of
          None \<Rightarrow> Some (None, e)
        | Some resp_id \<Rightarrow> do { act \<leftarrow> response_at s resp_id e; Some (Some act, e) } }
      else Some (Some resp, e)
    }"

datatype item_outcome = Next_item | Break_loop | Return_now

definition do_multi ::
    "env \<Rightarrow> EVstone \<Rightarrow> nat \<Rightarrow> addr \<Rightarrow> response_cache_element \<Rightarrow> evp \<Rightarrow> (int \<times> bool \<times> evp) option" where
  \<comment> \<open>the branch for multi and congestion actions\<close>
  "do_multi env sid s a act e =
    do {
      st \<leftarrow> stone_at s e;
      if new_enqueue_flag st then do {
        it \<leftarrow> queue_item_at (queue st) a;
        if \<not> qi_handled it then do {
          (func, client_data) \<leftarrow> (case rc_o act of RD_Multi f c _ \<Rightarrow> Some (f, c) | _ \<Rightarrow> None);
          e \<leftarrow> mod_stone s (\<lambda>st. st\<lparr>is_processing := True\<rparr>) e;
          e \<leftarrow> upd_item s a (\<lambda>it. it\<lparr>qi_handled := True\<rparr>) e;
          (r, e) \<leftarrow> call_multi_handler env func client_data a (output_count st)
                     (output_stone_ids st) sid e;
          s' \<leftarrow> stone_deref sid e;
          e \<leftarrow> mod_stone s' (\<lambda>st. st\<lparr>is_processing := False\<rparr>) e;
          Some (if r \<noteq> 0 then 1 else 0, True, e) }
        else Some (0, False, e) }
      else Some (0, False, e)
    }"

definition process_item ::
    "env \<Rightarrow> EVstone \<Rightarrow> nat \<Rightarrow> action_class \<Rightarrow> addr \<Rightarrow> evp \<Rightarrow> (item_outcome \<times> int \<times> bool \<times> evp) option"
  where
  \<comment> \<open>one iteration of the loop for an item not yet handled\<close>
  "process_item env sid s c a e =
    do {
      st \<leftarrow> stone_at s e;
      it \<leftarrow> queue_item_at (queue st) a;
      (act, e) \<leftarrow> select_action env s c a (qi_item it) e;
      case act of
        None \<Rightarrow> Some (Return_now, 0, False, e)
      | Some act \<Rightarrow> do {
          e \<leftarrow> backpressure_check env sid e;
          if \<not> compatible_stages c (rc_stage act) then Some (Next_item, 0, False, e)
          else if is_immediate_action act then do {
            (event, e) \<leftarrow> dequeue_item s (Some a) e;
            i \<leftarrow> event;
            (m, d, e) \<leftarrow> do_immediate env sid s act i e;
            Some (Next_item, m, d, e) }
          else if is_multi_action act \<or> is_congestion_action act then do {
            (m, d, e) \<leftarrow> do_multi env sid s a act e;
            Some (Break_loop, m, d, e) }
          else Some (Next_item, 0, False, e) }
    }"

partial_function (option) process_items ::
    "env \<Rightarrow> EVstone \<Rightarrow> nat \<Rightarrow> action_class \<Rightarrow> addr ptr \<Rightarrow> int \<Rightarrow> bool \<Rightarrow> evp
      \<Rightarrow> (bool \<times> int \<times> bool \<times> evp) option" where
  \<comment> \<open>the while loop over the queue; the first result says whether the function returned\<close>
  "process_items env sid s c item mp did e =
    do {
      st \<leftarrow> stone_at s e;
      if item = None \<or> is_draining st \<noteq> 0 \<or> is_frozen st then Some (False, mp, did, e)
      else do {
        a \<leftarrow> item;
        next \<leftarrow> queue_next (queue st) a;
        it \<leftarrow> queue_item_at (queue st) a;
        if qi_handled it then process_items env sid s c next mp did e
        else do {
          r \<leftarrow> process_item env sid s c a e;
          if fst r = Next_item
          then process_items env sid s c next (mp + fst (snd r)) (did \<or> fst (snd (snd r)))
                 (snd (snd (snd r)))
          else Some (fst r = Return_now, mp + fst (snd r), did \<or> fst (snd (snd r)),
                     snd (snd (snd r))) } }
    }"

section \<open>Bridges\<close>

definition last_bridge :: "stone \<Rightarrow> nat ptr" where
  \<comment> \<open>the for loop of do_bridge_action: the last bridge action\<close>
  "last_bridge st =
    fold (\<lambda>a r. if action_type (proto_actions st ! a) = Action_Bridge then Some a else r)
      [0..<length (proto_actions st)] None"

definition bridge_at :: "nat \<Rightarrow> EVaction \<Rightarrow> evp \<Rightarrow> bridge_action_vals option" where
  "bridge_at s a e =
    do { act \<leftarrow> proto_action_at s a e; case act_o act of AD_Bridge v \<Rightarrow> Some v | _ \<Rightarrow> None }"

definition mod_bridge ::
    "nat \<Rightarrow> EVaction \<Rightarrow> (bridge_action_vals \<Rightarrow> bridge_action_vals) \<Rightarrow> evp \<Rightarrow> evp option" where
  "mod_bridge s a f e =
    do { v \<leftarrow> bridge_at s a e; set_proto_action s a (\<lambda>act. act\<lparr>act_o := AD_Bridge (f v)\<rparr>) e }"

definition bridge_connect :: "env \<Rightarrow> EVstone \<Rightarrow> nat \<Rightarrow> EVaction \<Rightarrow> evp \<Rightarrow> (bool \<times> evp) option" where
  \<comment> \<open>the branch for o.bri.conn == NULL: whether there is a connection now. That the connection
     failed is recorded only when warnings are traced.\<close>
  "bridge_connect env sid s a e =
    do {
      v \<leftarrow> bridge_at s a e;
      let (con, e) = get_conn env (bri_remote_contact v) (e\<lparr>in_get_conn := in_get_conn e + 1\<rparr>);
      let e = e\<lparr>in_get_conn := in_get_conn e - 1\<rparr>;
      v \<leftarrow> bridge_at s a e;
      (con, e) \<leftarrow> (if bri_conn v \<noteq> None
                   then Some (bri_conn v, emit (Eff_conn_dereference con) e)
                   else do { e \<leftarrow> mod_bridge s a (\<lambda>v. v\<lparr>bri_conn := con\<rparr>) e; Some (con, e) });
      case con of
        None \<Rightarrow> do {
          e \<leftarrow> (if trace_warning env then mod_bridge s a (\<lambda>v. v\<lparr>bri_conn_failed := True\<rparr>) e
                else Some e);
          Some (False, e) }
      | Some c \<Rightarrow> Some (True, stone_close_registration c sid e)
    }"

definition bridge_write ::
    "env \<Rightarrow> nat \<Rightarrow> EVaction \<Rightarrow> evid \<Rightarrow> evp \<Rightarrow> ((int \<times> int) \<times> evp) option" where
  \<comment> \<open>ret and event_length; an event without a format is discarded\<close>
  "bridge_write env s a i e =
    do {
      v \<leftarrow> bridge_at s a e;
      ev \<leftarrow> events e i;
      case bri_conn v of
        None \<Rightarrow> Some ((1, 0), e)
      | Some c \<Rightarrow>
          (if ev_format ev = None \<and> reference_format ev = None then Some ((1, 0), e)
           else write_event env c i e)
    }"

definition bridge_failed :: "env \<Rightarrow> nat \<Rightarrow> EVaction \<Rightarrow> evp \<Rightarrow> evp option" where
  \<comment> \<open>the branch for ret == 0; closing a connection that a close handler has reset to NULL
     crashes\<close>
  "bridge_failed env s a e =
    do {
      v \<leftarrow> bridge_at s a e;
      e \<leftarrow> (case bri_conn v of
              None \<Rightarrow> Some e
            | Some c \<Rightarrow> do {
                e \<leftarrow> connection_failed env c e;
                v \<leftarrow> bridge_at s a e;
                c \<leftarrow> bri_conn v;
                Some (emit (Eff_conn_close c) e) });
      mod_bridge s a (\<lambda>v. v\<lparr>bri_conn_failed := True, bri_conn := None\<rparr>) e
    }"

definition bridge_count :: "nat \<Rightarrow> int \<Rightarrow> evp \<Rightarrow> evp option" where
  \<comment> \<open>the event counters kept as attributes of the stone\<close>
  "bridge_count s event_length e =
    do {
      st \<leftarrow> stone_at s e;
      let n = (case get_int_attr (stone_attrs st) ''EV_EVENT_COUNT'' e of None \<Rightarrow> 0 | Some n \<Rightarrow> n);
      let sum = (case get_int_attr (stone_attrs st) ''EV_EVENT_LSUM'' e of None \<Rightarrow> 0 | Some n \<Rightarrow> n);
      let (l, e) = (case stone_attrs st of None \<Rightarrow> create_attr_list e | Some l \<Rightarrow> (l, e));
      e \<leftarrow> mod_stone s (\<lambda>st. st\<lparr>stone_attrs := Some l\<rparr>) e;
      Some (set_int_attr l ''EV_EVENT_LSUM'' (sum + event_length)
              (set_int_attr l ''EV_EVENT_COUNT'' (n + 1) e))
    }"

definition bridge_event :: "env \<Rightarrow> EVstone \<Rightarrow> nat \<Rightarrow> EVaction \<Rightarrow> evp \<Rightarrow> evp option" where
  \<comment> \<open>the loop body after the wait for a pending write\<close>
  "bridge_event env sid s a e =
    do {
      (event, e) \<leftarrow> dequeue_event s e;
      i \<leftarrow> event;
      ((ret, len), e) \<leftarrow> bridge_write env s a i e;
      e \<leftarrow> return_event i e;
      e \<leftarrow> backpressure_check env sid e;
      if ret = 0 then bridge_failed env s a e else bridge_count s len e
    }"

partial_function (option) bridge_loop ::
    "env \<Rightarrow> EVstone \<Rightarrow> nat \<Rightarrow> EVaction \<Rightarrow> evp \<Rightarrow> evp option" where
  \<comment> \<open>while (stone->queue->queue_head != NULL); only the normal end clears is_outputting\<close>
  "bridge_loop env sid s a e =
    do {
      st \<leftarrow> stone_at s e;
      if queue st = [] then mod_stone s (\<lambda>st. st\<lparr>is_outputting := False\<rparr>) e
      else do {
        v \<leftarrow> bridge_at s a e;
        e \<leftarrow> (case bri_conn v of
                None \<Rightarrow> Some e
              | Some c \<Rightarrow> if write_would_block env c e then wait_pending_write env c e else Some e);
        st \<leftarrow> stone_at s e;
        if queue st = [] then Some e
        else do {
          e \<leftarrow> bridge_event env sid s a e;
          bridge_loop env sid s a e } }
    }"

definition do_bridge_action :: "env \<Rightarrow> EVstone \<Rightarrow> evp \<Rightarrow> (int \<times> evp) option" where
  "do_bridge_action env sid e =
    do {
      s \<leftarrow> stone_deref sid e;
      st \<leftarrow> stone_at s e;
      if is_frozen st \<or> is_draining st = 2 then Some (0, e)
      else if is_outputting st then Some (0, e)
      else if in_get_conn e \<noteq> 0 then
        Some (0, if \<not> delay_task_pending e
                 then emit (Eff_delayed_task 0 100) (e\<lparr>delay_task_pending := True\<rparr>) else e)
      else do {
        e \<leftarrow> mod_stone s (\<lambda>st. st\<lparr>is_outputting := True\<rparr>) e;
        n \<leftarrow> last_bridge st;
        let a = int n;
        v \<leftarrow> bridge_at s a e;
        if bri_conn_failed v then Some (0, e)
        else do {
          (ok, e) \<leftarrow> (if bri_conn v = None then bridge_connect env sid s a e else Some (True, e));
          if \<not> ok then Some (-1, e)
          else do { e \<leftarrow> bridge_loop env sid s a e; Some (0, e) } } }
    }"

section \<open>Pending output of stores\<close>

definition send_one_stored :: "env \<Rightarrow> nat \<Rightarrow> EVaction \<Rightarrow> int \<Rightarrow> evp \<Rightarrow> (int \<times> int \<times> evp) option" where
  \<comment> \<open>the body for a sending store that is not paused: found and what is added to more_pending\<close>
  "send_one_stored env s a found e =
    do {
      v \<leftarrow> store_at s a e;
      let (item, q, e) = storage_queue_dequeue (store_queue v) e;
      e \<leftarrow> set_store s a (v\<lparr>store_queue := q\<rparr>) e;
      i \<leftarrow> item;
      iv \<leftarrow> events e i;
      assert_c (ref_count iv > 0);
      t \<leftarrow> stone_deref (store_target_stone_id v) e;
      tst \<leftarrow> stone_at t e;
      assert_c (is_stalled tst = 0);
      e \<leftarrow> submit env (store_target_stone_id v) i e;
      v \<leftarrow> store_at s a e;
      let v = v\<lparr>num_stored := num_stored v - 1\<rparr>;
      e \<leftarrow> set_store s a v e;
      if num_stored v = 0 then do {
        e \<leftarrow> set_store s a (v\<lparr>is_sending := False, is_paused := 0\<rparr>) e;
        e \<leftarrow> add_events_in_play (-1) e;
        e \<leftarrow> mod_stone s (\<lambda>st. st\<lparr>pending_output := pending_output st - 1\<rparr>) e;
        Some (found, 0, e) }
      else Some (found + 1, 1, e)
    }"

partial_function (option) pending_output_loop ::
    "env \<Rightarrow> nat \<Rightarrow> EVaction \<Rightarrow> int \<Rightarrow> int \<Rightarrow> evp \<Rightarrow> (int \<times> evp) option" where
  "pending_output_loop env s a found mp e =
    do {
      st \<leftarrow> stone_at s e;
      if a < int (length (proto_actions st)) \<and> found < pending_output st then do {
        act \<leftarrow> nth_c (proto_actions st) a;
        if action_type act = Action_Store then do {
          v \<leftarrow> store_at s a e;
          if is_sending v \<and> is_paused v = 0 then do {
            r \<leftarrow> send_one_stored env s a found e;
            pending_output_loop env s (a + 1) (fst r) (mp + fst (snd r)) (snd (snd r)) }
          else pending_output_loop env s (a + 1) found mp e }
        else pending_output_loop env s (a + 1) found mp e }
      else Some (mp, e)
    }"

definition process_stone_pending_output :: "env \<Rightarrow> EVstone \<Rightarrow> evp \<Rightarrow> (int \<times> evp) option" where
  "process_stone_pending_output env sid e =
    do { s \<leftarrow> stone_deref sid e; pending_output_loop env s 0 0 0 e }"

section \<open>Processing a stone\<close>

definition set_last_active :: "int \<Rightarrow> evp \<Rightarrow> evp option" where
  "set_last_active n e =
    do { a \<leftarrow> as_ptr e; Some (e\<lparr>as_ptr := Some (a\<lparr>last_active_stone := n\<rparr>)\<rparr>) }"

definition process_queue :: "env \<Rightarrow> EVstone \<Rightarrow> nat \<Rightarrow> action_class \<Rightarrow> int \<Rightarrow> evp \<Rightarrow> (int \<times> evp) option" where
  \<comment> \<open>the while loop of process_events_stone and what follows it\<close>
  "process_queue env sid s c mp e =
    do {
      st \<leftarrow> stone_at s e;
      let item = (case queue st of [] \<Rightarrow> None | it # _ \<Rightarrow> Some (qi_addr it));
      (returned, mp, did, e) \<leftarrow> process_items env sid s c item mp False e;
      if did \<and> \<not> returned then do {
        s' \<leftarrow> stone_deref sid e;
        e \<leftarrow> mod_stone s' (\<lambda>st. st\<lparr>new_enqueue_flag := False\<rparr>) e;
        Some (mp, e) }
      else Some (mp, e)
    }"

definition process_events_stone ::
    "env \<Rightarrow> EVstone \<Rightarrow> action_class \<Rightarrow> evp \<Rightarrow> (int \<times> evp) option" where
  "process_events_stone env sid c e =
    (if sid = -1 then Some (0, e)
     else do {
       a \<leftarrow> as_ptr e;
       e \<leftarrow> (if last_active_stone a = sid then set_last_active (-1) e else Some e);
       p \<leftarrow> stone_struct sid e;
       case p of
         None \<Rightarrow> Some (0, e)
       | Some s \<Rightarrow> do {
           st \<leftarrow> stone_at s e;
           if queue_size st = 0 \<or> local_id st = -1 \<or> is_draining st = 2 \<or> is_frozen st
           then Some (0, e)
           else do {
             (mp, e) \<leftarrow> (if c = Immediate_and_Multi \<and> pending_output st \<noteq> 0
                         then process_stone_pending_output env sid e else Some (0, e));
             bridge \<leftarrow> is_bridge_stone sid e;
             if bridge \<and> c \<noteq> Bridge \<and> c \<noteq> Congestion then Some (0, e)
             else if bridge \<and> c = Bridge then do {
               e \<leftarrow> mod_stone s (\<lambda>st. st\<lparr>is_processing := True\<rparr>) e;
               (_, e) \<leftarrow> do_bridge_action env sid e;
               e \<leftarrow> mod_stone s (\<lambda>st. st\<lparr>is_processing := False\<rparr>) e;
               Some (0, e) }
             else process_queue env sid s c mp e } } })"

section \<open>Processing all stones\<close>

partial_function (option) immediate_loop :: "env \<Rightarrow> evp \<Rightarrow> evp option" where
  \<comment> \<open>while (more_pending) more_pending = process_events_stone(cm, last_active_stone, Immediate)\<close>
  "immediate_loop env e =
    do {
      a \<leftarrow> as_ptr e;
      r \<leftarrow> process_events_stone env (last_active_stone a) Immediate e;
      if fst r \<noteq> 0 then immediate_loop env (snd r) else Some (snd r)
    }"

partial_function (option) multi_scan :: "env \<Rightarrow> EVstone \<Rightarrow> int \<Rightarrow> evp \<Rightarrow> (bool \<times> int \<times> evp) option" where
  \<comment> \<open>the loop over all stones for Immediate_and_Multi; True is goto restart\<close>
  "multi_scan env sid mp e =
    (if sid < stone_count e + stone_base_num e then do {
       p \<leftarrow> stone_struct sid e;
       if p = None then multi_scan env (sid + 1) mp e
       else do {
         s \<leftarrow> p;
         st \<leftarrow> stone_at s e;
         if local_id st = -1 \<or> is_draining st = 2 \<or> is_frozen st then multi_scan env (sid + 1) mp e
         else do {
           r \<leftarrow> process_events_stone env sid Immediate_and_Multi e;
           a \<leftarrow> as_ptr (snd r);
           if mp + fst r \<noteq> 0 \<and> last_active_stone a \<noteq> -1
           then Some (True, mp + fst r, snd r)
           else multi_scan env (sid + 1) (mp + fst r) (snd r) } } }
     else Some (False, mp, e))"

partial_function (option) bridge_scan :: "env \<Rightarrow> EVstone \<Rightarrow> int \<Rightarrow> evp \<Rightarrow> (int \<times> evp) option" where
  "bridge_scan env sid mp e =
    (if sid < stone_count e + stone_base_num e then do {
       p \<leftarrow> stone_struct sid e;
       if p = None then bridge_scan env (sid + 1) mp e
       else do {
         s \<leftarrow> p;
         st \<leftarrow> stone_at s e;
         if local_id st = -1 \<or> is_frozen st then bridge_scan env (sid + 1) mp e
         else do {
           r \<leftarrow> process_events_stone env sid Bridge e;
           bridge_scan env (sid + 1) (mp + fst r) (snd r) } } }
     else Some (mp, e))"

definition output_phase :: "env \<Rightarrow> int \<Rightarrow> evp \<Rightarrow> (int \<times> evp) option" where
  \<comment> \<open>the last two steps of process_local_actions\<close>
  "output_phase env mp e =
    do {
      a \<leftarrow> as_ptr e;
      (mp, e) \<leftarrow> (if last_active_stone a \<noteq> -1 then do {
                   (n, e) \<leftarrow> process_events_stone env (last_active_stone a) Bridge e;
                   Some (mp + n, e) }
                 else Some (mp, e));
      a \<leftarrow> as_ptr e;
      if events_in_play a > 0 then bridge_scan env (stone_base_num e) mp e else Some (mp, e)
    }"

partial_function (option) process_from_restart :: "env \<Rightarrow> int \<Rightarrow> evp \<Rightarrow> (int \<times> evp) option" where
  \<comment> \<open>from the label restart\<close>
  "process_from_restart env mp e =
    do {
      a \<leftarrow> as_ptr e;
      e1 \<leftarrow> (if last_active_stone a \<noteq> -1 then immediate_loop env e else Some e);
      a1 \<leftarrow> as_ptr e1;
      r \<leftarrow> (if events_in_play a1 > 0
            then multi_scan env (stone_base_num e1) (if last_active_stone a \<noteq> -1 then 0 else mp) e1
            else Some (False, if last_active_stone a \<noteq> -1 then 0 else mp, e1));
      if fst r then process_from_restart env (fst (snd r)) (snd (snd r))
      else output_phase env (fst (snd r)) (snd (snd r))
    }"

definition process_local_actions :: "env \<Rightarrow> evp \<Rightarrow> (int \<times> evp) option" where
  "process_local_actions env e = process_from_restart env 0 (action_state_of (-1) e)"

partial_function (option) do_local_actions :: "env \<Rightarrow> evp \<Rightarrow> evp option" where
  \<comment> \<open>while (process_local_actions(cm))\<close>
  "do_local_actions env e =
    do { r \<leftarrow> process_local_actions env e;
         if fst r \<noteq> 0 then do_local_actions env (snd r) else Some (snd r) }"

definition deferred_process_actions :: "env \<Rightarrow> evp \<Rightarrow> evp option" where
  "deferred_process_actions env e =
    do {
      let e = e\<lparr>locked := locked e + 1, delay_task_pending := False\<rparr>;
      e \<leftarrow> do_local_actions env e;
      Some (e\<lparr>locked := locked e - 1\<rparr>)
    }"

end
