(* ===== verification/Ev_Api.thy ===== *)
theory Ev_Api
  imports Ev_Process
begin

text \<open>
  The entry points of evp.c over the processing loop: submission by the application and from
  the network, automatic submission, stores, freezing, draining and destroying stones,
  extraction and transfer of events, and the reaction to lost connections.
\<close>

section \<open>Connections\<close>

fun forget_loop :: "conn \<Rightarrow> nat \<Rightarrow> EVstone \<Rightarrow> evp \<Rightarrow> evp option" where
  "forget_loop c 0 sid e = Some e"
| "forget_loop c (Suc n) sid e =
    do {
      p \<leftarrow> stone_struct sid e;
      e \<leftarrow> (case p of
              None \<Rightarrow> Some e
            | Some s \<Rightarrow> do {
                st \<leftarrow> stone_at s e;
                if last_remote_source st = Some c
                then mod_stone s (\<lambda>st. st\<lparr>last_remote_source := None, squelch_depth := 0\<rparr>) e
                else Some e });
      forget_loop c n (sid + 1) e
    }"

definition INT_EVforget_connection :: "conn \<Rightarrow> evp \<Rightarrow> evp option" where
  "INT_EVforget_connection c e = forget_loop c (length (stone_map e)) (stone_base_num e) e"

fun close_bridges :: "nat \<Rightarrow> conn \<Rightarrow> EVaction \<Rightarrow> nat \<Rightarrow> evp \<Rightarrow> (bool \<times> evp) option" where
  \<comment> \<open>the loop of stone_close_handler over the actions: whether one used the connection\<close>
  "close_bridges s c a 0 e = Some (False, e)"
| "close_bridges s c a (Suc n) e =
    do {
      act \<leftarrow> proto_action_at s a e;
      (hit, e) \<leftarrow>
        (if action_type act = Action_Bridge then do {
           v \<leftarrow> bridge_at s a e;
           if bri_conn v = Some c then do {
             e \<leftarrow> mod_bridge s a (\<lambda>v. v\<lparr>bri_conn_failed := True, bri_conn := None\<rparr>) e;
             Some (True, emit (Eff_conn_close c) e) }
           else Some (False, e) }
         else Some (False, e));
      (r, e) \<leftarrow> close_bridges s c (a + 1) n e;
      Some (hit \<or> r, e)
    }"

definition stone_close_handler :: "env \<Rightarrow> conn \<Rightarrow> EVstone \<Rightarrow> evp \<Rightarrow> evp option" where
  "stone_close_handler env c sid e =
    do {
      let e = e\<lparr>locked := locked e + 1\<rparr>;
      p \<leftarrow> stone_struct sid e;
      case p of
        None \<Rightarrow> Some (e\<lparr>locked := locked e - 1\<rparr>)
      | Some s \<Rightarrow> do {
          st \<leftarrow> stone_at s e;
          (hit, e) \<leftarrow> close_bridges s c 0 (length (proto_actions st)) e;
          let handler = (if hit then app_stone_close_handler e else None);
          let e = e\<lparr>locked := locked e - 1\<rparr>;
          case handler of None \<Rightarrow> Some e | Some h \<Rightarrow> call_stone_close env h c sid e }
    }"

definition INT_EVregister_close_handler :: "addr ptr \<Rightarrow> evp \<Rightarrow> evp" where
  "INT_EVregister_close_handler handler e = e\<lparr>app_stone_close_handler := handler\<rparr>"

section \<open>Stores\<close>

partial_function (option) store_limit_loop :: "env \<Rightarrow> nat \<Rightarrow> EVaction \<Rightarrow> evp \<Rightarrow> evp option" where
  \<comment> \<open>while (num_stored > max_stored) of INT_EVset_store_limit\<close>
  "store_limit_loop env s a e =
    do {
      v \<leftarrow> store_at s a e;
      if num_stored v > max_stored v then
        (if store_queue v = [] then Some e
         else do {
           i \<leftarrow> fst (storage_queue_dequeue (store_queue v) e);
           e \<leftarrow> set_store s a (v\<lparr>store_queue := fst (snd (storage_queue_dequeue (store_queue v) e)),
                                num_stored := num_stored v - 1\<rparr>)
                 (snd (snd (storage_queue_dequeue (store_queue v) e)));
           e \<leftarrow> submit env (store_target_stone_id v) i e;
           e \<leftarrow> do_local_actions env e;
           e \<leftarrow> return_event i e;
           store_limit_loop env s a e })
      else Some e
    }"

definition INT_EVset_store_limit :: "env \<Rightarrow> EVstone \<Rightarrow> EVaction \<Rightarrow> int \<Rightarrow> evp \<Rightarrow> evp option" where
  "INT_EVset_store_limit env stone_num action_num new_limit e =
    do {
      p \<leftarrow> stone_struct stone_num e;
      case p of
        None \<Rightarrow> Some e
      | Some s \<Rightarrow> do {
          v \<leftarrow> store_at s action_num e;
          e \<leftarrow> set_store s action_num (v\<lparr>max_stored := new_limit\<rparr>) e;
          if new_limit \<noteq> -1 then store_limit_loop env s action_num e else Some e }
    }"

partial_function (option) send_stored_loop :: "env \<Rightarrow> nat \<Rightarrow> EVaction \<Rightarrow> evp \<Rightarrow> evp option" where
  "send_stored_loop env s a e =
    do {
      v \<leftarrow> store_at s a e;
      if store_queue v = [] then Some e
      else do {
        i \<leftarrow> fst (storage_queue_dequeue (store_queue v) e);
        e \<leftarrow> set_store s a (v\<lparr>store_queue := fst (snd (storage_queue_dequeue (store_queue v) e))\<rparr>)
              (snd (snd (storage_queue_dequeue (store_queue v) e)));
        e \<leftarrow> submit env (store_target_stone_id v) i e;
        v \<leftarrow> store_at s a e;
        e \<leftarrow> set_store s a (v\<lparr>num_stored := num_stored v - 1\<rparr>) e;
        e \<leftarrow> return_event i e;
        e \<leftarrow> do_local_actions env e;
        send_stored_loop env s a e }
    }"

definition INT_EVsend_stored :: "env \<Rightarrow> EVstone \<Rightarrow> EVaction \<Rightarrow> evp \<Rightarrow> evp option" where
  "INT_EVsend_stored env stone_num action_num e =
    do {
      p \<leftarrow> stone_struct stone_num e;
      case p of None \<Rightarrow> Some e | Some s \<Rightarrow> send_stored_loop env s action_num e
    }"

definition INT_EVstore_start_send :: "EVstone \<Rightarrow> EVaction \<Rightarrow> evp \<Rightarrow> evp option" where
  "INT_EVstore_start_send stone_num action_num e =
    do {
      p \<leftarrow> stone_struct stone_num e;
      case p of
        None \<Rightarrow> Some e
      | Some s \<Rightarrow> do {
          v \<leftarrow> store_at s action_num e;
          if num_stored v = 0 then Some e
          else if is_sending v then Some e
          else do {
            e \<leftarrow> set_store s action_num (v\<lparr>is_sending := True, is_paused := 0\<rparr>) e;
            e \<leftarrow> add_events_in_play 1 e;
            e \<leftarrow> mod_stone s (\<lambda>st. st\<lparr>pending_output := pending_output st + 1\<rparr>) e;
            Some (emit (Eff_delayed_task 0 0) e) } }
    }"

definition INT_EVstore_is_sending :: "EVstone \<Rightarrow> EVaction \<Rightarrow> evp \<Rightarrow> int option" where
  "INT_EVstore_is_sending stone_num action_num e =
    do {
      p \<leftarrow> stone_struct stone_num e;
      case p of
        None \<Rightarrow> Some (-1)
      | Some s \<Rightarrow> do { v \<leftarrow> store_at s action_num e; Some (if is_sending v then 1 else 0) }
    }"

definition INT_EVstore_count :: "EVstone \<Rightarrow> EVaction \<Rightarrow> evp \<Rightarrow> int option" where
  "INT_EVstore_count stone_num action_num e =
    do {
      p \<leftarrow> stone_struct stone_num e;
      case p of
        None \<Rightarrow> Some (-1)
      | Some s \<Rightarrow> do { v \<leftarrow> store_at s action_num e; Some (num_stored v) }
    }"

section \<open>Sources\<close>

definition malloc_source :: "source_rec \<Rightarrow> evp \<Rightarrow> addr \<times> evp" where
  "malloc_source r e =
    (let (a, e) = malloc e in (a, e\<lparr>source_heap := (source_heap e)(a \<mapsto> r)\<rparr>))"

definition EVregister_format_set :: "env \<Rightarrow> addr \<Rightarrow> FMFormat ptr" where
  \<comment> \<open>NULL for an empty list, otherwise what FFS's register_data_format returns\<close>
  "EVregister_format_set env l = register_format_set env l"

definition INT_EVcreate_submit_handle :: "env \<Rightarrow> EVstone \<Rightarrow> addr ptr \<Rightarrow> evp \<Rightarrow> addr \<times> evp" where
  "INT_EVcreate_submit_handle env stone data_format e =
    malloc_source
      \<lparr>src_format = map_option (register_cm_format env) data_format,
       src_reference_format = (case data_format of None \<Rightarrow> None
                               | Some l \<Rightarrow> EVregister_format_set env l),
       local_stone_id = stone, preencoded = False, src_free_func = None, src_free_data = None\<rparr> e"

definition INT_EVcreate_submit_handle_free ::
    "env \<Rightarrow> EVstone \<Rightarrow> addr \<Rightarrow> free_fn ptr \<Rightarrow> addr ptr \<Rightarrow> evp \<Rightarrow> addr \<times> evp" where
  "INT_EVcreate_submit_handle_free env stone data_format ff free_data e =
    malloc_source
      \<lparr>src_format = Some (register_cm_format env data_format),
       src_reference_format = EVregister_format_set env data_format,
       local_stone_id = stone, preencoded = False, src_free_func = ff,
       src_free_data = free_data\<rparr> e"

definition INT_EVfree_source :: "addr \<Rightarrow> evp \<Rightarrow> evp" where
  "INT_EVfree_source a e = e\<lparr>source_heap := (source_heap e)(a := None)\<rparr>"

definition INT_EVget_src_ref_format :: "addr \<Rightarrow> evp \<Rightarrow> FMFormat ptr option" where
  "INT_EVget_src_ref_format a e = do { r \<leftarrow> source_heap e a; Some (src_reference_format r) }"

section \<open>Submission\<close>

definition add_ref_attrs :: "addr ptr \<Rightarrow> evp \<Rightarrow> evp" where
  \<comment> \<open>CMadd_ref_attr_list\<close>
  "add_ref_attrs attrs e = eff_opt Eff_add_ref_attr_list attrs e"

definition internal_cm_network_submit ::
    "env \<Rightarrow> addr ptr \<Rightarrow> conn \<Rightarrow> addr \<Rightarrow> int \<Rightarrow> EVstone \<Rightarrow> evp \<Rightarrow> evp option" where
  "internal_cm_network_submit env attrs c buffer len stone_id e =
    do {
      let (i, e) = get_free_event e;
      case FMformat_from_ID env buffer of
        None \<Rightarrow> Some e
      | Some reference \<Rightarrow> do {
          e \<leftarrow> mod_event i (\<lambda>v. v\<lparr>contents := Event_CM_Owned, event_encoded := True,
                 event_len := len, encoded_event := Some buffer,
                 reference_format := Some reference, ev_attrs := attrs,
                 ev_cm := Some (cm_addr e), ev_format := None\<rparr>) (add_ref_attrs attrs e);
          let e = emit (Eff_take_buffer buffer) e;
          s \<leftarrow> stone_deref stone_id e;
          st \<leftarrow> stone_at s e;
          e \<leftarrow> (if squelch_depth st = 0
                then mod_stone s (\<lambda>st. st\<lparr>last_remote_source := Some c\<rparr>) e else Some e);
          e \<leftarrow> submit env stone_id i e;
          e \<leftarrow> return_event i e;
          do_local_actions env e }
    }"

definition INT_EVsubmit_general ::
    "env \<Rightarrow> addr \<Rightarrow> addr ptr \<Rightarrow> free_fn ptr \<Rightarrow> addr ptr \<Rightarrow> evp \<Rightarrow> evp option" where
  "INT_EVsubmit_general env source data ff attrs e =
    do {
      r \<leftarrow> source_heap e source;
      let (i, e) = get_free_event e;
      e \<leftarrow> mod_event i (\<lambda>v. v\<lparr>contents := Event_App_Owned, event_encoded := False,
             decoded_event := data, reference_format := src_reference_format r,
             ev_format := src_format r, free_func := ff, free_arg := data,
             ev_cm := Some (cm_addr e), ev_attrs := attrs\<rparr>) (add_ref_attrs attrs e);
      e \<leftarrow> submit env (local_stone_id r) i e;
      e \<leftarrow> do_local_actions env e;
      return_event i e
    }"

definition source_event :: "env \<Rightarrow> source_rec \<Rightarrow> addr ptr \<Rightarrow> addr ptr \<Rightarrow> evp \<Rightarrow> event_item \<Rightarrow> event_item"
  where
  \<comment> \<open>the fields INT_EVsubmit sets\<close>
  "source_event env r data attrs e v =
    (let v = v\<lparr>contents := (if src_free_func r \<noteq> None then Event_Freeable else Event_App_Owned),
               ev_cm := Some (cm_addr e), free_func := src_free_func r,
               free_arg := src_free_data r, ev_attrs := attrs\<rparr>
     in if preencoded r
        then v\<lparr>event_encoded := True, encoded_event := data,
               reference_format := FMFormat_of_encode env data\<rparr>
        else v\<lparr>event_encoded := False, decoded_event := data,
               reference_format := src_reference_format r, ev_format := src_format r\<rparr>)"

definition finish_submit :: "env \<Rightarrow> evid \<Rightarrow> evp \<Rightarrow> evp option" where
  \<comment> \<open>the end of INT_EVsubmit: when somebody still holds the application's data, it is copied\<close>
  "finish_submit env i e =
    do {
      v \<leftarrow> events e i;
      if ref_count v \<noteq> 1 \<and> contents v = Event_App_Owned then do {
        (tmp, e) \<leftarrow> reassign_memory_event env i True e;
        j \<leftarrow> tmp;
        return_event j e }
      else return_event i e
    }"

definition INT_EVsubmit :: "env \<Rightarrow> addr \<Rightarrow> addr ptr \<Rightarrow> addr ptr \<Rightarrow> evp \<Rightarrow> evp option" where
  "INT_EVsubmit env source data attrs e =
    do {
      r \<leftarrow> source_heap e source;
      if local_stone_id r = -1 then Some e
      else do {
        let (i, e) = get_free_event e;
        e \<leftarrow> mod_event i (source_event env r data attrs e) (add_ref_attrs attrs e);
        e \<leftarrow> submit env (local_stone_id r) i e;
        e \<leftarrow> do_local_actions env e;
        finish_submit env i e }
    }"

definition INT_EVsubmit_encoded ::
    "env \<Rightarrow> EVstone \<Rightarrow> addr ptr \<Rightarrow> int \<Rightarrow> addr ptr \<Rightarrow> evp \<Rightarrow> evp option" where
  "INT_EVsubmit_encoded env stone data data_len attrs e =
    do {
      let (i, e) = get_free_event e;
      p \<leftarrow> stone_struct stone e;
      case p of
        None \<Rightarrow> Some e
      | Some _ \<Rightarrow> do {
          e \<leftarrow> mod_event i (\<lambda>v. v\<lparr>contents := Event_App_Owned, event_encoded := True,
                 encoded_event := data, ev_cm := Some (cm_addr e), event_len := data_len,
                 reference_format := FMFormat_of_encode env data, ev_attrs := attrs\<rparr>)
               (add_ref_attrs attrs e);
          e \<leftarrow> submit env stone i e;
          e \<leftarrow> do_local_actions env e;
          return_event i e }
    }"

definition INT_EVsubmit_or_wait ::
    "env \<Rightarrow> addr \<Rightarrow> addr ptr \<Rightarrow> addr ptr \<Rightarrow> addr \<Rightarrow> addr ptr \<Rightarrow> evp \<Rightarrow> (int \<times> evp) option" where
  "INT_EVsubmit_or_wait env source data attrs cb user_data e =
    do {
      r \<leftarrow> source_heap e source;
      p \<leftarrow> stone_struct (local_stone_id r) e;
      case p of
        None \<Rightarrow> Some (-1, e)
      | Some s \<Rightarrow> do {
          st \<leftarrow> stone_at s e;
          if is_stalled st \<noteq> 0 then do {
            e \<leftarrow> register_backpressure_callback (local_stone_id r) cb user_data e;
            Some (0, e) }
          else do { e \<leftarrow> INT_EVsubmit env source data attrs e; Some (1, e) } }
    }"

definition INT_EVsubmit_encoded_or_wait ::
    "env \<Rightarrow> EVstone \<Rightarrow> addr ptr \<Rightarrow> int \<Rightarrow> addr ptr \<Rightarrow> addr \<Rightarrow> addr ptr \<Rightarrow> evp \<Rightarrow> (int \<times> evp) option" where
  "INT_EVsubmit_encoded_or_wait env sid data data_len attrs cb user_data e =
    do {
      p \<leftarrow> stone_struct sid e;
      case p of
        None \<Rightarrow> Some (-1, e)
      | Some s \<Rightarrow> do {
          st \<leftarrow> stone_at s e;
          if is_stalled st \<noteq> 0 then do {
            e \<leftarrow> register_backpressure_callback sid cb user_data e;
            Some (0, e) }
          else do { e \<leftarrow> INT_EVsubmit_encoded env sid data data_len attrs e; Some (1, e) } }
    }"

section \<open>Automatic submission\<close>

definition EVauto_submit_func :: "env \<Rightarrow> EVstone \<Rightarrow> evp \<Rightarrow> evp option" where
  "EVauto_submit_func env stone_num e =
    do {
      let e = e\<lparr>locked := locked e + 1\<rparr>;
      let (i, e) = get_free_event e;
      e \<leftarrow> mod_event i (\<lambda>v. v\<lparr>event_encoded := False, decoded_event := None,
             reference_format := None, ev_format := None, free_func := None, ev_attrs := None,
             ev_cm := Some (cm_addr e)\<rparr>) e;
      e \<leftarrow> submit env stone_num i e;
      e \<leftarrow> do_local_actions env e;
      e \<leftarrow> return_event i e;
      Some (e\<lparr>locked := locked e - 1\<rparr>)
    }"

definition INT_EVenable_auto_stone :: "EVstone \<Rightarrow> int \<Rightarrow> int \<Rightarrow> evp \<Rightarrow> evp option" where
  "INT_EVenable_auto_stone stone_num period_sec period_usec e =
    do {
      p \<leftarrow> stone_struct stone_num e;
      case p of
        None \<Rightarrow> Some e
      | Some s \<Rightarrow>
          (let (handle, e) = malloc (emit (Eff_periodic_task period_sec period_usec stone_num) e)
           in mod_stone s (\<lambda>st. st\<lparr>periodic_handle := Some handle\<rparr>) e)
    }"

definition INT_EVcreate_auto_stone ::
    "env \<Rightarrow> int \<Rightarrow> int \<Rightarrow> string \<Rightarrow> EVstone \<Rightarrow> evp \<Rightarrow> (EVstone \<times> evp) option" where
  "INT_EVcreate_auto_stone env period_sec period_usec action_spec out_stone e =
    do {
      let (stone, e) = INT_EValloc_stone e;
      (action, e) \<leftarrow> INT_EVassoc_immediate_action env stone action_spec None e;
      (_, e) \<leftarrow> INT_EVaction_set_output stone action 0 out_stone e;
      e \<leftarrow> INT_EVenable_auto_stone stone period_sec period_usec e;
      Some (stone, e)
    }"

section \<open>Freezing, draining and destroying stones\<close>

definition INT_EVfreeze_stone :: "EVstone \<Rightarrow> evp \<Rightarrow> (int \<times> evp) option" where
  "INT_EVfreeze_stone stone_id e =
    do {
      p \<leftarrow> stone_struct stone_id e;
      case p of
        None \<Rightarrow> Some (-1, e)
      | Some s \<Rightarrow> do { e \<leftarrow> mod_stone s (\<lambda>st. st\<lparr>is_frozen := True\<rparr>) e; Some (1, e) }
    }"

definition INT_EVunfreeze_stone :: "EVstone \<Rightarrow> evp \<Rightarrow> (int \<times> evp) option" where
  "INT_EVunfreeze_stone stone_id e =
    do {
      p \<leftarrow> stone_struct stone_id e;
      case p of
        None \<Rightarrow> Some (-1, e)
      | Some s \<Rightarrow> do {
          e \<leftarrow> mod_stone s (\<lambda>st. st\<lparr>is_frozen := False\<rparr>) e;
          Some (1, emit (Eff_delayed_task 0 0) e) }
    }"

fun drain_loop :: "env \<Rightarrow> nat \<Rightarrow> nat \<Rightarrow> evp \<Rightarrow> (int \<times> evp) option" where
  \<comment> \<open>the first argument is how many times the loop may still sleep\<close>
  "drain_loop env n s e =
    do {
      st \<leftarrow> stone_at s e;
      if is_processing st \<or> is_outputting st \<or> queue st \<noteq> [] then
        (case n of
           0 \<Rightarrow> Some (0, e)
         | Suc m \<Rightarrow> do { e \<leftarrow> usleep env e; drain_loop env m s e })
      else do {
        e \<leftarrow> mod_stone s (\<lambda>st. st\<lparr>is_draining := 2\<rparr>) e;
        Some (1, e) }
    }"

definition INT_EVdrain_stone :: "env \<Rightarrow> EVstone \<Rightarrow> evp \<Rightarrow> (int \<times> evp) option" where
  \<comment> \<open>count++ > 20 fails at the 22nd test\<close>
  "INT_EVdrain_stone env stone_id e =
    do {
      p \<leftarrow> stone_struct stone_id e;
      case p of
        None \<Rightarrow> Some (-1, e)
      | Some s \<Rightarrow> do {
          e \<leftarrow> mod_stone s (\<lambda>st. st\<lparr>is_draining := 1\<rparr>) e;
          drain_loop env 21 s e }
    }"

definition INT_EVdestroy_stone :: "env \<Rightarrow> EVstone \<Rightarrow> evp \<Rightarrow> (int \<times> evp) option" where
  "INT_EVdestroy_stone env stone_id e =
    do {
      p \<leftarrow> stone_struct stone_id e;
      case p of
        None \<Rightarrow> Some (-1, e)
      | Some s \<Rightarrow> do {
          (_, e) \<leftarrow> INT_EVdrain_stone env stone_id e;
          st \<leftarrow> stone_at s e;
          (q, e) \<leftarrow> empty_queue (queue st) e;
          e \<leftarrow> mod_stone s (\<lambda>st. st\<lparr>queue := q\<rparr>) e;
          e \<leftarrow> INT_EVfree_stone stone_id e;
          Some (1, e) }
    }"

section \<open>Extracting and transferring\<close>

fun extract_events_from_queue ::
    "env \<Rightarrow> queue \<Rightarrow> (int \<times> addr ptr) list \<Rightarrow> evp \<Rightarrow> ((int \<times> addr ptr) list \<times> evp) option" where
  \<comment> \<open>the entries (length, buffer) before the terminating length -1\<close>
  "extract_events_from_queue env [] list e = Some (list, e)"
| "extract_events_from_queue env (first # rest) list e =
    do {
      v \<leftarrow> events e (qi_item first);
      e \<leftarrow> (if event_encoded v \<or> ioBuffer v \<noteq> None then Some e
            else encode_event env (qi_item first) e);
      v \<leftarrow> events e (qi_item first);
      extract_events_from_queue env rest (list @ [(event_len v, encoded_event v)]) e
    }"

definition INT_EVextract_stone_events ::
    "env \<Rightarrow> EVstone \<Rightarrow> evp \<Rightarrow> ((int \<times> addr ptr) list ptr \<times> evp) option" where
  "INT_EVextract_stone_events env stone_id e =
    do {
      p \<leftarrow> stone_struct stone_id e;
      case p of
        None \<Rightarrow> Some (None, e)
      | Some s \<Rightarrow> do {
          st \<leftarrow> stone_at s e;
          (l, e) \<leftarrow> extract_events_from_queue env (queue st) [] e;
          Some (Some l, e) }
    }"

partial_function (option) transfer_loop ::
    "env \<Rightarrow> nat \<Rightarrow> EVstone \<Rightarrow> addr ptr \<Rightarrow> int \<Rightarrow> evp \<Rightarrow> (int \<times> evp) option" where
  "transfer_loop env src dest item count e =
    (case item of
       None \<Rightarrow> Some (count, e)
     | Some a \<Rightarrow> do {
         st \<leftarrow> stone_at src e;
         next \<leftarrow> queue_next (queue st) a;
         r \<leftarrow> dequeue_item src (Some a) e;
         i \<leftarrow> fst r;
         e \<leftarrow> submit env dest i (snd r);
         e \<leftarrow> return_event i e;
         transfer_loop env src dest next (count + 1) e })"

definition INT_EVtransfer_events :: "env \<Rightarrow> EVstone \<Rightarrow> EVstone \<Rightarrow> evp \<Rightarrow> (int \<times> evp) option" where
  "INT_EVtransfer_events env src_stone_id dest_stone_id e =
    do {
      p \<leftarrow> stone_struct src_stone_id e;
      case p of
        None \<Rightarrow> Some (-1, e)
      | Some src \<Rightarrow> do {
          d \<leftarrow> stone_struct dest_stone_id e;
          case d of
            None \<Rightarrow> Some (-1, e)
          | Some _ \<Rightarrow> do {
              st \<leftarrow> stone_at src e;
              transfer_loop env src dest_stone_id
                (case queue st of [] \<Rightarrow> None | it # _ \<Rightarrow> Some (qi_addr it)) 0 e } }
    }"

definition INT_EVextract_attr_list :: "EVstone \<Rightarrow> evp \<Rightarrow> addr ptr option" where
  "INT_EVextract_attr_list stone_id e =
    do {
      p \<leftarrow> stone_struct stone_id e;
      case p of None \<Rightarrow> Some None | Some s \<Rightarrow> do { st \<leftarrow> stone_at s e; Some (stone_attrs st) }
    }"

definition INT_EVset_attr_list :: "EVstone \<Rightarrow> addr ptr \<Rightarrow> evp \<Rightarrow> evp option" where
  "INT_EVset_attr_list stone_id attrs e =
    do {
      p \<leftarrow> stone_struct stone_id e;
      case p of
        None \<Rightarrow> Some e
      | Some s \<Rightarrow> do {
          st \<leftarrow> stone_at s e;
          let e = eff_opt Eff_free_attr_list (stone_attrs st) e;
          e \<leftarrow> mod_stone s (\<lambda>st. st\<lparr>stone_attrs := attrs\<rparr>) e;
          Some (add_ref_attrs attrs e) }
    }"

end
