(* ===== verification/Ev_Stone_Free.thy ===== *)
theory Ev_Stone_Free
  imports Ev_Stone
begin

text \<open>
  Freeing a stone and clearing a store return every reference the stone holds: no crash, no
  event freed while referenced, none leaked.
\<close>

section \<open>What changes one slot only\<close>

definition slot_frame :: "nat \<Rightarrow> evp \<Rightarrow> evp \<Rightarrow> bool" where
  "slot_frame s e e' \<longleftrightarrow>
    ev_frame (set_stones [] e\<lparr>as_ptr := None\<rparr>) (set_stones [] e'\<lparr>as_ptr := None\<rparr>) \<and>
    (as_ptr e' = None \<longleftrightarrow> as_ptr e = None) \<and>
    length (stone_map e') = length (stone_map e) \<and>
    (\<forall>k. k \<noteq> s \<longrightarrow> stone_map e' ! k = stone_map e ! k)"

lemma slot_frame_refl [simp]: "slot_frame s e e"
  by (simp add: slot_frame_def)

lemma slot_frame_trans: "slot_frame s e e1 \<Longrightarrow> slot_frame s e1 e2 \<Longrightarrow> slot_frame s e e2"
  by (auto simp: slot_frame_def intro: ev_frame_trans)

lemma slot_frame_ev_frame: "ev_frame e e' \<Longrightarrow> slot_frame s e e'"
  by (simp add: slot_frame_def ev_frame_def)

lemma slot_frame_upd:
  "slot_frame s e (set_stones ((stone_map e)[s := x]) e)"
  by (simp add: slot_frame_def)

lemma slot_frame_sel:
  assumes "slot_frame s e e'"
  shows "stone_base_num e' = stone_base_num e" "stone_lookup_table e' = stone_lookup_table e"
    "as_ptr e' = None \<longleftrightarrow> as_ptr e = None" "length (stone_map e') = length (stone_map e)"
    "k \<noteq> s \<Longrightarrow> stone_map e' ! k = stone_map e ! k"
  using assms by (simp_all add: slot_frame_def ev_frame_def)

lemma set_proto_action_eq:
  assumes "stone_at s e = Some st" "0 \<le> a" "nat a < length (proto_actions st)"
  shows "set_proto_action s a f e =
    Some (set_stones ((stone_map e)[s := Some (st\<lparr>proto_actions :=
      (proto_actions st)[nat a := f (proto_actions st ! nat a)]\<rparr>)]) e)"
proof -
  have "a < int (length (proto_actions st))" using assms(2,3) by simp
  then show ?thesis using assms
    by (simp add: set_proto_action_def nth_c_def upd_c_def mod_stone_def)
qed

lemma stone_at_upd:
  "stone_at s e = Some st \<Longrightarrow> stone_at s (set_stones ((stone_map e)[s := x]) e) = x"
  by (simp add: stone_at_def split: if_splits)

lemma stone_at_frame: "ev_frame e e' \<Longrightarrow> stone_at s e' = stone_at s e"
  by (simp add: stone_at_def ev_frame_def)

section \<open>Releasing the queue of a store\<close>

lemma empty_store_ok:
  assumes "rc_ok held e" "ev_ok e" "stone_at s e = Some st"
    and a: "0 \<le> a" "nat a < length (proto_actions st)"
    and v: "act_o (proto_actions st ! nat a) = AD_Store v"
  shows "\<exists>e1 e'. return_all (store_queue v) e = Some e1 \<and> ev_frame e e1 \<and>
    set_store s a (v\<lparr>store_queue := []\<rparr>) e1 = Some e' \<and>
    e' = set_stones ((stone_map e)[s := Some (st\<lparr>proto_actions := (proto_actions st)
            [nat a := (proto_actions st ! nat a)\<lparr>act_o := AD_Store (v\<lparr>store_queue := []\<rparr>)\<rparr>]\<rparr>)]) e1 \<and>
    rc_ok held e' \<and> ev_ok e'"
proof -
  let ?m = "(stone_map e)[s := Some (st\<lparr>proto_actions := (proto_actions st)
            [nat a := (proto_actions st ! nat a)\<lparr>act_o := AD_Store (v\<lparr>store_queue := []\<rparr>)\<rparr>]\<rparr>)]"
  have set0: "set_store s a (v\<lparr>store_queue := []\<rparr>) e = Some (set_stones ?m e)"
    unfolding set_store_def by (simp add: set_proto_action_eq [OF assms(3) a])
  have at: "proto_action_at s a e = Some (proto_actions st ! nat a)"
    using assms(3) a by (auto simp: proto_action_at_def nth_c_def)
  have rc0: "rc_ok (\<lambda>i. held i + queue_refs (store_queue v) i) (set_stones ?m e)"
    by (rule rc_set_proto_action [OF assms(1) set0 [unfolded set_store_def]])
      (use at v in \<open>auto simp: action_refs_def\<close>)
  have "ev_ok (set_stones ?m e)" using assms(2) by (simp add: ev_ok_def)
  from return_all_ok [OF rc0 this] obtain e2 where
    e2: "return_all (store_queue v) (set_stones ?m e) = Some e2" "rc_ok held e2" "ev_ok e2"
    "ev_frame (set_stones ?m e) e2" by blast
  from e2(1) obtain e1 where e1: "return_all (store_queue v) e = Some e1" "e2 = set_stones ?m e1"
    by (auto simp: return_all_set_stones)
  have "\<exists>e1. return_all q e = Some e1 \<and> ev_frame e e1" if "return_all q e = Some e1" for q e1
    using that
  proof (induction q arbitrary: e)
    case Nil
    then show ?case by simp
  next
    case (Cons x q)
    then show ?case by (auto simp: crash_simps intro: ev_frame_trans dest: ev_frame_return_event)
  qed
  then have fr: "ev_frame e e1" using e1(1) by fastforce
  have "stone_at s e1 = Some st" using stone_at_frame [OF fr] assms(3) by simp
  then have "set_store s a (v\<lparr>store_queue := []\<rparr>) e1 = Some (set_stones ?m e1)"
    unfolding set_store_def using fr
    by (simp add: set_proto_action_eq [OF _ a] ev_frame_def)
  then show ?thesis using e1 e2 fr by blast
qed

lemma clear_stored_ok:
  assumes "rc_ok held e" "ev_ok e" "stone_struct n e = Some (Some s)"
    "stone_at s e = Some st" "0 \<le> a" "nat a < length (proto_actions st)"
    "act_o (proto_actions st ! nat a) = AD_Store v"
  shows "\<exists>e'. INT_EVclear_stored n a e = Some e' \<and> rc_ok held e' \<and> ev_ok e' \<and>
    store_at s a e' = Some (v\<lparr>store_queue := []\<rparr>)"
proof -
  from empty_store_ok [OF assms(1,2,4-7)] obtain e1 e' where
    e1: "return_all (store_queue v) e = Some e1"
    and e': "set_store s a (v\<lparr>store_queue := []\<rparr>) e1 = Some e'" "rc_ok held e'" "ev_ok e'"
    and eq: "e' = set_stones ((stone_map e)[s := Some (st\<lparr>proto_actions := (proto_actions st)
            [nat a := (proto_actions st ! nat a)\<lparr>act_o := AD_Store (v\<lparr>store_queue := []\<rparr>)\<rparr>]\<rparr>)]) e1"
    by blast
  have a: "a < int (length (proto_actions st))" using assms(5,6) by simp
  have "s < length (stone_map e)" using assms(4) by (simp add: stone_at_Some)
  then have "store_at s a e' = Some (v\<lparr>store_queue := []\<rparr>)"
    using assms(5,6) a by (simp add: eq store_at_def proto_action_at_def stone_at_def nth_c_def)
  moreover have "store_at s a e = Some v"
    using assms(4-7) a by (simp add: store_at_def proto_action_at_def nth_c_def)
  ultimately show ?thesis
    using assms(3) e1 e' by (simp add: INT_EVclear_stored_def storage_queue_empty_def
        storage_queue_default_empty_def empty_queue_def)
qed

section \<open>Freeing the actions\<close>

text \<open>The union member a proto action holds is the one its type says.\<close>

definition action_wf :: "proto_action \<Rightarrow> bool" where
  "action_wf act \<longleftrightarrow>
    (case act_o act of
       AD_Bridge _ \<Rightarrow> action_type act = Action_Bridge
     | AD_Decode _ \<Rightarrow> action_type act = Action_Decode
     | AD_Store _ \<Rightarrow> action_type act = Action_Store
     | AD_Imm _ \<Rightarrow> action_type act \<in> {Action_Immediate, Action_Multi, Action_Congestion}
     | AD_Term _ \<Rightarrow> action_type act \<in> {Action_Terminal, Action_Filter}
     | AD_Thread _ \<Rightarrow> action_type act = Action_Thread_Bridge
     | AD_None \<Rightarrow> action_type act \<in> {Action_NoAction, Action_Split})"

lemma eff_opt_sel [simp]:
  "ev_frame e (eff_opt f p e1) = ev_frame e e1" "events (eff_opt f p e) = events e"
  "stone_map (eff_opt f p e) = stone_map e" "as_ptr (eff_opt f p e) = as_ptr e"
  "stone_at s (eff_opt f p e) = stone_at s e" "rc_ok held (eff_opt f p e) = rc_ok held e"
  "ev_ok (eff_opt f p e) = ev_ok e" "stone_base_num (eff_opt f p e) = stone_base_num e"
  by (auto simp: eff_opt_def stone_at_def ev_ok_def split: option.splits)

lemma slot_frame_eff_opt [simp]: "slot_frame s e (eff_opt f p e)"
  by (rule slot_frame_ev_frame) simp

definition freed_action :: "proto_action \<Rightarrow> proto_action" where
  \<comment> \<open>what free_proto_action leaves in the cell\<close>
  "freed_action act = act\<lparr>act_o :=
    (case act_o act of
       AD_Bridge b \<Rightarrow> AD_Bridge (b\<lparr>bri_remote_contact := None, bri_remote_path := None\<rparr>)
     | AD_Decode d \<Rightarrow> AD_Decode (d\<lparr>decode_context := None\<rparr>)
     | AD_Store v \<Rightarrow> AD_Store (v\<lparr>store_queue := []\<rparr>)
     | x \<Rightarrow> x)\<rparr>"

lemma action_refs_freed [simp]: "action_refs i (freed_action act) = 0"
  by (simp add: action_refs_def freed_action_def split: action_data.split)

lemma rc_upd_actions:
  assumes "rc_ok held e" "stone_at s e = Some st" "queue st' = queue st"
    "\<And>i. sum_list (map (action_refs i) (proto_actions st'))
        = sum_list (map (action_refs i) (proto_actions st))"
  shows "rc_ok held (set_stones ((stone_map e)[s := Some st']) e)"
proof (rule rc_transfer [OF assms(1)])
  fix i
  show "evp_refs (set_stones ((stone_map e)[s := Some st']) e) i + held i = evp_refs e i + held i"
    using evp_refs_mod_stone [OF assms(2), of st' i] assms(3,4) by (simp add: stone_refs_def)
qed simp_all

lemma free_proto_action_ok:
  assumes "rc_ok held e" "ev_ok e" and st: "stone_at s e = Some st"
    and a: "0 \<le> a" "nat a < length (proto_actions st)" and wf: "action_wf (proto_actions st ! nat a)"
  shows "\<exists>e'. free_proto_action s a e = Some e' \<and> rc_ok held e' \<and> ev_ok e' \<and> slot_frame s e e' \<and>
    stone_at s e' = Some (st\<lparr>proto_actions :=
      (proto_actions st)[nat a := freed_action (proto_actions st ! nat a)]\<rparr>)"
proof -
  define act where "act = proto_actions st ! nat a"
  let ?e = "eff_opt Eff_free_attr_list (act_attrs act) e"
  have at: "proto_action_at s a e = Some act"
    using st a by (auto simp: proto_action_at_def nth_c_def act_def)
  have st1: "stone_at s ?e = Some st" and rc1: "rc_ok held ?e" and ok1: "ev_ok ?e"
    using st assms(1,2) by simp_all
  have same: "\<exists>e'. free_proto_action s a e = Some e' \<and> rc_ok held e' \<and> ev_ok e' \<and>
      slot_frame s e e' \<and> stone_at s e' = Some (st\<lparr>proto_actions :=
        (proto_actions st)[nat a := freed_action act]\<rparr>)"
    if "free_proto_action s a e = Some e'" "ev_frame e e'" "events e' = events e"
      "freed_action act = act" for e'
  proof -
    have "rc_ok held e'" using rc_frame [OF assms(1) that(2,3)] .
    moreover have "stone_at s e' = Some st" using stone_at_frame [OF that(2)] st by simp
    moreover have "(proto_actions st)[nat a := act] = proto_actions st" by (simp add: act_def)
    ultimately show ?thesis
      using that assms(2) by (simp add: slot_frame_ev_frame ev_ok_def)
  qed
  have setact: "\<exists>e'. set_proto_action s a (\<lambda>act. act\<lparr>act_o := x\<rparr>) e2 = Some e' \<and> rc_ok held e' \<and>
      ev_ok e' \<and> slot_frame s e e' \<and> stone_at s e' = Some (st\<lparr>proto_actions :=
        (proto_actions st)[nat a := freed_action act]\<rparr>)"
    if e2: "ev_frame e e2" "events e2 = events e" and x: "freed_action act = act\<lparr>act_o := x\<rparr>"
      "\<And>i. action_refs i act = 0" for e2 x
  proof -
    have st2: "stone_at s e2 = Some st" using stone_at_frame [OF e2(1)] st by simp
    let ?st = "st\<lparr>proto_actions := (proto_actions st)[nat a := freed_action act]\<rparr>"
    have "set_proto_action s a (\<lambda>act. act\<lparr>act_o := x\<rparr>) e2
        = Some (set_stones ((stone_map e2)[s := Some ?st]) e2)"
      using set_proto_action_eq [OF st2 a, of "\<lambda>act. act\<lparr>act_o := x\<rparr>"] x(1)
      by (simp add: act_def)
    moreover have "rc_ok held (set_stones ((stone_map e2)[s := Some ?st]) e2)"
    proof (rule rc_upd_actions [OF rc_frame [OF assms(1) e2] st2])
      fix i
      show "sum_list (map (action_refs i) (proto_actions ?st))
          = sum_list (map (action_refs i) (proto_actions st))"
        using sum_list_update_same [OF a(2), of "action_refs i" "freed_action act"] x(2) act_def
        by simp
    qed simp
    moreover have "slot_frame s e (set_stones ((stone_map e2)[s := Some ?st]) e2)"
      using slot_frame_trans [OF slot_frame_ev_frame [OF e2(1)] slot_frame_upd] .
    ultimately show ?thesis
      using stone_at_upd [OF st2, of "Some ?st"] assms(2) e2(2) by (simp add: ev_ok_def)
  qed
  show ?thesis
  proof (cases "act_o act")
    case (AD_Bridge b)
    then have "action_type act = Action_Bridge" using wf by (simp add: action_wf_def act_def)
    then show ?thesis unfolding act_def [symmetric]
      using AD_Bridge at setact [of "eff_opt Eff_free_attr_list (bri_remote_contact b)
                  (eff_opt (\<lambda>c. Eff_conn_dereference (Some c)) (bri_conn b) ?e)"]
      by (simp add: free_proto_action_def freed_action_def action_refs_def)
  next
    case (AD_Decode d)
    then have "action_type act = Action_Decode" using wf by (simp add: action_wf_def act_def)
    then show ?thesis unfolding act_def [symmetric]
      using AD_Decode at setact [of "eff_opt Eff_free_FFSContext (decode_context d) ?e"]
      by (simp add: free_proto_action_def freed_action_def action_refs_def)
  next
    case (AD_Store v)
    then have ty: "action_type act = Action_Store" using wf by (simp add: action_wf_def act_def)
    from empty_store_ok [OF rc1 ok1 st1 a AD_Store [unfolded act_def]] obtain e1 e' where
      e1: "return_all (store_queue v) ?e = Some e1" "ev_frame ?e e1"
      "set_store s a (v\<lparr>store_queue := []\<rparr>) e1 = Some e'" "rc_ok held e'" "ev_ok e'"
      and eq: "e' = set_stones ((stone_map ?e)[s := Some (st\<lparr>proto_actions := (proto_actions st)
            [nat a := act\<lparr>act_o := AD_Store (v\<lparr>store_queue := []\<rparr>)\<rparr>]\<rparr>)]) e1"
      unfolding act_def by blast
    have fa: "freed_action act = act\<lparr>act_o := AD_Store (v\<lparr>store_queue := []\<rparr>)\<rparr>"
      using AD_Store by (simp add: freed_action_def)
    have sm: "stone_map e1 = stone_map e" using e1(2) by (simp add: ev_frame_def)
    have fr: "ev_frame e e1" using e1(2) ev_frame_trans [of e ?e e1] by simp
    have "slot_frame s e e'" unfolding eq
      using slot_frame_trans [OF slot_frame_ev_frame [OF fr, of s] slot_frame_upd] sm by simp
    moreover have "stone_at s e1 = Some st" using stone_at_frame [OF fr] st by simp
    then have "stone_at s e' = Some (st\<lparr>proto_actions := (proto_actions st)[nat a := freed_action act]\<rparr>)"
      unfolding eq fa using sm by (simp add: stone_at_def split: if_splits)
    moreover have "free_proto_action s a e = Some e'"
      using at ty AD_Store e1 by (simp add: free_proto_action_def storage_queue_cleanup_def
          storage_queue_default_empty_def empty_queue_def)
    ultimately show ?thesis using e1(4,5) unfolding act_def by blast
  next
    case (AD_Imm m)
    then have "action_type act \<in> {Action_Immediate, Action_Multi, Action_Congestion}"
      using wf by (simp add: action_wf_def act_def)
    then show ?thesis unfolding act_def [symmetric]
      using AD_Imm at by (intro same [of "eff_opt Eff_response_data_free m ?e"])
        (auto simp: free_proto_action_def freed_action_def)
  next
    case AD_None
    then have "action_type act \<in> {Action_NoAction, Action_Split}"
      using wf by (simp add: action_wf_def act_def)
    then show ?thesis unfolding act_def [symmetric]
      using AD_None at by (intro same [of ?e]) (auto simp: free_proto_action_def freed_action_def)
  next
    case (AD_Term x)
    then have "action_type act \<in> {Action_Terminal, Action_Filter}"
      using wf by (simp add: action_wf_def act_def)
    then show ?thesis unfolding act_def [symmetric]
      using AD_Term at by (intro same [of ?e]) (auto simp: free_proto_action_def freed_action_def)
  next
    case (AD_Thread x)
    then have "action_type act = Action_Thread_Bridge"
      using wf by (simp add: action_wf_def act_def)
    then show ?thesis unfolding act_def [symmetric]
      using AD_Thread at by (intro same [of ?e]) (auto simp: free_proto_action_def freed_action_def)
  qed
qed

lemma free_proto_actions_ok:
  assumes "rc_ok held e" "ev_ok e" "stone_at s e = Some st"
    and "nat a + n = length (proto_actions st)" "0 \<le> a"
    and "\<forall>act \<in> set (drop (nat a) (proto_actions st)). action_wf act"
  shows "\<exists>e'. free_proto_actions s a n e = Some e' \<and> rc_ok held e' \<and> ev_ok e' \<and> slot_frame s e e' \<and>
    stone_at s e' = Some (st\<lparr>proto_actions :=
      take (nat a) (proto_actions st) @ map freed_action (drop (nat a) (proto_actions st))\<rparr>)"
  using assms
proof (induction n arbitrary: a e st)
  case 0
  then show ?case by simp
next
  case (Suc n)
  let ?acts = "proto_actions st"
  have l: "nat a < length ?acts" using Suc.prems(4) by simp
  have d: "drop (nat a) ?acts = ?acts ! nat a # drop (Suc (nat a)) ?acts"
    using l by (simp add: Cons_nth_drop_Suc)
  then have wf: "action_wf (?acts ! nat a)" using Suc.prems(6) by simp
  let ?acts1 = "?acts[nat a := freed_action (?acts ! nat a)]"
  from free_proto_action_ok [OF Suc.prems(1-3,5) l wf] obtain e1 where
    e1: "free_proto_action s a e = Some e1" "rc_ok held e1" "ev_ok e1" "slot_frame s e e1"
    "stone_at s e1 = Some (st\<lparr>proto_actions := ?acts1\<rparr>)" by blast
  have na: "nat (a + 1) = Suc (nat a)" using Suc.prems(5) by simp
  have dr: "drop (Suc (nat a)) ?acts1 = drop (Suc (nat a)) ?acts" by simp
  have "\<exists>e'. free_proto_actions s (a + 1) n e1 = Some e' \<and> rc_ok held e' \<and> ev_ok e' \<and>
      slot_frame s e1 e' \<and> stone_at s e' = Some (st\<lparr>proto_actions := ?acts1,
        proto_actions := take (nat (a + 1)) ?acts1 @ map freed_action (drop (nat (a + 1)) ?acts1)\<rparr>)"
    using Suc.IH [OF e1(2,3,5), of "a + 1"] Suc.prems(4-6) na d by simp
  then obtain e' where e': "free_proto_actions s (a + 1) n e1 = Some e'" "rc_ok held e'" "ev_ok e'"
    "slot_frame s e1 e'" "stone_at s e' = Some (st\<lparr>proto_actions :=
       take (nat (a + 1)) ?acts1 @ map freed_action (drop (nat (a + 1)) ?acts1)\<rparr>)" by auto
  have "take (nat (a + 1)) ?acts1 @ map freed_action (drop (nat (a + 1)) ?acts1)
      = take (nat a) ?acts @ map freed_action (drop (nat a) ?acts)"
    using l by (simp add: na d dr take_Suc_conv_app_nth)
  then show ?case using e1(1) e' slot_frame_trans [OF e1(4) e'(4)] by simp
qed

section \<open>Emptying the queue of a stone\<close>

lemma dequeue_event_Cons:
  assumes "stone_at s e = Some st" "queue st = x # q" "as_ptr e = Some a"
  shows "dequeue_event s e = Some (Some (qi_item x),
    (set_stones ((stone_map e)[s := Some (st\<lparr>queue := q, queue_size := queue_size st - 1\<rparr>)])
      (free_queue_item (qi_addr x) e))\<lparr>as_ptr := Some (a\<lparr>events_in_play := events_in_play a - 1\<rparr>)\<rparr>)"
  using assms by (simp add: dequeue_event_def raw_dequeue_event_def leave_queue_def mod_stone_def
      stone_at_def free_queue_item_def split: if_splits)

lemma free_stone_queue_ok:
  assumes "rc_ok held e" "ev_ok e" "stone_at s e = Some st" "as_ptr e \<noteq> None"
  shows "\<exists>e' n. free_stone_queue s e = Some e' \<and> rc_ok held e' \<and> ev_ok e' \<and> slot_frame s e e' \<and>
    stone_at s e' = Some (st\<lparr>queue := [], queue_size := n\<rparr>)"
  using assms
proof (induction "queue st" arbitrary: e st)
  case Nil
  have "st = st\<lparr>queue := [], queue_size := queue_size st\<rparr>" using Nil.hyps by simp
  then have "stone_at s e = Some (st\<lparr>queue := [], queue_size := queue_size st\<rparr>)"
    using Nil.prems(3) by simp
  moreover have "free_stone_queue s e = Some e"
    using Nil by (subst free_stone_queue.simps) simp
  ultimately show ?case using Nil.prems
    by (intro exI [of _ e] exI [of _ "queue_size st"]) simp
next
  case (Cons x q)
  obtain a where a: "as_ptr e = Some a" using Cons.prems(4) by blast
  note q = Cons.hyps(2) [symmetric]
  let ?st = "st\<lparr>queue := q, queue_size := queue_size st - 1\<rparr>"
  let ?e1 = "(set_stones ((stone_map e)[s := Some ?st]) (free_queue_item (qi_addr x) e))
     \<lparr>as_ptr := Some (a\<lparr>events_in_play := events_in_play a - 1\<rparr>)\<rparr>"
  note d = dequeue_event_Cons [OF Cons.prems(3) q a]
  have rc1: "rc_ok (hold (qi_item x) held) ?e1" using rc_dequeue_event [OF Cons.prems(1) d] by simp
  have ok1: "ev_ok ?e1" using Cons.prems(2) by (simp add: ev_ok_def free_queue_item_def)
  have st1: "stone_at s ?e1 = Some ?st"
    using Cons.prems(3) by (simp add: stone_at_def split: if_splits)
  have sf1: "slot_frame s e ?e1"
    using a by (simp add: slot_frame_def ev_frame_def free_queue_item_def)
  obtain v where v: "events ?e1 (qi_item x) = Some v"
    by (rule rc_live [OF rc1, of "qi_item x"]) auto
  then have "free_ok v" using ok1 by (simp add: ev_ok_def)
  then obtain e2 where e2: "return_event (qi_item x) ?e1 = Some e2"
    using return_event_total [OF v] by blast
  note fr = ev_frame_return_event [OF e2]
  have rc2: "rc_ok held e2" using rc_return_event [OF rc1 _ e2] by simp
  have st2: "stone_at s e2 = Some ?st" using stone_at_frame [OF fr] st1 by simp
  have "as_ptr e2 \<noteq> None" using fr by (simp add: ev_frame_def)
  from Cons.hyps(1) [of ?st, OF _ rc2 ev_ok_return_event [OF ok1 e2] st2 this]
  obtain e' n where e': "free_stone_queue s e2 = Some e'" "rc_ok held e'" "ev_ok e'"
    "slot_frame s e2 e'" "stone_at s e' = Some (?st\<lparr>queue := [], queue_size := n\<rparr>)" by auto
  have "free_stone_queue s e = free_stone_queue s e2"
    using Cons.prems(3) q d e2 by (subst free_stone_queue.simps) simp
  moreover have "slot_frame s e e'"
    using slot_frame_trans [OF slot_frame_trans [OF sf1 slot_frame_ev_frame [OF fr]] e'(4)] .
  ultimately show ?case using e' by auto
qed

section \<open>Freeing a stone\<close>

definition cache_wf :: "response_cache_element \<Rightarrow> bool" where
  "cache_wf r \<longleftrightarrow>
    (rc_action_type r = Action_Decode \<longrightarrow> (\<exists>d. rc_o r = RD_Decode d)) \<and>
    (rc_action_type r = Action_Immediate \<longrightarrow> (\<exists>h c f. rc_o r = RD_Imm h c f)) \<and>
    (rc_action_type r = Action_Multi \<longrightarrow> (\<exists>h c f. rc_o r = RD_Multi h c f))"

lemma free_response_cache_total:
  "\<forall>r \<in> set rs. cache_wf r \<Longrightarrow> \<exists>e'. free_response_cache rs e = Some e'"
proof (induction rs arbitrary: e)
  case Nil
  then show ?case by simp
next
  case (Cons r rs)
  have "\<exists>e1. free_response r e = Some e1"
    using Cons.prems by (cases "rc_action_type r") (auto simp: free_response_def cache_wf_def)
  then show ?case using Cons by auto
qed

lemma rc_free_slot:
  assumes "rc_ok held e" "stone_at s e = Some st" "\<And>i. stone_refs i st = 0"
  shows "rc_ok held (set_stones ((stone_map e)[s := None]) e)"
proof (rule rc_transfer [OF assms(1)])
  fix i
  have s: "s < length (stone_map e)" "stone_map e ! s = Some st"
    using assms(2) by (simp_all add: stone_at_Some)
  show "evp_refs (set_stones ((stone_map e)[s := None]) e) i + held i = evp_refs e i + held i"
    using sum_list_update_same [OF s(1), of "slot_refs i" None] assms(3) s(2)
    by (simp add: evp_refs_def slot_refs_def)
qed simp_all

lemma free_stone_ok:
  assumes "rc_ok held e" "ev_ok e" "stones_wf e" "as_ptr e \<noteq> None"
    and s: "stone_struct n e = Some (Some s)" "stone_at s e = Some st"
    and wf: "\<forall>act \<in> set (proto_actions st). action_wf act" "\<forall>r \<in> set (response_cache st). cache_wf r"
  shows "\<exists>e'. INT_EVfree_stone n e = Some e' \<and> rc_ok held e' \<and> ev_ok e' \<and> stone_at s e' = None"
proof -
  have li: "local_id st = stone_base_num e + int s" using assms(3) s(2) by (simp add: stones_wf_def)
  then have l1: "local_id st \<noteq> -1" using assms(3) by (auto simp: stones_wf_def)
  let ?e0 = "eff_opt Eff_remove_task (periodic_handle st) e"
  let ?st1 = "st\<lparr>periodic_handle := None\<rparr>"
  let ?e1 = "set_stones ((stone_map ?e0)[s := Some ?st1]) ?e0"
  have rc1: "rc_ok held ?e1"
    by (rule rc_upd_stone) (use assms(1) s(2) in simp_all)
  have st1: "stone_at s ?e1 = Some ?st1"
    by (rule stone_at_upd) (use s(2) in simp)
  have ok1: "ev_ok ?e1" using assms(2) by (simp add: ev_ok_def)
  have sf1: "slot_frame s e ?e1"
    using slot_frame_trans [OF slot_frame_eff_opt slot_frame_upd] .
  from free_proto_actions_ok [OF rc1 ok1 st1, of 0 "length (proto_actions st)"] wf(1)
  obtain e2 where e2: "free_proto_actions s 0 (length (proto_actions st)) ?e1 = Some e2"
    "rc_ok held e2" "ev_ok e2" "slot_frame s ?e1 e2"
    "stone_at s e2 = Some (?st1\<lparr>proto_actions := map freed_action (proto_actions st)\<rparr>)" by auto
  note sf2 = slot_frame_trans [OF sf1 e2(4)]
  have "as_ptr e2 \<noteq> None" using assms(4) slot_frame_sel(3) [OF sf2] by simp
  from free_stone_queue_ok [OF e2(2,3,5) this] obtain e3 k where
    e3: "free_stone_queue s e2 = Some e3" "rc_ok held e3" "ev_ok e3" "slot_frame s e2 e3"
    "stone_at s e3 = Some (?st1\<lparr>proto_actions := map freed_action (proto_actions st),
       queue := [], queue_size := k\<rparr>)" by blast
  let ?st3 = "?st1\<lparr>proto_actions := map freed_action (proto_actions st), queue := [], queue_size := k\<rparr>"
  obtain e4 where e4: "free_response_cache (response_cache st) e3 = Some e4"
    using free_response_cache_total wf(2) by blast
  have fr4: "ev_frame e3 e4" "events e4 = events e3" using free_response_cache_stones [OF e4] by auto
  let ?e5 = "eff_opt Eff_free_attr_list (stone_attrs st) e4"
  let ?e6 = "remove_stone_from_lookup n ?e5"
  have rc5: "rc_ok held ?e5" using rc_frame [OF e3(2) fr4] by simp
  have st5: "stone_at s ?e5 = Some ?st3" using stone_at_frame [OF fr4(1)] e3(5) by simp
  have sf5: "slot_frame s e ?e5"
    using slot_frame_trans [OF slot_frame_trans [OF sf2 e3(4)] slot_frame_ev_frame [OF fr4(1)]]
      slot_frame_trans slot_frame_eff_opt by blast
  have rc6: "rc_ok held ?e6"
    using rc5 by (simp add: remove_stone_from_lookup_def rc_ok_def ref_ok_def evp_refs_def
        cong: option.case_cong)
  have st6: "stone_at s ?e6 = Some ?st3"
    using st5 by (simp add: remove_stone_from_lookup_def stone_at_def split: if_splits)
  have refs0: "stone_refs i ?st3 = 0" for i
    by (simp add: stone_refs_def comp_def)
  let ?e7 = "set_stones ((stone_map ?e6)[s := None]) ?e6"
  have "stone_base_num ?e6 = stone_base_num e"
    using slot_frame_sel(1) [OF sf5] by (simp add: remove_stone_from_lookup_def)
  moreover have "s < length (stone_map ?e6)" using st6 by (simp add: stone_at_Some)
  ultimately have slot: "upd_c (stone_map ?e6) (local_id st - stone_base_num ?e6) None
      = Some ((stone_map ?e6)[s := None])" using li by (simp add: upd_c_def)
  have "INT_EVfree_stone n e = Some ?e7"
  proof -
    have m: "mod_stone s (\<lambda>st. st\<lparr>periodic_handle := None\<rparr>) ?e0 = Some ?e1"
      using s(2) by (simp add: mod_stone_def)
    have st4: "stone_at s e4 = Some ?st3" using st5 by simp
    show ?thesis
      using s l1 m e2(1) e3(1,5) e4 slot by (simp add: INT_EVfree_stone_def Let_def)
  qed
  moreover have "rc_ok held ?e7" by (rule rc_free_slot [OF rc6 st6 refs0])
  moreover have "ev_ok ?e7"
    using e3(3) fr4(2) by (simp add: ev_ok_def remove_stone_from_lookup_def)
  moreover have "stone_at s ?e7 = None" by (rule stone_at_upd [OF st6])
  ultimately show ?thesis by blast
qed

end
