(* ===== verification/Ev_Deliver.thy ===== *)
theory Ev_Deliver
  imports Ev_Api Ev_Stone_Free
begin

text \<open>
  A submitted event reaches the handler of a terminal stone: the run of INT_EVsubmit through
  enqueue_event, process_local_actions, process_events_stone and the terminal action, with the
  exact state it leaves.
\<close>

section \<open>What finding a stone depends on\<close>

lemma stone_struct_cong:
  assumes "stone_base_num e' = stone_base_num e" "stone_lookup_table e' = stone_lookup_table e"
    and "map (map_option local_id) (stone_map e') = map (map_option local_id) (stone_map e)"
  shows "stone_struct n e' = stone_struct n e"
proof -
  have l: "length (stone_map e') = length (stone_map e)" using assms(3) by (metis length_map)
  have at: "map_option local_id (stone_map e' ! k) = map_option local_id (stone_map e ! k)"
    if "k < length (stone_map e)" for k
    using that assms(3) l by (metis nth_map)
  define m where "m = (if is_global n then lookup_local_stone e n else n) - stone_base_num e"
  have m': "(if is_global n then lookup_local_stone e' n else n) - stone_base_num e' = m"
    using assms(1,2) by (simp add: m_def lookup_local_stone_def)
  show ?thesis
  proof (cases "0 \<le> m \<and> m < int (length (stone_map e))")
    case True
    then have "nat m < length (stone_map e)" by (simp add: nat_less_iff)
    from at [OF this] have
      "stone_map e' ! nat m = None \<and> stone_map e ! nat m = None \<or>
       (\<exists>x y. stone_map e' ! nat m = Some x \<and> stone_map e ! nat m = Some y \<and> local_id x = local_id y)"
      by (cases "stone_map e' ! nat m"; cases "stone_map e ! nat m") auto
    then show ?thesis
      using l True unfolding stone_struct_def Let_def m' m_def [symmetric]
      by (auto simp: stone_count_def nth_c_def)
  next
    case False
    then show ?thesis
      using l unfolding stone_struct_def Let_def m' m_def [symmetric]
      by (auto simp: stone_count_def nth_c_def)
  qed
qed

lemma map_local_id_upd:
  "stone_at s e = Some st \<Longrightarrow> local_id st' = local_id st \<Longrightarrow>
    map (map_option local_id) ((stone_map e)[s := Some st']) = map (map_option local_id) (stone_map e)"
  by (intro nth_equalityI) (auto simp: stone_at_Some nth_list_update)

section \<open>The terminal action\<close>

lemma return_event_last:
  assumes "events e i = Some v" "ref_count v = 1" "contents v = Event_App_Owned"
    "free_func v = None" "ev_attrs v = None" "ioBuffer v = None"
  shows "return_event i e = Some (e\<lparr>events := (events e)(i := None)\<rparr>)"
  using assms by (simp add: return_event_def return_contents_def)

lemma return_event_more:
  assumes "events e i = Some v" "ref_count v \<noteq> 1"
  shows "return_event i e = Some (e\<lparr>events := (events e)(i \<mapsto> v\<lparr>ref_count := ref_count v - 1\<rparr>)\<rparr>)"
  using assms by (simp add: return_event_def Let_def)

lemma do_terminal_action_eq:
  assumes "proto_action_at s a e = Some p" "act_o p = AD_Term tv" "data_state p \<noteq> Requires_Contig_Encoded"
    and "rc_proto_action_id act = a" "rc_action_type act = Action_Terminal"
    and "events e i = Some v" "get_int_attr (ev_attrs v) ''CM_EVENT_SIZE'' e = None" "\<not> event_encoded v"
    and st: "stone_at s e = Some st" "stone_struct sid e = Some (Some s)"
    and handler: "\<And>e. call_simple_handler env (term_handler tv) (decoded_event v)
      (term_client_data tv) (ev_attrs v) e = Some (out, emit x e)"
  shows "do_terminal_action env sid s act i e = do {
     e \<leftarrow> return_event i (set_stones ((stone_map e)[s := Some (st\<lparr>is_processing := False\<rparr>)]) (emit x e));
     Some (0, e) }"
proof -
  have s: "s < length (stone_map e)" "stone_map e ! s = Some st" using st by (simp_all add: stone_at_Some)
  have ss: "stone_struct sid e' = Some (Some s)"
    if "stone_base_num e' = stone_base_num e" "stone_lookup_table e' = stone_lookup_table e"
      "stone_map e' = (stone_map e)[s := Some (st\<lparr>is_processing := b\<rparr>)]" for e' b
    using stone_struct_cong [of e' e sid] map_local_id_upd [OF st(1)] that st(2) by simp
  show ?thesis
    using assms(1-8) s
    by (simp add: do_terminal_action_def term_vals_def update_event_length_sum_def mod_stone_def
        proto_action_at_def stone_at_def push_activation_record_on_stack_def call_handler_def handler
        stone_deref_def ss [of _ True] pop_activation_record_from_stack_def drop_current_def emit_def)
qed

section \<open>Draining the queue of a terminal stone\<close>

definition plain_event :: "event_item \<Rightarrow> bool" where
  \<comment> \<open>unencoded application data without attributes or release function\<close>
  "plain_event v \<longleftrightarrow> \<not> event_encoded v \<and> contents v = Event_App_Owned \<and> free_func v = None \<and>
     ev_attrs v = None \<and> ioBuffer v = None"

definition drop_ref :: "evid \<Rightarrow> (evid \<Rightarrow> event_item option) \<Rightarrow> evid \<Rightarrow> event_item option" where
  \<comment> \<open>one reference less; the last one frees the event\<close>
  "drop_ref i h =
    (case h i of
       None \<Rightarrow> h
     | Some v \<Rightarrow> if ref_count v = 1 then h(i := None) else h(i \<mapsto> v\<lparr>ref_count := ref_count v - 1\<rparr>))"

lemma return_plain_event:
  assumes "events e i = Some v" "plain_event v"
  shows "return_event i e = Some (e\<lparr>events := drop_ref i (events e)\<rparr>)"
  using assms return_event_last [of e i v] return_event_more [of e i v]
  by (simp add: plain_event_def drop_ref_def)

definition handles :: "env \<Rightarrow> stone \<Rightarrow> terminal_proto_vals \<Rightarrow> event_item \<Rightarrow> bool" where
  \<comment> \<open>the response cache sends the event to a terminal action with this handler\<close>
  "handles env st tv v \<longleftrightarrow>
    (\<exists>k act p. check_response_cache (response_cache st) Immediate v = Some k \<and> k \<noteq> -1 \<and>
       nth_c (response_cache st) k = Some act \<and>
       rc_action_type act = Action_Terminal \<and> rc_stage act = Immediate \<and>
       nth_c (proto_actions st) (rc_proto_action_id act) = Some p \<and>
       act_o p = AD_Term tv \<and> data_state p \<noteq> Requires_Contig_Encoded)"

lemma handles_cong:
  "response_cache st' = response_cache st \<Longrightarrow> proto_actions st' = proto_actions st \<Longrightarrow>
    handles env st' tv v = handles env st tv v"
  by (simp add: handles_def)

lemma handles_ref_count [simp]: "handles env st tv (v\<lparr>ref_count := n\<rparr>) = handles env st tv v"
proof -
  have "check_response_cache_from i rs s (v\<lparr>ref_count := n\<rparr>) = check_response_cache_from i rs s v" for i rs s
    by (induction rs arbitrary: i) (simp_all cong: if_cong)
  then show ?thesis by (simp add: handles_def check_response_cache_def)
qed

definition after_item :: "nat \<Rightarrow> stone \<Rightarrow> action_state \<Rightarrow> queue_item \<Rightarrow> queue \<Rightarrow> effect \<Rightarrow> evp \<Rightarrow> evp" where
  \<comment> \<open>the state after the first item of the queue was handled\<close>
  "after_item s st a it rest x e =
    (free_queue_item (qi_addr it) e)
      \<lparr>stone_map := (stone_map e)[s := Some (st\<lparr>queue := rest, queue_size := queue_size st - 1,
          is_processing := False\<rparr>)],
       as_ptr := Some (a\<lparr>events_in_play := events_in_play a - 1\<rparr>),
       effects := x # effects e, events := drop_ref (qi_item it) (events e)\<rparr>"

lemma process_item_terminal:
  assumes st: "stone_at s e = Some st" "stone_struct sid e = Some (Some s)"
    and q: "queue st = it # rest" and a: "as_ptr e = Some a" "\<not> use_backpressure e" "locked e > 0"
    and v: "events e (qi_item it) = Some v" "plain_event v" "handles env st tv v"
    and handler: "\<And>e. call_simple_handler env (term_handler tv) (decoded_event v)
      (term_client_data tv) None e = Some (out, emit x e)"
  shows "process_item env sid s Immediate (qi_addr it) e =
    Some (Next_item, 0, True, after_item s st a it rest x e)"
proof -
  obtain k act p where k: "check_response_cache (response_cache st) Immediate v = Some k" "k \<noteq> -1"
    "nth_c (response_cache st) k = Some act"
    and act: "rc_action_type act = Action_Terminal" "rc_stage act = Immediate"
    and p: "nth_c (proto_actions st) (rc_proto_action_id act) = Some p" "act_o p = AD_Term tv"
      "data_state p \<noteq> Requires_Contig_Encoded"
    using v(3) by (auto simp: handles_def)
  have s: "s < length (stone_map e)" "stone_map e ! s = Some st" using st by (simp_all add: stone_at_Some)
  have sel: "select_action env s Immediate (qi_addr it) (qi_item it) e = Some (Some act, e)"
    using st(1) v(1) k act(1) by (simp add: select_action_def determine_action_def response_at_def)
  let ?st1 = "st\<lparr>queue := rest, queue_size := queue_size st - 1\<rparr>"
  let ?e1 = "(free_queue_item (qi_addr it) e)
      \<lparr>stone_map := (stone_map e)[s := Some ?st1],
       as_ptr := Some (a\<lparr>events_in_play := events_in_play a - 1\<rparr>)\<rparr>"
  have dq: "dequeue_item s (Some (qi_addr it)) e = Some (Some (qi_item it), ?e1)"
    using st(1) q a s by (simp add: dequeue_item_def leave_queue_def mod_stone_def free_queue_item_def stone_at_def)
  have st1: "stone_at s ?e1 = Some ?st1" using s by (simp add: stone_at_def)
  have ss1: "stone_struct sid ?e1 = Some (Some s)"
    using stone_struct_cong [of ?e1 e sid] map_local_id_upd [OF st(1), of ?st1] st(2)
    by (simp add: free_queue_item_def)
  have ev1: "events ?e1 (qi_item it) = Some v" using v(1) by (simp add: free_queue_item_def)
  have "do_terminal_action env sid s act (qi_item it) ?e1 = do {
     e \<leftarrow> return_event (qi_item it)
       (set_stones ((stone_map ?e1)[s := Some (?st1\<lparr>is_processing := False\<rparr>)]) (emit x ?e1));
     Some (0, e) }"
    by (rule do_terminal_action_eq [OF _ p(2,3) refl act(1) ev1 _ _ st1 ss1])
      (use st1 p(1) v(2) handler in \<open>simp_all add: proto_action_at_def plain_event_def get_int_attr_def\<close>)
  then have "do_terminal_action env sid s act (qi_item it) ?e1 = Some (0, after_item s st a it rest x e)"
    using return_plain_event [of "set_stones ((stone_map ?e1)[s := Some (?st1\<lparr>is_processing := False\<rparr>)]) (emit x ?e1)" "qi_item it" v] ev1 v(2)
    by (simp add: after_item_def emit_def free_queue_item_def)
  then show ?thesis
    using st q sel dq act a
    by (simp add: process_item_def queue_item_at_def backpressure_check_def compatible_stages_def
        is_immediate_action_def do_immediate_def)
qed

definition queued_ok :: "env \<Rightarrow> stone \<Rightarrow> terminal_proto_vals \<Rightarrow> queue \<Rightarrow> evp \<Rightarrow> bool" where
  \<comment> \<open>every queued event is live, counts its places in the queue and goes to the terminal action\<close>
  "queued_ok env st tv q e \<longleftrightarrow>
    (\<forall>it \<in> set q. \<not> qi_handled it \<and>
       (\<exists>v. events e (qi_item it) = Some v \<and> plain_event v \<and> handles env st tv v \<and>
          int (queue_refs q (qi_item it)) \<le> ref_count v))"

definition data_of :: "evp \<Rightarrow> queue_item \<Rightarrow> addr ptr" where
  "data_of e it = decoded_event (the (events e (qi_item it)))"

lemma drop_ref_cases:
  assumes "h i = Some v" "1 \<le> ref_count v" "h j = Some w" "i = j \<Longrightarrow> 2 \<le> ref_count w"
  shows "drop_ref i h j = Some (if i = j then w\<lparr>ref_count := ref_count w - 1\<rparr> else w)"
  using assms by (auto simp: drop_ref_def)

lemma queued_ok_step:
  assumes "queued_ok env st tv (it # rest) e" "events e' = drop_ref (qi_item it) (events e)"
    and "response_cache st' = response_cache st" "proto_actions st' = proto_actions st"
  shows "queued_ok env st' tv rest e'" "map (data_of e') rest = map (data_of e) rest"
proof -
  obtain v where v: "events e (qi_item it) = Some v" "int (queue_refs (it # rest) (qi_item it)) \<le> ref_count v"
    using assms(1) by (auto simp: queued_ok_def)
  have step: "\<exists>w. events e (qi_item j) = Some w \<and> plain_event w \<and> handles env st tv w \<and>
      int (queue_refs (it # rest) (qi_item j)) \<le> ref_count w \<and> \<not> qi_handled j \<and>
      events e' (qi_item j) = Some (if qi_item it = qi_item j then w\<lparr>ref_count := ref_count w - 1\<rparr> else w)"
    if "j \<in> set rest" for j
  proof -
    have "j \<in> set (it # rest)" using that by simp
    then obtain w where w: "events e (qi_item j) = Some w" "plain_event w" "handles env st tv w"
      "int (queue_refs (it # rest) (qi_item j)) \<le> ref_count w" "\<not> qi_handled j"
      using assms(1) unfolding queued_ok_def by blast
    have "qi_item j \<in> qi_item ` set rest" using that by simp
    then have "queue_refs rest (qi_item j) > 0"
      by (simp add: queue_refs_def image_iff count_list_0_iff neq0_conv [symmetric])
    then have "drop_ref (qi_item it) (events e) (qi_item j)
        = Some (if qi_item it = qi_item j then w\<lparr>ref_count := ref_count w - 1\<rparr> else w)"
      using v w by (intro drop_ref_cases [where v = v]) auto
    then show ?thesis using w assms(2) by auto
  qed
  show "queued_ok env st' tv rest e'"
    unfolding queued_ok_def
  proof (intro ballI conjI)
    fix j
    assume "j \<in> set rest"
    from step [OF this] show "\<not> qi_handled j" by blast
    from step [OF \<open>j \<in> set rest\<close>]
    show "\<exists>v. events e' (qi_item j) = Some v \<and> plain_event v \<and> handles env st' tv v \<and>
        int (queue_refs rest (qi_item j)) \<le> ref_count v"
      using handles_cong [OF assms(3,4)] by (auto simp: plain_event_def)
  qed
  show "map (data_of e') rest = map (data_of e) rest"
    using step by (fastforce simp: data_of_def)
qed

definition drained :: "nat \<Rightarrow> stone \<Rightarrow> action_state \<Rightarrow> (addr ptr \<Rightarrow> effect) \<Rightarrow> evp \<Rightarrow> evp \<Rightarrow> bool" where
  \<comment> \<open>e' is e after the queue of stone s was delivered in order\<close>
  "drained s st a fx e e' \<longleftrightarrow>
    stone_map e' = (stone_map e)[s := Some (st\<lparr>queue := [],
      queue_size := queue_size st - int (length (queue st)), is_processing := False\<rparr>)] \<and>
    as_ptr e' = Some (a\<lparr>events_in_play := events_in_play a - int (length (queue st))\<rparr>) \<and>
    effects e' = rev (map (fx \<circ> data_of e) (queue st)) @ effects e \<and>
    events e' = fold (drop_ref \<circ> qi_item) (queue st) (events e) \<and>
    stone_base_num e' = stone_base_num e \<and> stone_lookup_table e' = stone_lookup_table e \<and>
    locked e' = locked e \<and> use_backpressure e' = use_backpressure e \<and>
    current_event_list e' = current_event_list e \<and> activation_stack e' = activation_stack e \<and>
    taken_events_list e' = taken_events_list e"

lemma process_items_drain:
  assumes "stone_at s e = Some st" "stone_struct sid e = Some (Some s)"
    and "is_draining st = 0" "\<not> is_frozen st" "\<not> is_processing st"
    and "as_ptr e = Some a" "\<not> use_backpressure e" "locked e > 0"
    and "queued_ok env st tv (queue st) e"
    and handler: "\<And>d e. call_simple_handler env (term_handler tv) d (term_client_data tv) None e
      = Some (out d, emit (fx d) e)"
  shows "\<exists>e'. process_items env sid s Immediate
      (case queue st of [] \<Rightarrow> None | it # _ \<Rightarrow> Some (qi_addr it)) mp did e
    = Some (False, mp, did \<or> queue st \<noteq> [], e') \<and> drained s st a fx e e'"
  using assms(1-9)
proof (induction "queue st" arbitrary: st a e did)
  case Nil
  have "st\<lparr>queue := [], queue_size := queue_size st, is_processing := False\<rparr> = st"
    using Nil(1,6) by simp
  then have "(stone_map e)[s := Some (st\<lparr>queue := [], queue_size := queue_size st, is_processing := False\<rparr>)]
      = stone_map e"
    using Nil(2) by (simp add: stone_at_Some list_update_same_conv)
  then show ?case
    using Nil by (subst process_items.simps) (simp add: drained_def)
next
  case (Cons it rest)
  note q = Cons(2) [symmetric]
  let ?st = "st\<lparr>queue := rest, queue_size := queue_size st - 1, is_processing := False\<rparr>"
  let ?a = "a\<lparr>events_in_play := events_in_play a - 1\<rparr>"
  obtain v where v: "events e (qi_item it) = Some v" "plain_event v" "handles env st tv v"
    "\<not> qi_handled it" using Cons.prems(9) q by (auto simp: queued_ok_def)
  let ?e = "after_item s st a it rest (fx (decoded_event v)) e"
  have step: "process_item env sid s Immediate (qi_addr it) e = Some (Next_item, 0, True, ?e)"
    by (rule process_item_terminal [OF Cons.prems(1,2) q Cons.prems(6-8) v(1-3) handler])
  have s: "s < length (stone_map e)" "stone_map e ! s = Some st"
    using Cons.prems(1) by (simp_all add: stone_at_Some)
  have at: "stone_at s ?e = Some ?st" using s by (simp add: after_item_def stone_at_def)
  have ss: "stone_struct sid ?e = Some (Some s)"
    using stone_struct_cong [of ?e e sid] map_local_id_upd [OF Cons.prems(1), of ?st] Cons.prems(2)
    by (simp add: after_item_def free_queue_item_def)
  have ev: "events ?e = drop_ref (qi_item it) (events e)" by (simp add: after_item_def)
  have ok: "queued_ok env ?st tv (queue ?st) ?e"
    using queued_ok_step(1) [OF Cons.prems(9) [unfolded q] ev, of ?st] by simp
  have d: "map (data_of ?e) rest = map (data_of e) rest"
    using queued_ok_step(2) [OF Cons.prems(9) [unfolded q] ev, of ?st] by simp
  from Cons(1) [of ?st ?e ?a True, OF _ at ss _ _ _ _ _ _ ok] Cons.prems
  obtain e' where e': "process_items env sid s Immediate
      (case rest of [] \<Rightarrow> None | it # _ \<Rightarrow> Some (qi_addr it)) mp True ?e
    = Some (False, mp, True, e')" "drained s ?st ?a fx ?e e'"
    by (auto simp: after_item_def free_queue_item_def)
  have "drained s st a fx e e'"
    using e'(2) d q v(1)
    by (simp add: drained_def after_item_def free_queue_item_def data_of_def algebra_simps)
  moreover have "process_items env sid s Immediate (Some (qi_addr it)) mp did e
      = Some (False, mp, True, e')"
    using Cons.prems(1,3,4) q step v(4) e'(1)
    by (subst process_items.simps) (simp add: queue_next_def queue_item_at_def)
  ultimately show ?case using q by auto
qed

section \<open>Processing and submission\<close>

lemma stone_struct_as_ptr [simp]: "stone_struct n (e\<lparr>as_ptr := a\<rparr>) = stone_struct n e"
  by (rule stone_struct_cong) simp_all

lemma stone_at_as_ptr [simp]: "stone_at s (e\<lparr>as_ptr := a\<rparr>) = stone_at s e"
  by (simp add: stone_at_def)

lemma is_bridge_stone_as_ptr [simp]: "is_bridge_stone n (e\<lparr>as_ptr := a\<rparr>) = is_bridge_stone n e"
  by (simp add: is_bridge_stone_def stone_deref_def)

definition terminal_ready :: "EVstone \<Rightarrow> nat \<Rightarrow> stone \<Rightarrow> evp \<Rightarrow> bool" where
  \<comment> \<open>stone s with id sid is active, is no bridge, and back pressure is off\<close>
  "terminal_ready sid s st e \<longleftrightarrow>
    stone_at s e = Some st \<and> stone_struct sid e = Some (Some s) \<and> sid \<noteq> -1 \<and> local_id st \<noteq> -1 \<and>
    is_draining st = 0 \<and> \<not> is_frozen st \<and> \<not> is_processing st \<and>
    is_bridge_stone sid e = Some False \<and> \<not> use_backpressure e \<and> locked e > 0"

lemma flag_first:
  "st\<lparr>queue := q, queue_size := n, is_processing := b, new_enqueue_flag := c\<rparr> =
    st\<lparr>new_enqueue_flag := c, queue := q, queue_size := n, is_processing := b\<rparr>"
  by (rule stone.equality) simp_all

lemma drained_as_ptr:
  "drained s st a fx (e\<lparr>as_ptr := p\<rparr>) e' = drained s st a fx e e'"
  by (simp add: drained_def data_of_def comp_def)

lemma process_events_stone_drain:
  assumes ready: "terminal_ready sid s st e"
    and a: "as_ptr e = Some a" "last_active_stone a = sid"
    and "queue st \<noteq> []" "queue_size st \<noteq> 0"
    and "queued_ok env st tv (queue st) e"
    and handler: "\<And>d e. call_simple_handler env (term_handler tv) d (term_client_data tv) None e
      = Some (out d, emit (fx d) e)"
  shows "\<exists>e'. process_events_stone env sid Immediate e = Some (0, e') \<and>
    drained s (st\<lparr>new_enqueue_flag := False\<rparr>) (a\<lparr>last_active_stone := -1\<rparr>) fx e e'"
proof -
  let ?a = "a\<lparr>last_active_stone := -1\<rparr>"
  let ?e = "e\<lparr>as_ptr := Some ?a\<rparr>"
  note r = ready [unfolded terminal_ready_def]
  have b: "is_bridge_stone sid ?e = Some False"
    using r by simp
  have "queued_ok env st tv (queue st) ?e" using assms(6) by (simp add: queued_ok_def)
  from process_items_drain [OF _ _ _ _ _ _ _ _ this handler, of s sid ?a 0 False]
  obtain e' where e': "process_items env sid s Immediate
      (case queue st of [] \<Rightarrow> None | it # _ \<Rightarrow> Some (qi_addr it)) 0 False ?e = Some (False, 0, True, e')"
    "drained s st ?a fx ?e e'" using r assms(4) by auto
  have st': "stone_at s e' = Some (st\<lparr>queue := [],
      queue_size := queue_size st - int (length (queue st)), is_processing := False\<rparr>)"
    using e'(2) r by (auto simp: drained_def stone_at_def split: if_splits)
  have "stone_struct sid e' = Some (Some s)"
    using stone_struct_cong [of e' e sid] map_local_id_upd [of s e st] e'(2) r
    by (simp add: drained_def)
  then have "process_events_stone env sid Immediate e = Some (0,
      set_stones ((stone_map e')[s := Some ((the (stone_at s e'))\<lparr>new_enqueue_flag := False\<rparr>)]) e')"
    using r a b e'(1) st' assms(5)
    by (simp add: process_events_stone_def set_last_active_def process_queue_def stone_deref_def
        mod_stone_def)
  moreover have "drained s (st\<lparr>new_enqueue_flag := False\<rparr>) ?a fx e
      (set_stones ((stone_map e')[s := Some ((the (stone_at s e'))\<lparr>new_enqueue_flag := False\<rparr>)]) e')"
    using e'(2) st' by (simp add: drained_def data_of_def comp_def flag_first)
  ultimately show ?thesis by blast
qed

lemma do_local_actions_drain:
  assumes ready: "terminal_ready sid s st e"
    and a: "as_ptr e = Some \<lparr>last_active_stone = sid, events_in_play = int (length (queue st))\<rparr>"
    and "queue st \<noteq> []" "queue_size st \<noteq> 0"
    and "queued_ok env st tv (queue st) e"
    and handler: "\<And>d e. call_simple_handler env (term_handler tv) d (term_client_data tv) None e
      = Some (out d, emit (fx d) e)"
  shows "\<exists>e'. do_local_actions env e = Some e' \<and>
    drained s (st\<lparr>new_enqueue_flag := False\<rparr>)
      \<lparr>last_active_stone = -1, events_in_play = int (length (queue st))\<rparr> fx e e'"
proof -
  from process_events_stone_drain [OF ready a _ assms(3,4,5) handler]
  obtain e' where e': "process_events_stone env sid Immediate e = Some (0, e')"
    "drained s (st\<lparr>new_enqueue_flag := False\<rparr>)
      \<lparr>last_active_stone = -1, events_in_play = int (length (queue st))\<rparr> fx e e'" by auto
  have as: "as_ptr e' = Some \<lparr>last_active_stone = -1, events_in_play = 0\<rparr>"
    using e'(2) by (simp add: drained_def)
  have sid: "sid \<noteq> -1" using ready by (simp add: terminal_ready_def)
  have im: "immediate_loop env e = Some e'"
    using a e'(1) by (subst immediate_loop.simps) simp
  have out: "output_phase env 0 e' = Some (0, e')"
    using as by (simp add: output_phase_def)
  have "process_from_restart env 0 e = Some (0, e')"
    using a sid im as out by (subst process_from_restart.simps) simp
  then have "do_local_actions env e = Some e'"
    using a by (subst do_local_actions.simps) (simp add: process_local_actions_def action_state_of_def)
  then show ?thesis using e'(2) by blast
qed

lemma get_queue_itemE:
  obtains q n fl where "get_queue_item e = (q, e\<lparr>next_addr := n, queue_items_free_list := fl\<rparr>)"
proof (cases "queue_items_free_list e")
  case Nil
  then have "get_queue_item e = (next_addr e,
      e\<lparr>next_addr := Suc (next_addr e), queue_items_free_list := queue_items_free_list e\<rparr>)"
    by (simp add: get_queue_item_def malloc_def)
  then show thesis by (rule that)
next
  case (Cons q fl)
  then have "get_queue_item e = (q, e\<lparr>next_addr := next_addr e, queue_items_free_list := fl\<rparr>)"
    by (simp add: get_queue_item_def)
  then show thesis by (rule that)
qed

lemma source_event_frame [simp]:
  "source_event env r d at (e\<lparr>next_addr := n\<rparr>) = source_event env r d at e"
  "source_event env r d at (e\<lparr>events := h\<rparr>) = source_event env r d at e"
  by (simp_all add: source_event_def fun_eq_iff)

lemma INT_EVsubmit_drain:
  assumes ready: "terminal_ready sid s st e" "queue st = []" "queue_size st = 0"
    and a: "as_ptr e = Some a" "events_in_play a = 0"
    and src: "source_heap e src = Some r" "local_stone_id r = sid" "\<not> preencoded r" "src_free_func r = None"
    and h: "\<And>v. reference_format v = src_reference_format r \<Longrightarrow> \<not> event_encoded v \<Longrightarrow> handles env st tv v"
    and handler: "\<And>d e. call_simple_handler env (term_handler tv) d (term_client_data tv) None e
      = Some (out d, emit (fx d) e)"
    and fresh: "events e (next_addr e) = None"
  shows "\<exists>e'. INT_EVsubmit env src data None e = Some e' \<and> events e' = events e \<and>
    effects e' = fx data # effects e \<and> stone_at s e' = Some (st\<lparr>new_enqueue_flag := False\<rparr>) \<and>
    as_ptr e' = Some \<lparr>last_active_stone = -1, events_in_play = 0\<rparr>"
proof -
  let ?i = "next_addr e"
  let ?v = "source_event env r data None e (empty_event\<lparr>ref_count := 1, event_len := -1, ioBuffer := None\<rparr>)"
  let ?e1 = "e\<lparr>next_addr := Suc (next_addr e), events := (events e)(?i \<mapsto> ?v)\<rparr>"
  obtain q n fl where q: "get_queue_item ?e1 = (q, ?e1\<lparr>next_addr := n, queue_items_free_list := fl\<rparr>)"
    by (rule get_queue_itemE)
  have vv: "?v\<lparr>ref_count := 1\<rparr> = ?v" by (simp add: source_event_def Let_def)
  note rd = ready(1) [unfolded terminal_ready_def]
  have s: "s < length (stone_map e)" "stone_map e ! s = Some st" using rd by (simp_all add: stone_at_Some)
  let ?it = "\<lparr>qi_addr = q, qi_item = ?i, qi_handled = False\<rparr>"
  let ?st = "st\<lparr>queue := [?it], new_enqueue_flag := True, queue_size := 1\<rparr>"
  let ?as = "\<lparr>last_active_stone = sid, events_in_play = 1\<rparr>"
  let ?e2 = "?e1\<lparr>next_addr := n, queue_items_free_list := fl,
     events := (events e)(?i \<mapsto> ?v\<lparr>ref_count := 2\<rparr>), stone_map := (stone_map e)[s := Some ?st],
     as_ptr := Some ?as\<rparr>"
  have rc1: "ref_count ?v = 1" by (simp add: source_event_def Let_def)
  have ss: "stone_struct sid e' = Some (Some s)"
    if "stone_base_num e' = stone_base_num e" "stone_lookup_table e' = stone_lookup_table e"
      "map (map_option local_id) (stone_map e') = map (map_option local_id) (stone_map e)" for e'
    using stone_struct_cong [OF that] rd by simp
  have sub: "submit env sid ?i ?e1 = Some ?e2"
    using rd a s q ready(2,3) rc1 ss [of ?e1]
    by (simp add: submit_def internal_path_submit_def enqueue_event_def action_state_of_def
        raw_enqueue_event_def reference_event_def mod_event_def mod_stone_def stone_at_def
        backpressure_check_def)
  have mid: "map (map_option local_id) ((stone_map e)[s := Some ?st]) = map (map_option local_id) (stone_map e)"
    by (rule map_local_id_upd) (use rd in simp_all)
  have st2: "stone_at s ?e2 = Some ?st" using s by (simp add: stone_at_def)
  have ss2: "stone_struct sid ?e2 = Some (Some s)" by (rule ss) (simp_all add: mid)
  have br: "is_bridge_stone sid ?e2 = is_bridge_stone sid e"
    using rd ss2 st2 by (simp add: is_bridge_stone_def stone_deref_def)
  have ready2: "terminal_ready sid s ?st ?e2"
    using rd st2 ss2 br by (simp add: terminal_ready_def)
  have v: "plain_event ?v" "reference_format ?v = src_reference_format r" "decoded_event ?v = data"
    using src by (simp_all add: plain_event_def source_event_def empty_event_def)
  have ok: "queued_ok env ?st tv (queue ?st) ?e2"
    using v h [of ?v] handles_cong [of ?st st env tv ?v]
    by (simp add: queued_ok_def plain_event_def queue_refs_def)
  from do_local_actions_drain [OF ready2 _ _ _ ok handler]
  obtain e3 where e3: "do_local_actions env ?e2 = Some e3"
    "drained s (?st\<lparr>new_enqueue_flag := False\<rparr>) \<lparr>last_active_stone = -1, events_in_play = 1\<rparr> fx ?e2 e3"
    by auto
  have ev3: "events e3 = (events e)(?i \<mapsto> ?v)"
    using e3(2) by (simp add: drained_def drop_ref_def vv)
  have fin: "finish_submit env ?i e3 = Some (e3\<lparr>events := events e\<rparr>)"
    using ev3 rc1 return_plain_event [of e3 ?i ?v] v(1) fresh
    by (simp add: finish_submit_def drop_ref_def fun_upd_idem)
  have "INT_EVsubmit env src data None e = Some (e3\<lparr>events := events e\<rparr>)"
    using src rd sub e3(1) fin
    by (simp add: INT_EVsubmit_def get_free_event_def malloc_def Let_def mod_event_def
        add_ref_attrs_def eff_opt_def)
  moreover have "stone_at s e3 = Some (st\<lparr>new_enqueue_flag := False\<rparr>)"
    using e3(2) s rd ready(2,3) by (simp add: drained_def stone_at_def)
  moreover have "stone_at s (e3\<lparr>events := events e\<rparr>) = stone_at s e3" by (simp add: stone_at_def)
  ultimately show ?thesis using e3(2) v(3) by (simp add: drained_def data_of_def)
qed

end
