(* ===== verification/Ev_Safe.thy ===== *)
theory Ev_Safe
  imports Ev_Process Ev_Stone_Free
begin

text \<open>
  Reference safety: every event that a queue, a store, the list of taken events or running code
  refers to is live and counts at least these references. Operations may hold more (a reference
  that is never returned only leaks memory), never less.
\<close>

section \<open>Reference safety\<close>

definition rc_safe :: "(evid \<Rightarrow> nat) \<Rightarrow> evp \<Rightarrow> bool" where
  "rc_safe base e \<longleftrightarrow> (\<exists>held. (\<forall>i. base i \<le> held i) \<and> rc_ok held e)"

lemma rc_safe_rc_ok: "rc_ok held e \<Longrightarrow> rc_safe held e"
  by (auto simp: rc_safe_def)

lemma rc_safe_mono: "rc_safe b e \<Longrightarrow> (\<And>i. b' i \<le> b i) \<Longrightarrow> rc_safe b' e"
  unfolding rc_safe_def by (meson order_trans)

lemma rc_safe_hold: "rc_safe (hold i b) e \<Longrightarrow> rc_safe b e"
  by (erule rc_safe_mono) simp

lemma rc_safe_live:
  assumes "rc_safe b e" "b i > 0 \<or> evp_refs e i > 0"
  shows "\<exists>v. events e i = Some v \<and> ref_count v \<ge> int (evp_refs e i + b i)"
proof -
  obtain held where h: "\<forall>i. b i \<le> held i" "rc_ok held e" using assms(1) by (auto simp: rc_safe_def)
  have "held i > 0 \<or> evp_refs e i > 0" using assms(2) h(1) by (meson less_le_trans)
  then obtain v where "events e i = Some v" "ref_count v = int (evp_refs e i + held i)"
    using rc_live [OF h(2)] by blast
  then show ?thesis using h(1) by (auto intro: exI [of _ v])
qed

text \<open>An operation that keeps the exact count for every holder keeps safety.\<close>

lemma rc_safe_lift:
  assumes "rc_safe b e" "\<And>held. (\<forall>i. b i \<le> held i) \<Longrightarrow> rc_ok held e \<Longrightarrow> \<exists>h. (\<forall>i. b' i \<le> h i) \<and> rc_ok h e'"
  shows "rc_safe b' e'"
  using assms unfolding rc_safe_def by blast

lemma rc_safe_keep:
  assumes "rc_safe b e" "\<And>held. rc_ok held e \<Longrightarrow> rc_ok held e'"
  shows "rc_safe b e'"
  using assms unfolding rc_safe_def by blast

lemma hold_mono: "(\<forall>j. b j \<le> held j) \<Longrightarrow> (\<forall>j. hold i b j \<le> hold i held j)"
  by simp

lemma drop_mono: "(\<forall>j. hold i b j \<le> held j) \<Longrightarrow> (\<forall>j. b j \<le> drop_held i held j) \<and> held i > 0"
proof (intro conjI allI)
  assume a: "\<forall>j. hold i b j \<le> held j"
  show "b j \<le> drop_held i held j" for j
    using spec [OF a, of j] by (auto simp: drop_held_def split: if_splits)
  show "held i > 0" using spec [OF a, of i] by simp
qed

lemma safe_reference_event:
  "rc_safe b e \<Longrightarrow> reference_event i e = Some e' \<Longrightarrow> rc_safe (hold i b) e'"
  by (erule rc_safe_lift) (blast intro: rc_reference_event dest: hold_mono)

lemma safe_return_event:
  "rc_safe (hold i b) e \<Longrightarrow> return_event i e = Some e' \<Longrightarrow> rc_safe b e'"
  by (erule rc_safe_lift) (blast intro: rc_return_event dest: drop_mono)

lemma safe_get_free_event:
  "rc_safe b e \<Longrightarrow> get_free_event e = (i, e') \<Longrightarrow> rc_safe (hold i b) e'"
  by (erule rc_safe_lift) (blast intro: rc_get_free_event dest: hold_mono)

lemma safe_mod_event:
  "rc_safe b e \<Longrightarrow> mod_event i f e = Some e' \<Longrightarrow> (\<And>v. ref_count (f v) = ref_count v) \<Longrightarrow> rc_safe b e'"
  by (erule rc_safe_keep) (rule rc_mod_event)

lemma safe_encode_event:
  "rc_safe b e \<Longrightarrow> encode_event env i e = Some e' \<Longrightarrow> rc_safe b e'"
  by (erule rc_safe_keep) (rule rc_encode_event)

lemma safe_dequeue_event:
  assumes "rc_safe b e" "dequeue_event s e = Some (r, e')"
  shows "rc_safe (case r of None \<Rightarrow> b | Some i \<Rightarrow> hold i b) e'"
proof (rule rc_safe_lift [OF assms(1)])
  fix held
  assume h: "\<forall>i. b i \<le> held i" and rc: "rc_ok held e"
  show "\<exists>h. (\<forall>i. (case r of None \<Rightarrow> b | Some i \<Rightarrow> hold i b) i \<le> h i) \<and> rc_ok h e'"
    using rc_dequeue_event [OF rc assms(2)] h
    by (intro exI [of _ "case r of None \<Rightarrow> held | Some i \<Rightarrow> hold i held"]) (auto split: option.splits)
qed

lemma safe_dequeue_item:
  assumes "rc_safe b e" "dequeue_item s a e = Some (r, e')"
  shows "rc_safe (case r of None \<Rightarrow> b | Some i \<Rightarrow> hold i b) e'"
proof (rule rc_safe_lift [OF assms(1)])
  fix held
  assume h: "\<forall>i. b i \<le> held i" and rc: "rc_ok held e"
  show "\<exists>h. (\<forall>i. (case r of None \<Rightarrow> b | Some i \<Rightarrow> hold i b) i \<le> h i) \<and> rc_ok h e'"
    using rc_dequeue_item [OF rc assms(2)] h
    by (intro exI [of _ "case r of None \<Rightarrow> held | Some i \<Rightarrow> hold i held"]) (auto split: option.splits)
qed

lemma rc_safe_frame_simps [simp]:
  "rc_safe b (emit x e) = rc_safe b e"
  "rc_safe b (e\<lparr>as_ptr := a\<rparr>) = rc_safe b e"
  "rc_safe b (e\<lparr>locked := n\<rparr>) = rc_safe b e"
  "rc_safe b (e\<lparr>activation_stack := l\<rparr>) = rc_safe b e"
  "rc_safe b (e\<lparr>current_event_list := c\<rparr>) = rc_safe b e"
  "rc_safe b (e\<lparr>in_get_conn := n\<rparr>) = rc_safe b e"
  "rc_safe b (e\<lparr>delay_task_pending := d\<rparr>) = rc_safe b e"
  "rc_safe b (e\<lparr>attr_int := ai\<rparr>) = rc_safe b e"
  "rc_safe b (e\<lparr>source_heap := sh\<rparr>) = rc_safe b e"
  "rc_safe b (free_queue_item q e) = rc_safe b e"
  by (simp_all add: rc_safe_def rc_ok_def ref_ok_def evp_refs_def free_queue_item_def
      cong: option.case_cong)

lemma safe_malloc: "rc_safe b e \<Longrightarrow> malloc e = (a, e') \<Longrightarrow> rc_safe b e'"
  by (erule rc_safe_keep) (rule rc_malloc)

interpretation safe_inv: flag_invariant "rc_safe b" for b
proof
  fix e s st st'
  assume "rc_safe b e" "stone_at s e = Some st" "same_queues st st'"
  then show "rc_safe b (set_stones ((stone_map e)[s := Some st']) e)"
    by (auto intro: rc_safe_keep [of b e] rc_inv.P_stone)
qed simp_all


section \<open>Moving references\<close>

lemma safe_mod_stone_gen:
  assumes "rc_safe b e" "mod_stone s f e = Some e'"
    and "\<And>st k. stone_at s e = Some st \<Longrightarrow> stone_refs k (f st) + b' k = stone_refs k st + b k"
  shows "rc_safe b' e'"
proof (rule rc_safe_lift [OF assms(1)])
  fix held
  assume h: "\<forall>i. b i \<le> held i" and rc: "rc_ok held e"
  have "rc_ok (\<lambda>k. held k - b k + b' k) e'"
  proof (rule rc_mod_stone [OF rc assms(2)])
    fix st i
    assume "stone_at s e = Some st"
    then show "stone_refs i (f st) + (held i - b i + b' i) = stone_refs i st + held i"
      using assms(3) [of st i] spec [OF h, of i] by linarith
  qed
  then show "\<exists>h. (\<forall>i. b' i \<le> h i) \<and> rc_ok h e'"
    by (rule exI [of _ "\<lambda>k. held k - b k + b' k", OF conjI, rotated]) simp
qed

lemma safe_mod_stone:
  assumes "rc_safe b e" "mod_stone s f e = Some e'"
    and "\<And>st. queue (f st) = queue st" "\<And>st. proto_actions (f st) = proto_actions st"
  shows "rc_safe b e'"
  by (rule safe_mod_stone_gen [OF assms(1,2)]) (simp add: stone_refs_def assms(3,4))

lemma safe_mod_queue:
  assumes "rc_safe b e" "mod_stone s f e = Some e'"
    and "\<And>st. proto_actions (f st) = proto_actions st"
    and "\<And>st k. stone_at s e = Some st \<Longrightarrow> queue_refs (queue (f st)) k + b' k = queue_refs (queue st) k + b k"
  shows "rc_safe b' e'"
  by (rule safe_mod_stone_gen [OF assms(1,2)]) (use assms(3,4) in \<open>fastforce simp: stone_refs_def\<close>)

lemma safe_set_proto_action:
  assumes "rc_safe b e" "set_proto_action s a f e = Some e'"
    and "\<And>act k. proto_action_at s a e = Some act \<Longrightarrow>
           action_refs k (f act) + b' k = action_refs k act + b k"
  shows "rc_safe b' e'"
proof (rule rc_safe_lift [OF assms(1)])
  fix held
  assume h: "\<forall>i. b i \<le> held i" and rc: "rc_ok held e"
  have "rc_ok (\<lambda>k. held k - b k + b' k) e'"
  proof (rule rc_set_proto_action [OF rc assms(2)])
    fix act i
    assume "proto_action_at s a e = Some act"
    then show "action_refs i (f act) + (held i - b i + b' i) = action_refs i act + held i"
      using assms(3) [of act i] spec [OF h, of i] by linarith
  qed
  then show "\<exists>h. (\<forall>i. b' i \<le> h i) \<and> rc_ok h e'"
    by (rule exI [of _ "\<lambda>k. held k - b k + b' k", OF conjI, rotated]) simp
qed

lemma safe_set_store:
  assumes "rc_safe b e" "set_store s a v' e = Some e'" "store_at s a e = Some v"
    and "\<And>k. queue_refs (store_queue v') k + b' k = queue_refs (store_queue v) k + b k"
  shows "rc_safe b' e'"
  by (rule safe_set_proto_action [OF assms(1) assms(2) [unfolded set_store_def]])
    (use assms(3,4) in \<open>auto simp: store_at_def action_refs_def split: action_data.splits\<close>)

lemma safe_raw_enqueue_event:
  assumes "rc_safe b e" "raw_enqueue_event q i e = Some (q', e')"
  shows "rc_safe (hold i b) e' \<and> ev_frame e e' \<and> (\<forall>k. queue_refs q' k = queue_refs q k + (if i = k then 1 else 0))"
proof -
  from assms(2) obtain a e1 where a: "get_queue_item e = (a, e1)"
    and e': "reference_event i e1 = Some e'"
    and q': "q' = q @ [\<lparr>qi_addr = a, qi_item = i, qi_handled = False\<rparr>]"
    by (auto simp: raw_enqueue_event_def crash_simps split: prod.splits)
  have "rc_safe b e1" using assms(1) by (rule rc_safe_keep) (rule rc_get_queue_item [OF _ a])
  then have "rc_safe (hold i b) e'" using e' by (rule safe_reference_event)
  moreover have "ev_frame e e'"
    using ev_frame_trans [OF conjunct1 [OF ev_frame_get_queue_item [OF a]] ev_frame_reference_event [OF e']] .
  ultimately show ?thesis by (simp add: q' queue_refs_def)
qed

section \<open>Environments that keep references safe\<close>

definition safe_call :: "(evp \<Rightarrow> evp option) \<Rightarrow> bool" where
  "safe_call f \<longleftrightarrow> (\<forall>b e e'. rc_safe b e \<longrightarrow> f e = Some e' \<longrightarrow> rc_safe b e')"

definition safe_fn :: "(evp \<Rightarrow> ('a \<times> evp) option) \<Rightarrow> bool" where
  "safe_fn f \<longleftrightarrow> (\<forall>b e r e'. rc_safe b e \<longrightarrow> f e = Some (r, e') \<longrightarrow> rc_safe b e')"

definition consumes :: "evid \<Rightarrow> (evp \<Rightarrow> evp option) \<Rightarrow> bool" where
  \<comment> \<open>a call that takes over one reference to the event\<close>
  "consumes i f \<longleftrightarrow> (\<forall>b e e'. rc_safe (hold i b) e \<longrightarrow> f e = Some e' \<longrightarrow> rc_safe b e')"

definition same_refs :: "evp \<Rightarrow> evp \<Rightarrow> bool" where
  \<comment> \<open>the same events, and queues that hold the same items\<close>
  "same_refs e e' \<longleftrightarrow>
    events e' = events e \<and> next_addr e \<le> next_addr e' \<and>
    taken_events_list e' = taken_events_list e \<and>
    list_all2 (rel_option same_queues) (stone_map e) (stone_map e')"

definition env_safe :: "env \<Rightarrow> bool" where
  \<comment> \<open>handlers change the event path through its interface only; looking for a response
     touches no event and no queue\<close>
  "env_safe env \<longleftrightarrow>
    (\<forall>h d c a. safe_fn (call_simple_handler env h d c a)) \<and>
    (\<forall>h d n c a. safe_fn (call_raw_handler env h d n c a)) \<and>
    (\<forall>f i c a n out. safe_call (call_imm_handler env f i c a n out)) \<and>
    (\<forall>f c a n out sid. safe_fn (call_multi_handler env f c a n out sid)) \<and>
    (\<forall>f s d. safe_call (call_unstall_cb env f s d)) \<and>
    (\<forall>f c s. safe_call (call_stone_close env f c s)) \<and>
    (\<forall>l. safe_fn (\<lambda>e. Some (get_conn env l e))) \<and>
    (\<forall>c. safe_call (wait_pending_write env c)) \<and>
    (\<forall>c i. safe_fn (write_event env c i)) \<and>
    (\<forall>c. safe_call (connection_failed env c)) \<and>
    (\<forall>i cm s. consumes i (thread_transfer env i cm s)) \<and>
    (\<forall>n spec c. safe_fn (install_response_handler env n spec c)) \<and>
    safe_call (usleep env) \<and>
    (\<forall>s stage i e r e'. determine_response env s stage i e = Some (r, e') \<longrightarrow> same_refs e e')"

named_theorems env_calls

lemma env_safe_calls [env_calls]:
  assumes "env_safe env"
  shows "rc_safe b e \<Longrightarrow> call_simple_handler env h d c a e = Some (r, e') \<Longrightarrow> rc_safe b e'"
    "rc_safe b e \<Longrightarrow> call_raw_handler env h d n c a e = Some (r, e') \<Longrightarrow> rc_safe b e'"
    "rc_safe b e \<Longrightarrow> call_imm_handler env f i cd a n out e = Some e' \<Longrightarrow> rc_safe b e'"
    "rc_safe b e \<Longrightarrow> call_multi_handler env g cd a' n out sid e = Some (r, e') \<Longrightarrow> rc_safe b e'"
    "rc_safe b e \<Longrightarrow> call_unstall_cb env h sid c e = Some e' \<Longrightarrow> rc_safe b e'"
    "rc_safe b e \<Longrightarrow> call_stone_close env h con sid e = Some e' \<Longrightarrow> rc_safe b e'"
    "rc_safe b e \<Longrightarrow> get_conn env a e = (cp, e') \<Longrightarrow> rc_safe b e'"
    "rc_safe b e \<Longrightarrow> wait_pending_write env con e = Some e' \<Longrightarrow> rc_safe b e'"
    "rc_safe b e \<Longrightarrow> write_event env con i e = Some (rl, e') \<Longrightarrow> rc_safe b e'"
    "rc_safe b e \<Longrightarrow> connection_failed env con e = Some e' \<Longrightarrow> rc_safe b e'"
    "rc_safe (hold i b) e \<Longrightarrow> thread_transfer env i cm sid e = Some e' \<Longrightarrow> rc_safe b e'"
    "rc_safe b e \<Longrightarrow> install_response_handler env sid spec c e = Some (ir, e') \<Longrightarrow> rc_safe b e'"
    "rc_safe b e \<Longrightarrow> usleep env e = Some e' \<Longrightarrow> rc_safe b e'"
  using assms unfolding env_safe_def safe_call_def safe_fn_def consumes_def by (blast | metis)+

lemma same_refs_evp_refs:
  assumes "same_refs e e'"
  shows "evp_refs e' = evp_refs e"
proof -
  have slot: "slot_refs i p' = slot_refs i p" if "rel_option same_queues p p'" for i p p'
    using that by (cases rule: option.rel_cases) (auto simp: slot_refs_def stone_refs_same_queues)
  have "sum_list (map (slot_refs i) ys) = sum_list (map (slot_refs i) xs)"
    if "list_all2 (rel_option same_queues) xs ys" for i xs ys
    using that by (induction rule: list_all2_induct) (auto dest: slot)
  then show ?thesis using assms by (simp add: evp_refs_def same_refs_def fun_eq_iff)
qed

lemma safe_same_refs:
  assumes "rc_safe b e" "same_refs e e'"
  shows "rc_safe b e'"
proof (rule rc_safe_keep [OF assms(1)])
  fix held
  assume rc: "rc_ok held e"
  have "events e' = events e" "next_addr e \<le> next_addr e'" using assms(2) by (auto simp: same_refs_def)
  then show "rc_ok held e'"
    unfolding rc_ok_def same_refs_evp_refs [OF assms(2)]
    using rc_okD [OF rc] by (fastforce simp: ref_ok_def split: option.splits)
qed

lemma same_refs_stone_at:
  assumes "same_refs e e'" "stone_at s e = Some st"
  obtains st' where "stone_at s e' = Some st'" "same_queues st st'"
proof -
  have l: "list_all2 (rel_option same_queues) (stone_map e) (stone_map e')"
    using assms(1) by (simp add: same_refs_def)
  have s: "s < length (stone_map e)" "stone_map e ! s = Some st"
    using assms(2) by (auto simp: stone_at_Some)
  have "rel_option same_queues (Some st) (stone_map e' ! s)"
    using list_all2_nthD [OF l s(1)] s(2) by simp
  then show ?thesis
    using that list_all2_lengthD [OF l] s(1) by (auto simp: option_rel_Some1 stone_at_def)
qed

lemma same_queues_refl [simp]: "same_queues st st"
  by (simp add: same_queues_def)

lemma same_queues_trans: "same_queues st st1 \<Longrightarrow> same_queues st1 st2 \<Longrightarrow> same_queues st st2"
  by (simp add: same_queues_def)

lemma same_refs_refl [simp]: "same_refs e e"
  by (simp add: same_refs_def list.rel_refl option.rel_refl)

lemma same_refs_trans:
  assumes "same_refs e e1" "same_refs e1 e2"
  shows "same_refs e e2"
proof -
  have "rel_option same_queues p r" if "rel_option same_queues p q" "rel_option same_queues q r" for p q r
    using that by (auto simp: option.rel_sel intro: same_queues_trans)
  then have "list_all2 (rel_option same_queues) (stone_map e) (stone_map e2)"
    using assms by (auto simp: same_refs_def intro: list_all2_trans)
  then show ?thesis using assms by (simp add: same_refs_def)
qed

lemma same_refs_upd:
  assumes "stone_at s e = Some st" "same_queues st st'"
  shows "same_refs e (set_stones ((stone_map e)[s := Some st']) e)"
proof -
  have "rel_option same_queues p p" for p by (simp add: option.rel_refl)
  then have "list_all2 (rel_option same_queues) ((stone_map e)[s := stone_map e ! s])
      ((stone_map e)[s := Some st'])"
    using assms by (intro list_all2_update_cong) (auto simp: stone_at_Some list.rel_refl)
  then show ?thesis by (simp add: same_refs_def)
qed

lemma env_safe_determine:
  "env_safe env \<Longrightarrow> determine_response env s stage i e = Some (r, e') \<Longrightarrow> same_refs e e'"
  unfolding env_safe_def by blast

lemma env_safe_unstall: "env_safe env \<Longrightarrow> flag_invariant.unstall_ok (rc_safe b) env"
  unfolding safe_inv.unstall_ok_def by (blast intro: env_calls)

lemma safe_backpressure_check:
  "env_safe env \<Longrightarrow> rc_safe b e \<Longrightarrow> backpressure_check env s e = Some e' \<Longrightarrow> rc_safe b e'"
  by (rule safe_inv.P_backpressure_check [OF env_safe_unstall])


section \<open>What every result of a step satisfies\<close>

text \<open>
  \<open>post m P\<close>: when the step \<open>m\<close> returns, its result satisfies \<open>P\<close>. \<open>post_struct\<close> follows the
  structure of a step; \<open>safe_rules\<close> has one rule for every operation that keeps reference
  safety, to be applied to the safety of the state it starts from.
\<close>

definition post :: "'a option \<Rightarrow> ('a \<Rightarrow> bool) \<Rightarrow> bool" where
  "post m P \<longleftrightarrow> (\<forall>x. m = Some x \<longrightarrow> P x)"

lemma postI: "(\<And>x. m = Some x \<Longrightarrow> P x) \<Longrightarrow> post m P"
  by (simp add: post_def)

lemma postD: "post m P \<Longrightarrow> m = Some x \<Longrightarrow> P x"
  by (simp add: post_def)

lemma post_imp: "post m P \<Longrightarrow> (\<And>x. P x \<Longrightarrow> Q x) \<Longrightarrow> post m Q"
  by (simp add: post_def)

lemma post_bind: "post m (\<lambda>x. post (f x) P) \<Longrightarrow> post (Option.bind m f) P"
  by (auto simp: post_def bind_eq_Some_iff)

lemma post_Some: "P x \<Longrightarrow> post (Some x) P"
  by (simp add: post_def)

lemma post_None: "post None P"
  by (simp add: post_def)

lemma post_if: "(c \<Longrightarrow> post m P) \<Longrightarrow> (\<not> c \<Longrightarrow> post n P) \<Longrightarrow> post (if c then m else n) P"
  by simp

lemma post_option:
  "(x = None \<Longrightarrow> post m P) \<Longrightarrow> (\<And>y. x = Some y \<Longrightarrow> post (f y) P) \<Longrightarrow>
    post (case x of None \<Rightarrow> m | Some y \<Rightarrow> f y) P"
  by (simp split: option.split)

lemma post_prod: "(\<And>a b. x = (a, b) \<Longrightarrow> post (f a b) P) \<Longrightarrow> post (case x of (a, b) \<Rightarrow> f a b) P"
  by (simp split: prod.split)

lemma post_pair: "post (f a b) P \<Longrightarrow> post (case (a, b) of (x, y) \<Rightarrow> f x y) P"
  by simp

lemma post_prod_app:
  "(\<And>a b. x = (a, b) \<Longrightarrow> post (f a b z) P) \<Longrightarrow> post ((case x of (a, b) \<Rightarrow> f a b) z) P"
  by (simp split: prod.split)

lemmas post_struct =
  post_bind post_Some post_None post_if post_option post_pair post_prod post_prod_app

lemmas rc_safe_frame = rc_safe_frame_simps

named_theorems safe_rules

lemma wp_return_event [safe_rules]:
  "rc_safe (hold i b) e \<Longrightarrow> (\<And>e'. rc_safe b e' \<Longrightarrow> Q e') \<Longrightarrow> post (return_event i e) Q"
  by (rule postI) (blast intro: safe_return_event)

lemma wp_reference_event [safe_rules]:
  "rc_safe b e \<Longrightarrow> (\<And>e'. rc_safe (hold i b) e' \<Longrightarrow> Q e') \<Longrightarrow> post (reference_event i e) Q"
  by (rule postI) (blast intro: safe_reference_event)

lemma wp_encode_event [safe_rules]:
  "rc_safe b e \<Longrightarrow> (\<And>e'. rc_safe b e' \<Longrightarrow> Q e') \<Longrightarrow> post (encode_event env i e) Q"
  by (rule postI) (blast intro: safe_encode_event)

lemma wp_mod_event [safe_rules]:
  "rc_safe b e \<Longrightarrow> (\<And>v. ref_count (f v) = ref_count v) \<Longrightarrow> (\<And>e'. rc_safe b e' \<Longrightarrow> Q e') \<Longrightarrow>
    post (mod_event i f e) Q"
  by (rule postI) (blast intro: safe_mod_event)

lemma wp_mod_stone [safe_rules]:
  "rc_safe b e \<Longrightarrow> (\<And>st. queue (f st) = queue st) \<Longrightarrow> (\<And>st. proto_actions (f st) = proto_actions st) \<Longrightarrow>
    (\<And>e'. rc_safe b e' \<Longrightarrow> Q e') \<Longrightarrow> post (mod_stone s f e) Q"
  by (rule postI) (blast intro: safe_mod_stone)

lemma wp_dequeue_event [safe_rules]:
  "rc_safe b e \<Longrightarrow> (\<And>e'. rc_safe b e' \<Longrightarrow> Q (None, e')) \<Longrightarrow>
    (\<And>i e'. rc_safe (hold i b) e' \<Longrightarrow> Q (Some i, e')) \<Longrightarrow> post (dequeue_event s e) Q"
proof (rule postI)
  fix x
  assume a: "rc_safe b e" "\<And>e'. rc_safe b e' \<Longrightarrow> Q (None, e')"
    "\<And>i e'. rc_safe (hold i b) e' \<Longrightarrow> Q (Some i, e')" and d: "dequeue_event s e = Some x"
  show "Q x"
    using safe_dequeue_event [OF a(1), where s = s and r = "fst x" and e' = "snd x"] d a(2) [of "snd x"] a(3) [of _ "snd x"]
    by (cases x; cases "fst x") simp_all
qed

lemma wp_dequeue_item [safe_rules]:
  "rc_safe b e \<Longrightarrow> (\<And>e'. rc_safe b e' \<Longrightarrow> Q (None, e')) \<Longrightarrow>
    (\<And>i e'. rc_safe (hold i b) e' \<Longrightarrow> Q (Some i, e')) \<Longrightarrow> post (dequeue_item s a e) Q"
proof (rule postI)
  fix x
  assume a: "rc_safe b e" "\<And>e'. rc_safe b e' \<Longrightarrow> Q (None, e')"
    "\<And>i e'. rc_safe (hold i b) e' \<Longrightarrow> Q (Some i, e')" and d: "dequeue_item s a e = Some x"
  show "Q x"
    using safe_dequeue_item [OF a(1), where s = s and a = a and r = "fst x" and e' = "snd x"] d a(2) [of "snd x"] a(3) [of _ "snd x"]
    by (cases x; cases "fst x") simp_all
qed

lemma wp_add_events_in_play [safe_rules]:
  "rc_safe b e \<Longrightarrow> (\<And>e'. rc_safe b e' \<Longrightarrow> Q e') \<Longrightarrow> post (add_events_in_play n e) Q"
  by (rule postI) (auto simp: add_events_in_play_def bind_eq_Some_iff)

lemma wp_backpressure_check:
  "env_safe env \<Longrightarrow> rc_safe b e \<Longrightarrow> (\<And>e'. rc_safe b e' \<Longrightarrow> Q e') \<Longrightarrow>
    post (backpressure_check env s e) Q"
  by (rule postI) (blast intro: safe_backpressure_check)

section \<open>Submission and immediate actions\<close>

lemma safe_action_state_of [simp]: "rc_safe b (action_state_of n e) = rc_safe b e"
  by (simp add: action_state_of_def split: option.split)

lemma stone_map_action_state_of [simp]: "stone_map (action_state_of n e) = stone_map e"
  by (simp add: action_state_of_def split: option.split)

lemma wp_enqueue_event:
  assumes "env_safe env" "rc_safe b e" "\<And>e'. rc_safe b e' \<Longrightarrow> Q e'"
  shows "post (enqueue_event env sid i e) Q"
proof (rule postI)
  fix e'
  assume "enqueue_event env sid i e = Some e'"
  then obtain s st q e1 e2 e3 a where
    st: "stone_at s (action_state_of 0 e) = Some st"
    and e1: "raw_enqueue_event (queue st) i (action_state_of 0 e) = Some (q, e1)"
    and e2: "mod_stone s (\<lambda>st. st\<lparr>queue := q, new_enqueue_flag := True,
               queue_size := queue_size st + 1\<rparr>) e1 = Some e2"
    and e3: "backpressure_check env sid e2 = Some e3" and e': "e' = e3\<lparr>as_ptr := a\<rparr>"
    unfolding enqueue_event_def Let_def
    by (auto simp: crash_simps)
  have "rc_safe b (action_state_of 0 e)" using assms(2) by simp
  from safe_raw_enqueue_event [OF this e1] have
    r: "rc_safe (hold i b) e1" and fr: "ev_frame (action_state_of 0 e) e1"
    and q: "\<forall>k. queue_refs q k = queue_refs (queue st) k + (if i = k then 1 else 0)" by auto
  have "stone_at s e1 = Some st" using st stone_at_frame [OF fr] by simp
  then have "rc_safe b e2"
    by (intro safe_mod_queue [OF r e2]) (use q in auto)
  then show "Q e'" using safe_backpressure_check [OF assms(1) _ e3] e' assms(3) by simp
qed


declare wp_enqueue_event [safe_rules] wp_backpressure_check [safe_rules]

lemma wp_submit [safe_rules]:
  "env_safe env \<Longrightarrow> rc_safe b e \<Longrightarrow> (\<And>e'. rc_safe b e' \<Longrightarrow> Q e') \<Longrightarrow>
    post (submit env sid i e) Q"
  unfolding submit_def internal_path_submit_def
  by ((rule safe_rules, assumption+) | rule post_struct | (simp; fail) | rule postI)+

lemma wp_env_call [safe_rules]:
  assumes "env_safe env" "rc_safe b e"
  shows "(\<And>r e'. rc_safe b e' \<Longrightarrow> Q2 (r, e')) \<Longrightarrow> post (call_simple_handler env h d c a e) Q2"
    "(\<And>r e'. rc_safe b e' \<Longrightarrow> Q2 (r, e')) \<Longrightarrow> post (call_raw_handler env h d n c a e) Q2"
    "(\<And>e'. rc_safe b e' \<Longrightarrow> Q e') \<Longrightarrow> post (call_imm_handler env f i cd a n' out e) Q"
    "(\<And>r e'. rc_safe b e' \<Longrightarrow> Q2 (r, e')) \<Longrightarrow> post (call_multi_handler env g cd a' n' out sid e) Q2"
    "(\<And>e'. rc_safe b e' \<Longrightarrow> Q e') \<Longrightarrow> post (call_stone_close env h con sid e) Q"
    "(\<And>e'. rc_safe b e' \<Longrightarrow> Q e') \<Longrightarrow> post (wait_pending_write env con e) Q"
    "(\<And>r e'. rc_safe b e' \<Longrightarrow> Q3 (r, e')) \<Longrightarrow> post (write_event env con i e) Q3"
    "(\<And>e'. rc_safe b e' \<Longrightarrow> Q e') \<Longrightarrow> post (connection_failed env con e) Q"
    "(\<And>r e'. rc_safe b e' \<Longrightarrow> Q4 (r, e')) \<Longrightarrow> post (install_response_handler env sid spec c e) Q4"
    "(\<And>e'. rc_safe b e' \<Longrightarrow> Q e') \<Longrightarrow> post (usleep env e) Q"
  using assms by (auto simp: post_def dest: env_calls)

lemma wp_thread_transfer [safe_rules]:
  "env_safe env \<Longrightarrow> rc_safe (hold i b) e \<Longrightarrow> (\<And>e'. rc_safe b e' \<Longrightarrow> Q e') \<Longrightarrow>
    post (thread_transfer env i cm sid e) Q"
  by (rule postI) (blast intro: env_calls)

lemma rc_safe_stack [simp]:
  "rc_safe b (push_activation_record_on_stack n e) = rc_safe b e"
  "rc_safe b (pop_activation_record_from_stack e) = rc_safe b e"
  "rc_safe b (set_int_attr l a v e) = rc_safe b e"
  by (simp_all add: push_activation_record_on_stack_def pop_activation_record_from_stack_def
      set_int_attr_def)

lemmas frame_only = rc_safe_frame rc_safe_stack



lemma wp_call_handler [safe_rules]:
  "env_safe env \<Longrightarrow> rc_safe b e \<Longrightarrow> (\<And>r e'. rc_safe b e' \<Longrightarrow> Q (r, e')) \<Longrightarrow>
    post (call_handler env v i e) Q"
  unfolding call_handler_def Let_def
  by ((rule safe_rules, (assumption | (simp only: frame_only; fail))+) | rule post_struct
     | (simp; fail) | rule postI)+

lemma wp_update_event_length_sum [safe_rules]:
  assumes "rc_safe b e" "\<And>e'. rc_safe b e' \<Longrightarrow> Q e'"
  shows "post (update_event_length_sum s a i e) Q"
proof (rule postI)
  fix e'
  assume u: "update_event_length_sum s a i e = Some e'"
  then obtain v act where v: "events e i = Some v" "proto_action_at s a e = Some act"
    by (auto simp: update_event_length_sum_def crash_simps)
  show "Q e'"
  proof (cases "get_int_attr (ev_attrs v) ''CM_EVENT_SIZE'' e")
    case None
    then show ?thesis using assms v u by (simp add: update_event_length_sum_def)
  next
    case (Some n)
    obtain l e1 where l: "(case act_attrs act of None \<Rightarrow> create_attr_list e | Some l \<Rightarrow> (l, e)) = (l, e1)"
      by fastforce
    have "rc_safe b e1" using l assms(1)
      by (auto simp: create_attr_list_def split: option.splits prod.splits intro: safe_malloc)
    moreover from u v Some l obtain t e2 where
      e2: "set_proto_action s a (\<lambda>act. act\<lparr>event_length_sum := t, act_attrs := Some l\<rparr>) e1 = Some e2"
      and "e' = set_int_attr l ''EV_EVENT_LSUM'' t e2"
      by (auto simp: update_event_length_sum_def crash_simps Let_def)
    moreover have "rc_safe b e2"
      by (rule safe_set_proto_action [OF \<open>rc_safe b e1\<close> e2]) (simp add: action_refs_def)
    ultimately show ?thesis using assms(2) by simp
  qed
qed

lemma wp_drop_current [safe_rules]:
  "rc_safe b e \<Longrightarrow> (\<And>e'. rc_safe b e' \<Longrightarrow> Q e') \<Longrightarrow> post (drop_current i e) Q"
  by (auto simp: drop_current_def post_def)

lemma wp_do_terminal_action [safe_rules]:
  "env_safe env \<Longrightarrow> rc_safe (hold i b) e \<Longrightarrow> (\<And>r e'. rc_safe b e' \<Longrightarrow> Q (r, e')) \<Longrightarrow>
    post (do_terminal_action env sid s act i e) Q"
  unfolding do_terminal_action_def Let_def
  by ((rule safe_rules, (assumption | (simp only: frame_only; fail))+) | rule post_struct
     | (simp; fail) | rule postI)+


section \<open>Stores\<close>

lemma store_at_frame: "ev_frame e e' \<Longrightarrow> store_at s a e' = store_at s a e"
  by (simp add: store_at_def proto_action_at_def stone_at_frame)

lemma store_at_set_store:
  assumes "set_store s a v e = Some e'"
  shows "store_at s a e' = Some v"
  using assms by (auto simp: set_store_def set_proto_action_def mod_stone_def store_at_def
      proto_action_at_def stone_at_def crash_simps split: if_splits)

lemma ev_frame_storage_queue_enqueue:
  assumes "storage_queue_enqueue env q i e = Some (q', e')"
  obtains e1 where "ensure_ev_owned env i e = Some e1" "raw_enqueue_event q i e1 = Some (q', e')"
  using assms by (auto simp: storage_queue_enqueue_def storage_queue_default_enqueue_def crash_simps)

lemma safe_store_put:
  assumes "rc_safe b e" "store_at s a e = Some v"
    and "storage_queue_enqueue env (store_queue v) i e = Some (q, e1)"
    and "set_store s a (v\<lparr>store_queue := q, num_stored := n\<rparr>) e1 = Some e2"
  shows "rc_safe b e2"
proof -
  obtain e0 where e0: "ensure_ev_owned env i e = Some e0"
    and e1: "raw_enqueue_event (store_queue v) i e0 = Some (q, e1)"
    using assms(3) by (rule ev_frame_storage_queue_enqueue)
  have "rc_safe b e0" using assms(1) by (rule rc_safe_keep) (rule rc_ensure_ev_owned [OF _ e0])
  from safe_raw_enqueue_event [OF this e1]
  have r: "rc_safe (hold i b) e1" and fr: "ev_frame e0 e1"
    and q: "\<forall>k. queue_refs q k = queue_refs (store_queue v) k + (if i = k then 1 else 0)" by auto
  have "store_at s a e1 = Some v"
    using store_at_frame [OF fr] store_at_frame [OF ev_frame_ensure_ev_owned [OF e0]] assms(2) by simp
  then show ?thesis by (intro safe_set_store [OF r assms(4)]) (use q in auto)
qed

lemma safe_store_take:
  assumes "rc_safe b e" "store_at s a e = Some v"
    and "storage_queue_dequeue (store_queue v) e = (Some l, q, e1)"
    and "set_store s a v' e1 = Some e2" "store_queue v' = q"
  shows "rc_safe (hold l b) e2"
proof -
  obtain it where it: "store_queue v = it # q" "l = qi_item it" "e1 = free_queue_item (qi_addr it) e"
    using assms(3) by (auto simp: storage_queue_dequeue_def storage_queue_default_dequeue_def
        raw_dequeue_event_def split: list.splits)
  have "rc_safe b e1" using assms(1) it(3) by simp
  moreover have "store_at s a e1 = Some v"
    using assms(2) it(3) store_at_frame [of e e1 s a] by simp
  ultimately show ?thesis
    by (intro safe_set_store [OF _ assms(4)]) (use it assms(5) in auto)
qed

lemma safe_set_store_counts:
  assumes "rc_safe b e" "set_store s a v' e = Some e'" "store_at s a e = Some v"
    "store_queue v' = store_queue v"
  shows "rc_safe b e'"
  by (rule safe_set_store [OF assms(1-3)]) (simp add: assms(4))

lemma wp_do_store_action [safe_rules]:
  assumes "rc_safe (hold i b) e" "env_safe env" "\<And>r e'. rc_safe b e' \<Longrightarrow> Q (r, e')"
  shows "post (do_store_action env s act i e) Q"
proof (rule postI)
  let ?a = "rc_proto_action_id act"
  fix x
  assume d: "do_store_action env s act i e = Some x"
  then obtain v q e1 e2 where v: "store_at s ?a e = Some v"
    and e1: "storage_queue_enqueue env (store_queue v) i e = Some (q, e1)"
    and e2: "set_store s ?a (v\<lparr>store_queue := q, num_stored := num_stored v + 1\<rparr>) e1 = Some e2"
    by (auto simp: do_store_action_def crash_simps Let_def)
  have r2: "rc_safe b e2" using safe_store_put [OF rc_safe_hold [OF assms(1)] v e1 e2] .
  let ?v = "v\<lparr>store_queue := q, num_stored := num_stored v + 1\<rparr>"
  show "Q x"
  proof (cases "num_stored v + 1 > max_stored v \<and> max_stored v \<noteq> -1")
    case False
    then show ?thesis using d v e1 e2 r2 assms(3) by (auto simp: do_store_action_def crash_simps Let_def)
  next
    case True
    obtain le q' e3 where dq: "storage_queue_dequeue q e2 = (le, q', e3)" by (cases "storage_queue_dequeue q e2")
    with d v e1 e2 True obtain l e4 e5 e6 where l: "le = Some l"
      and e4: "set_store s ?a (v\<lparr>store_queue := q', num_stored := num_stored v\<rparr>) e3 = Some e4"
      and e5: "submit env (store_target_stone_id v) l e4 = Some e5"
      and e6: "return_event l e5 = Some e6" and x: "x = (1, e6)"
      by (auto simp: do_store_action_def crash_simps Let_def)
    have "rc_safe (hold l b) e4"
      by (rule safe_store_take [OF r2 store_at_set_store [OF e2], of l q' e3])
        (use dq l e4 in auto)
    then have "rc_safe (hold l b) e5" by (rule postD [OF wp_submit [OF assms(2)] e5])
    then show ?thesis using safe_return_event [OF _ e6] x assms(3) by simp
  qed
qed


section \<open>The actions of a stone\<close>

lemma wp_split_loop [safe_rules]:
  assumes "rc_safe b e" "env_safe env" "\<And>r e'. rc_safe b e' \<Longrightarrow> Q (r, e')"
  shows "post (split_loop env s i t mp e) Q"
proof (rule postI)
  fix y
  assume *: "split_loop env s i t mp e = Some y"
  have "rc_safe b e \<longrightarrow> env_safe env \<longrightarrow> rc_safe b (snd y)"
  proof (rule split_loop.raw_induct [where P = "\<lambda>env s i t mp e y. rc_safe b e \<longrightarrow> env_safe env \<longrightarrow>
      rc_safe b (snd y)", OF _ *], goal_cases)
    case (1 f env s i t mp e y)
    have loop: "rc_safe b e \<Longrightarrow> env_safe env \<Longrightarrow> (\<And>r e'. rc_safe b e' \<Longrightarrow> Q (r, e')) \<Longrightarrow>
        post (f env s i t mp e) Q" for t mp e Q
      by (rule postI) (metis 1(1) prod.collapse)
    show ?case
      by (intro impI, rule postD [OF _ 1(2)])
        ((rule loop safe_rules, assumption+) | rule post_struct | (simp; fail) | rule postI)+
  qed
  then show "Q y" using assms by (cases y) simp
qed

lemma wp_do_split_action [safe_rules]:
  "rc_safe (hold i b) e \<Longrightarrow> env_safe env \<Longrightarrow> (\<And>r e'. rc_safe b e' \<Longrightarrow> Q (r, e')) \<Longrightarrow>
    post (do_split_action env s act i e) Q"
  unfolding do_split_action_def
  by ((rule safe_rules, assumption+) | rule post_struct | (simp; fail))+

lemma wp_do_immediate_action [safe_rules]:
  "rc_safe (hold i b) e \<Longrightarrow> env_safe env \<Longrightarrow> (\<And>r e'. rc_safe b e' \<Longrightarrow> Q (r, e')) \<Longrightarrow>
    post (do_immediate_action env sid s act i e) Q"
  unfolding do_immediate_action_def
  by ((rule safe_rules, assumption+) | rule post_struct | (simp; fail) | rule postI)+

lemma wp_do_thread_bridge [safe_rules]:
  "rc_safe (hold i b) e \<Longrightarrow> env_safe env \<Longrightarrow> (\<And>r e'. rc_safe b e' \<Longrightarrow> Q (r, e')) \<Longrightarrow>
    post (do_thread_bridge env s act i e) Q"
  unfolding do_thread_bridge_def
  by ((rule safe_rules, assumption+) | rule post_struct | (simp add: rc_safe_hold; fail) | rule postI)+

lemma wp_do_immediate [safe_rules]:
  assumes "rc_safe (hold i b) e" "env_safe env" "\<And>m d e'. rc_safe b e' \<Longrightarrow> Q (m, d, e')"
  shows "post (do_immediate env sid s act i e) Q"
  using assms unfolding do_immediate_def
  by (cases "rc_action_type act"; simp only: action_value.case)
    ((rule safe_rules, assumption+) | rule post_struct | (simp; fail))+


section \<open>Choosing the action of an event\<close>

lemma post_determine_action:
  assumes "env_safe env"
  shows "post (determine_action env s stage i e) (\<lambda>r. same_refs e (snd r))"
proof -
  have upd: "same_refs e e'" if s: "same_refs e e1"
    and m: "mod_stone s (\<lambda>st. st\<lparr>response_cache := f st\<rparr>) e1 = Some e'" for e1 e' f
  proof -
    obtain st where st: "stone_at s e1 = Some st"
      and e': "e' = set_stones ((stone_map e1)[s := Some (st\<lparr>response_cache := f st\<rparr>)]) e1"
      using m by (rule mod_stoneE)
    have "same_queues st (st\<lparr>response_cache := f st\<rparr>)" by (simp add: same_queues_def)
    then show ?thesis unfolding e' using same_refs_trans [OF s same_refs_upd [OF st]] by blast
  qed
  show ?thesis
    unfolding determine_action_def Let_def
    by (auto intro!: postI simp: crash_simps split: if_splits
        dest!: env_safe_determine [OF assms] intro: upd)
qed

lemma queue_refs_map_item:
  "queue_item_at q a = Some it \<Longrightarrow>
    queue_refs (map_queue_item a f q) k + (if qi_item it = k then 1 else 0)
      = queue_refs q k + (if qi_item (f it) = k then 1 else 0)"
  by (induction q) (auto simp: queue_item_at_def split: if_splits)

lemma queue_refs_map_same:
  "(\<And>it. qi_item (f it) = qi_item it) \<Longrightarrow> queue_refs (map_queue_item a f q) k = queue_refs q k"
  by (induction q) auto

lemma queue_refs_remove1:
  "it \<in> set q \<Longrightarrow> queue_refs q k = queue_refs (remove1 it q) k + (if qi_item it = k then 1 else 0)"
  by (induction q) auto

lemma upd_itemE:
  assumes "upd_item s a f e = Some e'"
  obtains st it where "stone_at s e = Some st" "queue_item_at (queue st) a = Some it"
    "mod_stone s (\<lambda>st. st\<lparr>queue := map_queue_item a f (queue st)\<rparr>) e = Some e'"
  using assms by (auto simp: upd_item_def crash_simps)

lemma wp_upd_item [safe_rules]:
  assumes "rc_safe b e" "\<And>it. qi_item (f it) = qi_item it" "\<And>e'. rc_safe b e' \<Longrightarrow> Q e'"
  shows "post (upd_item s a f e) Q"
proof (rule postI)
  fix e'
  assume "upd_item s a f e = Some e'"
  then have "mod_stone s (\<lambda>st. st\<lparr>queue := map_queue_item a f (queue st)\<rparr>) e = Some e'"
    by (rule upd_itemE)
  then have "rc_safe b e'"
    by (rule safe_mod_queue [OF assms(1)]) (simp_all add: queue_refs_map_same assms(2))
  then show "Q e'" by (rule assms(3))
qed

text \<open>
  Decoding an event in place of the one a queue item holds: the item's reference is the one
  decode_action works on.
\<close>

lemma mod_event_set_stones:
  "mod_event i f (set_stones m e) = map_option (set_stones m) (mod_event i f e)"
  by (simp add: mod_event_def split: Option.bind_split)

lemma decode_action_set_stones:
  "decode_action env i act (set_stones m e)
    = map_option (apsnd (set_stones m)) (decode_action env i act e)"
proof (cases "events e i")
  case None
  then show ?thesis by (simp add: decode_action_def)
next
  case (Some v)
  show ?thesis
  proof (cases "event_encoded v \<and> contents v \<noteq> Event_CM_Owned")
    case False
    then show ?thesis using Some
      by (auto simp: decode_action_def mod_event_def malloc_def emit_def split: option.splits)
  next
    case True
    have "copy_attrs_to n a (set_stones m e) = map_option (set_stones m) (copy_attrs_to n a e)" for n a e
      by (cases a) (simp_all add: copy_attrs_to_def attr_copy_list_def malloc_def mod_event_def
          split: Option.bind_split)
    moreover have "get_free_event (set_stones m e) = apsnd (set_stones m) (get_free_event e)"
      "malloc (set_stones m e) = apsnd (set_stones m) (malloc e)" for e
      by (simp_all add: get_free_event_def malloc_def Let_def)
    ultimately show ?thesis using Some True
      by (simp add: decode_action_def mod_event_set_stones return_event_set_stones
          split: prod.split Option.bind_split option.split)
  qed
qed

lemma ev_frame_emit_left [simp]: "ev_frame (emit x e) e' = ev_frame e e'"
  by (simp add: ev_frame_def)

lemma ev_frame_decode_action:
  assumes "decode_action env i act e = Some (r, e')"
  shows "ev_frame e e'"
  using assms
  by (auto simp: decode_action_def crash_simps Let_def split: if_splits prod.splits option.splits
      dest!: ev_frame_mod_event ev_frame_malloc ev_frame_get_free_event ev_frame_copy_attrs_to
        ev_frame_return_event) (meson ev_frame_trans)+

lemma safe_decode_item:
  assumes "rc_safe b e" and st: "stone_at s e = Some st" and it: "queue_item_at (queue st) a = Some it"
    and d: "decode_action env (qi_item it) act e = Some (Some j, e1)"
    and u: "upd_item s a (\<lambda>it. it\<lparr>qi_item := j\<rparr>) e1 = Some e2"
  shows "rc_safe b e2"
proof (rule rc_safe_keep [OF assms(1)])
  fix held
  assume rc: "rc_ok held e"
  let ?i = "qi_item it"
  let ?st0 = "st\<lparr>queue := remove1 it (queue st)\<rparr>"
  let ?m = "(stone_map e)[s := Some ?st0]"   \<comment> \<open>the stones without the item\<close>
  have mem: "it \<in> set (queue st)" using it by (auto simp: queue_item_at_def find_Some_iff)
  have m0: "mod_stone s (\<lambda>_. ?st0) e = Some (set_stones ?m e)" using st by (simp add: mod_stone_def)
  have "rc_ok (hold ?i held) (set_stones ?m e)"
    by (rule rc_mod_stone [OF rc m0])
      (use st queue_refs_remove1 [OF mem] in \<open>auto simp: stone_refs_def\<close>)
  moreover have "decode_action env ?i act (set_stones ?m e) = Some (Some j, set_stones ?m e1)"
    using d by (simp add: decode_action_set_stones)
  ultimately have r1: "rc_ok (hold j held) (set_stones ?m e1)"
    using rc_decode_action [of "hold ?i held" "set_stones ?m e" ?i env act "Some j" "set_stones ?m e1"]
    by simp
  have fr: "ev_frame e e1" by (rule ev_frame_decode_action [OF d])
  obtain st1 where "stone_at s e1 = Some st1"
    and e2: "e2 = set_stones ((stone_map e1)[s := Some (st1\<lparr>queue := map_queue_item a
      (\<lambda>it. it\<lparr>qi_item := j\<rparr>) (queue st1)\<rparr>)]) e1"
    using u by (auto elim!: upd_itemE mod_stoneE)
  moreover have st1: "stone_at s e1 = Some st" using st stone_at_frame [OF fr] by simp
  ultimately have e2: "e2 = set_stones ((stone_map e1)[s := Some (st\<lparr>queue := map_queue_item a
      (\<lambda>it. it\<lparr>qi_item := j\<rparr>) (queue st)\<rparr>)]) e1"
    and m: "?m = (stone_map e1)[s := Some ?st0]" using fr by (simp_all add: ev_frame_def)
  have "evp_refs e2 k + held k = evp_refs (set_stones ?m e1) k + hold j held k" for k
    using evp_refs_mod_stone [OF st1, of ?st0 k] queue_refs_remove1 [OF mem, of k]
      evp_refs_mod_stone [OF st1, of "st\<lparr>queue := map_queue_item a (\<lambda>it. it\<lparr>qi_item := j\<rparr>) (queue st)\<rparr>" k]
      queue_refs_map_item [OF it, of "\<lambda>it. it\<lparr>qi_item := j\<rparr>" k]
    unfolding m e2 by (simp add: stone_refs_def split: if_splits)
  then show "rc_ok held e2"
    by (intro rc_transfer [OF r1]) (simp_all add: e2)
qed

end
