(* ===== verification/Ev_Safe_Loop.thy ===== *)
theory Ev_Safe_Loop
  imports Ev_Safe
begin

text \<open>
  Reference safety of the processing loop: choosing and running the action of a queued event,
  bridges, pending output of stores, process_events_stone and process_local_actions.
\<close>

section \<open>One queued event\<close>

lemma decode_action_None: "decode_action env i act e = Some (None, e') \<Longrightarrow> e' = e"
  by (auto simp: decode_action_def crash_simps Let_def split: if_splits prod.splits option.splits)

lemma ev_frame_reassign:
  assumes "rc_ok held e" "held i > 0 \<or> evp_refs e i > 0"
    "reassign_memory_event env i d e = Some (Some j, e')"
  shows "ev_frame e e'"
  using reassign_parts [OF assms] by (meson ev_frame_trans ev_frame_mod_event)

lemma queued_refs:
  assumes "stone_at s e = Some st" "queue_item_at (queue st) a = Some it"
  shows "evp_refs e (qi_item it) > 0"
proof -
  have "it \<in> set (queue st)" using assms(2) by (auto simp: queue_item_at_def find_Some_iff)
  from queue_refs_remove1 [OF this, of "qi_item it"] have "stone_refs (qi_item it) st > 0"
    by (simp add: stone_refs_def)
  then have "slot_refs (qi_item it) (stone_map e ! s) > 0"
    using assms(1) by (simp add: slot_refs_def stone_at_Some)
  moreover have "slot_refs (qi_item it) (stone_map e ! s) \<in> set (map (slot_refs (qi_item it)) (stone_map e))"
    using assms(1) nth_mem [of s "stone_map e"] by (auto simp: stone_at_Some simp del: nth_mem)
  ultimately show ?thesis
    unfolding evp_refs_def by (metis add_gr_0 elem_le_sum_list in_set_conv_nth less_le_trans member_le_sum_list)
qed

lemma wp_decode_for_action:
  assumes "rc_safe b e" "env_safe env" "stone_at s e = Some st" "queue_item_at (queue st) a = Some it"
  shows "post (decode_for_action env s c a (qi_item it) resp e) (\<lambda>r. rc_safe b (snd r))"
proof (rule postI)
  let ?i = "qi_item it"
  fix x
  assume d: "decode_for_action env s c a ?i resp e = Some x"
  then obtain ev e1 dv r e2 where ev: "events e ?i = Some ev"
    and e1: "(if \<not> event_encoded ev then do {
              (old_data, e) \<leftarrow> reassign_memory_event env ?i False e;
              old \<leftarrow> old_data;
              e \<leftarrow> return_event old e;
              reference_event ?i e }
            else Some e) = Some e1"
    and e2: "decode_action env ?i dv e1 = Some (r, e2)"
    and rest: "(case r of None \<Rightarrow> Some (None, e2) | Some j \<Rightarrow> do {
          e \<leftarrow> upd_item s a (\<lambda>it. it\<lparr>qi_item := j\<rparr>) e2;
          (resp_id, e) \<leftarrow> determine_action env s c j e;
          Some (Some resp_id, e) }) = Some x"
    unfolding decode_for_action_def by (auto simp: bind_eq_Some_iff)
  have fr: "ev_frame e e1" and r1: "rc_safe b e1"
  proof -
    have "ev_frame e e1 \<and> rc_safe b e1" if enc: "\<not> event_encoded ev"
    proof -
      obtain held where h: "\<forall>k. b k \<le> held k" "rc_ok held e" using assms(1) by (auto simp: rc_safe_def)
      have pos: "held ?i > 0 \<or> evp_refs e ?i > 0" using queued_refs [OF assms(3,4)] by simp
      from e1 enc obtain j f1 f2 where j: "reassign_memory_event env ?i False e = Some (Some j, f1)"
        "return_event j f1 = Some f2" "reference_event ?i f2 = Some e1"
        by (auto simp: bind_eq_Some_iff)
      have "ev_frame e e1"
        using ev_frame_reassign [OF h(2) pos j(1)] ev_frame_return_event [OF j(2)]
          ev_frame_reference_event [OF j(3)] by (meson ev_frame_trans)
      moreover have "rc_ok held e1" by (rule rc_reassign_restore [OF h(2) pos j])
      ultimately show ?thesis using h(1) by (auto simp: rc_safe_def)
    qed
    then show "ev_frame e e1" "rc_safe b e1" using e1 assms(1) by (auto split: if_splits)
  qed
  show "rc_safe b (snd x)"
  proof (cases r)
    case None
    then show ?thesis using rest e2 r1 by (auto dest: decode_action_None)
  next
    case (Some j)
    with rest obtain e3 rid e4 where
      e3: "upd_item s a (\<lambda>it. it\<lparr>qi_item := j\<rparr>) e2 = Some e3"
      and e4: "determine_action env s c j e3 = Some (rid, e4)" and x: "x = (Some rid, e4)"
      by (auto simp: bind_eq_Some_iff)
    have "stone_at s e1 = Some st" using stone_at_frame [OF fr] assms(3) by simp
    then have "rc_safe b e3" using safe_decode_item [OF r1 _ assms(4)] e2 e3 Some by blast
    moreover have "same_refs e3 e4" using postD [OF post_determine_action [OF assms(2)] e4] by simp
    ultimately show ?thesis using x safe_same_refs by simp
  qed
qed


lemma wp_discard_unhandled [safe_rules]:
  "rc_safe b e \<Longrightarrow> (\<And>e'. rc_safe b e' \<Longrightarrow> Q e') \<Longrightarrow> post (discard_unhandled s a e) Q"
  unfolding discard_unhandled_def
  by ((rule safe_rules, assumption) | rule post_struct | (simp add: post_None; fail) | rule postI)+

lemma wp_select_action:
  assumes "rc_safe b e" "env_safe env" "stone_at s e = Some st" "queue_item_at (queue st) a = Some it"
  shows "post (select_action env s c a (qi_item it) e) (\<lambda>r. rc_safe b (snd r))"
proof (rule postI)
  fix x
  assume "select_action env s c a (qi_item it) e = Some x"
  then obtain rid e1 resp e2 where d: "determine_action env s c (qi_item it) e = Some (rid, e1)"
    and e2: "(if rc_action_type resp = Action_NoAction \<and> c = Immediate_and_Multi
            then discard_unhandled s a e1 else Some e1) = Some e2"
    and rest: "(if rc_action_type resp = Action_Decode then do {
        (r, e) \<leftarrow> decode_for_action env s c a (qi_item it) resp e2;
        case r of
          None \<Rightarrow> Some (None, e)
        | Some resp_id \<Rightarrow> do { act \<leftarrow> response_at s resp_id e; Some (Some act, e) } }
      else Some (Some resp, e2)) = Some x"
    unfolding select_action_def by (auto simp: bind_eq_Some_iff)
  have sr: "same_refs e e1" using postD [OF post_determine_action [OF assms(2)] d] by simp
  have r1: "rc_safe b e1" by (rule safe_same_refs [OF assms(1) sr])
  have r2: "rc_safe b e2"
    using e2 r1 postD [OF wp_discard_unhandled [OF r1, of "rc_safe b"]] by (auto split: if_splits)
  show "rc_safe b (snd x)"
  proof (cases "rc_action_type resp = Action_Decode")
    case False
    then show ?thesis using rest r2 by auto
  next
    case True
    then have "e2 = e1" using e2 by auto
    obtain st1 where "stone_at s e1 = Some st1" "same_queues st st1"
      using same_refs_stone_at [OF sr assms(3)] by blast
    then have "stone_at s e2 = Some st1" "queue_item_at (queue st1) a = Some it"
      using \<open>e2 = e1\<close> assms(4) by (auto simp: same_queues_def)
    from postD [OF wp_decode_for_action [OF r2 assms(2) this]]
    show ?thesis using rest True by (auto simp: bind_eq_Some_iff split: option.splits)
  qed
qed

lemma wp_do_multi [safe_rules]:
  "rc_safe b e \<Longrightarrow> env_safe env \<Longrightarrow> (\<And>m d e'. rc_safe b e' \<Longrightarrow> Q (m, d, e')) \<Longrightarrow>
    post (do_multi env sid s a act e) Q"
  unfolding do_multi_def
  by ((rule safe_rules, assumption+) | rule post_struct | (simp; fail) | rule postI)+

lemma wp_process_item [safe_rules]:
  assumes "rc_safe b e" "env_safe env" "\<And>r m d e'. rc_safe b e' \<Longrightarrow> Q (r, m, d, e')"
  shows "post (process_item env sid s c a e) Q"
proof (rule postI)
  fix x
  assume "process_item env sid s c a e = Some x"
  then obtain st it act e1 where st: "stone_at s e = Some st" "queue_item_at (queue st) a = Some it"
    and e1: "select_action env s c a (qi_item it) e = Some (act, e1)"
    and rest: "(case act of
        None \<Rightarrow> Some (Return_now, 0, False, e1)
      | Some act \<Rightarrow> do {
          e \<leftarrow> backpressure_check env sid e1;
          if \<not> compatible_stages c (rc_stage act) then Some (Next_item, 0, False, e)
          else if is_immediate_action act then do {
            (event, e) \<leftarrow> dequeue_item s (Some a) e;
            i \<leftarrow> event;
            (m, d, e) \<leftarrow> do_immediate env sid s act i e;
            Some (Next_item, m, d, e) }
          else if is_multi_action act \<or> is_congestion_action act then do {
            (m, d, e) \<leftarrow> do_multi env sid s a act e;
            Some (Break_loop, m, d, e) }
          else Some (Next_item, 0, False, e) }) = Some x"
    unfolding process_item_def by (auto simp: bind_eq_Some_iff)
  have r1: "rc_safe b e1"
    using postD [OF wp_select_action [OF assms(1,2) st] e1] by simp
  show "Q x"
    by (rule postD [OF _ rest], insert r1 assms(2,3))
      ((rule safe_rules, assumption+) | rule post_struct | (simp; fail) | rule postI)+
qed

lemma wp_process_items [safe_rules]:
  assumes "rc_safe b e" "env_safe env" "\<And>r m d e'. rc_safe b e' \<Longrightarrow> Q (r, m, d, e')"
  shows "post (process_items env sid s c item mp did e) Q"
proof (rule postI)
  fix y
  assume *: "process_items env sid s c item mp did e = Some y"
  have "rc_safe b e \<longrightarrow> env_safe env \<longrightarrow> rc_safe b (snd (snd (snd y)))"
  proof (rule process_items.raw_induct [where P = "\<lambda>env sid s c item mp did e y. rc_safe b e \<longrightarrow>
      env_safe env \<longrightarrow> rc_safe b (snd (snd (snd y)))", OF _ *], goal_cases)
    case (1 f env sid s c item mp did e y)
    have loop: "rc_safe b e \<Longrightarrow> env_safe env \<Longrightarrow> (\<And>r m d e'. rc_safe b e' \<Longrightarrow> Q (r, m, d, e')) \<Longrightarrow>
        post (f env sid s c item mp did e) Q" for item mp did e Q
      by (rule postI) (metis 1(1) prod.collapse)
    show ?case
      by (intro impI, rule postD [OF _ 1(2)])
        ((rule safe_rules, assumption+) | rule post_struct | (simp; fail)
         | (rule loop, (assumption | (simp; fail))+) | rule postI)+
  qed
  then show "Q y" using assms by (cases y) simp
qed


section \<open>Bridges\<close>

lemma wp_mod_bridge [safe_rules]:
  assumes "rc_safe b e" "\<And>e'. rc_safe b e' \<Longrightarrow> Q e'"
  shows "post (mod_bridge s a f e) Q"
proof (rule postI)
  fix e'
  assume "mod_bridge s a f e = Some e'"
  then obtain v where v: "bridge_at s a e = Some v"
    and e': "set_proto_action s a (\<lambda>act. act\<lparr>act_o := AD_Bridge (f v)\<rparr>) e = Some e'"
    by (auto simp: mod_bridge_def bind_eq_Some_iff)
  have "rc_safe b e'"
    by (rule safe_set_proto_action [OF assms(1) e'])
      (use v in \<open>auto simp: bridge_at_def action_refs_def split: action_data.splits\<close>)
  then show "Q e'" by (rule assms(2))
qed

lemma wp_get_conn [safe_rules]:
  "rc_safe b e \<Longrightarrow> env_safe env \<Longrightarrow> (\<And>c e'. rc_safe b e' \<Longrightarrow> post (f c e') Q) \<Longrightarrow>
    post (case get_conn env l e of (c, e') \<Rightarrow> f c e') Q"
  by (cases "get_conn env l e") (auto dest: env_safe_calls(7))

lemma wp_create_attr_list [safe_rules]:
  "rc_safe b e \<Longrightarrow> (\<And>l e'. rc_safe b e' \<Longrightarrow> post (f l e') Q) \<Longrightarrow>
    post (case (case attrs of None \<Rightarrow> create_attr_list e | Some l \<Rightarrow> (l, e)) of (l, e') \<Rightarrow> f l e') Q"
  by (cases attrs; cases "malloc e") (auto simp: create_attr_list_def dest: safe_malloc)

lemma wp_bridge_connect [safe_rules]:
  "rc_safe b e \<Longrightarrow> env_safe env \<Longrightarrow> (\<And>ok e'. rc_safe b e' \<Longrightarrow> Q (ok, e')) \<Longrightarrow>
    post (bridge_connect env sid s a e) Q"
  unfolding bridge_connect_def Let_def stone_close_registration_def
  by ((rule safe_rules, (assumption | (simp; fail))+) | rule post_struct | (simp; fail) | rule postI)+

lemma wp_bridge_write [safe_rules]:
  "rc_safe b e \<Longrightarrow> env_safe env \<Longrightarrow> (\<And>r e'. rc_safe b e' \<Longrightarrow> Q (r, e')) \<Longrightarrow>
    post (bridge_write env s a i e) Q"
  unfolding bridge_write_def
  by ((rule safe_rules, assumption+) | rule post_struct | (simp; fail) | rule postI)+

lemma wp_bridge_failed [safe_rules]:
  "rc_safe b e \<Longrightarrow> env_safe env \<Longrightarrow> (\<And>e'. rc_safe b e' \<Longrightarrow> Q e') \<Longrightarrow>
    post (bridge_failed env s a e) Q"
  unfolding bridge_failed_def
  by ((rule safe_rules, (assumption | (simp; fail))+) | rule post_struct | (simp; fail) | rule postI)+

lemma wp_bridge_count [safe_rules]:
  "rc_safe b e \<Longrightarrow> (\<And>e'. rc_safe b e' \<Longrightarrow> Q e') \<Longrightarrow> post (bridge_count s n e) Q"
  unfolding bridge_count_def Let_def
  by ((rule safe_rules, (assumption | (simp; fail))+) | rule post_struct | (simp; fail) | rule postI)+

lemma wp_bridge_event [safe_rules]:
  "rc_safe b e \<Longrightarrow> env_safe env \<Longrightarrow> (\<And>e'. rc_safe b e' \<Longrightarrow> Q e') \<Longrightarrow>
    post (bridge_event env sid s a e) Q"
  unfolding bridge_event_def
  by ((rule safe_rules, (assumption | (simp; fail))+) | rule post_struct | (simp; fail) | rule postI)+

lemma wp_bridge_loop [safe_rules]:
  assumes "rc_safe b e" "env_safe env" "\<And>e'. rc_safe b e' \<Longrightarrow> Q e'"
  shows "post (bridge_loop env sid s a e) Q"
proof (rule postI)
  fix y
  assume *: "bridge_loop env sid s a e = Some y"
  have "rc_safe b e \<longrightarrow> env_safe env \<longrightarrow> rc_safe b y"
  proof (rule bridge_loop.raw_induct [where P = "\<lambda>env sid s a e y. rc_safe b e \<longrightarrow>
      env_safe env \<longrightarrow> rc_safe b y", OF _ *], goal_cases)
    case (1 f env sid s a e y)
    have loop: "rc_safe b e \<Longrightarrow> env_safe env \<Longrightarrow> (\<And>e'. rc_safe b e' \<Longrightarrow> Q e') \<Longrightarrow>
        post (f env sid s a e) Q" for e Q
      by (rule postI) (metis 1(1))
    show ?case
      by (intro impI, rule postD [OF _ 1(2)])
        ((rule loop safe_rules, (assumption | (simp; fail))+) | rule post_struct | (simp; fail)
         | rule postI)+
  qed
  then show "Q y" using assms by simp
qed

lemma wp_do_bridge_action [safe_rules]:
  "rc_safe b e \<Longrightarrow> env_safe env \<Longrightarrow> (\<And>r e'. rc_safe b e' \<Longrightarrow> Q (r, e')) \<Longrightarrow>
    post (do_bridge_action env sid e) Q"
  unfolding do_bridge_action_def Let_def
  by ((rule safe_rules, (assumption | (simp; fail))+) | rule post_struct | (simp; fail) | rule postI)+


section \<open>Pending output of stores\<close>

lemma wp_send_one_stored [safe_rules]:
  assumes "rc_safe b e" "env_safe env" "\<And>f m e'. rc_safe b e' \<Longrightarrow> Q (f, m, e')"
  shows "post (send_one_stored env s a found e) Q"
proof (rule postI)
  fix x
  assume x: "send_one_stored env s a found e = Some x"
  obtain v where v: "store_at s a e = Some v" using x by (auto simp: send_one_stored_def crash_simps)
  obtain item q e1 where dq: "storage_queue_dequeue (store_queue v) e = (item, q, e1)"
    by (cases "storage_queue_dequeue (store_queue v) e")
  from x v dq obtain i e2 e3 v3 e4 where i: "item = Some i"
    and e2: "set_store s a (v\<lparr>store_queue := q\<rparr>) e1 = Some e2"
    and e3: "submit env (store_target_stone_id v) i e2 = Some e3"
    and v3: "store_at s a e3 = Some v3"
    and e4: "set_store s a (v3\<lparr>num_stored := num_stored v3 - 1\<rparr>) e3 = Some e4"
    and rest: "(if num_stored v3 - 1 = 0 then do {
        e \<leftarrow> set_store s a (v3\<lparr>num_stored := num_stored v3 - 1, is_sending := False, is_paused := 0\<rparr>) e4;
        e \<leftarrow> add_events_in_play (-1) e;
        e \<leftarrow> mod_stone s (\<lambda>st. st\<lparr>pending_output := pending_output st - 1\<rparr>) e;
        Some (found, 0, e) }
      else Some (found + 1, 1, e4)) = Some x"
    unfolding send_one_stored_def Let_def by (auto simp: bind_eq_Some_iff)
  have "rc_safe (hold i b) e2"
    by (rule safe_store_take [OF assms(1) v, of i q e1]) (use dq i e2 in auto)
  then have "rc_safe (hold i b) e3" by (rule postD [OF wp_submit [OF assms(2)] e3])
  then have "rc_safe b e3" by (rule rc_safe_hold)
  then have r4: "rc_safe b e4" by (rule safe_set_store_counts [OF _ e4 v3]) simp
  have stop: "post (set_store s a (v3\<lparr>num_stored := n, is_sending := False, is_paused := 0\<rparr>) e4) (rc_safe b)" for n
  proof (rule postI)
    fix e5
    assume "set_store s a (v3\<lparr>num_stored := n, is_sending := False, is_paused := 0\<rparr>) e4 = Some e5"
    then show "rc_safe b e5" by (rule safe_set_store_counts [OF r4 _ store_at_set_store [OF e4]]) simp
  qed
  show "Q x"
    by (rule postD [OF _ rest], insert r4 assms(3))
      ((rule post_if post_bind, (assumption | rule post_imp [OF stop])?)
       | (rule safe_rules, (assumption | (simp; fail))+) | rule post_struct | (simp; fail))+
qed


lemma wp_pending_output_loop [safe_rules]:
  assumes "rc_safe b e" "env_safe env" "\<And>r e'. rc_safe b e' \<Longrightarrow> Q (r, e')"
  shows "post (pending_output_loop env s a found mp e) Q"
proof (rule postI)
  fix y
  assume *: "pending_output_loop env s a found mp e = Some y"
  have "rc_safe b e \<longrightarrow> env_safe env \<longrightarrow> rc_safe b (snd y)"
  proof (rule pending_output_loop.raw_induct [where P = "\<lambda>env s a found mp e y. rc_safe b e \<longrightarrow>
      env_safe env \<longrightarrow> rc_safe b (snd y)", OF _ *], goal_cases)
    case (1 f env s a found mp e y)
    have loop: "rc_safe b e \<Longrightarrow> env_safe env \<Longrightarrow> (\<And>r e'. rc_safe b e' \<Longrightarrow> Q (r, e')) \<Longrightarrow>
        post (f env s a found mp e) Q" for a found mp e Q
      by (rule postI) (metis 1(1) prod.collapse)
    show ?case
      by (intro impI, rule postD [OF _ 1(2)])
        ((rule safe_rules, assumption+) | rule post_struct | (simp; fail)
         | (rule loop, (assumption | (simp; fail))+) | rule postI)+
  qed
  then show "Q y" using assms by (cases y) simp
qed

lemma wp_process_stone_pending_output [safe_rules]:
  "rc_safe b e \<Longrightarrow> env_safe env \<Longrightarrow> (\<And>r e'. rc_safe b e' \<Longrightarrow> Q (r, e')) \<Longrightarrow>
    post (process_stone_pending_output env sid e) Q"
  unfolding process_stone_pending_output_def
  by ((rule safe_rules, assumption+) | rule post_struct | (simp; fail) | rule postI)+

section \<open>Processing stones\<close>

lemma wp_set_last_active [safe_rules]:
  "rc_safe b e \<Longrightarrow> (\<And>e'. rc_safe b e' \<Longrightarrow> Q e') \<Longrightarrow> post (set_last_active n e) Q"
  by (auto simp: set_last_active_def post_def bind_eq_Some_iff)

lemma wp_process_queue [safe_rules]:
  "rc_safe b e \<Longrightarrow> env_safe env \<Longrightarrow> (\<And>r e'. rc_safe b e' \<Longrightarrow> Q (r, e')) \<Longrightarrow>
    post (process_queue env sid s c mp e) Q"
  unfolding process_queue_def Let_def
  by ((rule safe_rules, (assumption | (simp; fail))+) | rule post_struct | (simp; fail) | rule postI)+

lemma wp_process_events_stone [safe_rules]:
  "rc_safe b e \<Longrightarrow> env_safe env \<Longrightarrow> (\<And>r e'. rc_safe b e' \<Longrightarrow> Q (r, e')) \<Longrightarrow>
    post (process_events_stone env sid c e) Q"
  unfolding process_events_stone_def
  by ((rule safe_rules, (assumption | (simp; fail))+) | rule post_struct | (simp; fail) | rule postI)+

lemma wp_immediate_loop [safe_rules]:
  assumes "rc_safe b e" "env_safe env" "\<And>e'. rc_safe b e' \<Longrightarrow> Q e'"
  shows "post (immediate_loop env e) Q"
proof (rule postI)
  fix y
  assume *: "immediate_loop env e = Some y"
  have "rc_safe b e \<longrightarrow> env_safe env \<longrightarrow> rc_safe b y"
  proof (rule immediate_loop.raw_induct [where P = "\<lambda>env e y. rc_safe b e \<longrightarrow>
      env_safe env \<longrightarrow> rc_safe b y", OF _ *], goal_cases)
    case (1 f env e y)
    have loop: "rc_safe b e \<Longrightarrow> env_safe env \<Longrightarrow> (\<And>e'. rc_safe b e' \<Longrightarrow> Q e') \<Longrightarrow> post (f env e) Q"
      for e Q by (rule postI) (metis 1(1))
    show ?case
      by (intro impI, rule postD [OF _ 1(2)])
        ((rule loop safe_rules, (assumption | (simp; fail))+) | rule post_struct | (simp; fail)
         | rule postI)+
  qed
  then show "Q y" using assms by simp
qed

lemma wp_multi_scan [safe_rules]:
  assumes "rc_safe b e" "env_safe env" "\<And>g m e'. rc_safe b e' \<Longrightarrow> Q (g, m, e')"
  shows "post (multi_scan env sid mp e) Q"
proof (rule postI)
  fix y
  assume *: "multi_scan env sid mp e = Some y"
  have "rc_safe b e \<longrightarrow> env_safe env \<longrightarrow> rc_safe b (snd (snd y))"
  proof (rule multi_scan.raw_induct [where P = "\<lambda>env sid mp e y. rc_safe b e \<longrightarrow>
      env_safe env \<longrightarrow> rc_safe b (snd (snd y))", OF _ *], goal_cases)
    case (1 f env sid mp e y)
    have loop: "rc_safe b e \<Longrightarrow> env_safe env \<Longrightarrow> (\<And>g m e'. rc_safe b e' \<Longrightarrow> Q (g, m, e')) \<Longrightarrow>
        post (f env sid mp e) Q" for sid mp e Q
      by (rule postI) (metis 1(1) prod.collapse)
    show ?case
      by (intro impI, rule postD [OF _ 1(2)])
        ((rule loop safe_rules, (assumption | (simp; fail))+) | rule post_struct | (simp; fail)
         | rule postI)+
  qed
  then show "Q y" using assms by (cases y) simp
qed

lemma wp_bridge_scan [safe_rules]:
  assumes "rc_safe b e" "env_safe env" "\<And>m e'. rc_safe b e' \<Longrightarrow> Q (m, e')"
  shows "post (bridge_scan env sid mp e) Q"
proof (rule postI)
  fix y
  assume *: "bridge_scan env sid mp e = Some y"
  have "rc_safe b e \<longrightarrow> env_safe env \<longrightarrow> rc_safe b (snd y)"
  proof (rule bridge_scan.raw_induct [where P = "\<lambda>env sid mp e y. rc_safe b e \<longrightarrow>
      env_safe env \<longrightarrow> rc_safe b (snd y)", OF _ *], goal_cases)
    case (1 f env sid mp e y)
    have loop: "rc_safe b e \<Longrightarrow> env_safe env \<Longrightarrow> (\<And>m e'. rc_safe b e' \<Longrightarrow> Q (m, e')) \<Longrightarrow>
        post (f env sid mp e) Q" for sid mp e Q
      by (rule postI) (metis 1(1) prod.collapse)
    show ?case
      by (intro impI, rule postD [OF _ 1(2)])
        ((rule loop safe_rules, (assumption | (simp; fail))+) | rule post_struct | (simp; fail)
         | rule postI)+
  qed
  then show "Q y" using assms by (cases y) simp
qed

lemma wp_output_phase [safe_rules]:
  "rc_safe b e \<Longrightarrow> env_safe env \<Longrightarrow> (\<And>m e'. rc_safe b e' \<Longrightarrow> Q (m, e')) \<Longrightarrow>
    post (output_phase env mp e) Q"
  unfolding output_phase_def
  by ((rule safe_rules, (assumption | (simp; fail))+) | rule post_struct | (simp; fail) | rule postI)+

lemma wp_process_from_restart [safe_rules]:
  assumes "rc_safe b e" "env_safe env" "\<And>m e'. rc_safe b e' \<Longrightarrow> Q (m, e')"
  shows "post (process_from_restart env mp e) Q"
proof (rule postI)
  fix y
  assume *: "process_from_restart env mp e = Some y"
  have "rc_safe b e \<longrightarrow> env_safe env \<longrightarrow> rc_safe b (snd y)"
  proof (rule process_from_restart.raw_induct [where P = "\<lambda>env mp e y. rc_safe b e \<longrightarrow>
      env_safe env \<longrightarrow> rc_safe b (snd y)", OF _ *], goal_cases)
    case (1 f env mp e y)
    have loop: "rc_safe b e \<Longrightarrow> env_safe env \<Longrightarrow> (\<And>m e'. rc_safe b e' \<Longrightarrow> Q (m, e')) \<Longrightarrow>
        post (f env mp e) Q" for mp e Q
      by (rule postI) (metis 1(1) prod.collapse)
    show ?case
      by (intro impI, rule postD [OF _ 1(2)])
        ((rule loop safe_rules, (assumption | (simp; fail))+) | rule post_struct | (simp; fail)
         | rule postI)+
  qed
  then show "Q y" using assms by (cases y) simp
qed

lemma wp_process_local_actions [safe_rules]:
  "rc_safe b e \<Longrightarrow> env_safe env \<Longrightarrow> (\<And>m e'. rc_safe b e' \<Longrightarrow> Q (m, e')) \<Longrightarrow>
    post (process_local_actions env e) Q"
  unfolding process_local_actions_def
  by ((rule safe_rules, (assumption | (simp; fail))+) | rule post_struct | (simp; fail) | rule postI)+

lemma wp_do_local_actions [safe_rules]:
  assumes "rc_safe b e" "env_safe env" "\<And>e'. rc_safe b e' \<Longrightarrow> Q e'"
  shows "post (do_local_actions env e) Q"
proof (rule postI)
  fix y
  assume *: "do_local_actions env e = Some y"
  have "rc_safe b e \<longrightarrow> env_safe env \<longrightarrow> rc_safe b y"
  proof (rule do_local_actions.raw_induct [where P = "\<lambda>env e y. rc_safe b e \<longrightarrow>
      env_safe env \<longrightarrow> rc_safe b y", OF _ *], goal_cases)
    case (1 f env e y)
    have loop: "rc_safe b e \<Longrightarrow> env_safe env \<Longrightarrow> (\<And>e'. rc_safe b e' \<Longrightarrow> Q e') \<Longrightarrow> post (f env e) Q"
      for e Q by (rule postI) (metis 1(1))
    show ?case
      by (intro impI, rule postD [OF _ 1(2)])
        ((rule loop safe_rules, (assumption | (simp; fail))+) | rule post_struct | (simp; fail)
         | rule postI)+
  qed
  then show "Q y" using assms by simp
qed

lemma wp_deferred_process_actions [safe_rules]:
  "rc_safe b e \<Longrightarrow> env_safe env \<Longrightarrow> (\<And>e'. rc_safe b e' \<Longrightarrow> Q e') \<Longrightarrow>
    post (deferred_process_actions env e) Q"
  unfolding deferred_process_actions_def Let_def
  by ((rule safe_rules, (assumption | (simp; fail))+) | rule post_struct | (simp; fail) | rule postI)+

end
