(* ===== verification/Ev_Safe_Api.thy ===== *)
theory Ev_Safe_Api
  imports Ev_Safe_Loop Ev_Api
begin

text \<open>
  Reference safety of the entry points of evp.c: submission, stores, connections, draining,
  destroying and freeing stones, transfer of events.
\<close>

section \<open>Submission\<close>

lemma wp_get_free_event [safe_rules]:
  "rc_safe b e \<Longrightarrow> (\<And>i e'. rc_safe (hold i b) e' \<Longrightarrow> post (f i e') Q) \<Longrightarrow>
    post (case get_free_event e of (i, e') \<Rightarrow> f i e') Q"
  by (cases "get_free_event e") (auto dest: safe_get_free_event)

lemma rc_safe_eff_opt [simp]: "rc_safe b (eff_opt g p e) = rc_safe b e"
  by (simp add: eff_opt_def split: option.split)

lemma rc_safe_add_ref_attrs [simp]: "rc_safe b (add_ref_attrs attrs e) = rc_safe b e"
  by (simp add: add_ref_attrs_def)

lemma ref_count_source_event [simp]: "ref_count (source_event env r data attrs e v) = ref_count v"
  by (simp add: source_event_def Let_def)

lemma wp_finish_submit [safe_rules]:
  assumes "rc_safe (hold i b) e" "\<And>e'. rc_safe b e' \<Longrightarrow> Q e'"
  shows "post (finish_submit env i e) Q"
proof (rule postI)
  fix x
  assume x: "finish_submit env i e = Some x"
  obtain v where v: "events e i = Some v" using x by (auto simp: finish_submit_def crash_simps)
  show "Q x"
  proof (cases "ref_count v \<noteq> 1 \<and> contents v = Event_App_Owned")
    case False
    then have "return_event i e = Some x" using x v by (auto simp: finish_submit_def)
    then show ?thesis using assms safe_return_event by blast
  next
    case True
    then obtain j e1 where j: "reassign_memory_event env i True e = Some (Some j, e1)"
      and e2: "return_event j e1 = Some x"
      using x v by (auto simp: finish_submit_def bind_eq_Some_iff)
    have "rc_safe (hold j b) e1"
    proof (rule rc_safe_lift [OF assms(1)])
      fix held
      assume h: "\<forall>k. hold i b k \<le> held k" and rc: "rc_ok held e"
      note d = drop_mono [OF h]
      have "evp_refs e i + held i > 1" using rc_okD [OF rc, of i] v True by (simp add: ref_ok_def) linarith
      then have "rc_ok (hold j (drop_held i held)) e1"
        by (intro rc_reassign_memory_event [OF rc _ _ j]) (use d in simp_all)
      with hold_mono [OF conjunct1 [OF d], of j]
      show "\<exists>h. (\<forall>k. hold j b k \<le> h k) \<and> rc_ok h e1" by blast
    qed
    then show ?thesis using safe_return_event [OF _ e2] assms(2) by blast
  qed
qed

lemma wp_INT_EVsubmit [safe_rules]:
  "rc_safe b e \<Longrightarrow> env_safe env \<Longrightarrow> (\<And>e'. rc_safe b e' \<Longrightarrow> Q e') \<Longrightarrow>
    post (INT_EVsubmit env source data attrs e) Q"
  unfolding INT_EVsubmit_def Let_def
  by ((rule safe_rules, (assumption | (simp; fail))+) | rule post_struct | (simp; fail) | rule postI)+

lemma wp_INT_EVsubmit_general [safe_rules]:
  "rc_safe b e \<Longrightarrow> env_safe env \<Longrightarrow> (\<And>e'. rc_safe b e' \<Longrightarrow> Q e') \<Longrightarrow>
    post (INT_EVsubmit_general env source data ff attrs e) Q"
  unfolding INT_EVsubmit_general_def Let_def
  by ((rule safe_rules, (assumption | (simp; fail))+) | rule post_struct | (simp; fail) | rule postI)+

lemma wp_INT_EVsubmit_encoded [safe_rules]:
  "rc_safe b e \<Longrightarrow> env_safe env \<Longrightarrow> (\<And>e'. rc_safe b e' \<Longrightarrow> Q e') \<Longrightarrow>
    post (INT_EVsubmit_encoded env stone data len attrs e) Q"
  unfolding INT_EVsubmit_encoded_def Let_def
  by ((rule safe_rules, (assumption | (simp; fail))+) | rule post_struct
     | (simp; fail) | (drule rc_safe_hold, simp; fail) | rule postI)+


lemma wp_INT_EVsubmit_or_wait [safe_rules]:
  "rc_safe b e \<Longrightarrow> env_safe env \<Longrightarrow> (\<And>r e'. rc_safe b e' \<Longrightarrow> Q (r, e')) \<Longrightarrow>
    post (INT_EVsubmit_or_wait env source data attrs cb ud e) Q"
  unfolding INT_EVsubmit_or_wait_def register_backpressure_callback_def
  by ((rule safe_rules, (assumption | (simp; fail))+) | rule post_struct | (simp; fail) | rule postI)+

lemma wp_INT_EVsubmit_encoded_or_wait [safe_rules]:
  "rc_safe b e \<Longrightarrow> env_safe env \<Longrightarrow> (\<And>r e'. rc_safe b e' \<Longrightarrow> Q (r, e')) \<Longrightarrow>
    post (INT_EVsubmit_encoded_or_wait env sid data len attrs cb ud e) Q"
  unfolding INT_EVsubmit_encoded_or_wait_def register_backpressure_callback_def
  by ((rule safe_rules, (assumption | (simp; fail))+) | rule post_struct | (simp; fail) | rule postI)+

lemma wp_EVauto_submit_func [safe_rules]:
  "rc_safe b e \<Longrightarrow> env_safe env \<Longrightarrow> (\<And>e'. rc_safe b e' \<Longrightarrow> Q e') \<Longrightarrow>
    post (EVauto_submit_func env sid e) Q"
  unfolding EVauto_submit_func_def Let_def
  by ((rule safe_rules, (assumption | (simp; fail))+) | rule post_struct | (simp; fail) | rule postI)+

lemma wp_internal_cm_network_submit [safe_rules]:
  "rc_safe b e \<Longrightarrow> env_safe env \<Longrightarrow> (\<And>e'. rc_safe b e' \<Longrightarrow> Q e') \<Longrightarrow>
    post (internal_cm_network_submit env attrs c buffer len sid e) Q"
  unfolding internal_cm_network_submit_def Let_def
  by ((rule safe_rules, (assumption | (simp; fail))+) | rule post_struct
     | (simp; fail) | (drule rc_safe_hold, simp; fail) | rule postI)+

section \<open>Connections\<close>

lemma wp_forget_loop [safe_rules]:
  assumes "rc_safe b e" "\<And>e'. rc_safe b e' \<Longrightarrow> Q e'"
  shows "post (forget_loop c n sid e) Q"
proof -
  have "post (forget_loop c n sid e) (rc_safe b)" using assms(1)
  proof (induction n arbitrary: sid e)
    case 0
    then show ?case by (simp add: post_def)
  next
    case (Suc n)
    show ?case using Suc.prems unfolding forget_loop.simps
      by - ((rule safe_rules, (assumption | (simp; fail))+) | rule post_struct | (simp; fail)
         | (rule Suc.IH, assumption) | rule postI)+
  qed
  then show ?thesis using assms(2) by (rule post_imp)
qed

lemma wp_INT_EVforget_connection [safe_rules]:
  "rc_safe b e \<Longrightarrow> (\<And>e'. rc_safe b e' \<Longrightarrow> Q e') \<Longrightarrow> post (INT_EVforget_connection c e) Q"
  unfolding INT_EVforget_connection_def by (rule safe_rules)

lemma wp_close_bridges [safe_rules]:
  assumes "rc_safe b e" "\<And>r e'. rc_safe b e' \<Longrightarrow> Q (r, e')"
  shows "post (close_bridges s c a n e) Q"
proof -
  have "post (close_bridges s c a n e) (\<lambda>r. rc_safe b (snd r))" using assms(1)
  proof (induction n arbitrary: a e)
    case 0
    then show ?case by (simp add: post_def)
  next
    case (Suc n)
    show ?case using Suc.prems unfolding close_bridges.simps
      by - ((rule safe_rules, (assumption | (simp; fail))+) | rule post_struct | (simp; fail)
         | (rule post_imp [OF Suc.IH], (assumption | (simp; fail))) | rule postI)+
  qed
  then show ?thesis by (rule post_imp) (metis assms(2) prod.collapse)
qed

lemma wp_stone_close_handler [safe_rules]:
  "rc_safe b e \<Longrightarrow> env_safe env \<Longrightarrow> (\<And>e'. rc_safe b e' \<Longrightarrow> Q e') \<Longrightarrow>
    post (stone_close_handler env c sid e) Q"
  unfolding stone_close_handler_def Let_def
  by ((rule safe_rules, (assumption | (simp; fail))+) | rule post_struct | (simp; fail) | rule postI)+

section \<open>Stores\<close>

lemma wp_store_step:
  \<comment> \<open>taking the first event out of a store, with any new counters\<close>
  assumes "rc_safe b e" "store_at s a e = Some v" "store_queue v \<noteq> []"
    and "store_queue v' = fst (snd (storage_queue_dequeue (store_queue v) e))"
    and "\<And>i e'. fst (storage_queue_dequeue (store_queue v) e) = Some i \<Longrightarrow>
           rc_safe (hold i b) e' \<Longrightarrow> post (f i e') Q"
  shows "post (do {
      i \<leftarrow> fst (storage_queue_dequeue (store_queue v) e);
      e \<leftarrow> set_store s a v' (snd (snd (storage_queue_dequeue (store_queue v) e)));
      f i e }) Q"
proof (rule postI)
  fix x
  assume x: "do {
      i \<leftarrow> fst (storage_queue_dequeue (store_queue v) e);
      e \<leftarrow> set_store s a v' (snd (snd (storage_queue_dequeue (store_queue v) e)));
      f i e } = Some x"
  obtain item q e1 where dq: "storage_queue_dequeue (store_queue v) e = (item, q, e1)"
    by (cases "storage_queue_dequeue (store_queue v) e")
  from x dq obtain i e2 where i: "item = Some i" and e2: "set_store s a v' e1 = Some e2"
    and f: "f i e2 = Some x" by (auto simp: bind_eq_Some_iff)
  have "rc_safe (hold i b) e2"
    by (rule safe_store_take [OF assms(1,2), of i q e1]) (use dq i e2 assms(4) in auto)
  then show "Q x" using postD [OF assms(5) f] dq i by simp
qed

lemma post_store_at:
  "(\<And>v. store_at s a e = Some v \<Longrightarrow> post (f v) Q) \<Longrightarrow> post (Option.bind (store_at s a e) f) Q"
  by (auto simp: post_def bind_eq_Some_iff)

lemma wp_store_limit_loop [safe_rules]:
  assumes "rc_safe b e" "env_safe env" "\<And>e'. rc_safe b e' \<Longrightarrow> Q e'"
  shows "post (store_limit_loop env s a e) Q"
proof (rule postI)
  fix y
  assume *: "store_limit_loop env s a e = Some y"
  have "rc_safe b e \<longrightarrow> env_safe env \<longrightarrow> rc_safe b y"
  proof (rule store_limit_loop.raw_induct [where P = "\<lambda>env s a e y. rc_safe b e \<longrightarrow>
      env_safe env \<longrightarrow> rc_safe b y", OF _ *], goal_cases)
    case (1 f env s a e y)
    have loop: "rc_safe b e \<Longrightarrow> env_safe env \<Longrightarrow> (\<And>e'. rc_safe b e' \<Longrightarrow> Q e') \<Longrightarrow>
        post (f env s a e) Q" for e Q
      by (rule postI) (metis 1(1))
    show ?case
      by (intro impI, rule postD [OF _ 1(2)])
        ((rule wp_store_step, assumption, assumption, assumption, (simp; fail))
         | rule post_store_at | (rule safe_rules, (assumption | (simp; fail))+)
         | (rule loop, (assumption | (simp; fail))+) | rule post_struct | (simp; fail))+
  qed
  then show "Q y" using assms by simp
qed

lemma wp_set_store_counts:
  "rc_safe b e \<Longrightarrow> store_at s a e = Some v \<Longrightarrow> store_queue v' = store_queue v \<Longrightarrow>
    (\<And>e'. rc_safe b e' \<Longrightarrow> Q e') \<Longrightarrow> post (set_store s a v' e) Q"
  by (rule postI) (blast intro: safe_set_store_counts)

lemma wp_send_stored_loop [safe_rules]:
  assumes "rc_safe b e" "env_safe env" "\<And>e'. rc_safe b e' \<Longrightarrow> Q e'"
  shows "post (send_stored_loop env s a e) Q"
proof (rule postI)
  fix y
  assume *: "send_stored_loop env s a e = Some y"
  have "rc_safe b e \<longrightarrow> env_safe env \<longrightarrow> rc_safe b y"
  proof (rule send_stored_loop.raw_induct [where P = "\<lambda>env s a e y. rc_safe b e \<longrightarrow>
      env_safe env \<longrightarrow> rc_safe b y", OF _ *], goal_cases)
    case (1 f env s a e y)
    have loop: "rc_safe b e \<Longrightarrow> env_safe env \<Longrightarrow> (\<And>e'. rc_safe b e' \<Longrightarrow> Q e') \<Longrightarrow>
        post (f env s a e) Q" for e Q
      by (rule postI) (metis 1(1))
    show ?case
      by (intro impI, rule postD [OF _ 1(2)])
        ((rule wp_store_step, assumption, assumption, assumption, (simp; fail))
         | rule post_store_at | (rule wp_set_store_counts, assumption, assumption, (simp; fail))
         | (rule safe_rules, (assumption | (simp; fail))+)
         | (rule loop, (assumption | (simp; fail))+) | rule post_struct | (simp; fail))+
  qed
  then show "Q y" using assms by simp
qed

lemma wp_INT_EVset_store_limit [safe_rules]:
  "rc_safe b e \<Longrightarrow> env_safe env \<Longrightarrow> (\<And>e'. rc_safe b e' \<Longrightarrow> Q e') \<Longrightarrow>
    post (INT_EVset_store_limit env sid a n e) Q"
  unfolding INT_EVset_store_limit_def Let_def
  by (rule post_store_at | (rule wp_set_store_counts, assumption, assumption, (simp; fail))
     | (rule safe_rules, (assumption | (simp; fail))+) | rule post_struct | (simp; fail) | rule postI)+

lemma wp_INT_EVsend_stored [safe_rules]:
  "rc_safe b e \<Longrightarrow> env_safe env \<Longrightarrow> (\<And>e'. rc_safe b e' \<Longrightarrow> Q e') \<Longrightarrow>
    post (INT_EVsend_stored env sid a e) Q"
  unfolding INT_EVsend_stored_def
  by ((rule safe_rules, (assumption | (simp; fail))+) | rule post_struct | (simp; fail) | rule postI)+

lemma wp_INT_EVstore_start_send [safe_rules]:
  "rc_safe b e \<Longrightarrow> (\<And>e'. rc_safe b e' \<Longrightarrow> Q e') \<Longrightarrow> post (INT_EVstore_start_send sid a e) Q"
  unfolding INT_EVstore_start_send_def
  by (rule post_store_at | (rule wp_set_store_counts, assumption, assumption, (simp; fail))
     | (rule safe_rules, (assumption | (simp; fail))+) | rule post_struct | (simp; fail) | rule postI)+

section \<open>Freezing, draining and transferring\<close>

lemma wp_INT_EVfreeze_stone [safe_rules]:
  "rc_safe b e \<Longrightarrow> (\<And>r e'. rc_safe b e' \<Longrightarrow> Q (r, e')) \<Longrightarrow> post (INT_EVfreeze_stone sid e) Q"
  "rc_safe b e \<Longrightarrow> (\<And>r e'. rc_safe b e' \<Longrightarrow> Q (r, e')) \<Longrightarrow> post (INT_EVunfreeze_stone sid e) Q"
  unfolding INT_EVfreeze_stone_def INT_EVunfreeze_stone_def
  by ((rule safe_rules, (assumption | (simp; fail))+) | rule post_struct | (simp; fail) | rule postI)+

lemma wp_drain_loop [safe_rules]:
  assumes "rc_safe b e" "env_safe env" "\<And>r e'. rc_safe b e' \<Longrightarrow> Q (r, e')"
  shows "post (drain_loop env n s e) Q"
proof -
  have "post (drain_loop env n s e) (\<lambda>r. rc_safe b (snd r))" using assms(1)
  proof (induction n arbitrary: e)
    case 0
    then show ?case
      by (subst drain_loop.simps, simp only: nat.case)
        ((rule safe_rules, (assumption | (simp; fail))+) | rule post_struct | (simp; fail) | rule postI)+
  next
    case (Suc n)
    show ?case using Suc.prems assms(2)
      by (subst drain_loop.simps, simp only: nat.case)
        ((rule safe_rules, (assumption | (simp; fail))+) | rule post_struct | (rule Suc.IH, assumption)
         | (simp; fail) | rule postI)+
  qed
  then show ?thesis by (rule post_imp) (metis assms(3) prod.collapse)
qed

lemma wp_INT_EVdrain_stone [safe_rules]:
  "rc_safe b e \<Longrightarrow> env_safe env \<Longrightarrow> (\<And>r e'. rc_safe b e' \<Longrightarrow> Q (r, e')) \<Longrightarrow>
    post (INT_EVdrain_stone env sid e) Q"
  unfolding INT_EVdrain_stone_def
  by ((rule safe_rules, (assumption | (simp del: drain_loop.simps; fail))+) | rule post_struct | (simp; fail) | rule postI)+

lemma wp_transfer_loop [safe_rules]:
  assumes "rc_safe b e" "env_safe env" "\<And>r e'. rc_safe b e' \<Longrightarrow> Q (r, e')"
  shows "post (transfer_loop env src dest item n e) Q"
proof (rule postI)
  fix y
  assume *: "transfer_loop env src dest item n e = Some y"
  have "rc_safe b e \<longrightarrow> env_safe env \<longrightarrow> rc_safe b (snd y)"
  proof (rule transfer_loop.raw_induct [where P = "\<lambda>env src dest item n e y. rc_safe b e \<longrightarrow>
      env_safe env \<longrightarrow> rc_safe b (snd y)", OF _ *], goal_cases)
    case (1 f env src dest item n e y)
    have loop: "rc_safe b e \<Longrightarrow> env_safe env \<Longrightarrow> (\<And>r e'. rc_safe b e' \<Longrightarrow> Q (r, e')) \<Longrightarrow>
        post (f env src dest item n e) Q" for item n e Q
      by (rule postI) (metis 1(1) prod.collapse)
    show ?case
      by (intro impI, rule postD [OF _ 1(2)])
        ((rule safe_rules, (assumption | (simp; fail))+)
         | (rule loop, (assumption | (simp; fail))+) | rule post_struct | (simp; fail) | rule postI)+
  qed
  then show "Q y" using assms by (cases y) simp
qed

lemma wp_INT_EVtransfer_events [safe_rules]:
  "rc_safe b e \<Longrightarrow> env_safe env \<Longrightarrow> (\<And>r e'. rc_safe b e' \<Longrightarrow> Q (r, e')) \<Longrightarrow>
    post (INT_EVtransfer_events env src dest e) Q"
  unfolding INT_EVtransfer_events_def
  by ((rule safe_rules, (assumption | (simp; fail))+) | rule post_struct | (simp; fail) | rule postI)+

lemma wp_extract_events [safe_rules]:
  assumes "rc_safe b e" "\<And>r e'. rc_safe b e' \<Longrightarrow> Q (r, e')"
  shows "post (extract_events_from_queue env q l e) Q"
proof -
  have "post (extract_events_from_queue env q l e) (\<lambda>r. rc_safe b (snd r))" using assms(1)
  proof (induction q arbitrary: l e)
    case Nil
    then show ?case by (simp add: post_def)
  next
    case (Cons x q)
    show ?case using Cons.prems unfolding extract_events_from_queue.simps
      by - ((rule safe_rules, (assumption | (simp; fail))+) | rule post_struct
         | (rule Cons.IH, assumption) | (simp; fail) | rule postI)+
  qed
  then show ?thesis by (rule post_imp) (metis assms(2) prod.collapse)
qed

lemma wp_INT_EVextract_stone_events [safe_rules]:
  "rc_safe b e \<Longrightarrow> (\<And>r e'. rc_safe b e' \<Longrightarrow> Q (r, e')) \<Longrightarrow>
    post (INT_EVextract_stone_events env sid e) Q"
  unfolding INT_EVextract_stone_events_def
  by ((rule safe_rules, (assumption | (simp; fail))+) | rule post_struct | (simp; fail) | rule postI)+

end
