(* ===== verification/Ev_Queue_Ptr.thy ===== *)
theory Ev_Queue_Ptr
  imports Ev_Queue
begin

text \<open>
  The queue operations of evp.c on their linked representation: queue_head and queue_tail
  pointers, nodes chained by next, and the free list of nodes. They implement the list
  operations of Ev_Queue; NULL dereference and a loop that does not end are \<open>None\<close>.
\<close>

record qnode =
  q_item :: evid
  q_handled :: bool
  q_next :: "addr ptr"

record queue_struct =
  queue_head :: "addr ptr"
  queue_tail :: "addr ptr"

record qmem =
  qheap :: "addr \<Rightarrow> qnode option"
  qfree :: "addr ptr"          \<comment> \<open>queue_items_free_list\<close>
  qfresh :: addr               \<comment> \<open>addresses malloc has not handed out\<close>

section \<open>The code\<close>

definition q_write :: "addr \<Rightarrow> (qnode \<Rightarrow> qnode) \<Rightarrow> qmem \<Rightarrow> qmem option" where
  "q_write a f m = do { n \<leftarrow> qheap m a; Some (m\<lparr>qheap := (qheap m)(a \<mapsto> f n)\<rparr>) }"

definition p_get_item :: "qmem \<Rightarrow> (addr \<times> qmem) option" where
  "p_get_item m =
    (case qfree m of
       None \<Rightarrow> Some (qfresh m, m\<lparr>qheap := (qheap m)(qfresh m \<mapsto>
                 \<lparr>q_item = 0, q_handled = False, q_next = None\<rparr>), qfresh := Suc (qfresh m)\<rparr>)
     | Some a \<Rightarrow> do { n \<leftarrow> qheap m a; Some (a, m\<lparr>qfree := q_next n\<rparr>) })"

definition p_raw_enqueue_event ::
    "queue_struct \<Rightarrow> evid \<Rightarrow> qmem \<Rightarrow> (queue_struct \<times> qmem) option" where
  "p_raw_enqueue_event que event m =
    do {
      (item, m) \<leftarrow> p_get_item m;
      m \<leftarrow> q_write item (\<lambda>n. n\<lparr>q_item := event, q_handled := False\<rparr>) m;
      case queue_head que of
        None \<Rightarrow> do {
          m \<leftarrow> q_write item (\<lambda>n. n\<lparr>q_next := None\<rparr>) m;
          Some (\<lparr>queue_head = Some item, queue_tail = Some item\<rparr>, m) }
      | Some h \<Rightarrow> do {
          t \<leftarrow> queue_tail que;
          m \<leftarrow> q_write t (\<lambda>n. n\<lparr>q_next := Some item\<rparr>) m;
          m \<leftarrow> q_write item (\<lambda>n. n\<lparr>q_next := None\<rparr>) m;
          Some (que\<lparr>queue_tail := Some item\<rparr>, m) }
    }"

definition p_free_item :: "addr \<Rightarrow> qmem \<Rightarrow> qmem option" where
  "p_free_item item m =
    do { m \<leftarrow> q_write item (\<lambda>n. n\<lparr>q_next := qfree m\<rparr>) m; Some (m\<lparr>qfree := Some item\<rparr>) }"

definition p_pop_head :: "queue_struct \<Rightarrow> qmem \<Rightarrow> queue_struct option" where
  \<comment> \<open>if (q->queue_head == q->queue_tail) ... else q->queue_head = q->queue_head->next\<close>
  "p_pop_head q m =
    (if queue_head q = queue_tail q then Some \<lparr>queue_head = None, queue_tail = None\<rparr>
     else do { h \<leftarrow> queue_head q; n \<leftarrow> qheap m h; Some (q\<lparr>queue_head := q_next n\<rparr>) })"

definition p_raw_dequeue_event ::
    "queue_struct \<Rightarrow> qmem \<Rightarrow> (evid ptr \<times> queue_struct \<times> qmem) option" where
  "p_raw_dequeue_event q m =
    (case queue_head q of
       None \<Rightarrow> Some (None, q, m)
     | Some item \<Rightarrow> do {
         n \<leftarrow> qheap m item;
         q \<leftarrow> p_pop_head q m;
         m \<leftarrow> p_free_item item m;
         Some (Some (q_item n), q, m) })"

partial_function (option) p_walk ::
    "qmem \<Rightarrow> addr ptr \<Rightarrow> addr ptr \<Rightarrow> addr \<Rightarrow> (addr ptr \<times> addr ptr) option" where
  \<comment> \<open>while (cur != to_dequeue) { last = cur; cur = cur->next; }\<close>
  "p_walk m prev cur target =
    (if cur = Some target then Some (prev, cur)
     else do { c \<leftarrow> cur; n \<leftarrow> qheap m c; p_walk m cur (q_next n) target })"

partial_function (option) p_walk_end :: "qmem \<Rightarrow> addr ptr \<Rightarrow> unit option" where
  \<comment> \<open>while (cur != NULL) cur = cur->next\<close>
  "p_walk_end m cur =
    (case cur of None \<Rightarrow> Some () | Some c \<Rightarrow> do { n \<leftarrow> qheap m c; p_walk_end m (q_next n) })"

definition p_dequeue_item ::
    "queue_struct \<Rightarrow> addr ptr \<Rightarrow> qmem \<Rightarrow> (evid ptr \<times> queue_struct \<times> qmem) option" where
  "p_dequeue_item q to_dequeue m =
    (case to_dequeue of
       None \<Rightarrow> Some (None, q, m)
     | Some a \<Rightarrow> do {
         n \<leftarrow> qheap m a;
         if queue_head q = Some a then do {
           q \<leftarrow> p_pop_head q m;
           m \<leftarrow> p_free_item a m;
           Some (Some (q_item n), q, m) }
         else do {
           h \<leftarrow> queue_head q;
           hn \<leftarrow> qheap m h;
           (prev, cur) \<leftarrow> p_walk m (Some h) (q_next hn) a;
           c \<leftarrow> cur;
           cn \<leftarrow> qheap m c;
           l \<leftarrow> prev;
           m \<leftarrow> q_write l (\<lambda>x. x\<lparr>q_next := q_next cn\<rparr>) m;
           let q = (if cur = queue_tail q then q\<lparr>queue_tail := prev\<rparr> else q);
           p_walk_end m (queue_head q);
           m \<leftarrow> p_free_item c m;
           Some (Some (q_item n), q, m) }})"

section \<open>The list a linked queue stands for\<close>

fun path :: "(addr \<Rightarrow> qnode option) \<Rightarrow> addr ptr \<Rightarrow> queue \<Rightarrow> addr ptr \<Rightarrow> bool" where
  "path h p [] q \<longleftrightarrow> p = q"
| "path h p (x # xs) q \<longleftrightarrow> p = Some (qi_addr x) \<and>
    (case h (qi_addr x) of
       None \<Rightarrow> False
     | Some n \<Rightarrow> q_item n = qi_item x \<and> q_handled n = qi_handled x \<and> path h (q_next n) xs q)"

fun free_path :: "(addr \<Rightarrow> qnode option) \<Rightarrow> addr ptr \<Rightarrow> addr list \<Rightarrow> bool" where
  "free_path h p [] \<longleftrightarrow> p = None"
| "free_path h p (a # as) \<longleftrightarrow> p = Some a \<and>
    (case h a of None \<Rightarrow> False | Some n \<Rightarrow> free_path h (q_next n) as)"

definition q_rel :: "queue_struct \<Rightarrow> qmem \<Rightarrow> queue \<Rightarrow> addr list \<Rightarrow> bool" where
  "q_rel q m xs fs \<longleftrightarrow>
    path (qheap m) (queue_head q) xs None \<and>
    queue_tail q = (if xs = [] then None else Some (qi_addr (last xs))) \<and>
    free_path (qheap m) (qfree m) fs \<and>
    distinct (map qi_addr xs @ fs) \<and>
    (\<forall>a \<in> set (map qi_addr xs @ fs). a < qfresh m)"

lemma path_upd_other:
  "a \<notin> qi_addr ` set xs \<Longrightarrow> path (h(a := y)) p xs q = path h p xs q"
  by (induction xs arbitrary: p) (auto split: option.splits)

lemma free_path_upd_other: "a \<notin> set fs \<Longrightarrow> free_path (h(a := y)) p fs = free_path h p fs"
  by (induction fs arbitrary: p) (auto split: option.splits)

lemma path_append:
  "path h p (xs @ ys) q \<longleftrightarrow> (\<exists>r. path h p xs r \<and> path h r ys q)"
  by (induction xs arbitrary: p) (auto split: option.splits)

lemma path_head: "path h p xs q \<Longrightarrow> xs \<noteq> [] \<Longrightarrow> p = Some (qi_addr (hd xs))"
  by (cases xs) auto

lemma path_None_head [simp]: "path h None xs None \<longleftrightarrow> xs = []"
  by (cases xs) auto

lemma path_live: "path h p xs q \<Longrightarrow> x \<in> set xs \<Longrightarrow> \<exists>n. h (qi_addr x) = Some n \<and> q_item n = qi_item x"
  by (induction xs arbitrary: p) (auto split: option.splits)

lemma free_path_live: "free_path h p fs \<Longrightarrow> a \<in> set fs \<Longrightarrow> \<exists>n. h a = Some n"
  by (induction fs arbitrary: p) (auto split: option.splits)

section \<open>The operations implement the list operations\<close>

lemma p_get_item_rel:
  assumes "q_rel q m xs fs"
  shows "\<exists>a m' n. p_get_item m = Some (a, m') \<and> qheap m' a = Some n \<and>
    a = (case fs of [] \<Rightarrow> qfresh m | f # _ \<Rightarrow> f) \<and>
    a \<notin> qi_addr ` set xs \<and> a \<notin> set (tl fs) \<and> a < qfresh m' \<and> q_rel q m' xs (tl fs)"
proof (cases fs)
  case Nil
  have "qfresh m \<notin> qi_addr ` set xs" using assms by (auto simp: q_rel_def)
  then show ?thesis
    using assms Nil by (auto simp: q_rel_def p_get_item_def path_upd_other)
next
  case (Cons f fs')
  then obtain n where "qfree m = Some f" "qheap m f = Some n" "free_path (qheap m) (q_next n) fs'"
    using assms by (auto simp: q_rel_def split: option.splits)
  then show ?thesis using assms Cons by (auto simp: q_rel_def p_get_item_def)
qed

lemma p_raw_enqueue_event_rel:
  assumes "q_rel q m xs fs"
  shows "\<exists>q' m'. p_raw_enqueue_event q event m = Some (q', m') \<and>
    q_rel q' m' (xs @ [\<lparr>qi_addr = (case fs of [] \<Rightarrow> qfresh m | f # _ \<Rightarrow> f),
                        qi_item = event, qi_handled = False\<rparr>]) (tl fs)"
proof -
  obtain a m1 n where g: "p_get_item m = Some (a, m1)" "qheap m1 a = Some n"
    and a: "a = (case fs of [] \<Rightarrow> qfresh m | f # _ \<Rightarrow> f)"
    and f: "a \<notin> qi_addr ` set xs" "a \<notin> set (tl fs)" "a < qfresh m1"
    and r: "q_rel q m1 xs (tl fs)"
    using p_get_item_rel [OF assms] by blast
  let ?n = "\<lparr>q_item = event, q_handled = False, q_next = None\<rparr>"
  have n: "n\<lparr>q_item := event, q_handled := False, q_next := None\<rparr> = ?n" by (cases n) simp
  show ?thesis
  proof (cases xs rule: rev_cases)
    case Nil
    then have "queue_head q = None" using r by (simp add: q_rel_def)
    then show ?thesis
      using g f r Nil n
      by (auto simp: p_raw_enqueue_event_def q_write_def q_rel_def free_path_upd_other a [symmetric])
  next
    case (snoc ys z)
    have h: "queue_head q = Some (qi_addr (hd xs))" "queue_tail q = Some (qi_addr z)"
      using r snoc path_head [of "qheap m1" "queue_head q" xs None] by (auto simp: q_rel_def)
    have pth: "path (qheap m1) (queue_head q) ys (Some (qi_addr z))"
      using r snoc by (auto simp: q_rel_def path_append)
    obtain k where k: "qheap m1 (qi_addr z) = Some k" "q_item k = qi_item z" "q_handled k = qi_handled z"
      using r snoc by (auto simp: q_rel_def path_append split: option.splits)
    have ne: "qi_addr z \<noteq> a" "qi_addr z \<notin> qi_addr ` set ys" "qi_addr z \<notin> set (tl fs)"
      "a \<notin> qi_addr ` set ys"
      using f r snoc by (auto simp: q_rel_def)
    show ?thesis
      using g f r snoc n h k ne pth
      by (auto simp: p_raw_enqueue_event_def q_write_def q_rel_def free_path_upd_other
          path_append path_upd_other a [symmetric])
  qed
qed

lemma p_free_item_rel:
  assumes "free_path (qheap m) (qfree m) fs" "a \<notin> set fs" "qheap m a = Some n"
  shows "\<exists>m'. p_free_item a m = Some m' \<and> free_path (qheap m') (qfree m') (a # fs) \<and>
    qheap m' = (qheap m)(a \<mapsto> n\<lparr>q_next := qfree m\<rparr>) \<and> qfresh m' = qfresh m"
  using assms by (auto simp: p_free_item_def q_write_def free_path_upd_other)

lemma p_pop_head_rel:
  assumes "q_rel q m (x # xs) fs"
  shows "\<exists>q'. p_pop_head q m = Some q' \<and> path (qheap m) (queue_head q') xs None \<and>
    queue_tail q' = (if xs = [] then None else Some (qi_addr (last xs)))"
proof -
  have "qi_addr x \<noteq> qi_addr (last xs)" if "xs \<noteq> []"
    using assms that last_in_set [OF that] by (auto simp: q_rel_def)
  then show ?thesis
    using assms by (cases xs) (auto simp: q_rel_def p_pop_head_def split: option.splits if_splits)
qed

lemma p_raw_dequeue_event_rel:
  assumes "q_rel q m (x # xs) fs"
  shows "\<exists>q' m'. p_raw_dequeue_event q m = Some (Some (qi_item x), q', m') \<and>
    q_rel q' m' xs (qi_addr x # fs)"
proof -
  obtain q' where q': "p_pop_head q m = Some q'" "path (qheap m) (queue_head q') xs None"
    "queue_tail q' = (if xs = [] then None else Some (qi_addr (last xs)))"
    using p_pop_head_rel [OF assms] by blast
  obtain n where n: "qheap m (qi_addr x) = Some n" "q_item n = qi_item x"
    using assms by (auto simp: q_rel_def split: option.splits)
  obtain m' where m': "p_free_item (qi_addr x) m = Some m'"
    "free_path (qheap m') (qfree m') (qi_addr x # fs)"
    "qheap m' = (qheap m)(qi_addr x \<mapsto> n\<lparr>q_next := qfree m\<rparr>)" "qfresh m' = qfresh m"
    using p_free_item_rel [of m fs "qi_addr x" n] assms n by (auto simp: q_rel_def)
  have hd: "queue_head q = Some (qi_addr x)" using assms by (simp add: q_rel_def)
  have "p_raw_dequeue_event q m = Some (Some (qi_item x), q', m')"
    using q'(1) n m'(1) hd by (simp add: p_raw_dequeue_event_def)
  moreover have "q_rel q' m' xs (qi_addr x # fs)"
    unfolding q_rel_def
  proof (intro conjI)
    show "path (qheap m') (queue_head q') xs None"
      using assms q'(2) m'(3) by (auto simp: q_rel_def path_upd_other)
    show "queue_tail q' = (if xs = [] then None else Some (qi_addr (last xs)))"
      by (rule q'(3))
    show "free_path (qheap m') (qfree m') (qi_addr x # fs)" by (rule m'(2))
    show "distinct (map qi_addr xs @ qi_addr x # fs)" using assms by (auto simp: q_rel_def)
    show "\<forall>a \<in> set (map qi_addr xs @ qi_addr x # fs). a < qfresh m'"
      using assms m'(4) by (auto simp: q_rel_def)
  qed
  ultimately show ?thesis by blast
qed

lemma p_raw_dequeue_event_mt:
  "q_rel q m [] fs \<Longrightarrow> p_raw_dequeue_event q m = Some (None, q, m)"
  by (simp add: q_rel_def p_raw_dequeue_event_def)

lemma p_walk_path:
  assumes "path (qheap m) cur ys (Some a)" "a \<notin> qi_addr ` set ys"
  shows "p_walk m prev cur a =
    Some (if ys = [] then prev else Some (qi_addr (last ys)), Some a)"
  using assms
proof (induction ys arbitrary: prev cur)
  case Nil
  then show ?case by (simp add: p_walk.simps)
next
  case (Cons y ys)
  then obtain n where n: "cur = Some (qi_addr y)" "qheap m (qi_addr y) = Some n"
    "path (qheap m) (q_next n) ys (Some a)" by (auto split: option.splits)
  have "p_walk m prev cur a = p_walk m cur (q_next n) a"
    using n Cons.prems(2) by (subst p_walk.simps) auto
  then show ?case using Cons.IH [OF n(3)] Cons.prems(2) n(1) by simp
qed

lemma p_walk_end_path: "path (qheap m) p xs None \<Longrightarrow> p_walk_end m p = Some ()"
proof (induction xs arbitrary: p)
  case Nil
  then show ?case by (simp add: p_walk_end.simps)
next
  case (Cons x xs)
  then show ?case by (subst p_walk_end.simps) (auto split: option.splits)
qed

lemma unlink_item_app:
  "qi_addr x \<notin> qi_addr ` set ys \<Longrightarrow> unlink_item (qi_addr x) (ys @ x # zs) = Some (x, ys @ zs)"
  by (induction ys) auto

lemma p_dequeue_item_rel:
  assumes "q_rel q m (ys @ x # zs) fs"
  shows "\<exists>q' m'. p_dequeue_item q (Some (qi_addr x)) m = Some (Some (qi_item x), q', m') \<and>
    q_rel q' m' (ys @ zs) (qi_addr x # fs)"
proof (cases ys rule: rev_cases)
  case Nil
  have "p_dequeue_item q (Some (qi_addr x)) m = p_raw_dequeue_event q m"
    using assms Nil by (auto simp: q_rel_def p_dequeue_item_def p_raw_dequeue_event_def
        split: option.splits)
  then show ?thesis using p_raw_dequeue_event_rel [of q m x zs fs] assms Nil by simp
next
  case (snoc us u)
  let ?a = "qi_addr x"
  note qr = assms [unfolded q_rel_def]
  have dist: "?a \<notin> qi_addr ` set ys" "?a \<notin> qi_addr ` set zs" "?a \<notin> set fs"
    "qi_addr u \<notin> qi_addr ` set us" "qi_addr u \<notin> qi_addr ` set zs" "qi_addr u \<noteq> ?a"
    "qi_addr u \<notin> set fs"
    using qr snoc by auto
  have pys: "path (qheap m) (queue_head q) ys (Some ?a)"
    and px: "path (qheap m) (Some ?a) (x # zs) None"
    using qr by (auto simp: path_append)
  obtain cn where cn: "qheap m ?a = Some cn" "q_item cn = qi_item x"
    "path (qheap m) (q_next cn) zs None"
    using px by (auto split: option.splits)
  have pus: "path (qheap m) (queue_head q) us (Some (qi_addr u))"
    and pu: "path (qheap m) (Some (qi_addr u)) [u] (Some ?a)"
    using pys snoc by (auto simp: path_append)
  obtain un where un: "qheap m (qi_addr u) = Some un" "q_item un = qi_item u"
    "q_handled un = qi_handled u" "q_next un = Some ?a"
    using pu by (auto split: option.splits)
  obtain h hn where h: "queue_head q = Some h" "h = qi_addr (hd ys)" "qheap m h = Some hn"
    "path (qheap m) (q_next hn) (tl ys) (Some ?a)"
  proof -
    obtain y ys' where "ys = y # ys'" using snoc by (metis neq_Nil_conv snoc_eq_iff_butlast)
    then show ?thesis using pys that by (auto split: option.splits)
  qed
  have walk: "p_walk m (Some h) (q_next hn) ?a = Some (Some (qi_addr u), Some ?a)"
  proof -
    have "?a \<notin> qi_addr ` set (tl ys)" using dist(1) by (cases ys) auto
    moreover have "last (tl ys) = u" if "tl ys \<noteq> []" using snoc that by (cases us) auto
    moreover have "h = qi_addr u" if "tl ys = []" using snoc that h(2) by (cases us) auto
    ultimately show ?thesis using p_walk_path [OF h(4)] by auto
  qed
  let ?m1 = "m\<lparr>qheap := (qheap m)(qi_addr u \<mapsto> un\<lparr>q_next := q_next cn\<rparr>)\<rparr>"
  let ?q = "if Some ?a = queue_tail q then q\<lparr>queue_tail := Some (qi_addr u)\<rparr> else q"
  have qh: "queue_head ?q = queue_head q" by simp
  have p1: "path (qheap ?m1) (queue_head ?q) (ys @ zs) None"
    using pus un cn dist snoc by (auto simp: path_append path_upd_other)
  have fr: "free_path (qheap ?m1) (qfree ?m1) fs" using qr dist by (simp add: free_path_upd_other)
  have "qheap ?m1 ?a = Some cn" using cn dist by simp
  then obtain m' where m': "p_free_item ?a ?m1 = Some m'"
    "free_path (qheap m') (qfree m') (?a # fs)"
    "qheap m' = (qheap ?m1)(?a \<mapsto> cn\<lparr>q_next := qfree ?m1\<rparr>)" "qfresh m' = qfresh ?m1"
    using p_free_item_rel [OF fr dist(3)] by blast
  have "p_dequeue_item q (Some ?a) m = Some (Some (qi_item x), ?q, m')"
  proof -
    have "h \<noteq> ?a" using h(2) dist(1) snoc by (metis hd_in_set image_eqI snoc_eq_iff_butlast)
    then show ?thesis
      using h walk cn un m'(1) p_walk_end_path [OF p1]
      by (simp add: p_dequeue_item_def q_write_def)
  qed
  moreover have "q_rel ?q m' (ys @ zs) (?a # fs)"
    unfolding q_rel_def
  proof (intro conjI)
    show "path (qheap m') (queue_head ?q) (ys @ zs) None"
      using p1 dist by (subst m'(3), subst path_upd_other) auto
    show "free_path (qheap m') (qfree m') (?a # fs)" by (rule m'(2))
    show "queue_tail ?q = (if ys @ zs = [] then None else Some (qi_addr (last (ys @ zs))))"
    proof (cases "zs = []")
      case True
      then show ?thesis using qr snoc by simp
    next
      case False
      then have "qi_addr (last zs) \<noteq> ?a" using dist(2) last_in_set by (metis image_eqI)
      then show ?thesis using qr False snoc by simp
    qed
    show "distinct (map qi_addr (ys @ zs) @ ?a # fs)" using qr by auto
    show "\<forall>a \<in> set (map qi_addr (ys @ zs) @ ?a # fs). a < qfresh m'" using qr m'(4) by auto
  qed
  ultimately show ?thesis by blast
qed

section \<open>The linked queue is a first-in first-out queue\<close>

definition lq_rep :: "queue_struct \<times> qmem \<Rightarrow> evid list \<Rightarrow> bool" where
  "lq_rep qm evs \<longleftrightarrow> (\<exists>xs fs. q_rel (fst qm) (snd qm) xs fs \<and> evs = map qi_item xs)"

definition lq_mt :: "queue_struct \<times> qmem \<Rightarrow> bool" where
  "lq_mt qm \<longleftrightarrow> queue_head (fst qm) = None"

definition lq_enq :: "evid \<Rightarrow> queue_struct \<times> qmem \<Rightarrow> (queue_struct \<times> qmem) option" where
  "lq_enq event qm = p_raw_enqueue_event (fst qm) event (snd qm)"

definition lq_deq :: "queue_struct \<times> qmem \<Rightarrow> (evid \<times> (queue_struct \<times> qmem)) option" where
  "lq_deq qm = do {
     (event, q, m) \<leftarrow> p_raw_dequeue_event (fst qm) (snd qm);
     ev \<leftarrow> event;
     Some (ev, (q, m)) }"

interpretation linked_queue: fifo_queue lq_rep lq_mt lq_enq lq_deq
proof
  fix qm :: "queue_struct \<times> qmem" and evs x
  show "lq_rep qm evs \<Longrightarrow> lq_mt qm = (evs = [])"
    by (auto simp: lq_rep_def lq_mt_def q_rel_def dest: path_head)
  show "lq_rep qm evs \<Longrightarrow> \<exists>q'. lq_enq x qm = Some q' \<and> lq_rep q' (evs @ [x])"
    using p_raw_enqueue_event_rel by (fastforce simp: lq_rep_def lq_enq_def)
  show "lq_rep qm (x # evs) \<Longrightarrow> \<exists>q'. lq_deq qm = Some (x, q') \<and> lq_rep q' evs"
  proof -
    assume "lq_rep qm (x # evs)"
    then obtain y ys fs where r: "q_rel (fst qm) (snd qm) (y # ys) fs" "x = qi_item y"
      "evs = map qi_item ys" by (auto simp: lq_rep_def Cons_eq_map_conv)
    obtain q' m' where d: "p_raw_dequeue_event (fst qm) (snd qm) = Some (Some (qi_item y), q', m')"
      "q_rel q' m' ys (qi_addr y # fs)" using p_raw_dequeue_event_rel [OF r(1)] by blast
    then have "lq_rep (q', m') evs" using r(3) unfolding lq_rep_def by auto
    then show ?thesis using d(1) r(2) by (auto simp: lq_deq_def)
  qed
qed

end
