(* ===== verification/Ev_Example.thy ===== *)
theory Ev_Example
  imports Ev_Api Ev_Stone_Free Ev_Queue_Ptr
begin

text \<open>
  A small concrete event path: an environment whose libraries and handlers do the least they
  may, one stone, and one event in different places. The closed instances of the properties
  are evaluated on these states.
\<close>

definition env0 :: env where
  "env0 =
    \<lparr>call_simple_handler = (\<lambda>h d c a e. Some (0, e)),
     call_raw_handler = (\<lambda>h d n c a e. Some (0, e)),
     call_imm_handler = (\<lambda>f i c a n out e. Some e),
     call_multi_handler = (\<lambda>f c a n out sid e. Some (0, e)),
     call_unstall_cb = (\<lambda>f s d e. Some e),
     call_stone_close = (\<lambda>f c s e. Some e),
     FFSencode = (\<lambda>b f d. (b, 64)),
     FFSdecode_in_place_possible = (\<lambda>f. True),
     FFSdecode_in_place = (\<lambda>c b. b),
     FFS_est_decode_length = (\<lambda>c b n. n),
     FMFormat_of_encode = (\<lambda>b. b),
     get_conn = (\<lambda>l e. (l, e)),
     write_would_block = (\<lambda>c e. False),
     wait_pending_write = (\<lambda>c e. Some e),
     write_event = (\<lambda>c i e. Some ((1, 64), e)),
     connection_failed = (\<lambda>c e. Some e),
     trace_warning = False,
     thread_transfer = (\<lambda>i cm s e. return_event i e),
     register_format_set = (\<lambda>l. Some l),
     no_lazy_bridge = False,
     FFSTypeHandle_from_encode = (\<lambda>c f. f),
     install_response_handler = (\<lambda>n spec c e. Some ((None, Some []), e)),
     determine_response = (\<lambda>s stage i e. Some (0, e)),
     usleep = (\<lambda>e. Some e),
     register_cm_format = (\<lambda>l. l),
     FMformat_from_ID = (\<lambda>b. Some b)\<rparr>"

definition ex_empty :: evp where
  "ex_empty = action_state_of (-1) (EVPinit 1 0 False 7 (\<lambda>_ _. None))"

definition ex_stone :: evp where  \<comment> \<open>one stone, id 0\<close>
  "ex_stone = snd (INT_EValloc_stone ex_empty)"

definition ex_held :: evp where  \<comment> \<open>event 2 exists and running code holds its one reference\<close>
  "ex_held = snd (get_free_event ex_stone)"

definition ex_queued :: evp where  \<comment> \<open>the event is queued on stone 0 as well\<close>
  "ex_queued = the (enqueue_event env0 0 2 ex_held)"

definition ex_store :: evp where  \<comment> \<open>a store for one event, action 0 of stone 0\<close>
  "ex_store = snd (the (INT_EVassoc_store_action 0 0 1 ex_queued))"

definition ex_stored :: evp where  \<comment> \<open>the event also sits in the store\<close>
  "ex_stored =
    (let (q, e) = the (raw_enqueue_event [] 2 ex_store)
     in the (set_store 0 0 (new_store 0 1\<lparr>store_queue := q, num_stored := 1\<rparr>) e))"

abbreviation (input) "held2 \<equiv> hold 2 (\<lambda>_. 0)"

lemma rc_ex_stone: "rc_ok (\<lambda>_. 0) ex_stone"
  unfolding ex_stone_def
  by (rule rc_alloc_stone [OF _ prod.collapse [symmetric]])
    (simp add: ex_empty_def action_state_of_def EVPinit_def rc_ok_def ref_ok_def evp_refs_def)

lemmas ex_simps = ex_empty_def ex_stone_def ex_held_def EVPinit_def action_state_of_def
  INT_EValloc_stone_def get_free_event_def malloc_def empty_event_def stone_count_def new_stone_def

lemma ex_held_eq: "get_free_event ex_stone = (2, ex_held)"
  by (simp add: ex_simps)

lemma rc_ex_held: "rc_ok held2 ex_held"
  by (rule rc_get_free_event [OF rc_ex_stone ex_held_eq])

lemma is_global_0 [simp]: "\<not> is_global 0" "\<not> is_global (-1) = False"
  by (simp_all add: is_global_def has_bits_def)

definition ex_st :: stone where
  "ex_st = (new_stone 0 1)\<lparr>queue := [\<lparr>qi_addr = 3, qi_item = 2, qi_handled = False\<rparr>],
     new_enqueue_flag := True, queue_size := 1\<rparr>"

lemma ex_queued_eq:
  "ex_queued = ex_held\<lparr>stone_map := [Some ex_st], next_addr := 4,
     events := (events ex_held)(2 \<mapsto> empty_event\<lparr>ref_count := 2, event_len := -1\<rparr>),
     as_ptr := Some \<lparr>last_active_stone = 0, events_in_play = 1\<rparr>\<rparr>"
  unfolding ex_queued_def enqueue_event_def
  by (simp add: ex_simps stone_struct_def lookup_local_stone_def nth_c_def stone_at_def
      raw_enqueue_event_def get_queue_item_def reference_event_def mod_event_def mod_stone_def
      backpressure_check_def ex_st_def)

lemma ex_enqueue: "enqueue_event env0 0 2 ex_held = Some ex_queued"
  unfolding ex_queued_eq enqueue_event_def
  by (simp add: ex_simps stone_struct_def lookup_local_stone_def nth_c_def stone_at_def
      raw_enqueue_event_def get_queue_item_def reference_event_def mod_event_def mod_stone_def
      backpressure_check_def ex_st_def)

end
