(* ===== verification/Ev_Instances.thy ===== *)
theory Ev_Instances
  imports Ev_Deliver Ev_Safe_Api Ev_Example
begin

text \<open>
  A terminal stone with queued events, the instance on which the properties of whole runs are
  evaluated.
\<close>

section \<open>A terminal stone\<close>

lemma env_safe_env0: "env_safe env0"
  unfolding env_safe_def safe_call_def safe_fn_def consumes_def
  by (auto simp: env0_def intro: safe_return_event)

definition env1 :: env where  \<comment> \<open>a simple handler that leaves a trace of the data it is given\<close>
  "env1 = env0\<lparr>call_simple_handler := (\<lambda>h d c a e. Some (0, emit (Eff_return_buffer d) e))\<rparr>"

lemma env_safe_env1: "env_safe env1"
  unfolding env_safe_def safe_call_def safe_fn_def consumes_def
  by (auto simp: env1_def env0_def intro: safe_return_event)

definition ex_tv :: terminal_proto_vals where
  "ex_tv = \<lparr>term_handler = 60, term_client_data = Some 70, term_target_stone_id = 0\<rparr>"

definition ex_term :: evp where  \<comment> \<open>stone 0 with a terminal action for format 50, and source 2\<close>
  "ex_term =
    (let e = snd (the (INT_EVassoc_terminal_action env0 0 (Some 50) 60 (Some 70) ex_stone))
     in snd (INT_EVcreate_submit_handle env0 0 (Some 50) e))"

definition ex_tst :: stone where
  "ex_tst = (new_stone 0 1)\<lparr>
     response_cache := [new_response\<lparr>rc_action_type := Action_Terminal, rc_requires_decoded := True,
       rc_reference_format := Some 50, rc_proto_action_id := 0\<rparr>],
     proto_actions := [new_proto_action\<lparr>input_format_requirements := Some 50,
       action_type := Action_Terminal, act_o := AD_Term ex_tv,
       matching_reference_formats := Some [50], data_state := Requires_Decoded\<rparr>]\<rparr>"

definition ex_src :: source_rec where
  "ex_src = \<lparr>src_format = Some 50, src_reference_format = Some 50, local_stone_id = 0,
     preencoded = False, src_free_func = None, src_free_data = None\<rparr>"

lemma ex_term_eq:
  "ex_term = ex_stone\<lparr>stone_map := [Some ex_tst], next_addr := 3, source_heap := [2 \<mapsto> ex_src]\<rparr>"
  by (simp add: ex_term_def INT_EVassoc_terminal_action_def ex_simps stone_deref_def
      stone_struct_def nth_c_def stone_at_def env0_def mod_stone_def append_proto_action_def
      format_vector_def first_format_def INT_EVcreate_submit_handle_def malloc_source_def
      EVregister_format_set_def ex_tst_def ex_src_def ex_tv_def numeral_3_eq_3 numeral_2_eq_2)

definition ex_two :: evp where  \<comment> \<open>events 10 and 11 are queued on the terminal stone\<close>
  "ex_two = ex_term\<lparr>
     stone_map := [Some (ex_tst\<lparr>queue := [\<lparr>qi_addr = 20, qi_item = 10, qi_handled = False\<rparr>,
         \<lparr>qi_addr = 21, qi_item = 11, qi_handled = False\<rparr>], queue_size := 2\<rparr>)],
     as_ptr := Some \<lparr>last_active_stone = 0, events_in_play = 2\<rparr>, next_addr := 30,
     events := [10 \<mapsto> empty_event\<lparr>ref_count := 1, decoded_event := Some 80, reference_format := Some 50\<rparr>,
                11 \<mapsto> empty_event\<lparr>ref_count := 1, decoded_event := Some 81, reference_format := Some 50\<rparr>]\<rparr>"

lemmas ex_term_simps = ex_term_eq ex_tst_def ex_simps new_proto_action_def new_response_def

lemma ex_handles:
  assumes "response_cache st = response_cache ex_tst" "proto_actions st = proto_actions ex_tst"
    "reference_format v = Some 50" "\<not> event_encoded v"
  shows "handles env st ex_tv v"
  using assms
  by (simp add: handles_def ex_tst_def check_response_cache_def new_response_def
      compatible_stages_def nth_c_def new_proto_action_def)

lemma ex_handler:
  "call_simple_handler env1 (term_handler ex_tv) d (term_client_data ex_tv) None e
    = Some ((\<lambda>_. 0) d, emit (Eff_return_buffer d) e)"
  by (simp add: env1_def)

lemma ex_term_ready: "terminal_ready 0 0 ex_tst ex_term"
  by (simp add: terminal_ready_def ex_term_simps stone_at_def stone_struct_def nth_c_def
      is_bridge_stone_def stone_deref_def)

lemma ex_two_ready:
  "terminal_ready 0 0 (ex_tst\<lparr>queue := [\<lparr>qi_addr = 20, qi_item = 10, qi_handled = False\<rparr>,
         \<lparr>qi_addr = 21, qi_item = 11, qi_handled = False\<rparr>], queue_size := 2\<rparr>) ex_two"
  by (simp add: terminal_ready_def ex_two_def ex_term_simps stone_at_def stone_struct_def nth_c_def
      is_bridge_stone_def stone_deref_def)

lemma ex_two_queued:
  "queued_ok env1 (ex_tst\<lparr>queue := q, queue_size := n\<rparr>) ex_tv
     [\<lparr>qi_addr = 20, qi_item = 10, qi_handled = False\<rparr>, \<lparr>qi_addr = 21, qi_item = 11, qi_handled = False\<rparr>] ex_two"
  using ex_handles [of "ex_tst\<lparr>queue := q, queue_size := n\<rparr>"]
  by (simp add: queued_ok_def ex_two_def plain_event_def empty_event_def)

lemma ex_two_run:
  "\<exists>e'. do_local_actions env1 ex_two = Some e' \<and> events e' = (\<lambda>_. None) \<and>
     effects e' = [Eff_return_buffer (Some 81), Eff_return_buffer (Some 80)]"
proof -
  let ?st = "ex_tst\<lparr>queue := [\<lparr>qi_addr = 20, qi_item = 10, qi_handled = False\<rparr>,
         \<lparr>qi_addr = 21, qi_item = 11, qi_handled = False\<rparr>], queue_size := 2\<rparr>"
  from do_local_actions_drain [OF ex_two_ready _ _ _ _ ex_handler]
  have "\<exists>e'. do_local_actions env1 ex_two = Some e' \<and> drained 0 (?st\<lparr>new_enqueue_flag := False\<rparr>)
      \<lparr>last_active_stone = -1, events_in_play = 2\<rparr> Eff_return_buffer ex_two e'"
    using ex_two_queued by (simp add: ex_two_def)
  then show ?thesis
    by (elim ex_forward)
      (simp add: drained_def data_of_def ex_two_def drop_ref_def ex_term_simps fun_eq_iff)
qed

lemma ex_term_run:
  "\<exists>e'. INT_EVsubmit env1 2 (Some 90) None ex_term = Some e' \<and> events e' = events ex_term \<and>
    effects e' = Eff_return_buffer (Some 90) # effects ex_term \<and>
    stone_at 0 e' = Some (ex_tst\<lparr>new_enqueue_flag := False\<rparr>) \<and>
    as_ptr e' = Some \<lparr>last_active_stone = -1, events_in_play = 0\<rparr>"
  by (rule INT_EVsubmit_drain [OF ex_term_ready _ _ _ _ _ _ _ _ _ ex_handler, where r = ex_src
      and a = "\<lparr>last_active_stone = -1, events_in_play = 0\<rparr>"])
    (use ex_handles in \<open>simp_all add: ex_term_eq ex_src_def ex_tst_def ex_simps\<close>)

lemma rc_ex_two: "rc_safe (\<lambda>_. 0) ex_two"
  by (rule rc_safe_rc_ok)
    (simp add: rc_ok_def ref_ok_def evp_refs_def slot_refs_def stone_refs_def queue_refs_def
      action_refs_def ex_two_def ex_term_simps)

lemma rc_ex_term: "rc_safe (\<lambda>_. 0) ex_term"
  by (rule rc_safe_rc_ok)
    (simp add: rc_ok_def ref_ok_def evp_refs_def slot_refs_def stone_refs_def
      action_refs_def ex_term_simps)

section \<open>A stone over its threshold\<close>

definition ex_bp :: evp where
  "ex_bp = ex_stone\<lparr>use_backpressure := True, stone_map := [Some (new_stone 0 1\<lparr>queue_size := 201\<rparr>)]\<rparr>"

lemma ex_bp_ok: "rc_ok (\<lambda>_. 0) ex_bp" "stones_wf ex_bp"
  by (auto simp: rc_ok_def ref_ok_def evp_refs_def slot_refs_def stone_refs_def queue_refs_def
      stones_wf_def ex_bp_def ex_simps stone_at_def split: if_splits)

lemma ex_bp_run:
  "\<exists>e'. backpressure_check env0 0 ex_bp = Some e' \<and> (\<exists>st. stone_at 0 e' = Some st \<and> is_stalled st = 1)"
  by (simp add: backpressure_check_def ex_bp_def ex_simps stone_deref_def stone_struct_def nth_c_def
      stone_at_def over_threshold_def stone_threshold_def bp_depth_def mod_stone_def stall_flags_def
      backpressure_set_def foreach_source_def visit_stone_def numeral_2_eq_2)

section \<open>A bridge whose connection fails\<close>

definition ex_bri :: bridge_action_vals where
  "ex_bri = \<lparr>bri_conn = Some 5, bri_remote_stone_id = 3, bri_remote_path = None,
     bri_conn_failed = False, bri_remote_contact = None\<rparr>"

definition ex_bridge :: evp where
  "ex_bridge = ex_stone\<lparr>stone_map := [Some (new_stone 0 1\<lparr>default_action := 0, proto_actions :=
     [new_proto_action\<lparr>action_type := Action_Bridge, act_o := AD_Bridge ex_bri\<rparr>]\<rparr>)]\<rparr>"

lemma ex_bridge_at: "bridge_at 0 0 ex_bridge = Some ex_bri"
  by (simp add: bridge_at_def ex_bridge_def ex_simps proto_action_at_def stone_at_def nth_c_def)

lemma ex_bridge_reset:
  "\<exists>e1. stone_close_handler env0 5 0 ex_bridge = Some e1 \<and>
     bridge_at 0 0 e1 = Some (ex_bri\<lparr>bri_conn_failed := True, bri_conn := None\<rparr>)"
  by (simp add: stone_close_handler_def ex_bridge_def ex_simps stone_struct_def nth_c_def stone_at_def
      proto_action_at_def bridge_at_def mod_bridge_def set_proto_action_def upd_c_def mod_stone_def
      new_proto_action_def ex_bri_def emit_def)

end
