(* ===== verification/CM_Control.thy ===== *)
theory CM_Control
  imports Ev_Types
begin

text \<open>
  The condition variables of the connection manager (cm_control.c): the list of live
  conditions, creation, signalling, failing, waiting and destruction. A condition is found by
  its number; the list is newest first, as the code links it.
\<close>

record CMCondition =
  condition_num :: int
  waiting :: int
  signaled :: bool
  failed :: bool
  cond_conn :: "conn ptr"
  cond_client_data :: "addr ptr"

datatype control_effect = Trigger int | Wake_server

record control_list =
  condition_list :: "CMCondition list"
  next_condition_num :: int
  cond_polling :: bool
  has_thread :: bool
  server_thread :: nat             \<comment> \<open>0: no thread is the server\<close>
  cl_closed :: bool
  abort_read_ahead :: bool
  control_effects :: "control_effect list"

definition cl_emit :: "control_effect \<Rightarrow> control_list \<Rightarrow> control_list" where
  "cl_emit x cl = cl\<lparr>control_effects := x # control_effects cl\<rparr>"

section \<open>The list of conditions\<close>

definition CMCondition_find :: "control_list \<Rightarrow> int \<Rightarrow> nat ptr" where
  "CMCondition_find cl condition =
    find_index (\<lambda>c. condition_num c = condition) (condition_list cl)"

definition cond_at :: "control_list \<Rightarrow> int \<Rightarrow> CMCondition ptr" where
  "cond_at cl condition = map_option ((!) (condition_list cl)) (CMCondition_find cl condition)"

definition mod_cond :: "nat \<Rightarrow> (CMCondition \<Rightarrow> CMCondition) \<Rightarrow> control_list \<Rightarrow> control_list" where
  "mod_cond i f cl = cl\<lparr>condition_list := (condition_list cl)[i := f (condition_list cl ! i)]\<rparr>"

definition INT_CMCondition_get ::
    "(conn \<Rightarrow> bool) \<Rightarrow> conn ptr \<Rightarrow> control_list \<Rightarrow> int \<times> control_list" where
  \<comment> \<open>the first argument tells which connections are closed; numbers are reused after 0xffffff;
     client_data is not initialised\<close>
  "INT_CMCondition_get is_closed con cl =
    (let num = next_condition_num cl;
         next = (if num + 1 \<ge> 0xffffff then 0 else num + 1);
         c = \<lparr>condition_num = num, waiting = 0, signaled = False,
              failed = (case con of None \<Rightarrow> False | Some c \<Rightarrow> is_closed c), cond_conn = con,
              cond_client_data = None\<rparr>
     in (num, cl\<lparr>condition_list := c # condition_list cl, next_condition_num := next\<rparr>))"

definition CMCondition_trigger :: "CMCondition \<Rightarrow> control_list \<Rightarrow> control_list" where
  "CMCondition_trigger c cl =
    (if waiting c \<noteq> 0 then cl_emit (Trigger (condition_num c)) cl else cl)"

definition wake_if_polling :: "control_list \<Rightarrow> control_list" where
  "wake_if_polling cl = (if cond_polling cl then cl_emit Wake_server cl else cl)"

fun fail_conditions :: "conn \<Rightarrow> nat \<Rightarrow> nat \<Rightarrow> control_list \<Rightarrow> control_list" where
  \<comment> \<open>the loop of CMconn_fail_conditions from position \<open>i\<close>, over \<open>n\<close> conditions\<close>
  "fail_conditions con i 0 cl = cl"
| "fail_conditions con i (Suc n) cl =
    (if cond_conn (condition_list cl ! i) = Some con then
       (let cl = mod_cond i (\<lambda>c. c\<lparr>failed := True\<rparr>) cl;
            cl = CMCondition_trigger (condition_list cl ! i) cl
        in fail_conditions con (Suc i) n cl)
     else fail_conditions con (Suc i) n cl)"

definition CMconn_fail_conditions :: "conn \<Rightarrow> control_list \<Rightarrow> control_list" where
  "CMconn_fail_conditions con cl =
    wake_if_polling (fail_conditions con 0 (length (condition_list cl)) cl)"

definition INT_CMCondition_fail :: "int \<Rightarrow> control_list \<Rightarrow> control_list" where
  "INT_CMCondition_fail condition cl =
    (case CMCondition_find cl condition of
       None \<Rightarrow> cl
     | Some i \<Rightarrow>
         (let cl = mod_cond i (\<lambda>c. c\<lparr>failed := True\<rparr>) cl
          in wake_if_polling (CMCondition_trigger (condition_list cl ! i) cl)))"

definition INT_CMCondition_signal :: "int \<Rightarrow> control_list \<Rightarrow> control_list" where
  "INT_CMCondition_signal condition cl =
    (case CMCondition_find cl condition of
       None \<Rightarrow> cl
     | Some i \<Rightarrow>
         (let cl = mod_cond i (\<lambda>c. c\<lparr>signaled := True\<rparr>) cl;
              cl = CMCondition_trigger (condition_list cl ! i) cl;
              cl = (if \<not> has_thread cl then cl\<lparr>abort_read_ahead := True\<rparr> else cl)
          in wake_if_polling cl))"

fun destroy_from :: "int \<Rightarrow> CMCondition list \<Rightarrow> CMCondition list" where
  \<comment> \<open>unlink the first condition with this number, the head or a later one\<close>
  "destroy_from condition [] = []"
| "destroy_from condition (c # cs) =
    (if condition_num c = condition then cs else c # destroy_from condition cs)"

definition CMCondition_destroy :: "int \<Rightarrow> control_list \<Rightarrow> control_list" where
  "CMCondition_destroy condition cl =
    cl\<lparr>condition_list := destroy_from condition (condition_list cl)\<rparr>"

function internal_condition_free :: "control_list \<Rightarrow> control_list" where
  "internal_condition_free cl =
    (case condition_list cl of
       [] \<Rightarrow> cl
     | c # _ \<Rightarrow> internal_condition_free (CMCondition_destroy (condition_num c) cl))"
  by pat_completeness auto
termination
  by (relation "measure (\<lambda>cl. length (condition_list cl))") (auto simp: CMCondition_destroy_def)

declare internal_condition_free.simps [simp del]

definition INT_CMCondition_has_signaled :: "int \<Rightarrow> control_list \<Rightarrow> int" where
  "INT_CMCondition_has_signaled condition cl =
    (case cond_at cl condition of None \<Rightarrow> -1 | Some c \<Rightarrow> of_bool (signaled c))"

definition INT_CMCondition_has_failed :: "int \<Rightarrow> control_list \<Rightarrow> int" where
  "INT_CMCondition_has_failed condition cl =
    (case cond_at cl condition of None \<Rightarrow> -1 | Some c \<Rightarrow> of_bool (failed c))"

definition INT_CMCondition_set_client_data :: "int \<Rightarrow> addr ptr \<Rightarrow> control_list \<Rightarrow> control_list" where
  "INT_CMCondition_set_client_data condition data cl =
    (case CMCondition_find cl condition of
       None \<Rightarrow> cl
     | Some i \<Rightarrow> mod_cond i (\<lambda>c. c\<lparr>cond_client_data := data\<rparr>) cl)"

definition INT_CMCondition_get_client_data :: "int \<Rightarrow> control_list \<Rightarrow> addr ptr" where
  "INT_CMCondition_get_client_data condition cl =
    (case cond_at cl condition of None \<Rightarrow> None | Some c \<Rightarrow> cond_client_data c)"

section \<open>Waiting\<close>

text \<open>
  A wait lets other activity run: the network polling step (CMcontrol_list_wait, which calls
  message handlers) or other threads while the lock is dropped. Both are steps on the state
  \<open>'w\<close> the control list is a part of, given by its access functions.
\<close>

record 'w wait_env =
  get_cl :: "'w \<Rightarrow> control_list"
  put_cl :: "control_list \<Rightarrow> 'w \<Rightarrow> 'w"
  CMcontrol_list_wait :: "'w \<Rightarrow> 'w option"
  cond_block :: "int \<Rightarrow> 'w \<Rightarrow> 'w option"     \<comment> \<open>thr_condition_wait with the lock dropped\<close>
  thr_self :: nat
  cm_locked :: "'w \<Rightarrow> bool"                   \<comment> \<open>CManager_locked\<close>

definition upd_cl :: "'w wait_env \<Rightarrow> (control_list \<Rightarrow> control_list) \<Rightarrow> 'w \<Rightarrow> 'w" where
  "upd_cl we f w = put_cl we (f (get_cl we w)) w"

definition fail_if_closed :: "int \<Rightarrow> control_list \<Rightarrow> control_list option" where
  \<comment> \<open>if (cl->closed) cond->failed = 1; the condition must still be there\<close>
  "fail_if_closed condition cl =
    (if \<not> cl_closed cl then Some cl
     else do { i \<leftarrow> CMCondition_find cl condition;
               Some (mod_cond i (\<lambda>c. c\<lparr>failed := True\<rparr>) cl) })"

partial_function (option) poll_loop :: "'w wait_env \<Rightarrow> bool \<Rightarrow> int \<Rightarrow> 'w \<Rightarrow> 'w option" where
  \<comment> \<open>while (!(cond->signaled || cond->failed)); \<open>server\<close>: the variant of the server thread\<close>
  "poll_loop we server condition w =
    do {
      c \<leftarrow> cond_at (get_cl we w) condition;
      if signaled c \<or> failed c then Some w
      else do {
        w \<leftarrow> CMcontrol_list_wait we w;
        w \<leftarrow> (if server
             then map_option (\<lambda>cl. put_cl we cl w) (fail_if_closed condition (get_cl we w))
             else Some w);
        poll_loop we server condition w }
    }"

definition INT_CMCondition_wait :: "'w wait_env \<Rightarrow> int \<Rightarrow> 'w \<Rightarrow> (int \<times> 'w) option" where
  "INT_CMCondition_wait we condition w =
    (let cl = get_cl we w
     in if \<not> cm_locked we w then None
     else case CMCondition_find cl condition of
       None \<Rightarrow> Some (-1, w)
     | Some i \<Rightarrow>
         (let c = condition_list cl ! i
          in if signaled c then Some (1, w)
             else if failed c then Some (0, w)
             else do {
               let w = put_cl we (mod_cond i (\<lambda>c. c\<lparr>waiting := waiting c + 1\<rparr>) cl) w;
               w \<leftarrow>
                 (if \<not> has_thread cl \<and> (server_thread cl = 0 \<or> server_thread cl = thr_self we) then do {
                    w \<leftarrow> poll_loop we False condition (upd_cl we (\<lambda>cl. cl\<lparr>cond_polling := True\<rparr>) w);
                    Some (upd_cl we (\<lambda>cl. cl\<lparr>cond_polling := False, server_thread := 0\<rparr>) w) }
                  else if has_thread cl \<and> server_thread cl = thr_self we then do {
                    w \<leftarrow> poll_loop we True condition (upd_cl we (\<lambda>cl. cl\<lparr>cond_polling := True\<rparr>) w);
                    Some (upd_cl we (\<lambda>cl. cl\<lparr>cond_polling := False\<rparr>) w) }
                  else cond_block we condition w);
               c \<leftarrow> cond_at (get_cl we w) condition;
               Some (of_bool (signaled c), upd_cl we (CMCondition_destroy condition) w) }))"

section \<open>Facts\<close>

lemma find_get:
  "INT_CMCondition_get closed con cl = (num, cl') \<Longrightarrow> CMCondition_find cl' num = Some 0"
  by (auto simp: INT_CMCondition_get_def CMCondition_find_def Let_def)

lemma find_get_other:
  "INT_CMCondition_get closed con cl = (num, cl') \<Longrightarrow> n \<noteq> num \<Longrightarrow> cond_at cl' n = cond_at cl n"
  by (auto simp: INT_CMCondition_get_def CMCondition_find_def cond_at_def Let_def
      option.map_comp comp_def)

lemma cond_at_Nil [simp]: "condition_list cl = [] \<Longrightarrow> cond_at cl n = None"
  by (simp add: cond_at_def CMCondition_find_def)

lemma cond_at_Cons:
  "condition_list cl = c # cs \<Longrightarrow>
    cond_at cl n = (if condition_num c = n then Some c else cond_at (cl\<lparr>condition_list := cs\<rparr>) n)"
  by (simp add: cond_at_def CMCondition_find_def option.map_comp comp_def)

lemma cond_at_find: "cond_at cl n = Some c \<longleftrightarrow>
    (\<exists>i. CMCondition_find cl n = Some i \<and> condition_list cl ! i = c)"
  by (auto simp: cond_at_def)

lemma condition_list_effects [simp]:
  "condition_list (cl_emit x cl) = condition_list cl"
  "condition_list (CMCondition_trigger c cl) = condition_list cl"
  "condition_list (wake_if_polling cl) = condition_list cl"
  by (simp_all add: cl_emit_def CMCondition_trigger_def wake_if_polling_def)

lemma find_index_map: "find_index p (map f xs) = find_index (p \<circ> f) xs"
  by (induction xs) simp_all

lemma find_index_cong: "(\<And>x. x \<in> set xs \<Longrightarrow> p x = q x) \<Longrightarrow> find_index p xs = find_index q xs"
  by (induction xs) simp_all

lemma find_index_update:
  "(\<And>x. p (f x) = p x) \<Longrightarrow> i < length xs \<Longrightarrow> find_index p (xs[i := f (xs ! i)]) = find_index p xs"
proof (induction xs arbitrary: i)
  case Nil
  then show ?case by simp
next
  case (Cons x xs)
  then show ?case by (cases i) auto
qed

lemma find_cond_bounds: "CMCondition_find cl n = Some i \<Longrightarrow>
    i < length (condition_list cl) \<and> condition_num (condition_list cl ! i) = n"
  by (simp add: CMCondition_find_def find_index_Some)

lemma find_mod_cond [simp]:
  assumes "\<And>c. condition_num (f c) = condition_num c" "i < length (condition_list cl)"
  shows "CMCondition_find (mod_cond i f cl) n = CMCondition_find cl n"
  using assms by (simp add: CMCondition_find_def mod_cond_def find_index_update)

lemma cond_at_mod_cond:
  assumes "CMCondition_find cl n = Some i" "\<And>c. condition_num (f c) = condition_num c"
  shows "cond_at (mod_cond i f cl) m = (if m = n then map_option f (cond_at cl n) else cond_at cl m)"
proof -
  have i: "i < length (condition_list cl)" "condition_num (condition_list cl ! i) = n"
    using find_cond_bounds [OF assms(1)] by simp_all
  have "CMCondition_find (mod_cond i f cl) m = CMCondition_find cl m"
    using assms(2) i(1) by simp
  then show ?thesis
    using assms(1) i
    by (cases "CMCondition_find cl m")
      (auto simp: cond_at_def mod_cond_def nth_list_update dest: find_cond_bounds)
qed

lemma cond_at_list: "condition_list cl = condition_list cl' \<Longrightarrow> cond_at cl = cond_at cl'"
  by (simp add: cond_at_def CMCondition_find_def fun_eq_iff)

lemma cond_at_signal:
  "cond_at (INT_CMCondition_signal n cl) m =
    (if m = n then map_option (\<lambda>c. c\<lparr>signaled := True\<rparr>) (cond_at cl n) else cond_at cl m)"
proof (cases "CMCondition_find cl n")
  case None
  then show ?thesis by (simp add: INT_CMCondition_signal_def cond_at_def)
next
  case (Some i)
  have "condition_list (INT_CMCondition_signal n cl) =
      condition_list (mod_cond i (\<lambda>c. c\<lparr>signaled := True\<rparr>) cl)"
    by (simp add: INT_CMCondition_signal_def Some Let_def)
  then have "cond_at (INT_CMCondition_signal n cl) = cond_at (mod_cond i (\<lambda>c. c\<lparr>signaled := True\<rparr>) cl)"
    by (rule cond_at_list)
  then show ?thesis by (simp add: cond_at_mod_cond [OF Some])
qed

lemma condition_list_fail_conditions:
  "i + n = length (condition_list cl) \<Longrightarrow>
    condition_list (fail_conditions con i n cl) = take i (condition_list cl) @
      map (\<lambda>c. if cond_conn c = Some con then c\<lparr>failed := True\<rparr> else c) (drop i (condition_list cl))"
proof (induction n arbitrary: i cl)
  case 0
  then show ?case by simp
next
  case (Suc n)
  define f where "f = (\<lambda>c. if cond_conn c = Some con then c\<lparr>failed := True\<rparr> else (c::CMCondition))"
  let ?c = "condition_list cl ! i"
  let ?cl = "if cond_conn ?c = Some con then
      CMCondition_trigger (?c\<lparr>failed := True\<rparr>) (mod_cond i (\<lambda>c. c\<lparr>failed := True\<rparr>) cl) else cl"
  have i: "i < length (condition_list cl)" using Suc.prems by simp
  have l: "condition_list ?cl = (condition_list cl)[i := f ?c]"
    using i by (simp add: f_def mod_cond_def)
  have step: "fail_conditions con i (Suc n) cl = fail_conditions con (Suc i) n ?cl"
    using i by (simp add: Let_def mod_cond_def)
  have "condition_list (fail_conditions con (Suc i) n ?cl) =
      take (Suc i) (condition_list ?cl) @ map f (drop (Suc i) (condition_list ?cl))"
    unfolding f_def by (rule Suc.IH) (use Suc.prems l in simp)
  then show ?case
    unfolding step l f_def [symmetric] using i
    by (simp add: take_Suc_conv_app_nth Cons_nth_drop_Suc [symmetric] del: fail_conditions.simps)
qed

lemma wait_signaled:
  assumes "cond_at (get_cl we w) n = Some c" "signaled c" "cm_locked we w"
  shows "INT_CMCondition_wait we n w = Some (1, w)"
  using assms by (auto simp: INT_CMCondition_wait_def cond_at_def)

text \<open>What polling does to a condition that is still waited for.\<close>

definition undecided :: "'w wait_env \<Rightarrow> int \<Rightarrow> 'w \<Rightarrow> bool" where
  "undecided we n w \<longleftrightarrow>
    (case cond_at (get_cl we w) n of None \<Rightarrow> False | Some c \<Rightarrow> \<not> signaled c \<and> \<not> failed c)"

lemma poll_loop_reaches:
  assumes "\<forall>j < k. undecided we n (ws j) \<and> CMcontrol_list_wait we (ws j) = Some (ws (Suc j))"
    and "cond_at (get_cl we (ws k)) n = Some c" "signaled c \<or> failed c"
  shows "poll_loop we False n (ws 0) = Some (ws k)"
  using assms
proof (induction k arbitrary: ws)
  case 0
  then show ?case by (subst poll_loop.simps) simp
next
  case (Suc k)
  from Suc.prems(1) have u: "undecided we n (ws 0)"
    and st: "CMcontrol_list_wait we (ws 0) = Some (ws 1)" by (force, force)
  have "poll_loop we False n (ws (Suc 0)) = Some (ws (Suc k))"
    using Suc.prems by (intro Suc.IH [of "\<lambda>j. ws (Suc j)"]) auto
  then show ?case
    using u st by (subst poll_loop.simps) (auto simp: undecided_def split: option.splits)
qed

lemma wait_decided:
  assumes put: "\<And>cl w. get_cl we (put_cl we cl w) = cl"
    and "cm_locked we w" "CMCondition_find (get_cl we w) n = Some i" "undecided we n w"
    and "\<not> has_thread (get_cl we w)" "server_thread (get_cl we w) = 0"
    and start: "ws 0 = upd_cl we (\<lambda>cl. (mod_cond i (\<lambda>c. c\<lparr>waiting := waiting c + 1\<rparr>) cl)\<lparr>cond_polling := True\<rparr>) w"
    and putput: "\<And>cl cl' w. put_cl we cl (put_cl we cl' w) = put_cl we cl w"
    and run: "\<forall>j < k. undecided we n (ws j) \<and> CMcontrol_list_wait we (ws j) = Some (ws (Suc j))"
    and final: "cond_at (get_cl we (ws k)) n = Some c" "signaled c \<or> failed c"
  shows "\<exists>w'. INT_CMCondition_wait we n w = Some (of_bool (signaled c), w') \<and>
    condition_list (get_cl we w') = destroy_from n (condition_list (get_cl we (ws k)))"
proof -
  let ?cl = "get_cl we w"
  have c0: "\<not> signaled (condition_list ?cl ! i)" "\<not> failed (condition_list ?cl ! i)"
    using assms(3,4) by (simp_all add: undecided_def cond_at_def)
  have s: "upd_cl we (\<lambda>cl. cl\<lparr>cond_polling := True\<rparr>)
      (put_cl we (mod_cond i (\<lambda>c. c\<lparr>waiting := waiting c + 1\<rparr>) ?cl) w) = ws 0"
    by (simp add: start upd_cl_def put putput)
  have p: "poll_loop we False n (ws 0) = Some (ws k)"
    using run final by (rule poll_loop_reaches)
  have f: "cond_at (cl\<lparr>cond_polling := False, server_thread := 0\<rparr>) n = cond_at cl n" for cl
    by (rule fun_cong [OF cond_at_list]) simp
  show ?thesis
    using assms(2,3,5,6) c0 s p final(1)
    by (simp add: INT_CMCondition_wait_def Let_def upd_cl_def put f CMCondition_destroy_def)
qed

end
