(* ===== verification/C_String.thy ===== *)
theory C_String
  imports Ev_Prelude
begin

text \<open>
  C strings and the part of the C library's formatted input and output the code uses. A string
  is the list of its characters before the terminating NUL; a pointer into a string is the
  suffix it points to, so that stepping over the NUL is a crash (\<open>None\<close>).

  The locale \<open>codec\<close> states what a printer owes the parser that reads its output; its lemma
  on sequences is used for the fields of a format, the formats of a list and the lists of a
  specification.
\<close>

abbreviation (input) "c_quote \<equiv> CHR 0x22"
abbreviation (input) "c_nl \<equiv> CHR 0x0A"

section \<open>Moving through a string\<close>

definition skip_c :: "nat \<Rightarrow> string \<Rightarrow> string option" where
  \<comment> \<open>str += n\<close>
  "skip_c n s = (if n \<le> length s then Some (drop n s) else None)"

fun skip_until :: "char \<Rightarrow> string \<Rightarrow> string option" where
  \<comment> \<open>while (*str != c) str++\<close>
  "skip_until c [] = None"
| "skip_until c (x # s) = (if x = c then Some (x # s) else skip_until c s)"

definition strchr_next :: "char \<Rightarrow> string \<Rightarrow> string option" where
  \<comment> \<open>strchr(str, c) + 1; the code does not check for NULL\<close>
  "strchr_next c s = do { s \<leftarrow> skip_until c s; skip_c 1 s }"

definition strncmp_eq :: "string \<Rightarrow> string \<Rightarrow> nat \<Rightarrow> bool" where
  \<comment> \<open>strncmp(a, b, n) == 0\<close>
  "strncmp_eq a b n \<longleftrightarrow> take n a = take n b"

section \<open>Decimal numbers\<close>

definition isdigit :: "char \<Rightarrow> bool" where
  "isdigit c \<longleftrightarrow> 48 \<le> (of_char c :: nat) \<and> (of_char c :: nat) \<le> 57"

definition isspace :: "char \<Rightarrow> bool" where
  "isspace c \<longleftrightarrow> c = CHR '' '' \<or> (9 \<le> (of_char c :: nat) \<and> (of_char c :: nat) \<le> 13)"

fun show_nat :: "nat \<Rightarrow> string" where
  "show_nat n = (if n < 10 then [char_of (48 + n)]
     else show_nat (n div 10) @ [char_of (48 + n mod 10)])"

declare show_nat.simps [simp del]

definition show_int :: "int \<Rightarrow> string" where
  \<comment> \<open>what printf writes for %d\<close>
  "show_int i = (if i < 0 then CHR ''-'' # show_nat (nat (- i)) else show_nat (nat i))"

definition digits_val :: "string \<Rightarrow> nat" where
  "digits_val ds = foldl (\<lambda>a c. 10 * a + (of_char c - 48)) 0 ds"

definition scan_d :: "string \<Rightarrow> int option" where
  \<comment> \<open>sscanf(str, "%d", &n): None when nothing is converted and n keeps its value\<close>
  "scan_d s =
    (let s = dropWhile isspace s;
         neg = (s \<noteq> [] \<and> hd s = CHR ''-'');
         s = (if s \<noteq> [] \<and> (hd s = CHR ''-'' \<or> hd s = CHR ''+'') then tl s else s);
         ds = takeWhile isdigit s
     in if ds = [] then None
        else Some (if neg then - int (digits_val ds) else int (digits_val ds)))"

fun scan_prefix :: "string \<Rightarrow> string \<Rightarrow> string option" where
  \<comment> \<open>the literal part of a scanf format: white space matches any amount of it\<close>
  "scan_prefix [] s = Some s"
| "scan_prefix (f # fs) s =
    (if isspace f then scan_prefix fs (dropWhile isspace s)
     else (case s of [] \<Rightarrow> None | c # cs \<Rightarrow> if c = f then scan_prefix fs cs else None))"

definition sscanf_d :: "string \<Rightarrow> string \<Rightarrow> int option" where
  \<comment> \<open>sscanf(str, "lit%d\n", &n)\<close>
  "sscanf_d lit s = do { s \<leftarrow> scan_prefix lit s; scan_d s }"

definition skip_digits :: "string \<Rightarrow> string" where
  \<comment> \<open>while (isdigit(*str)) str++\<close>
  "skip_digits s = dropWhile isdigit s"

section \<open>Formatted output into an allocated buffer\<close>

definition sprintf_c :: "nat \<Rightarrow> string \<Rightarrow> string \<Rightarrow> string option" where
  \<comment> \<open>sprintf(str + strlen(str), ...) of \<open>text\<close> into a buffer of \<open>cap\<close> bytes: with the
     terminating NUL the result must fit\<close>
  "sprintf_c cap str text =
    (if length str + length text + 1 \<le> cap then Some (str @ text) else None)"

section \<open>Facts on numbers\<close>

lemma isdigit_char_of [simp]: "n < 10 \<Longrightarrow> isdigit (char_of (48 + n :: nat))"
  by (simp add: isdigit_def of_char_of)

lemma digit_val [simp]: "n < 10 \<Longrightarrow> (of_char (char_of (48 + n :: nat) :: char) :: nat) = 48 + n"
  by (simp add: of_char_of)

lemma show_nat_not_Nil [simp]: "show_nat n \<noteq> []"
  by (subst show_nat.simps) simp

lemma show_nat_digits [simp]: "c \<in> set (show_nat n) \<Longrightarrow> isdigit c"
proof (induction n rule: show_nat.induct)
  case (1 n)
  then show ?case
    by (subst (asm) show_nat.simps) (auto split: if_splits)
qed

lemma digits_val_append: "digits_val (ds @ [c]) = 10 * digits_val ds + (of_char c - 48)"
  by (simp add: digits_val_def)

lemma digits_val_show [simp]: "digits_val (show_nat n) = n"
proof (induction n rule: show_nat.induct)
  case (1 n)
  show ?case
  proof (cases "n < 10")
    case True
    then show ?thesis by (subst show_nat.simps) (simp add: digits_val_def)
  next
    case False
    then show ?thesis
      using 1 by (subst show_nat.simps) (simp add: digits_val_append)
  qed
qed

lemma isdigit_not_isspace: "isdigit c \<Longrightarrow> \<not> isspace c"
  by (auto simp: isdigit_def isspace_def)

lemma not_isdigit [simp]:
  "\<not> isdigit CHR '' ''" "\<not> isdigit CHR ''-''" "\<not> isdigit CHR ''+''" "\<not> isdigit CHR 0x0A"
  "\<not> isdigit CHR 0x22"
  by (auto simp: isdigit_def)

lemma isspace_simps [simp]:
  "isspace CHR '' ''" "isspace CHR 0x0A" "\<not> isspace CHR ''-''" "\<not> isspace CHR 0x22"
  by (auto simp: isspace_def)

lemma isdigit_neq: "isdigit c \<Longrightarrow> c \<noteq> CHR ''-'' \<and> c \<noteq> CHR ''+'' \<and> c \<noteq> CHR '' '' \<and> c \<noteq> CHR 0x0A"
  by (auto simp: isdigit_def)

text \<open>The character after a printed number ends it.\<close>

definition ends_number :: "string \<Rightarrow> bool" where
  "ends_number s \<longleftrightarrow> s = [] \<or> \<not> isdigit (hd s)"

lemma ends_number_simps [simp]:
  "ends_number []" "ends_number (c # s) \<longleftrightarrow> \<not> isdigit c"
  by (auto simp: ends_number_def)

lemma takeWhile_digits [simp]: "ends_number s \<Longrightarrow> takeWhile isdigit (show_nat n @ s) = show_nat n"
  by (cases s) (auto simp: takeWhile_append takeWhile_eq_all_conv [THEN iffD2])

lemma skip_digits_show [simp]: "ends_number s \<Longrightarrow> skip_digits (show_nat n @ s) = s"
  by (cases s) (auto simp: skip_digits_def dropWhile_append)

lemma hd_show_nat: "isdigit (hd (show_nat n))"
  by (simp add: show_nat_digits [of _ n])

lemma show_nat_Cons: "\<exists>c t. show_nat n = c # t \<and> isdigit c"
  using hd_show_nat [of n] show_nat_not_Nil [of n] by (metis list.exhaust_sel)

lemma scan_digits:
  assumes "ends_number s"
  shows "scan_d (show_nat n @ s) = Some (int n)" "scan_d (CHR ''-'' # show_nat n @ s) = Some (- int n)"
proof -
  obtain c t where c: "show_nat n = c # t" "isdigit c"
    using show_nat_Cons by blast
  have t: "takeWhile isdigit (c # t @ s) = c # t"
    using takeWhile_digits [OF assms, of n] c by simp
  have v: "digits_val (c # t) = n"
    using digits_val_show [of n] c by simp
  show "scan_d (show_nat n @ s) = Some (int n)"
    using c(2) isdigit_neq [OF c(2)] isdigit_not_isspace [OF c(2)] t v
    by (simp add: c(1) scan_d_def Let_def)
  show "scan_d (CHR ''-'' # show_nat n @ s) = Some (- int n)"
    using t v by (simp add: c(1) scan_d_def Let_def)
qed

lemma scan_d_show [simp]: "ends_number s \<Longrightarrow> scan_d (show_int i @ s) = Some i"
  by (simp add: show_int_def scan_digits)

lemma scan_d_space [simp]: "isspace c \<Longrightarrow> scan_d (c # s) = scan_d s"
  by (simp add: scan_d_def)

lemma show_nonneg: "0 \<le> i \<Longrightarrow> show_int i = show_nat (nat i)"
  by (simp add: show_int_def)

lemma skip_digits_show_int [simp]:
  "0 \<le> i \<Longrightarrow> ends_number s \<Longrightarrow> skip_digits (show_int i @ s) = s"
  by (simp add: show_nonneg)

section \<open>Lengths of numbers\<close>

lemma length_show_nat: "n < 10 ^ k \<Longrightarrow> 0 < k \<Longrightarrow> length (show_nat n) \<le> k"
proof (induction k arbitrary: n)
  case 0
  then show ?case by simp
next
  case (Suc k)
  show ?case
  proof (cases "n < 10")
    case True
    then show ?thesis by (subst show_nat.simps) simp
  next
    case False
    then have "0 < k" using Suc.prems by (cases k) auto
    moreover have "n div 10 < 10 ^ k" using Suc.prems by (simp add: less_mult_imp_div_less)
    ultimately show ?thesis using Suc.IH [of "n div 10"] False by (subst show_nat.simps) simp
  qed
qed

definition int32 :: "int \<Rightarrow> bool" where
  "int32 i \<longleftrightarrow> - (2 ^ 31) \<le> i \<and> i < 2 ^ 31"

lemma length_show_int: "int32 i \<Longrightarrow> length (show_int i) \<le> 11"
  using length_show_nat [of "nat i" 10] length_show_nat [of "nat (- i)" 10]
  by (auto simp: int32_def show_int_def nat_less_iff)

section \<open>Facts on moving\<close>

lemma skip_c_append [simp]: "n = length a \<Longrightarrow> skip_c n (a @ s) = Some s"
  by (simp add: skip_c_def)

lemma skip_c_0 [simp]: "skip_c 0 s = Some s"
  by (simp add: skip_c_def)

lemma skip_c_Suc [simp]: "skip_c (Suc n) (c # s) = skip_c n s"
  by (simp add: skip_c_def)

lemma skip_c_numeral [simp]: "skip_c (numeral k) (c # s) = skip_c (pred_numeral k) s"
  by (simp add: numeral_eq_Suc)

lemma strchr_next_Cons [simp]: "strchr_next c (c # s) = Some s"
  by (simp add: strchr_next_def)

lemma skip_until_append [simp]:
  "c \<notin> set a \<Longrightarrow> skip_until c (a @ c # s) = Some (c # s)"
  by (induction a) auto

lemma strchr_next_append [simp]:
  "c \<notin> set a \<Longrightarrow> strchr_next c (a @ c # s) = Some s"
  by (simp add: strchr_next_def skip_c_def)

lemma strncmp_append [simp]: "n = length a \<Longrightarrow> strncmp_eq a (a @ s) n"
  by (simp add: strncmp_eq_def)

lemma sprintf_c_fits:
  "length str + length text + 1 \<le> cap \<Longrightarrow> sprintf_c cap str text = Some (str @ text)"
  by (simp add: sprintf_c_def)

section \<open>Printers and their parsers\<close>

primrec parse_n :: "(string \<Rightarrow> ('a \<times> string) option) \<Rightarrow> nat \<Rightarrow> string \<Rightarrow> ('a list \<times> string) option" where
  \<comment> \<open>for (i = 0; i < n; i++) str = parse(str, &list[i])\<close>
  "parse_n parse 0 s = Some ([], s)"
| "parse_n parse (Suc n) s =
    do { (x, s) \<leftarrow> parse s; (xs, s) \<leftarrow> parse_n parse n s; Some (x # xs, s) }"

locale codec =
  fixes printed :: "'a \<Rightarrow> string"
    and parse :: "string \<Rightarrow> ('a \<times> string) option"
    and printable :: "'a \<Rightarrow> bool"
  assumes parse_printed: "printable x \<Longrightarrow> parse (printed x @ s) = Some (x, s)"
begin

lemma parse_n_printed:
  "\<forall>x \<in> set xs. printable x \<Longrightarrow>
    parse_n parse (length xs) (concat (map printed xs) @ s) = Some (xs, s)"
  by (induction xs) (simp_all add: parse_printed)

lemma printed_inj:
  "printable x \<Longrightarrow> printable y \<Longrightarrow> printed x = printed y \<Longrightarrow> x = y"
  using parse_printed [of x "[]"] parse_printed [of y "[]"] by simp

end

end
