(* ===== verification/Response_Spec.thy ===== *)
theory Response_Spec
  imports C_String Ev_Stone
begin

text \<open>
  Action specifications (response.c, install_response_handler and the printers before it): the strings a program builds for filter, router,
  transform, multityped and bridge actions, and the parser that installs them on a stone. The
  buffers the printers allocate are kept with their sizes: a sprintf that does not fit is a
  crash, like every step of the parser over the end of the string and every number it uses
  without having read it.
\<close>

section \<open>Formats\<close>

record FMField =
  field_name :: string
  field_type :: string
  field_size :: int
  field_offset :: int

record FMStructDescRec =
  format_name :: "string ptr"
  field_list :: "FMField list ptr"      \<comment> \<open>the fields before the terminating one\<close>
  struct_size :: int

text \<open>A format list is the list of its records before the terminating one.\<close>

type_synonym FMStructDescList = "FMStructDescRec list"

definition format_count :: "FMStructDescList \<Rightarrow> FMStructDescList" where
  \<comment> \<open>the records the counting loop passes: those before the first without a name\<close>
  "format_count l = takeWhile (\<lambda>f. format_name f \<noteq> None) l"

definition formats_of :: "FMStructDescList ptr \<Rightarrow> FMStructDescList" where
  \<comment> \<open>the counting loops that test the list for NULL\<close>
  "formats_of p = (case p of None \<Rightarrow> [] | Some l \<Rightarrow> format_count l)"

section \<open>Printing\<close>

definition quoted :: "string \<Rightarrow> string" where
  "quoted s = c_quote # s @ [c_quote]"

definition format_line :: "string \<Rightarrow> int \<Rightarrow> nat \<Rightarrow> string" where
  "format_line name sz n =
    ''FMFormat '' @ quoted name @ '' StructSize '' @ show_int sz @ '' FieldCount ''
      @ show_int (int n) @ [c_nl]"

definition field_line :: "FMField \<Rightarrow> string" where
  "field_line f =
    ''    FMField '' @ quoted (field_name f) @ '' '' @ quoted (field_type f) @ '' ''
      @ show_int (field_size f) @ '' '' @ show_int (field_offset f) @ [c_nl]"

fun add_fields :: "nat \<Rightarrow> string \<Rightarrow> FMField list \<Rightarrow> string option" where
  "add_fields len str [] = Some str"
| "add_fields len str (f # fs) =
    (let len = len + length (field_name f) + length (field_type f) + 50
     in do { str \<leftarrow> sprintf_c len str (field_line f); add_fields len str fs })"

definition add_FMfieldlist_to_string :: "string \<Rightarrow> FMStructDescRec \<Rightarrow> string option" where
  "add_FMfieldlist_to_string str f =
    do {
      name \<leftarrow> format_name f;
      let fields = (case field_list f of None \<Rightarrow> [] | Some l \<Rightarrow> l);
      let len = length str + (length name + 5 + 35 + 20);
      str \<leftarrow> sprintf_c len str (format_line name (struct_size f) (length fields));
      add_fields len str fields
    }"

fun add_formats :: "string \<Rightarrow> FMStructDescList \<Rightarrow> string option" where
  "add_formats str [] = Some str"
| "add_formats str (f # fs) =
    do { str \<leftarrow> add_FMfieldlist_to_string str f; add_formats str fs }"

definition add_function :: "string \<Rightarrow> string \<Rightarrow> string option" where
  \<comment> \<open>realloc to the exact size, strcpy at the end\<close>
  "add_function str function = sprintf_c (length str + length function + 1) str function"

definition create_format_spec ::
    "string \<Rightarrow> FMStructDescList ptr \<Rightarrow> string \<Rightarrow> string option" where
  \<comment> \<open>the common body of the filter and the router specification\<close>
  "create_format_spec kind format_list function =
    do {
      let fs = formats_of format_list;
      str \<leftarrow> sprintf_c 50 [] (kind @ ''   Format Count '' @ show_int (int (length fs)) @ [c_nl]);
      str \<leftarrow> add_formats str fs;
      add_function str function
    }"

definition INT_create_filter_action_spec ::
    "FMStructDescList ptr \<Rightarrow> string \<Rightarrow> string option" where
  "INT_create_filter_action_spec = create_format_spec ''Filter Action''"

definition INT_create_router_action_spec ::
    "FMStructDescList ptr \<Rightarrow> string \<Rightarrow> string option" where
  "INT_create_router_action_spec = create_format_spec ''Router Action''"

definition create_terminal_action_spec :: "FMStructDescList ptr \<Rightarrow> string option" where
  "create_terminal_action_spec format_list =
    do {
      fs \<leftarrow> map_option format_count format_list;
      str \<leftarrow> sprintf_c 50 []
        (''Terminal Action   Format Count '' @ show_int (int (length fs)) @ [c_nl]);
      add_formats str fs
    }"

definition INT_create_transform_action_spec ::
    "FMStructDescList ptr \<Rightarrow> FMStructDescList ptr \<Rightarrow> string \<Rightarrow> string option" where
  \<comment> \<open>the output list is not tested for NULL\<close>
  "INT_create_transform_action_spec format_list out_format_list function =
    do {
      let fs = formats_of format_list;
      str \<leftarrow> sprintf_c 50 []
        (''Transform Action   Input Format Count '' @ show_int (int (length fs)) @ [c_nl]);
      str \<leftarrow> add_formats str fs;
      os \<leftarrow> map_option format_count out_format_list;
      str \<leftarrow> sprintf_c (length str + 30) str
        (''  Output Format Count '' @ show_int (int (length os)) @ [c_nl]);
      str \<leftarrow> add_formats str os;
      add_function str function
    }"

fun add_lists :: "string \<Rightarrow> FMStructDescList list \<Rightarrow> string option" where
  "add_lists str [] = Some str"
| "add_lists str (l # ls) =
    do {
      let fs = format_count l;
      str \<leftarrow> sprintf_c (length str + 50) str
        (''Next format   Subformat Count '' @ show_int (int (length fs)) @ [c_nl]);
      str \<leftarrow> add_formats str fs;
      add_lists str ls
    }"

definition INT_create_multityped_action_spec ::
    "FMStructDescList list ptr \<Rightarrow> string \<Rightarrow> string option" where
  \<comment> \<open>the array of lists up to its terminating NULL\<close>
  "INT_create_multityped_action_spec input_format_lists function =
    do {
      let ls = (case input_format_lists of None \<Rightarrow> [] | Some ls \<Rightarrow> ls);
      str \<leftarrow> sprintf_c 50 []
        (''Multityped Action   List Count '' @ show_int (int (length ls)) @ [c_nl]);
      str \<leftarrow> add_lists str ls;
      add_function str function
    }"

definition INT_create_bridge_action_spec :: "int \<Rightarrow> string \<Rightarrow> string option" where
  "INT_create_bridge_action_spec stone_id contact =
    sprintf_c (length contact + length ''Bridge Action'' + 20) []
      (''Bridge Action '' @ show_int stone_id @ '' '' @ contact)"

section \<open>Parsing\<close>

definition get_str :: "string \<Rightarrow> (string \<times> string) option" where
  "get_str str =
    do {
      rest \<leftarrow> skip_until c_quote str;
      rest \<leftarrow> skip_c 1 rest;
      Some (takeWhile (\<lambda>c. c \<noteq> c_quote) str, rest)
    }"

definition parse_field :: "string \<Rightarrow> (FMField \<times> string) option" where
  "parse_field str =
    do {
      str \<leftarrow> skip_c (length ''    FMField '' + 1) str;
      (name, str) \<leftarrow> get_str str;
      str \<leftarrow> skip_c 2 str;
      (type, str) \<leftarrow> get_str str;
      str \<leftarrow> skip_c 1 str;
      sz \<leftarrow> scan_d str;
      str \<leftarrow> skip_c 1 (skip_digits str);
      offset \<leftarrow> scan_d str;
      str \<leftarrow> strchr_next c_nl (skip_digits str);
      Some (\<lparr>field_name = name, field_type = type, field_size = sz, field_offset = offset\<rparr>, str)
    }"

definition parse_FMformat_from_string :: "string \<Rightarrow> (FMStructDescRec \<times> string) option" where
  "parse_FMformat_from_string str =
    (if \<not> strncmp_eq str (''FMFormat '' @ [c_quote]) 10
     then Some (\<lparr>format_name = None, field_list = None, struct_size = 0\<rparr>, str)
     else do {
       str \<leftarrow> skip_c 10 str;
       (name, str) \<leftarrow> get_str str;
       str \<leftarrow> skip_c (length '' StructSize '') str;
       sz \<leftarrow> scan_d str;
       str \<leftarrow> skip_c (length '' FieldCount '') (skip_digits str);
       count \<leftarrow> scan_d str;
       str \<leftarrow> skip_c 1 (skip_digits str);
       assert_c (0 \<le> count);
       (fields, str) \<leftarrow> parse_n parse_field (nat count) str;
       Some (\<lparr>format_name = Some name,
              field_list = (if count = 0 then None else Some fields), struct_size = sz\<rparr>, str)
     })"

definition parse_formats :: "string \<Rightarrow> string \<Rightarrow> (FMStructDescList \<times> string) option" where
  \<comment> \<open>the count line and the formats after it\<close>
  "parse_formats lit str =
    do {
      count \<leftarrow> sscanf_d lit str;
      str \<leftarrow> strchr_next c_nl str;
      assert_c (0 \<le> count);
      parse_n parse_FMformat_from_string (nat count) str
    }"

definition first_name :: "FMStructDescList \<Rightarrow> string ptr" where
  "first_name l = (case l of [] \<Rightarrow> None | f # _ \<Rightarrow> format_name f)"

record filter_spec =
  fs_format_list :: FMStructDescList
  fs_function :: string
  fs_client_data :: "addr ptr"
  fs_reference_format :: "FMFormat ptr"

record transform_spec =
  ts_in_format_list :: FMStructDescList
  ts_out_format_list :: FMStructDescList
  ts_function :: string
  ts_client_data :: "addr ptr"
  ts_reference_input_format :: "FMFormat ptr"
  ts_reference_output_format :: "FMFormat ptr option"   \<comment> \<open>None: not written\<close>
  ts_output_base_struct_size :: "int option"            \<comment> \<open>None: not written\<close>

record multityped_spec =
  ms_struct_list :: "FMStructDescList list"
  ms_function :: string
  ms_client_data :: "addr ptr"
  ms_accept_anonymous :: int
  ms_reference_input_format_list :: "FMFormat ptr list"

datatype response_spec =
    Response_Filter filter_spec
  | Response_Router filter_spec
  | Response_Transform transform_spec
  | Response_Multityped multityped_spec

type_synonym registry = "FMStructDescList \<Rightarrow> FMFormat ptr"    \<comment> \<open>EVregister_format_set\<close>

type_synonym installed = "response_spec ptr \<times> FMFormat ptr list ptr"
  \<comment> \<open>the response and the array written through ref_ptr\<close>

definition parse_filter :: "registry \<Rightarrow> addr ptr \<Rightarrow> string \<Rightarrow> filter_spec option" where
  \<comment> \<open>the common body of the filter and the router branch\<close>
  "parse_filter reg local_data str =
    do {
      str \<leftarrow> skip_c (length ''Filter Action'' + 1) str;
      (list, function) \<leftarrow> parse_formats ''  Format Count '' str;
      Some \<lparr>fs_format_list = list, fs_function = function, fs_client_data = local_data,
            fs_reference_format = reg list\<rparr>
    }"

definition parse_transform :: "registry \<Rightarrow> addr ptr \<Rightarrow> string \<Rightarrow> transform_spec ptr option" where
  "parse_transform reg local_data str =
    do {
      str \<leftarrow> skip_c (length ''Transform Action'' + 1) str;
      (in_list, str) \<leftarrow> parse_formats ''  Input Format Count '' str;
      case sscanf_d ''  Output Format Count '' str of
        None \<Rightarrow> Some None
      | Some _ \<Rightarrow> do {
          (out_list, function) \<leftarrow> parse_formats ''  Output Format Count '' str;
          Some (Some \<lparr>ts_in_format_list = in_list, ts_out_format_list = out_list,
            ts_function = function, ts_client_data = local_data,
            ts_reference_input_format = (if first_name in_list \<noteq> None then reg in_list else None),
            ts_reference_output_format =
              (if first_name out_list \<noteq> None then Some (reg out_list) else None),
            ts_output_base_struct_size =
              (case out_list of [] \<Rightarrow> None | f # _ \<Rightarrow> Some (struct_size f))\<rparr>) }
    }"

definition is_anonymous :: "FMStructDescList \<Rightarrow> bool" where
  \<comment> \<open>struct_list[j]->field_list == NULL\<close>
  "is_anonymous l \<longleftrightarrow> (case l of [] \<Rightarrow> True | f # _ \<Rightarrow> field_list f = None)"

definition parse_multityped :: "registry \<Rightarrow> addr ptr \<Rightarrow> string \<Rightarrow> multityped_spec option" where
  \<comment> \<open>an anonymous list is dropped and counted; the loop reads List Count lists in all\<close>
  "parse_multityped reg local_data str =
    do {
      str \<leftarrow> skip_c (length ''Multityped Action'' + 1) str;
      count \<leftarrow> sscanf_d ''  List Count '' str;
      str \<leftarrow> strchr_next c_nl str;
      assert_c (0 \<le> count);
      (lists, function) \<leftarrow> parse_n (parse_formats ''Next format   Subformat Count '') (nat count) str;
      let struct_list = filter (\<lambda>l. \<not> is_anonymous l) lists;
      formats \<leftarrow> map_c (\<lambda>l. if first_name l \<noteq> None then Some (reg l) else None) struct_list;
      Some \<lparr>ms_struct_list = struct_list, ms_function = function, ms_client_data = local_data,
            ms_accept_anonymous = int (length (filter is_anonymous lists)),
            ms_reference_input_format_list = formats\<rparr>
    }"

definition install_response ::
    "registry \<Rightarrow> string \<Rightarrow> addr ptr \<Rightarrow> bool \<Rightarrow> installed option" where
  \<comment> \<open>\<open>want_ref\<close>: ref_ptr is not NULL. The terminal branch only moves over its formats and falls
     through to the other tests.\<close>
  "install_response reg spec local_data want_ref =
    do {
      str \<leftarrow> (if strncmp_eq ''Terminal Action'' spec (length ''Terminal Action'') then do {
                str \<leftarrow> skip_c (length ''Terminal Action'' + 1) spec;
                (_, str) \<leftarrow> parse_formats ''  Format Count '' str;
                Some str }
              else Some spec);
      if strncmp_eq ''Filter Action'' str (length ''Filter Action'') then do {
        r \<leftarrow> parse_filter reg local_data str;
        Some (Some (Response_Filter r),
              if want_ref then Some [fs_reference_format r, None] else None) }
      else if strncmp_eq ''Router Action'' str (length ''Router Action'') then do {
        r \<leftarrow> parse_filter reg local_data str;
        Some (Some (Response_Router r),
              if want_ref then Some [fs_reference_format r, None] else None) }
      else if strncmp_eq ''Transform Action'' str (length ''Transform Action'') then do {
        p \<leftarrow> parse_transform reg local_data str;
        Some (case p of None \<Rightarrow> (None, None)
          | Some r \<Rightarrow> (Some (Response_Transform r),
              if want_ref then Some [ts_reference_input_format r, None] else None)) }
      else if strncmp_eq ''Multityped Action'' str (length ''Multityped Action'') then do {
        r \<leftarrow> parse_multityped reg local_data str;
        Some (Some (Response_Multityped r),
              if want_ref then Some (ms_reference_input_format_list r @ [None]) else None) }
      else Some (None, None)
    }"

definition parse_bridge_action_spec :: "string \<Rightarrow> int \<Rightarrow> (int \<times> string) option" where
  \<comment> \<open>\<open>target\<close>: the value the variable keeps when no number is read\<close>
  "parse_bridge_action_spec action_spec target =
    do {
      str \<leftarrow> skip_c (length ''Bridge Action '') action_spec;
      let target = (case scan_d str of None \<Rightarrow> target | Some t \<Rightarrow> t);
      str \<leftarrow> skip_until CHR '' '' str;
      contact \<leftarrow> skip_c 1 str;
      Some (target, contact)
    }"

definition action_type_of :: "string ptr \<Rightarrow> action_value" where
  \<comment> \<open>action_type(); the Split test compares seven characters\<close>
  "action_type_of spec =
    (case spec of
       None \<Rightarrow> Action_Split
     | Some s \<Rightarrow>
         if strncmp_eq s ''Bridge Action'' 13 then Action_Bridge
         else if strncmp_eq s ''Filter Action'' 13 then Action_Immediate
         else if strncmp_eq s ''Router Action'' 13 then Action_Immediate
         else if strncmp_eq s ''Transform Action'' 16 then Action_Immediate
         else if strncmp_eq s ''Multityped Action'' 17 then Action_Multi
         else if strncmp_eq s ''sink:'' 5 then Action_Terminal
         else if strncmp_eq s ''source:'' 7 then Action_Source
         else if strncmp_eq s ''Split Action'' 7 then Action_Split
         else Action_NoAction)"

section \<open>What can be printed and read back\<close>

text \<open>
  Names without quotes and numbers that are not negative: \<open>isdigit\<close> does not step over a minus
  sign, so a negative size derails the parser. A record with an empty field list is read back
  without one.
\<close>

definition field_ok :: "FMField \<Rightarrow> bool" where
  "field_ok f \<longleftrightarrow> c_quote \<notin> set (field_name f) \<and> c_quote \<notin> set (field_type f) \<and>
     0 \<le> field_size f \<and> int32 (field_size f) \<and> 0 \<le> field_offset f \<and> int32 (field_offset f)"

definition fields_of :: "FMStructDescRec \<Rightarrow> FMField list" where
  "fields_of f = (case field_list f of None \<Rightarrow> [] | Some l \<Rightarrow> l)"

definition format_ok :: "FMStructDescRec \<Rightarrow> bool" where
  "format_ok f \<longleftrightarrow> (case format_name f of None \<Rightarrow> False | Some name \<Rightarrow> c_quote \<notin> set name) \<and>
     0 \<le> struct_size f \<and> int32 (struct_size f) \<and> field_list f \<noteq> Some [] \<and>
     int32 (int (length (fields_of f))) \<and> list_all field_ok (fields_of f)"

definition list_ok :: "FMStructDescList \<Rightarrow> bool" where
  "list_ok l \<longleftrightarrow> int32 (int (length l)) \<and> list_all format_ok l"

definition format_text :: "FMStructDescRec \<Rightarrow> string" where
  "format_text f =
    format_line (the (format_name f)) (struct_size f) (length (fields_of f))
      @ concat (map field_line (fields_of f))"

definition formats_text :: "string \<Rightarrow> FMStructDescList \<Rightarrow> string" where
  "formats_text lit l =
    lit @ show_int (int (length l)) @ [c_nl] @ concat (map format_text l)"

section \<open>Reading back what was printed\<close>

lemma get_str_append [simp]:
  "c_quote \<notin> set name \<Longrightarrow> get_str (name @ c_quote # s) = Some (name, s)"
  by (simp add: get_str_def skip_c_def takeWhile_append)

interpretation fields: codec field_line parse_field field_ok
  by unfold_locales
    (simp add: parse_field_def field_line_def quoted_def field_ok_def)

interpretation formats: codec format_text parse_FMformat_from_string format_ok
proof unfold_locales
  fix f :: FMStructDescRec and s :: string
  assume ok: "format_ok f"
  then obtain name where name: "format_name f = Some name" "c_quote \<notin> set name"
    by (auto simp: format_ok_def split: option.splits)
  have n: "parse_n parse_field (length (fields_of f)) (concat (map field_line (fields_of f)) @ s)
      = Some (fields_of f, s)"
    using ok by (intro fields.parse_n_printed) (auto simp: format_ok_def list_all_iff)
  show "parse_FMformat_from_string (format_text f @ s) = Some (f, s)"
    using ok n unfolding parse_FMformat_from_string_def format_text_def
    by (cases f)
      (auto simp: name format_line_def quoted_def format_ok_def fields_of_def strncmp_eq_def
        split: option.splits)
qed

lemma scan_number_line [simp]:
  "scan_d (show_int i @ c_nl # s) = Some i"
  by simp

lemma nl_not_in_number [simp]: "0 \<le> i \<Longrightarrow> c_nl \<notin> set (show_int i)"
  by (metis show_nat_digits not_isdigit(4) show_nonneg)

lemma strchr_next_number [simp]: "0 \<le> i \<Longrightarrow> strchr_next c_nl (show_int i @ c_nl # s) = Some s"
  by simp

definition count_prefix :: "string \<Rightarrow> bool" where
  \<comment> \<open>the literal in front of a count, printed and scanned with the same text\<close>
  "count_prefix lit \<longleftrightarrow> c_nl \<notin> set lit \<and>
     (\<forall>s. scan_prefix lit (lit @ s) = Some (dropWhile isspace s))"

lemma count_prefixes:
  "count_prefix ''  Format Count ''" "count_prefix ''  Input Format Count ''"
  "count_prefix ''  Output Format Count ''" "count_prefix ''  List Count ''"
  "count_prefix ''Next format   Subformat Count ''"
  by (simp_all add: count_prefix_def isspace_def)

lemma scan_d_dropWhile: "scan_d (dropWhile isspace s) = scan_d s"
  by (simp add: scan_d_def)

lemma strchr_next_prefix:
  "c \<notin> set a \<Longrightarrow> strchr_next c (a @ s) = strchr_next c s"
proof -
  assume "c \<notin> set a"
  then have "skip_until c (a @ s) = skip_until c s"
    by (induction a) auto
  then show ?thesis by (simp add: strchr_next_def)
qed

lemma count_line:
  assumes "count_prefix lit"
  shows "sscanf_d lit (lit @ show_int (int n) @ c_nl # s) = Some (int n)"
    and "strchr_next c_nl (lit @ show_int (int n) @ c_nl # s) = Some s"
  using assms by (simp_all add: count_prefix_def sscanf_d_def scan_d_dropWhile strchr_next_prefix)

lemma parse_formats_printed:
  assumes "count_prefix lit" "list_ok l"
  shows "parse_formats lit (formats_text lit l @ s) = Some (l, s)"
  using assms formats.parse_n_printed [of l s]
  by (simp add: parse_formats_def formats_text_def count_line list_ok_def list_all_iff)

interpretation lists: codec "formats_text ''Next format   Subformat Count ''"
    "parse_formats ''Next format   Subformat Count ''" list_ok
  by unfold_locales (simp add: parse_formats_printed count_prefixes)

section \<open>Printing fits the buffers\<close>

lemma length_show_nonneg: "0 \<le> i \<Longrightarrow> i < 10 ^ k \<Longrightarrow> 0 < k \<Longrightarrow> length (show_int i) \<le> k"
  by (simp add: show_nonneg length_show_nat nat_less_iff)

lemma length_field_line:
  "field_ok f \<Longrightarrow> length (field_line f) \<le> length (field_name f) + length (field_type f) + 50"
  using length_show_int [of "field_size f"] length_show_int [of "field_offset f"]
  by (simp add: field_ok_def field_line_def quoted_def)

lemma add_fields_printed:
  assumes "list_all field_ok fs" "length str + 1 \<le> len"
  shows "add_fields len str fs = Some (str @ concat (map field_line fs))"
  using assms
proof (induction fs arbitrary: len str)
  case Nil
  then show ?case by simp
next
  case (Cons f fs)
  let ?len = "len + length (field_name f) + length (field_type f) + 50"
  have fits: "length str + length (field_line f) + 1 \<le> ?len"
    using Cons.prems length_field_line [of f] by simp
  have "add_fields ?len (str @ field_line f) fs = Some ((str @ field_line f) @ concat (map field_line fs))"
    using Cons.prems fits by (intro Cons.IH) simp_all
  then show ?case
    using fits by (simp add: sprintf_c_fits Let_def)
qed

lemma add_format_printed:
  assumes "format_ok f"
  shows "add_FMfieldlist_to_string str f = Some (str @ format_text f)"
proof -
  obtain name where name: "format_name f = Some name"
    using assms by (auto simp: format_ok_def split: option.splits)
  let ?line = "format_line name (struct_size f) (length (fields_of f))"
  have fits: "length str + length ?line + 1 \<le> length str + (length name + 5 + 35 + 20)"
    using assms length_show_int [of "struct_size f"] length_show_int [of "int (length (fields_of f))"]
    by (simp add: format_ok_def format_line_def quoted_def)
  have "add_fields (length str + (length name + 5 + 35 + 20)) (str @ ?line) (fields_of f)
      = Some ((str @ ?line) @ concat (map field_line (fields_of f)))"
    using assms fits by (intro add_fields_printed) (simp_all add: format_ok_def)
  then show ?thesis
    using fits
    by (simp add: add_FMfieldlist_to_string_def name sprintf_c_fits format_text_def
        fields_of_def [symmetric] Let_def)
qed

lemma add_formats_printed:
  "list_all format_ok l \<Longrightarrow> add_formats str l = Some (str @ concat (map format_text l))"
  by (induction l arbitrary: str) (simp_all add: add_format_printed)

lemma format_count_ok [simp]: "list_all format_ok l \<Longrightarrow> format_count l = l"
  by (auto simp: format_count_def list_all_iff format_ok_def split: option.splits)

lemma add_function_eq [simp]: "add_function str function = Some (str @ function)"
  by (simp add: add_function_def sprintf_c_def)

lemma create_format_spec_eq:
  assumes "list_ok l" "length kind \<le> 20"
  shows "create_format_spec kind (Some l) function =
    Some (kind @ '' '' @ formats_text ''  Format Count '' l @ function)"
proof -
  have "length (show_int (int (length l))) \<le> 10"
    using assms(1) length_show_nonneg [of "int (length l)" 10] by (simp add: list_ok_def int32_def)
  then have "sprintf_c 50 [] (kind @ ''   Format Count '' @ show_int (int (length l)) @ [c_nl]) =
      Some (kind @ ''   Format Count '' @ show_int (int (length l)) @ [c_nl])"
    using assms(2) by (intro trans [OF sprintf_c_fits]) simp_all
  then show ?thesis
    using assms(1)
    by (simp add: create_format_spec_def formats_of_def list_ok_def add_formats_printed formats_text_def
        Let_def)
qed

text \<open>The specification of a transform action, and what it is parsed to.\<close>

definition transform_text :: "FMStructDescList \<Rightarrow> FMStructDescList \<Rightarrow> string \<Rightarrow> string" where
  "transform_text l os function =
    ''Transform Action '' @ formats_text ''  Input Format Count '' l
      @ formats_text ''  Output Format Count '' os @ function"

lemma create_transform_eq:
  assumes "list_ok l" "list_ok os" "length os < 10 ^ 6"
  shows "INT_create_transform_action_spec (Some l) (Some os) function =
    Some (transform_text l os function)"
proof -
  have n: "length (show_int (int (length l))) \<le> 10" "length (show_int (int (length os))) \<le> 6"
    using assms length_show_nonneg [of "int (length l)" 10] length_show_nonneg [of "int (length os)" 6]
    by (simp_all add: list_ok_def int32_def)
  let ?in = "''Transform Action   Input Format Count '' @ show_int (int (length l)) @ [c_nl]"
  have a: "sprintf_c 50 [] ?in = Some ?in"
    using n(1) by (intro trans [OF sprintf_c_fits]) simp_all
  have b: "\<And>str. sprintf_c (length str + 30) str
      (''  Output Format Count '' @ show_int (int (length os)) @ [c_nl]) =
      Some (str @ ''  Output Format Count '' @ show_int (int (length os)) @ [c_nl])"
    using n(2) by (intro trans [OF sprintf_c_fits]) simp_all
  have c: "add_formats str l = Some (str @ concat (map format_text l))"
    "add_formats str os = Some (str @ concat (map format_text os))" for str
    using assms(1,2) by (simp_all add: list_ok_def add_formats_printed)
  have d: "format_count os = os" "formats_of (Some l) = l"
    using assms(1,2) by (simp_all add: list_ok_def formats_of_def)
  show ?thesis
    unfolding INT_create_transform_action_spec_def Let_def d a
    by (simp only: a b c d bind.bind_lunit option.map) (simp add: transform_text_def formats_text_def)
qed

lemma first_name_iff: "list_ok l \<Longrightarrow> first_name l = None \<longleftrightarrow> l = []"
  by (cases l) (auto simp: list_ok_def first_name_def format_ok_def split: option.splits)

definition transform_response ::
    "registry \<Rightarrow> FMStructDescList \<Rightarrow> FMStructDescList \<Rightarrow> string \<Rightarrow> addr ptr \<Rightarrow> transform_spec" where
  "transform_response reg l os function data =
    \<lparr>ts_in_format_list = l, ts_out_format_list = os, ts_function = function, ts_client_data = data,
     ts_reference_input_format = (if l = [] then None else reg l),
     ts_reference_output_format = (if os = [] then None else Some (reg os)),
     ts_output_base_struct_size = (case os of [] \<Rightarrow> None | f # _ \<Rightarrow> Some (struct_size f))\<rparr>"

lemma parse_transform_text:
  assumes "list_ok l" "list_ok os"
  shows "parse_transform reg data (transform_text l os function) =
    Some (Some (transform_response reg l os function data))"
proof -
  have a: "skip_c (length ''Transform Action'' + 1) (transform_text l os function) =
    Some (formats_text ''  Input Format Count '' l @ formats_text ''  Output Format Count '' os @ function)"
    by (simp add: transform_text_def)
  have b: "parse_formats ''  Input Format Count ''
      (formats_text ''  Input Format Count '' l @ s) = Some (l, s)"
    "parse_formats ''  Output Format Count ''
      (formats_text ''  Output Format Count '' os @ s) = Some (os, s)" for s
    using assms by (simp_all add: parse_formats_printed count_prefixes)
  have c: "sscanf_d ''  Output Format Count '' (formats_text ''  Output Format Count '' os @ s)
      = Some (int (length os))" for s
    using count_line(1) [OF count_prefixes(3)] by (simp add: formats_text_def)
  show ?thesis
    unfolding parse_transform_def a
    by (simp only: bind.bind_lunit b c prod.case option.case)
      (simp add: transform_response_def assms first_name_iff)
qed

lemma install_transform:
  assumes "list_ok l" "list_ok os"
  shows "install_response reg (transform_text l os function) data True =
    Some (Some (Response_Transform (transform_response reg l os function data)),
          Some [if l = [] then None else reg l, None])"
proof -
  have "\<not> strncmp_eq ''Terminal Action'' (transform_text l os function) (length ''Terminal Action'')"
    "\<not> strncmp_eq ''Filter Action'' (transform_text l os function) (length ''Filter Action'')"
    "\<not> strncmp_eq ''Router Action'' (transform_text l os function) (length ''Router Action'')"
    "strncmp_eq ''Transform Action'' (transform_text l os function) (length ''Transform Action'')"
    by (simp_all add: transform_text_def strncmp_eq_def)
  then show ?thesis
    using parse_transform_text [OF assms]
    by (simp add: install_response_def del: list.size) (simp add: transform_response_def)
qed

text \<open>The specification of a multityped action.\<close>

definition multityped_text :: "FMStructDescList list \<Rightarrow> string \<Rightarrow> string" where
  "multityped_text ls function =
    ''Multityped Action   List Count '' @ show_int (int (length ls)) @ [c_nl]
      @ concat (map (formats_text ''Next format   Subformat Count '') ls) @ function"

lemma add_lists_printed:
  "list_all list_ok ls \<Longrightarrow>
    add_lists str ls = Some (str @ concat (map (formats_text ''Next format   Subformat Count '') ls))"
proof (induction ls arbitrary: str)
  case Nil
  then show ?case by simp
next
  case (Cons l ls)
  let ?line = "''Next format   Subformat Count '' @ show_int (int (length l)) @ [c_nl]"
  have n: "length (show_int (int (length l))) \<le> 11"
    using Cons.prems length_show_int by (simp add: list_ok_def)
  have a: "sprintf_c (length str + 50) str ?line = Some (str @ ?line)"
    using n by (intro sprintf_c_fits) simp
  have d: "format_count l = l"
    using Cons.prems by (simp add: list_ok_def)
  have b: "\<And>str. add_formats str l = Some (str @ concat (map format_text l))"
    using Cons.prems by (simp add: list_ok_def add_formats_printed)
  show ?case
    using Cons.prems
    by (simp add: a [simplified] b d Cons.IH Let_def formats_text_def)
qed

lemma create_multityped_eq:
  assumes "list_all list_ok ls" "int32 (int (length ls))"
  shows "INT_create_multityped_action_spec (Some ls) function = Some (multityped_text ls function)"
proof -
  let ?line = "''Multityped Action   List Count '' @ show_int (int (length ls)) @ [c_nl]"
  have "length (show_int (int (length ls))) \<le> 11"
    using assms(2) by (rule length_show_int)
  then have "sprintf_c 50 [] ?line = Some ?line"
    by (intro trans [OF sprintf_c_fits]) simp_all
  then show ?thesis
    using assms(1)
    by (simp add: INT_create_multityped_action_spec_def add_lists_printed multityped_text_def)
qed

definition multityped_response ::
    "registry \<Rightarrow> FMStructDescList list \<Rightarrow> string \<Rightarrow> addr ptr \<Rightarrow> multityped_spec" where
  "multityped_response reg ls function data =
    (let named = filter (\<lambda>l. \<not> is_anonymous l) ls
     in \<lparr>ms_struct_list = named, ms_function = function, ms_client_data = data,
         ms_accept_anonymous = int (length (filter is_anonymous ls)),
         ms_reference_input_format_list = map reg named\<rparr>)"

lemma map_c_Some: "(\<And>x. x \<in> set xs \<Longrightarrow> f x = Some (g x)) \<Longrightarrow> map_c f xs = Some (map g xs)"
  by (induction xs) auto

lemma map_c_registered:
  assumes "list_all list_ok ls"
  shows "map_c (\<lambda>l. if first_name l \<noteq> None then Some (reg l) else None)
      (filter (\<lambda>l. \<not> is_anonymous l) ls) = Some (map reg (filter (\<lambda>l. \<not> is_anonymous l) ls))"
proof (rule map_c_Some)
  fix l assume "l \<in> set (filter (\<lambda>l. \<not> is_anonymous l) ls)"
  then have "list_ok l" "l \<noteq> []"
    using assms by (auto simp: list_all_iff is_anonymous_def)
  then show "(if first_name l \<noteq> None then Some (reg l) else None) = Some (reg l)"
    by (simp add: first_name_iff)
qed

lemma install_multityped:
  assumes "list_all list_ok ls"
  shows "install_response reg (multityped_text ls function) data True =
    Some (Some (Response_Multityped (multityped_response reg ls function data)),
          Some (map reg (filter (\<lambda>l. \<not> is_anonymous l) ls) @ [None]))"
proof -
  let ?body = "concat (map (formats_text ''Next format   Subformat Count '') ls) @ function"
  have a: "skip_c (length ''Multityped Action'' + 1) (multityped_text ls function) =
      Some (''  List Count '' @ show_int (int (length ls)) @ c_nl # ?body)"
    by (simp add: multityped_text_def)
  have b: "parse_n (parse_formats ''Next format   Subformat Count '') (length ls) ?body
      = Some (ls, function)"
    using assms lists.parse_n_printed [of ls "function"] by (simp add: list_all_iff)
  have c: "\<not> strncmp_eq ''Terminal Action'' (multityped_text ls function) (length ''Terminal Action'')"
    "\<not> strncmp_eq ''Filter Action'' (multityped_text ls function) (length ''Filter Action'')"
    "\<not> strncmp_eq ''Router Action'' (multityped_text ls function) (length ''Router Action'')"
    "\<not> strncmp_eq ''Transform Action'' (multityped_text ls function) (length ''Transform Action'')"
    "strncmp_eq ''Multityped Action'' (multityped_text ls function) (length ''Multityped Action'')"
    by (simp_all add: multityped_text_def strncmp_eq_def)
  have "parse_multityped reg data (multityped_text ls function) =
      Some (multityped_response reg ls function data)"
    unfolding parse_multityped_def a bind.bind_lunit count_line [OF count_prefixes(4)]
    by (simp only: assert_c_True of_nat_0_le_iff nat_int bind.bind_lunit b prod.case Let_def
        map_c_registered [OF assms] multityped_response_def)
  then show ?thesis
    using c by (simp add: install_response_def multityped_response_def Let_def del: list.size)
qed

section \<open>Bridge specifications\<close>

lemma create_bridge_eq:
  assumes "int32 sid"
  shows "INT_create_bridge_action_spec sid contact =
    Some (''Bridge Action '' @ show_int sid @ '' '' @ contact)"
  using length_show_int [OF assms] by (simp add: INT_create_bridge_action_spec_def sprintf_c_def)

lemma no_space_in_number: "CHR '' '' \<notin> set (show_int i)"
  using show_nat_digits not_isdigit(1) by (auto simp: show_int_def dest: show_nat_digits)

lemma parse_bridge_text:
  "parse_bridge_action_spec (''Bridge Action '' @ show_int sid @ '' '' @ contact) t = Some (sid, contact)"
  using no_space_in_number by (simp add: parse_bridge_action_spec_def)

lemma bridge_text_type: "action_type_of (Some (''Bridge Action '' @ s)) = Action_Bridge"
  by (simp add: action_type_of_def strncmp_eq_def)

end
