(* ===== verification/Ev_General.thy ===== *)
theory Ev_General
  imports Response_Spec Ev_Api
begin

text \<open>
  Actions chosen by their specification string (evp.c: INT_EVassoc_general_action,
  INT_EVcreate_stone_action), with the specification parser of \<open>Response_Spec\<close> in the place of
  the environment's install_response_handler.
\<close>

section \<open>Installing a specification\<close>

fun upto_NULL :: "'a ptr list \<Rightarrow> 'a list" where
  \<comment> \<open>a NULL-terminated array\<close>
  "upto_NULL [] = []"
| "upto_NULL (None # _) = []"
| "upto_NULL (Some x # xs) = x # upto_NULL xs"

definition install_handler ::
    "registry \<Rightarrow> int \<Rightarrow> string \<Rightarrow> addr ptr \<Rightarrow> evp \<Rightarrow> ((addr ptr \<times> FMFormat list ptr) \<times> evp) option" where
  \<comment> \<open>the response is a new object; the formats are those an action keeps\<close>
  "install_handler reg stone_id spec local_data e =
    do {
      (r, formats) \<leftarrow> install_response reg spec local_data True;
      let fs = map_option upto_NULL formats;
      case r of
        None \<Rightarrow> Some ((None, fs), e)
      | Some _ \<Rightarrow> (let (a, e) = malloc e in Some ((Some a, fs), e))
    }"

definition with_specs :: "registry \<Rightarrow> env \<Rightarrow> env" where
  "with_specs reg env = env\<lparr>install_response_handler := install_handler reg\<rparr>"

section \<open>General actions\<close>

definition upto_term :: "EVstone list \<Rightarrow> EVstone list" where
  \<comment> \<open>while (output_list[i] != -1)\<close>
  "upto_term l = takeWhile (\<lambda>s. s \<noteq> -1) l"

definition general_outputs ::
    "EVstone \<Rightarrow> EVaction \<Rightarrow> EVstone list ptr \<Rightarrow> evp \<Rightarrow> evp option" where
  "general_outputs stone_num ret output_list e =
    set_outputs stone_num ret 0 (case output_list of None \<Rightarrow> [] | Some l \<Rightarrow> upto_term l) e"

definition general_terminal ::
    "env \<Rightarrow> EVstone \<Rightarrow> string \<Rightarrow> evp \<Rightarrow> (EVaction \<times> evp) option" where
  "general_terminal env stone_num name e =
    (case find_index (\<lambda>h. sink_name h = name) (sink_handlers e) of
       None \<Rightarrow> Some (-1, emit (Eff_message ''Failed to find handler func'') e)
     | Some i \<Rightarrow>
         (let h = sink_handlers e ! i
          in INT_EVassoc_terminal_action env stone_num (sink_format_list h) (sink_handler h)
               (sink_client_data h) e))"

definition general_source ::
    "EVstone \<Rightarrow> string \<Rightarrow> EVstone list ptr \<Rightarrow> evp \<Rightarrow> (EVaction \<times> evp) option" where
  "general_source stone_num name output_list e =
    (case find_index (\<lambda>s. fst s = name) (sources e) of
       None \<Rightarrow> Some (-1, emit (Eff_message ''Failed to find source'') e)
     | Some i \<Rightarrow> do {
         let a = snd (sources e ! i);
         src \<leftarrow> source_heap e a;
         let e = e\<lparr>source_heap := (source_heap e)(a \<mapsto> src\<lparr>local_stone_id := stone_num\<rparr>)\<rparr>;
         INT_EVassoc_split_action stone_num (map_option upto_term output_list) e })"

definition general_bridge ::
    "env \<Rightarrow> (string \<Rightarrow> addr ptr) \<Rightarrow> EVstone \<Rightarrow> string \<Rightarrow> evp \<Rightarrow> (EVaction \<times> evp) option" where
  \<comment> \<open>the first parameter after \<open>env\<close> is attr_list_from_string of ATL; a target that could not
     be read is an uninitialised variable\<close>
  "general_bridge env attrs_of stone_num spec e =
    do {
      (target, contact) \<leftarrow> parse_bridge_action_spec spec 0;
      rest \<leftarrow> skip_c (length ''Bridge Action '') spec;
      assert_c (scan_d rest \<noteq> None);
      let attrs = attrs_of contact;
      (ret, e) \<leftarrow> INT_EVassoc_bridge_action env stone_num attrs target e;
      Some (ret, (case attrs of None \<Rightarrow> e | Some a \<Rightarrow> emit (Eff_free_attr_list a) e))
    }"

definition INT_EVassoc_general_action ::
    "env \<Rightarrow> (string \<Rightarrow> addr ptr) \<Rightarrow> EVstone \<Rightarrow> string ptr \<Rightarrow> EVstone list ptr \<Rightarrow> evp
      \<Rightarrow> (EVaction \<times> evp) option" where
  "INT_EVassoc_general_action env attrs_of stone_num action_spec output_list e =
    (case (action_type_of action_spec, action_spec) of
       (Action_Immediate, Some spec) \<Rightarrow> do {
         (ret, e) \<leftarrow> INT_EVassoc_immediate_action env stone_num spec None e;
         e \<leftarrow> general_outputs stone_num ret output_list e;
         Some (ret, e) }
     | (Action_Multi, Some spec) \<Rightarrow> do {
         (ret, e) \<leftarrow> INT_EVassoc_multi_action env stone_num spec None e;
         e \<leftarrow> general_outputs stone_num ret output_list e;
         Some (ret, e) }
     | (Action_Bridge, Some spec) \<Rightarrow> general_bridge env attrs_of stone_num spec e
     | (Action_Terminal, Some spec) \<Rightarrow> general_terminal env stone_num (drop 5 spec) e
     | (Action_Split, _) \<Rightarrow>
         INT_EVassoc_split_action stone_num (map_option upto_term output_list) e
     | (Action_Source, Some spec) \<Rightarrow> general_source stone_num (drop 7 spec) output_list e
     | _ \<Rightarrow> Some (-1, emit (Eff_message ''Missed case'') e))"

definition INT_EVcreate_stone_action ::
    "env \<Rightarrow> (string \<Rightarrow> addr ptr) \<Rightarrow> string ptr \<Rightarrow> evp \<Rightarrow> (EVstone \<times> evp) option" where
  "INT_EVcreate_stone_action env attrs_of action_spec e =
    do {
      let (stone, e) = INT_EValloc_stone e;
      (_, e) \<leftarrow> INT_EVassoc_general_action env attrs_of stone action_spec None e;
      Some (stone, e)
    }"

end
