(* ===== verification/Dfg_Types.thy ===== *)
theory Dfg_Types
  imports CM_Control Ev_General
begin

text \<open>
  The data of the distributed dataflow layer (ev_dfg_internal.h): configurations and the
  actions that build them, the master, its nodes and its message queue, the client, the
  dataflow graph, and the state of one process of which they are parts. The fields the C code
  links by pointers (master->dfg, dfg->master, master->client and so on) are the components of
  \<open>world\<close>: a process has at most one of each.
\<close>

section \<open>Configurations\<close>

datatype EVconfig_action_type =
    ACT_no_op | ACT_create | ACT_add_action | ACT_set_auto_period | ACT_link_port | ACT_link_dest
  | ACT_unlink_port | ACT_unlink_dest | ACT_set_attrs | ACT_destroy | ACT_freeze | ACT_unfreeze
  | ACT_assign_node | ACT_create_bridge

text \<open>The union of a configuration action; in \<open>U_link\<close> a member not written is \<open>None\<close>.\<close>

datatype action_u =
    U_create "string ptr"
  | U_bridge string int
  | U_period int int
  | U_link "int option" "int option"     \<comment> \<open>port, dest_id\<close>
  | U_attrs "addr ptr"
  | U_assign int
  | U_none

record EVdfg_config_action =
  ca_type :: EVconfig_action_type
  ca_stone_id :: int
  ca_node :: "int option"               \<comment> \<open>node_for_action, None when not initialised\<close>
  ca_u :: action_u

datatype EVstone_condition = EVstone_Undeployed | EVstone_Deployed | EVstone_Frozen | EVstone_Lost

text \<open>
  Arrays with a count are lists; \<open>action\<close> counts as the first of \<open>action_count\<close> actions, the
  others are \<open>extra_actions\<close>.
\<close>

record EVdfg_stone_state =
  ss_node :: int
  bridge_stone :: bool
  ss_stone_id :: int
  ss_attrs :: "addr ptr"
  period_secs :: int
  period_usecs :: int
  out_links :: "int list"
  in_links :: "int list"
  ss_action :: "string ptr"
  extra_actions :: "string ptr list"
  bridge_target :: int
  condition :: EVstone_condition

record EVdfg_configuration =
  stones :: "EVdfg_stone_state list"
  pending_action_count :: int
  pending_action_queue :: "EVdfg_config_action list ptr"

definition action_count :: "EVdfg_stone_state \<Rightarrow> nat" where
  "action_count s = Suc (length (extra_actions s))"

section \<open>Messages\<close>

record leaf_element =
  leaf_name :: "string ptr"
  FMtype :: "string ptr"

record EVnode_join_msg =
  nj_node_name :: string
  nj_contact_string :: string
  nj_sinks :: "leaf_element list"
  nj_sources :: "leaf_element list"

record deploy_msg_stone =
  global_stone_id :: int
  dm_attrs :: "string ptr"
  dm_period_secs :: int
  dm_period_usecs :: int
  dm_out_links :: "int list"
  dm_action :: "string ptr"
  xactions :: "string ptr list"

record EVdfg_deploy_msg =
  dm_canonical_name :: "string ptr"
  stone_list :: "deploy_msg_stone list"

datatype EVmaster_msg_type =
  DFGnode_join | DFGdeploy_ack | DFGshutdown_contrib | DFGconn_shutdown | DFGflush_reconfig

datatype master_msg_u =
    U_node_join EVnode_join_msg
  | U_deploy_ack "string ptr"
  | U_shutdown_contrib int
  | U_conn_shutdown int
  | U_flush_reconfig int "(int \<times> string) list"     \<comment> \<open>reconfig, (stone, attr_str)\<close>

record EVmaster_msg =
  msg_conn :: "conn ptr"
  msg_u :: master_msg_u

fun type_of_u :: "master_msg_u \<Rightarrow> EVmaster_msg_type" where
  "type_of_u (U_node_join _) = DFGnode_join"
| "type_of_u (U_deploy_ack _) = DFGdeploy_ack"
| "type_of_u (U_shutdown_contrib _) = DFGshutdown_contrib"
| "type_of_u (U_conn_shutdown _) = DFGconn_shutdown"
| "type_of_u (U_flush_reconfig _ _) = DFGflush_reconfig"

definition msg_type :: "EVmaster_msg \<Rightarrow> EVmaster_msg_type" where
  "msg_type m = type_of_u (msg_u m)"

text \<open>What is written to a connection.\<close>

datatype dfg_msg =
    Msg_node_join EVnode_join_msg
  | Msg_deploy EVdfg_deploy_msg
  | Msg_deploy_ack "string ptr"
  | Msg_ready int
  | Msg_shutdown int
  | Msg_shutdown_contrib int
  | Msg_conn_shutdown int
  | Msg_flush_reconfig int "(int \<times> string) list"

datatype dfg_effect =
    CMwrite conn dfg_msg
  | REVstone_set_output "conn ptr" int int int
  | REVstone_add_split_target "conn ptr" int int
  | REVstone_remove_split_target "conn ptr" int int
  | REVset_attr_list "conn ptr" int "addr ptr"
  | REVdestroy_stone "conn ptr" int
  | REVfreeze_stone "conn ptr" int
  | REVunfreeze_stone "conn ptr" int
  | Conn_add_reference conn
  | Conn_close conn
  | Conn_dereference conn
  | Free_attr_list addr
  | Add_ref_attr_list "addr ptr"
  | Wake_server_thread
  | Warning string int

section \<open>Master, client and graph\<close>

datatype DFG_State =
  DFG_Joining | DFG_Starting | DFG_Running | DFG_Reconfiguring | DFG_Shutting_Down

abbreviation (input) "STATUS_FAILED \<equiv> (-3::int)"
abbreviation (input) "STATUS_UNDETERMINED \<equiv> (-2::int)"
abbreviation (input) "STATUS_NO_CONTRIBUTION \<equiv> (-1::int)"
abbreviation (input) "STATUS_SUCCESS \<equiv> (0::int)"
abbreviation (input) "STATUS_FORCE \<equiv> (0x10000::int)"

record EVint_node_rec =
  node_name :: string
  canonical_name :: "string ptr"
  contact_list :: "addr ptr"
  str_contact_list :: "string ptr"
  node_conn :: "conn ptr"
  node_self :: bool
  shutdown_status_contribution :: int
  needs_ready :: bool

record EVmaster =
  node_join_handler :: "addr ptr"
  node_fail_handler :: "addr ptr"
  node_reconfig_handler :: "addr ptr"
  queued_messages :: "EVmaster_msg list"
  state :: DFG_State
  nodes :: "EVint_node_rec list"
  my_contact_str :: "string ptr"
  reconfig :: bool
  old_node_count :: int
  sig_reconfig_bool :: bool
  no_deployment :: bool

text \<open>The condition list is the array before its terminating -1, \<open>None\<close> when NULL.\<close>

record EVclient =
  shutdown_conditions :: "int list ptr"
  master_contact_str :: "string ptr"
  shutdown_value :: int
  ready_condition :: int
  master_connection :: "conn ptr"
  my_node_id :: int
  already_shutdown :: bool
  active_sink_count :: int
  pending_auto_list :: "(int \<times> int \<times> int) list ptr"   \<comment> \<open>stone, secs, usecs\<close>

record EVdfg =
  dfg_stone_count :: int
  deployed_stone_count :: int
  dfg_stones :: "int ptr list"                \<comment> \<open>the handles: NULL for a bridge stone\<close>
  realized :: bool
  deploy_ack_count :: int
  deploy_ack_condition :: int
  deployed_state :: "EVdfg_configuration ptr"
  working_state :: EVdfg_configuration
  transfer_events_list :: "(int \<times> int \<times> int \<times> int) list"

record world =
  w_evp :: evp
  w_cl :: control_list
  w_master :: "EVmaster ptr"
  w_client :: "EVclient ptr"
  w_dfg :: "EVdfg ptr"
  w_effects :: "dfg_effect list"              \<comment> \<open>newest first\<close>

definition w_emit :: "dfg_effect \<Rightarrow> world \<Rightarrow> world" where
  "w_emit x w = w\<lparr>w_effects := x # w_effects w\<rparr>"

definition mod_master :: "(EVmaster \<Rightarrow> EVmaster) \<Rightarrow> world \<Rightarrow> world option" where
  "mod_master f w = do { m \<leftarrow> w_master w; Some (w\<lparr>w_master := Some (f m)\<rparr>) }"

definition mod_client :: "(EVclient \<Rightarrow> EVclient) \<Rightarrow> world \<Rightarrow> world option" where
  "mod_client f w = do { c \<leftarrow> w_client w; Some (w\<lparr>w_client := Some (f c)\<rparr>) }"

definition mod_dfg :: "(EVdfg \<Rightarrow> EVdfg) \<Rightarrow> world \<Rightarrow> world option" where
  "mod_dfg f w = do { d \<leftarrow> w_dfg w; Some (w\<lparr>w_dfg := Some (f d)\<rparr>) }"

definition node_at :: "int \<Rightarrow> world \<Rightarrow> EVint_node_rec option" where
  "node_at i w = do { m \<leftarrow> w_master w; nth_c (nodes m) i }"

definition mod_node :: "int \<Rightarrow> (EVint_node_rec \<Rightarrow> EVint_node_rec) \<Rightarrow> world \<Rightarrow> world option" where
  "mod_node i f w =
    do {
      m \<leftarrow> w_master w;
      n \<leftarrow> nth_c (nodes m) i;
      Some (w\<lparr>w_master := Some (m\<lparr>nodes := (nodes m)[nat i := f n]\<rparr>)\<rparr>)
    }"

definition node_count :: "EVmaster \<Rightarrow> int" where
  "node_count m = int (length (nodes m))"

text \<open>Steps of the event path layer and of the condition list, on the world.\<close>

definition on_evp :: "(evp \<Rightarrow> ('a \<times> evp) option) \<Rightarrow> world \<Rightarrow> ('a \<times> world) option" where
  "on_evp f w = do { (r, e) \<leftarrow> f (w_evp w); Some (r, w\<lparr>w_evp := e\<rparr>) }"

definition run_evp :: "(evp \<Rightarrow> evp option) \<Rightarrow> world \<Rightarrow> world option" where
  "run_evp f w = do { e \<leftarrow> f (w_evp w); Some (w\<lparr>w_evp := e\<rparr>) }"

definition CManager_lock :: "world \<Rightarrow> world option" where
  \<comment> \<open>a lock that is held never becomes free again for the thread holding it\<close>
  "CManager_lock w =
    (let e = w_evp w in if locked e > 0 then None else Some (w\<lparr>w_evp := e\<lparr>locked := locked e + 1\<rparr>\<rparr>))"

definition CManager_unlock :: "world \<Rightarrow> world option" where
  "CManager_unlock w =
    (let e = w_evp w in if locked e = 1 then Some (w\<lparr>w_evp := e\<lparr>locked := 0\<rparr>\<rparr>) else None)"

definition CManager_locked :: "world \<Rightarrow> bool" where
  "CManager_locked w \<longleftrightarrow> locked (w_evp w) \<noteq> 0"

section \<open>The environment\<close>

text \<open>
  The application's handlers, called with the lock dropped and free to change the state through
  the interface; ATL's conversion of attribute lists; the connection manager.
\<close>

record dfg_env =
  ev_env :: env
  attr_list_from_string :: "string \<Rightarrow> addr ptr"
  attr_list_to_string :: "addr \<Rightarrow> string"
  call_join_handler :: "addr \<Rightarrow> string \<Rightarrow> world \<Rightarrow> world option"
  call_fail_handler :: "addr \<Rightarrow> string ptr \<Rightarrow> int \<Rightarrow> world \<Rightarrow> world option"
  call_reconfig_handler :: "addr \<Rightarrow> world \<Rightarrow> world option"
  network_step :: "world \<Rightarrow> world option"             \<comment> \<open>CMcontrol_list_wait\<close>
  other_thread :: "int \<Rightarrow> world \<Rightarrow> world option"      \<comment> \<open>what runs while a thread waits\<close>
  cm_sleep :: "world \<Rightarrow> world option"                 \<comment> \<open>INT_CMsleep\<close>
  conn_closed :: "conn \<Rightarrow> bool"
  this_thread :: nat
  my_contact_string :: string                          \<comment> \<open>of INT_CMget_contact_list\<close>
  master_conn :: "string \<Rightarrow> conn ptr"                \<comment> \<open>INT_CMget_conn of a contact string\<close>

definition w_wait_env :: "dfg_env \<Rightarrow> world wait_env" where
  "w_wait_env env =
    \<lparr>get_cl = w_cl, put_cl = (\<lambda>cl w. w\<lparr>w_cl := cl\<rparr>), CMcontrol_list_wait = network_step env,
     cond_block = other_thread env, thr_self = this_thread env, cm_locked = CManager_locked\<rparr>"

definition CMCondition_wait :: "dfg_env \<Rightarrow> int \<Rightarrow> world \<Rightarrow> (int \<times> world) option" where
  \<comment> \<open>the interface function: lock, wait, unlock\<close>
  "CMCondition_wait env c w =
    do {
      w \<leftarrow> CManager_lock w;
      (r, w) \<leftarrow> INT_CMCondition_wait (w_wait_env env) c w;
      w \<leftarrow> CManager_unlock w;
      Some (r, w)
    }"

definition CMCondition_signal :: "int \<Rightarrow> world \<Rightarrow> world option" where
  "CMCondition_signal c w =
    do {
      w \<leftarrow> CManager_lock w;
      CManager_unlock (w\<lparr>w_cl := INT_CMCondition_signal c (w_cl w)\<rparr>)
    }"

definition w_condition_get :: "dfg_env \<Rightarrow> conn ptr \<Rightarrow> world \<Rightarrow> int \<times> world" where
  "w_condition_get env con w =
    (let (c, cl) = INT_CMCondition_get (conn_closed env) con (w_cl w) in (c, w\<lparr>w_cl := cl\<rparr>))"

definition w_signal :: "int \<Rightarrow> world \<Rightarrow> world" where
  "w_signal c w = w\<lparr>w_cl := INT_CMCondition_signal c (w_cl w)\<rparr>"

end
