(* ===== verification/Dfg_Config.thy ===== *)
theory Dfg_Config
  imports Dfg_Types
begin

text \<open>
  Building a configuration (ev_dfg.c): the queue of pending actions, find_stone_state and
  EVdfg_perform_act_on_state with one definition per kind of action. A stone pointer is the
  position in the stones array, so that two pointers to one stone stay one stone.

  The effect list returned beside the configuration holds the attribute lists freed.
\<close>

section \<open>The pending actions\<close>

definition EVdfg_add_act_to_queue ::
    "EVdfg_config_action \<Rightarrow> EVdfg_configuration \<Rightarrow> EVdfg_configuration" where
  \<comment> \<open>bridges are created before anything else is done\<close>
  "EVdfg_add_act_to_queue act cf =
    (case pending_action_queue cf of
       None \<Rightarrow> cf\<lparr>pending_action_count := 1, pending_action_queue := Some [act]\<rparr>
     | Some q \<Rightarrow>
         cf\<lparr>pending_action_count := pending_action_count cf + 1,
            pending_action_queue :=
              Some (if ca_type act = ACT_create_bridge then act # q else q @ [act])\<rparr>)"

definition queue_if :: "bool \<Rightarrow> EVdfg_config_action \<Rightarrow> EVdfg_configuration \<Rightarrow> EVdfg_configuration" where
  "queue_if build_queue act cf = (if build_queue then EVdfg_add_act_to_queue act cf else cf)"

section \<open>Stones\<close>

definition find_stone_state :: "int \<Rightarrow> EVdfg_configuration \<Rightarrow> nat ptr" where
  "find_stone_state stone_id cf = find_index (\<lambda>s. stone_id = ss_stone_id s) (stones cf)"

definition mod_ss :: "nat \<Rightarrow> (EVdfg_stone_state \<Rightarrow> EVdfg_stone_state) \<Rightarrow> EVdfg_configuration
    \<Rightarrow> EVdfg_configuration" where
  "mod_ss i f cf = cf\<lparr>stones := (stones cf)[i := f (stones cf ! i)]\<rparr>"

definition new_stone_state :: "int \<Rightarrow> EVdfg_stone_state" where
  "new_stone_state stone_id =
    \<lparr>ss_node = -1, bridge_stone = False, ss_stone_id = stone_id, ss_attrs = None,
     period_secs = -1, period_usecs = -1, out_links = [], in_links = [], ss_action = None,
     extra_actions = [], bridge_target = -1, condition = EVstone_Undeployed\<rparr>"

definition act_create :: "EVdfg_config_action \<Rightarrow> bool \<Rightarrow> EVdfg_configuration
    \<Rightarrow> EVdfg_configuration option" where
  \<comment> \<open>both ACT_create and ACT_create_bridge; a bridge takes its node from the action\<close>
  "act_create act build_queue cf =
    do {
      st \<leftarrow> (case (ca_type act, ca_u act) of
          (ACT_create_bridge, U_bridge action target) \<Rightarrow> do {
            node \<leftarrow> ca_node act;
            Some ((new_stone_state (ca_stone_id act))
              \<lparr>bridge_stone := True, ss_action := Some action, bridge_target := target,
               ss_node := node\<rparr>) }
        | (ACT_create, U_create action) \<Rightarrow>
            Some ((new_stone_state (ca_stone_id act))\<lparr>ss_action := action\<rparr>)
        | _ \<Rightarrow> None);
      Some (queue_if build_queue act (cf\<lparr>stones := stones cf @ [st]\<rparr>))
    }"

definition act_add_action :: "EVdfg_config_action \<Rightarrow> bool \<Rightarrow> EVdfg_configuration
    \<Rightarrow> (int \<times> EVdfg_configuration) option" where
  \<comment> \<open>an action given to a stone that had none is not queued\<close>
  "act_add_action act build_queue cf =
    (case ca_u act of
       U_create action \<Rightarrow>
         (case find_stone_state (ca_stone_id act) cf of
            None \<Rightarrow> Some (0, cf)
          | Some s \<Rightarrow>
              if ss_action (stones cf ! s) = None
              then Some (1, mod_ss s (\<lambda>st. st\<lparr>ss_action := action\<rparr>) cf)
              else Some (1, queue_if build_queue act
                     (mod_ss s (\<lambda>st. st\<lparr>extra_actions := extra_actions st @ [action]\<rparr>) cf)))
     | _ \<Rightarrow> None)"

definition act_set_auto_period :: "EVdfg_config_action \<Rightarrow> bool \<Rightarrow> EVdfg_configuration
    \<Rightarrow> (int \<times> EVdfg_configuration) option" where
  "act_set_auto_period act build_queue cf =
    (case ca_u act of
       U_period secs usecs \<Rightarrow>
         (case find_stone_state (ca_stone_id act) cf of
            None \<Rightarrow> Some (0, cf)
          | Some s \<Rightarrow> Some (1, queue_if build_queue act
              (mod_ss s (\<lambda>st. st\<lparr>period_secs := secs, period_usecs := usecs\<rparr>) cf)))
     | _ \<Rightarrow> None)"

definition act_set_attrs :: "EVdfg_config_action \<Rightarrow> bool \<Rightarrow> EVdfg_configuration
    \<Rightarrow> (int \<times> EVdfg_configuration \<times> dfg_effect list) option" where
  "act_set_attrs act build_queue cf =
    (case ca_u act of
       U_attrs attrs \<Rightarrow>
         (case find_stone_state (ca_stone_id act) cf of
            None \<Rightarrow> Some (0, cf, [])
          | Some s \<Rightarrow>
              (let freed = (case ss_attrs (stones cf ! s) of None \<Rightarrow> [] | Some a \<Rightarrow> [Free_attr_list a])
               in Some (1, queue_if build_queue act (mod_ss s (\<lambda>st. st\<lparr>ss_attrs := attrs\<rparr>) cf), freed)))
     | _ \<Rightarrow> None)"

definition act_assign_node :: "EVdfg_config_action \<Rightarrow> bool \<Rightarrow> EVdfg_configuration
    \<Rightarrow> (int \<times> EVdfg_configuration) option" where
  "act_assign_node act build_queue cf =
    (case ca_u act of
       U_assign dest_node \<Rightarrow>
         (case find_stone_state (ca_stone_id act) cf of
            None \<Rightarrow> Some (0, cf)
          | Some s \<Rightarrow> Some (1, queue_if build_queue act
              (mod_ss s (\<lambda>st. st\<lparr>ss_node := dest_node\<rparr>) cf)))
     | _ \<Rightarrow> None)"

definition act_destroy :: "EVdfg_config_action \<Rightarrow> bool \<Rightarrow> EVdfg_configuration
    \<Rightarrow> int \<times> EVdfg_configuration" where
  \<comment> \<open>the stone stays in the configuration\<close>
  "act_destroy act build_queue cf =
    (case find_stone_state (ca_stone_id act) cf of
       None \<Rightarrow> (0, cf)
     | Some s \<Rightarrow> (1, queue_if build_queue act cf))"

definition destroy_action :: "int \<Rightarrow> EVdfg_config_action" where
  \<comment> \<open>the action built for a bridge stone that lost its link: only type and stone_id are set\<close>
  "destroy_action stone_id =
    \<lparr>ca_type = ACT_destroy, ca_stone_id = stone_id, ca_node = None, ca_u = U_none\<rparr>"

section \<open>Linking\<close>

definition link_u :: "EVdfg_config_action \<Rightarrow> (int option \<times> int option) option" where
  "link_u act = (case ca_u act of U_link port dest \<Rightarrow> Some (port, dest) | _ \<Rightarrow> None)"

definition add_in_link :: "nat \<Rightarrow> int \<Rightarrow> EVdfg_configuration \<Rightarrow> EVdfg_configuration" where
  "add_in_link d stone_id cf =
    mod_ss d (\<lambda>st. if stone_id \<in> set (in_links st) then st
                   else st\<lparr>in_links := in_links st @ [stone_id]\<rparr>) cf"

definition grow_links :: "int list \<Rightarrow> int \<Rightarrow> int list" where
  \<comment> \<open>a first allocation is filled with zero bytes, an extension with -1\<close>
  "grow_links l port =
    (if l = [] then replicate (nat (port + 1)) 0
     else if int (length l) < port + 1 then l @ replicate (nat (port + 1) - length l) (-1)
     else l)"

definition act_unlink_port :: "EVdfg_config_action \<Rightarrow> bool \<Rightarrow> EVdfg_configuration
    \<Rightarrow> (int \<times> EVdfg_configuration) option" where
  "act_unlink_port act build_queue cf =
    do {
      (p, _) \<leftarrow> link_u act;
      port \<leftarrow> p;
      case find_stone_state (ca_stone_id act) cf of
        None \<Rightarrow> Some (0, cf)
      | Some s \<Rightarrow>
          (let links = out_links (stones cf ! s)
           in if int (length links) \<le> port then Some (0, cf)
              else do {
                old \<leftarrow> nth_c links port;
                if old = -1 then Some (0, cf)
                else
                  (case find_stone_state old cf of
                     None \<Rightarrow> Some (0, cf)
                   | Some d \<Rightarrow>
                       (let dest = stones cf ! d;
                            cf = (if bridge_stone dest
                                  then snd (act_destroy (destroy_action (ss_stone_id dest)) build_queue cf)
                                  else cf);
                            cf = mod_ss s (\<lambda>st. st\<lparr>out_links := (out_links st)[nat port := -1]\<rparr>) cf
                        in Some (1, queue_if build_queue act cf))) })
    }"

definition unlink_port_action :: "EVdfg_stone_state \<Rightarrow> int \<Rightarrow> EVdfg_config_action" where
  "unlink_port_action src port =
    \<lparr>ca_type = ACT_unlink_port, ca_stone_id = ss_stone_id src, ca_node = Some (ss_node src),
     ca_u = U_link (Some port) None\<rparr>"

definition freeze_action :: "EVdfg_stone_state \<Rightarrow> EVdfg_config_action" where
  "freeze_action src =
    \<lparr>ca_type = ACT_freeze, ca_stone_id = ss_stone_id src, ca_node = Some (ss_node src),
     ca_u = U_none\<rparr>"

definition drop_old_link :: "nat \<Rightarrow> int \<Rightarrow> bool \<Rightarrow> EVdfg_configuration
    \<Rightarrow> EVdfg_configuration option" where
  \<comment> \<open>in act_link_port: a port that is in use is unlinked first\<close>
  "drop_old_link s port build_queue cf =
    do {
      old \<leftarrow> nth_c (out_links (stones cf ! s)) port;
      if build_queue \<and> old \<noteq> -1
      then map_option snd
             (act_unlink_port (unlink_port_action (stones cf ! s) port) build_queue cf)
      else Some cf
    }"

definition set_link :: "EVdfg_config_action \<Rightarrow> nat \<Rightarrow> int \<Rightarrow> int \<Rightarrow> bool \<Rightarrow> EVdfg_configuration
    \<Rightarrow> EVdfg_configuration" where
  \<comment> \<open>the end of act_link_port: a deployed stone is frozen before its link is changed\<close>
  "set_link act s port dest_id build_queue cf =
    (let cf = mod_ss s (\<lambda>st. st\<lparr>out_links := (out_links st)[nat port := dest_id]\<rparr>) cf
     in if \<not> build_queue then cf
        else if condition (stones cf ! s) = EVstone_Deployed then
          EVdfg_add_act_to_queue act
            (mod_ss s (\<lambda>st. st\<lparr>condition := EVstone_Frozen\<rparr>)
              (EVdfg_add_act_to_queue (freeze_action (stones cf ! s)) cf))
        else EVdfg_add_act_to_queue act cf)"

definition act_link_port :: "EVdfg_config_action \<Rightarrow> bool \<Rightarrow> EVdfg_configuration
    \<Rightarrow> (int \<times> EVdfg_configuration) option" where
  \<comment> \<open>the destination is dereferenced without a test\<close>
  "act_link_port act build_queue cf =
    do {
      (p, d) \<leftarrow> link_u act;
      port \<leftarrow> p;
      dest_id \<leftarrow> d;
      case find_stone_state (ca_stone_id act) cf of
        None \<Rightarrow> Some (0, cf)
      | Some s \<Rightarrow> do {
          let cf' = mod_ss s (\<lambda>st. st\<lparr>out_links := grow_links (out_links st) port\<rparr>) cf;
          dst \<leftarrow> find_stone_state dest_id cf;
          cf' \<leftarrow> drop_old_link s port build_queue (add_in_link dst (ca_stone_id act) cf');
          Some (1, set_link act s port dest_id build_queue cf') }
    }"

definition act_link_dest :: "EVdfg_config_action \<Rightarrow> bool \<Rightarrow> EVdfg_configuration
    \<Rightarrow> (int \<times> EVdfg_configuration) option" where
  \<comment> \<open>the source is dereferenced before it is tested\<close>
  "act_link_dest act build_queue cf =
    do {
      (_, d) \<leftarrow> link_u act;
      dest_id \<leftarrow> d;
      s \<leftarrow> find_stone_state (ca_stone_id act) cf;
      if dest_id \<in> set (out_links (stones cf ! s)) then Some (0, cf)
      else do {
        let cf' = mod_ss s (\<lambda>st. st\<lparr>out_links := out_links st @ [dest_id]\<rparr>) cf;
        dst \<leftarrow> find_stone_state dest_id cf;
        Some (1, queue_if build_queue act (add_in_link dst (ca_stone_id act) cf')) }
    }"

definition move_down :: "nat \<Rightarrow> int list \<Rightarrow> int list" where
  \<comment> \<open>memmove over cell i; the count stays, so the last cell remains twice\<close>
  "move_down i l = take i l @ drop (Suc i) l @ [last l]"

fun unlink_dest_loop :: "nat \<Rightarrow> nat \<Rightarrow> nat \<Rightarrow> nat ptr \<Rightarrow> bool \<Rightarrow> EVdfg_config_action \<Rightarrow> nat
    \<Rightarrow> EVdfg_configuration \<Rightarrow> (EVdfg_config_action \<times> nat \<times> EVdfg_configuration) option" where
  \<comment> \<open>\<open>n\<close> iterations from link \<open>i\<close> of stone \<open>s\<close>; \<open>dest\<close> may be NULL. A link to a bridge stone
     in front of the destination is removed and the action turned into ACT_unlink_port.\<close>
  "unlink_dest_loop 0 i s dest build_queue act found cf = Some (act, found, cf)"
| "unlink_dest_loop (Suc n) i s dest build_queue act found cf =
    do {
      d \<leftarrow> dest;
      let dest_id = ss_stone_id (stones cf ! d);
      let link = out_links (stones cf ! s) ! i;
      if link = dest_id then
        unlink_dest_loop n (Suc i) s dest build_queue act (Suc found)
          (mod_ss s (\<lambda>st. st\<lparr>out_links := move_down i (out_links st)\<rparr>) cf)
      else do {
        b \<leftarrow> find_stone_state link cf;
        let bridge = stones cf ! b;
        hit \<leftarrow> (if bridge_stone bridge then do { t \<leftarrow> nth_c (out_links bridge) 0; Some (t = dest_id) }
                else Some False);
        if hit then do {
          let cf = snd (act_destroy (destroy_action (ss_stone_id bridge)) build_queue cf);
          (_, dst) \<leftarrow> link_u act;
          unlink_dest_loop n (Suc i) s dest build_queue
            (act\<lparr>ca_type := ACT_unlink_port, ca_u := U_link (Some (int i)) dst\<rparr>) (Suc found)
            (mod_ss s (\<lambda>st. st\<lparr>out_links := move_down i (out_links st)\<rparr>) cf) }
        else unlink_dest_loop n (Suc i) s dest build_queue act found cf }
    }"

definition act_unlink_dest :: "EVdfg_config_action \<Rightarrow> bool \<Rightarrow> EVdfg_configuration
    \<Rightarrow> (int \<times> EVdfg_configuration) option" where
  "act_unlink_dest act build_queue cf =
    do {
      (_, d) \<leftarrow> link_u act;
      dest_id \<leftarrow> d;
      case find_stone_state (ca_stone_id act) cf of
        None \<Rightarrow> Some (0, cf)
      | Some s \<Rightarrow> do {
          (act, found, cf) \<leftarrow> unlink_dest_loop (length (out_links (stones cf ! s))) 0 s
              (find_stone_state dest_id cf) build_queue act 0 cf;
          Some (if found = 0 then (0, cf) else (1, queue_if build_queue act cf)) }
    }"

section \<open>All actions\<close>

definition no_effects :: "(int \<times> EVdfg_configuration) option
    \<Rightarrow> (int \<times> EVdfg_configuration \<times> dfg_effect list) option" where
  "no_effects r = map_option (\<lambda>(n, cf). (n, cf, [])) r"

definition EVdfg_perform_act_on_state :: "EVdfg_config_action \<Rightarrow> bool \<Rightarrow> EVdfg_configuration
    \<Rightarrow> (int \<times> EVdfg_configuration \<times> dfg_effect list) option" where
  "EVdfg_perform_act_on_state act build_queue cf =
    (case ca_type act of
       ACT_create_bridge \<Rightarrow> map_option (\<lambda>cf. (1, cf, [])) (act_create act build_queue cf)
     | ACT_create \<Rightarrow> map_option (\<lambda>cf. (1, cf, [])) (act_create act build_queue cf)
     | ACT_add_action \<Rightarrow> no_effects (act_add_action act build_queue cf)
     | ACT_set_auto_period \<Rightarrow> no_effects (act_set_auto_period act build_queue cf)
     | ACT_link_port \<Rightarrow> no_effects (act_link_port act build_queue cf)
     | ACT_link_dest \<Rightarrow> no_effects (act_link_dest act build_queue cf)
     | ACT_unlink_port \<Rightarrow> no_effects (act_unlink_port act build_queue cf)
     | ACT_unlink_dest \<Rightarrow> no_effects (act_unlink_dest act build_queue cf)
     | ACT_set_attrs \<Rightarrow> act_set_attrs act build_queue cf
     | ACT_assign_node \<Rightarrow> no_effects (act_assign_node act build_queue cf)
     | ACT_destroy \<Rightarrow> (let (n, cf) = act_destroy act build_queue cf in Some (n, cf, []))
     | ACT_no_op \<Rightarrow> Some (0, cf, [Warning ''Bad action in perform_act_on_state'' 0])
     | ACT_freeze \<Rightarrow> Some (0, cf, [Warning ''Bad action in perform_act_on_state'' 10])
     | ACT_unfreeze \<Rightarrow> Some (0, cf, [Warning ''Bad action in perform_act_on_state'' 11]))"

end
