(* ===== verification/Dfg_Build.thy ===== *)
theory Dfg_Build
  imports Dfg_Config
begin

text \<open>
  The interface a program builds its graph with (ev_dfg.c: INT_EVdfg_create, the stone, link and
  attribute functions, node assignment, INT_EVdfg_realize with its connectivity check) and the
  bookkeeping on whole configurations: copying, bridge stones between nodes, unfreezing, the
  assignment of pending actions to nodes. A stone handle (EVdfg_stone) is its stone_id.
\<close>

section \<open>Creating the graph\<close>

definition new_dfg_configuration :: EVdfg_configuration where
  "new_dfg_configuration = \<lparr>stones = [], pending_action_count = 0, pending_action_queue = None\<rparr>"

definition INT_EVdfg_create :: "world \<Rightarrow> world option" where
  "INT_EVdfg_create w =
    do {
      let d = \<lparr>dfg_stone_count = 0, deployed_stone_count = 0, dfg_stones = [], realized = False,
               deploy_ack_count = 0, deploy_ack_condition = -1, deployed_state = None,
               working_state = new_dfg_configuration, transfer_events_list = []\<rparr>;
      w \<leftarrow> mod_master (\<lambda>m. m\<lparr>reconfig := False, sig_reconfig_bool := False, old_node_count := 1,
              state := DFG_Joining\<rparr>) w;
      Some (w\<lparr>w_dfg := Some d\<rparr>)
    }"

definition perform_working :: "EVdfg_config_action \<Rightarrow> bool \<Rightarrow> world \<Rightarrow> (int \<times> world) option" where
  \<comment> \<open>EVdfg_perform_act_on_state(dfg->working_state, act, build_queue)\<close>
  "perform_working act build_queue w =
    do {
      d \<leftarrow> w_dfg w;
      (r, cf, effs) \<leftarrow> EVdfg_perform_act_on_state act build_queue (working_state d);
      Some (r, w\<lparr>w_dfg := Some (d\<lparr>working_state := cf\<rparr>), w_effects := effs @ w_effects w\<rparr>)
    }"

definition mk_act :: "EVconfig_action_type \<Rightarrow> int \<Rightarrow> action_u \<Rightarrow> EVdfg_config_action" where
  "mk_act t stone_id u = \<lparr>ca_type = t, ca_stone_id = stone_id, ca_node = None, ca_u = u\<rparr>"

definition dfg_stone_id :: "int \<Rightarrow> int" where
  \<comment> \<open>0x80000000 | n, stored in an int\<close>
  "dfg_stone_id n = to_s32 (0x80000000 OR n)"

definition INT_EVdfg_create_stone :: "string ptr \<Rightarrow> world \<Rightarrow> (int \<times> world) option" where
  "INT_EVdfg_create_stone action w =
    do {
      d \<leftarrow> w_dfg w;
      let sid = dfg_stone_id (dfg_stone_count d);
      w \<leftarrow> mod_dfg (\<lambda>d. d\<lparr>dfg_stone_count := dfg_stone_count d + 1,
                        dfg_stones := dfg_stones d @ [Some sid]\<rparr>) w;
      (_, w) \<leftarrow> perform_working (mk_act ACT_create sid (U_create action)) True w;
      Some (sid, w)
    }"

definition INT_EVdfg_create_source_stone :: "string \<Rightarrow> world \<Rightarrow> (int \<times> world) option" where
  "INT_EVdfg_create_source_stone src_name w =
    INT_EVdfg_create_stone (Some (''source:'' @ src_name)) w"

definition INT_EVdfg_create_sink_stone :: "string \<Rightarrow> world \<Rightarrow> (int \<times> world) option" where
  "INT_EVdfg_create_sink_stone snk_name w =
    INT_EVdfg_create_stone (Some (''sink:'' @ snk_name)) w"

definition INT_EVdfg_add_action :: "int \<Rightarrow> string ptr \<Rightarrow> world \<Rightarrow> world option" where
  "INT_EVdfg_add_action sid action w =
    map_option snd (perform_working (mk_act ACT_add_action sid (U_create action)) True w)"

definition INT_EVdfg_add_sink_action :: "int \<Rightarrow> string \<Rightarrow> world \<Rightarrow> world option" where
  "INT_EVdfg_add_sink_action sid snk_name w =
    INT_EVdfg_add_action sid (Some (''sink:'' @ snk_name)) w"

definition INT_EVdfg_enable_auto_stone :: "int \<Rightarrow> int \<Rightarrow> int \<Rightarrow> world \<Rightarrow> world option" where
  "INT_EVdfg_enable_auto_stone sid secs usecs w =
    map_option snd (perform_working (mk_act ACT_set_auto_period sid (U_period secs usecs)) True w)"

definition INT_EVdfg_link_port :: "int \<Rightarrow> int \<Rightarrow> int \<Rightarrow> world \<Rightarrow> (int \<times> world) option" where
  "INT_EVdfg_link_port src port dest w =
    (if port < 0 then Some (0, w)
     else perform_working (mk_act ACT_link_port src (U_link (Some port) (Some dest))) True w)"

definition INT_EVdfg_link_dest :: "int \<Rightarrow> int \<Rightarrow> world \<Rightarrow> (int \<times> world) option" where
  "INT_EVdfg_link_dest src dest w =
    perform_working (mk_act ACT_link_dest src (U_link None (Some dest))) True w"

definition INT_EVdfg_unlink_port :: "int \<Rightarrow> int \<Rightarrow> world \<Rightarrow> (int \<times> world) option" where
  "INT_EVdfg_unlink_port src port w =
    (if port < 0 then Some (0, w)
     else perform_working (mk_act ACT_unlink_port src (U_link (Some port) None)) True w)"

definition INT_EVdfg_unlink_dest :: "int \<Rightarrow> int \<Rightarrow> world \<Rightarrow> (int \<times> world) option" where
  "INT_EVdfg_unlink_dest src dest w =
    perform_working (mk_act ACT_unlink_dest src (U_link None (Some dest))) True w"

definition INT_EVdfg_set_attr_list :: "int \<Rightarrow> addr ptr \<Rightarrow> world \<Rightarrow> (int \<times> world) option" where
  "INT_EVdfg_set_attr_list sid attrs w =
    perform_working (mk_act ACT_set_attrs sid (U_attrs attrs)) True (w_emit (Add_ref_attr_list attrs) w)"

definition deployed_attrs :: "int \<Rightarrow> EVdfg \<Rightarrow> addr ptr option" where
  \<comment> \<open>the attributes of the stone in the deployed state; None when it is not there\<close>
  "deployed_attrs sid d =
    do {
      cf \<leftarrow> deployed_state d;
      s \<leftarrow> find_stone_state sid cf;
      Some (ss_attrs (stones cf ! s))
    }"

definition INT_EVdfg_get_attr_list :: "int \<Rightarrow> world \<Rightarrow> (addr ptr \<times> world) option" where
  \<comment> \<open>the second search, for a stone not deployed yet, is in the deployed state too: with no
     deployed state that is a NULL pointer\<close>
  "INT_EVdfg_get_attr_list sid w =
    do {
      d \<leftarrow> w_dfg w;
      case deployed_attrs sid d of
        Some a \<Rightarrow> Some (a, if a = None then w else w_emit (Add_ref_attr_list a) w)
      | None \<Rightarrow> do { _ \<leftarrow> deployed_state d; Some (None, w) }
    }"

section \<open>Nodes\<close>

definition INT_EVmaster_register_node_list :: "string list \<Rightarrow> world \<Rightarrow> world option" where
  "INT_EVmaster_register_node_list names w =
    mod_master (\<lambda>m. m\<lparr>nodes := map (\<lambda>n. \<lparr>node_name = n, canonical_name = Some n,
      contact_list = None, str_contact_list = None, node_conn = None, node_self = False,
      shutdown_status_contribution = STATUS_UNDETERMINED, needs_ready = False\<rparr>) names\<rparr>) w"

fun find_node :: "string \<Rightarrow> EVint_node_rec list \<Rightarrow> int \<Rightarrow> int \<Rightarrow> int" where
  \<comment> \<open>the last node with this canonical or given name; \<open>i\<close> is the position of the next one\<close>
  "find_node name [] i node = node"
| "find_node name (n # ns) i node =
    find_node name ns (i + 1)
      (if canonical_name n = Some name \<or> node_name n = name then i else node)"

definition INT_EVdfg_assign_node :: "int \<Rightarrow> string \<Rightarrow> world \<Rightarrow> (int \<times> world) option" where
  "INT_EVdfg_assign_node sid name w =
    do {
      m \<leftarrow> w_master w;
      let node = find_node name (nodes m) 0 (-1);
      if node = -1 then Some (0, w_emit (Warning ''Node not found in node list'' 0) w)
      else do {
        (_, w) \<leftarrow> perform_working (mk_act ACT_assign_node sid (U_assign node)) True w;
        Some (1, w) }
    }"

section \<open>Checking the connections\<close>

definition max_output_for_action :: "string ptr \<Rightarrow> int \<Rightarrow> int option" where
  \<comment> \<open>None: exit(1)\<close>
  "max_output_for_action action cur_max =
    (if cur_max = -1 then Some (-1)
     else case action_type_of action of
       Action_NoAction \<Rightarrow> Some cur_max
     | Action_Terminal \<Rightarrow> Some cur_max
     | Action_Bridge \<Rightarrow> Some cur_max
     | Action_Immediate \<Rightarrow>
         Some (if strncmp_eq (the action) ''Router Action'' 13 then -1 else max 1 cur_max)
     | Action_Multi \<Rightarrow> Some (-1)
     | Action_Split \<Rightarrow> Some (-1)
     | Action_Source \<Rightarrow> Some (-1)
     | _ \<Rightarrow> None)"

fun max_outputs :: "string ptr list \<Rightarrow> int \<Rightarrow> int option" where
  "max_outputs [] m = Some m"
| "max_outputs (a # as) m = do { m \<leftarrow> max_output_for_action a m; max_outputs as m }"

definition check_stone :: "EVmaster \<Rightarrow> int \<Rightarrow> EVdfg_stone_state \<Rightarrow> dfg_effect list option" where
  \<comment> \<open>one iteration of check_connectivity: its warnings. A warning about the outputs prints the
     name of the stone's node.\<close>
  "check_stone m i s =
    (let unassigned = (if ss_node s = -1
                       then [Warning ''stone has not been assigned to any node'' i] else [])
     in if bridge_stone s then Some unassigned
        else do {
          mx \<leftarrow> max_outputs (ss_action s # extra_actions s) 0;
          if out_links s = [] \<and> mx > 0 then do {
            _ \<leftarrow> nth_c (nodes m) (ss_node s);
            Some (Warning ''stone has no outputs connected to other stones'' i # unassigned) }
          else if mx = 1 \<and> length (out_links s) > 1 then do {
            _ \<leftarrow> nth_c (nodes m) (ss_node s);
            Some (Warning ''stone has more than one output port linked'' i # unassigned) }
          else if mx = 1 \<and> hd (out_links s) = -1 then do {
            _ \<leftarrow> nth_c (nodes m) (ss_node s);
            Some (Warning ''output port 0 is unlinked'' i # unassigned) }
          else Some unassigned })"

fun check_connectivity :: "EVmaster \<Rightarrow> int \<Rightarrow> EVdfg_stone_state list \<Rightarrow> dfg_effect list option" where
  "check_connectivity m i [] = Some []"
| "check_connectivity m i (s # ss) =
    do { ws \<leftarrow> check_stone m i s; rest \<leftarrow> check_connectivity m (i + 1) ss; Some (rest @ ws) }"

definition INT_EVdfg_realize :: "world \<Rightarrow> (int \<times> world) option" where
  "INT_EVdfg_realize w =
    do {
      d \<leftarrow> w_dfg w;
      m \<leftarrow> w_master w;
      effs \<leftarrow> check_connectivity m 0 (stones (working_state d));
      let w = w\<lparr>w_effects := effs @ w_effects w\<rparr>;
      w \<leftarrow> (if realized d then mod_master (\<lambda>m. m\<lparr>reconfig := False\<rparr>) w else Some w);
      w \<leftarrow> mod_dfg (\<lambda>d. d\<lparr>realized := True\<rparr>) w;
      Some (1, w)
    }"

section \<open>Bridge stones\<close>

definition create_bridge_stone :: "EVdfg_stone_state \<Rightarrow> int \<Rightarrow> world \<Rightarrow> (int \<times> world) option" where
  \<comment> \<open>the bridge is a stone no program has a handle of; its link to the target is only kept in
     the configuration, not queued\<close>
  "create_bridge_stone target node w =
    do {
      d \<leftarrow> w_dfg w;
      m \<leftarrow> w_master w;
      n \<leftarrow> nth_c (nodes m) (ss_node target);
      contact \<leftarrow> (if node_self n then my_contact_str m else str_contact_list n);
      action \<leftarrow> INT_create_bridge_action_spec (ss_stone_id target) contact;
      let sid = dfg_stone_id (dfg_stone_count d);
      w \<leftarrow> mod_dfg (\<lambda>d. d\<lparr>dfg_stone_count := dfg_stone_count d + 1,
                        dfg_stones := dfg_stones d @ [None]\<rparr>) w;
      (_, w) \<leftarrow> perform_working \<lparr>ca_type = ACT_create_bridge, ca_stone_id = sid, ca_node = Some node,
                  ca_u = U_bridge action (ss_stone_id target)\<rparr> True w;
      (_, w) \<leftarrow> perform_working \<lparr>ca_type = ACT_link_dest, ca_stone_id = sid, ca_node = Some node,
                  ca_u = U_link None (Some (ss_stone_id target))\<rparr> False w;
      Some (sid, w)
    }"

fun last_with_id :: "int \<Rightarrow> EVdfg_stone_state list \<Rightarrow> nat \<Rightarrow> nat ptr \<Rightarrow> nat ptr" where
  \<comment> \<open>the loops over k without a break: the last stone with this id\<close>
  "last_with_id sid [] k r = r"
| "last_with_id sid (s # ss) k r =
    last_with_id sid ss (Suc k) (if ss_stone_id s = sid then Some k else r)"

fun redirect_action :: "int \<Rightarrow> int \<Rightarrow> EVdfg_config_action list \<Rightarrow> EVdfg_config_action list" where
  \<comment> \<open>the first pending link to the target is turned to the bridge\<close>
  "redirect_action target bridge [] = []"
| "redirect_action target bridge (a # as) =
    (case (ca_type a, ca_u a) of
       (ACT_link_port, U_link p (Some d)) \<Rightarrow>
         if d = target then a\<lparr>ca_u := U_link p (Some bridge)\<rparr> # as
         else a # redirect_action target bridge as
     | (ACT_link_dest, U_link p (Some d)) \<Rightarrow>
         if d = target then a\<lparr>ca_u := U_link p (Some bridge)\<rparr> # as
         else a # redirect_action target bridge as
     | _ \<Rightarrow> a # redirect_action target bridge as)"

definition redirect_pending :: "int \<Rightarrow> int \<Rightarrow> EVdfg_configuration \<Rightarrow> EVdfg_configuration" where
  "redirect_pending target bridge cf =
    cf\<lparr>pending_action_queue := map_option (redirect_action target bridge) (pending_action_queue cf)\<rparr>"

definition bridge_link :: "nat \<Rightarrow> nat \<Rightarrow> world \<Rightarrow> world option" where
  \<comment> \<open>the body of add_bridge_stones for link \<open>j\<close> of stone \<open>i\<close>\<close>
  "bridge_link i j w =
    do {
      d \<leftarrow> w_dfg w;
      let cf = working_state d;
      let cur = stones cf ! i;
      case last_with_id (out_links cur ! j) (stones cf) 0 None of
        None \<Rightarrow> Some w
      | Some t \<Rightarrow>
          (let target = stones cf ! t
           in if bridge_stone cur \<or> ss_node cur = ss_node target then Some w
              else do {
                (sid, w) \<leftarrow> create_bridge_stone target (ss_node cur) w;
                d \<leftarrow> w_dfg w;
                let cf = mod_ss i (\<lambda>st. st\<lparr>out_links := (out_links st)[j := sid]\<rparr>) (working_state d);
                b \<leftarrow> last_with_id sid (stones cf) 0 None;
                let cf = redirect_pending (ss_stone_id target) (ss_stone_id (stones cf ! b)) cf;
                let cf = mod_ss b (\<lambda>st. st\<lparr>ss_node := ss_node cur\<rparr>) cf;
                Some (w\<lparr>w_dfg := Some (d\<lparr>working_state := cf\<rparr>)\<rparr>) })
    }"

fun bridge_links :: "nat \<Rightarrow> nat \<Rightarrow> nat \<Rightarrow> world \<Rightarrow> world option" where
  \<comment> \<open>\<open>n\<close> links of stone \<open>i\<close> from link \<open>j\<close>; their number does not change in the loop\<close>
  "bridge_links 0 i j w = Some w"
| "bridge_links (Suc n) i j w = do { w \<leftarrow> bridge_link i j w; bridge_links n i (Suc j) w }"

partial_function (option) bridge_stones_from :: "nat \<Rightarrow> world \<Rightarrow> world option" where
  \<comment> \<open>the outer loop: the stones created on the way are visited too\<close>
  "bridge_stones_from i w =
    do {
      d \<leftarrow> w_dfg w;
      if i < length (stones (working_state d)) then do {
        w \<leftarrow> bridge_links (length (out_links (stones (working_state d) ! i))) i 0 w;
        bridge_stones_from (Suc i) w }
      else Some w
    }"

definition add_bridge_stones :: "world \<Rightarrow> world option" where
  "add_bridge_stones w = bridge_stones_from 0 w"

section \<open>Unfreezing, assigning and dropping actions\<close>

definition unfreeze_action :: "EVdfg_stone_state \<Rightarrow> EVdfg_config_action" where
  "unfreeze_action s =
    \<lparr>ca_type = ACT_unfreeze, ca_stone_id = ss_stone_id s, ca_node = Some (ss_node s), ca_u = U_none\<rparr>"

fun unfreeze_from :: "nat \<Rightarrow> nat \<Rightarrow> EVdfg_configuration \<Rightarrow> EVdfg_configuration" where
  "unfreeze_from 0 i cf = cf"
| "unfreeze_from (Suc n) i cf =
    unfreeze_from n (Suc i)
      (if condition (stones cf ! i) = EVstone_Frozen
       then mod_ss i (\<lambda>st. st\<lparr>condition := EVstone_Deployed\<rparr>)
              (EVdfg_add_act_to_queue (unfreeze_action (stones cf ! i)) cf)
       else cf)"

definition add_unfreeze_actions :: "EVdfg_configuration \<Rightarrow> EVdfg_configuration" where
  "add_unfreeze_actions cf = unfreeze_from (length (stones cf)) 0 cf"

definition assign_action :: "EVdfg_configuration \<Rightarrow> EVmaster \<Rightarrow> EVdfg_config_action
    \<Rightarrow> EVdfg_config_action option" where
  \<comment> \<open>an action for a failed node is dropped; its node_for_action keeps the value it had\<close>
  "assign_action cf m act =
    do {
      s \<leftarrow> find_stone_state (ca_stone_id act) cf;
      let node = ss_node (stones cf ! s);
      n \<leftarrow> nth_c (nodes m) node;
      Some (if shutdown_status_contribution n = STATUS_FAILED then act\<lparr>ca_type := ACT_no_op\<rparr>
            else act\<lparr>ca_node := Some node\<rparr>)
    }"

definition map_pending :: "(EVdfg_config_action \<Rightarrow> EVdfg_config_action option) \<Rightarrow> EVdfg_configuration
    \<Rightarrow> EVdfg_configuration option" where
  \<comment> \<open>the loops over the pending actions: with a NULL queue the count must be 0\<close>
  "map_pending f cf =
    (case pending_action_queue cf of
       None \<Rightarrow> if pending_action_count cf \<le> 0 then Some cf else None
     | Some q \<Rightarrow> do { q \<leftarrow> map_c f q; Some (cf\<lparr>pending_action_queue := Some q\<rparr>) })"

definition assign_actions_to_nodes :: "EVmaster \<Rightarrow> EVdfg_configuration \<Rightarrow> EVdfg_configuration option" where
  "assign_actions_to_nodes m cf = map_pending (assign_action cf m) cf"

definition remove_actions_for_node :: "int \<Rightarrow> EVdfg_configuration \<Rightarrow> EVdfg_configuration option" where
  "remove_actions_for_node node cf =
    map_pending (\<lambda>act. do { n \<leftarrow> ca_node act;
      Some (if n = node then act\<lparr>ca_type := ACT_no_op\<rparr> else act) }) cf"

section \<open>Copying a configuration\<close>

definition copy_dfg_state :: "EVdfg_configuration \<Rightarrow> EVdfg_configuration \<times> dfg_effect list" where
  \<comment> \<open>the strings and link arrays are copied, the attribute lists shared; no pending actions\<close>
  "copy_dfg_state cf =
    (\<lparr>stones = stones cf, pending_action_count = 0, pending_action_queue = None\<rparr>,
     rev (map (\<lambda>s. Add_ref_attr_list (ss_attrs s)) (filter (\<lambda>s. ss_attrs s \<noteq> None) (stones cf))))"

definition free_dfg_state :: "EVdfg_configuration \<Rightarrow> dfg_effect list" where
  \<comment> \<open>what freeing a configuration does outside its own memory\<close>
  "free_dfg_state cf =
    rev (map (\<lambda>s. Free_attr_list (the (ss_attrs s))) (filter (\<lambda>s. ss_attrs s \<noteq> None) (stones cf)))"

end
