(* ===== verification/Dfg_Client.thy ===== *)
theory Dfg_Client
  imports Dfg_Build
begin

text \<open>
  The client's side of a dataflow (ev_dfg.c): taking the stones of a deploy message into the
  event path layer, starting its automatic stones, noticing the master's shutdown, and the
  values it reports.
\<close>

section \<open>Deployment\<close>

fun alloc_deployed :: "deploy_msg_stone list \<Rightarrow> evp \<Rightarrow> int list \<times> evp" where
  \<comment> \<open>a local stone for each stone of the message, entered in the table of global ids\<close>
  "alloc_deployed [] e = ([], e)"
| "alloc_deployed (s # ss) e =
    (let (loc, e) = INT_EValloc_stone e;
         e = add_stone_to_lookup loc (global_stone_id s) e;
         (locs, e) = alloc_deployed ss e
     in (loc # locs, e))"

definition local_link :: "evp \<Rightarrow> int \<Rightarrow> int" where
  "local_link e g = (if g \<noteq> -1 then lookup_local_stone e g else -1)"

definition local_list :: "evp \<Rightarrow> int list \<Rightarrow> EVstone list option" where
  \<comment> \<open>the array of 1024 cells with its terminator\<close>
  "local_list e links =
    (if length links < 1024 then Some (map (local_link e) links @ [-1]) else None)"

fun assoc_actions :: "dfg_env \<Rightarrow> EVstone \<Rightarrow> EVstone list \<Rightarrow> string ptr list \<Rightarrow> evp \<Rightarrow> evp option" where
  "assoc_actions env loc ll [] e = Some e"
| "assoc_actions env loc ll (a # as) e =
    do {
      (_, e) \<leftarrow> INT_EVassoc_general_action (ev_env env) (attr_list_from_string env) loc a (Some ll) e;
      assoc_actions env loc ll as e
    }"

definition set_deployed_attrs :: "dfg_env \<Rightarrow> EVstone \<Rightarrow> string ptr \<Rightarrow> evp \<Rightarrow> evp option" where
  "set_deployed_attrs env loc attrs e =
    (case attrs of
       None \<Rightarrow> Some e
     | Some str \<Rightarrow> do {
         let a = attr_list_from_string env str;
         e \<leftarrow> INT_EVset_attr_list loc a e;
         Some (case a of None \<Rightarrow> e | Some a \<Rightarrow> emit (Eff_free_attr_list a) e) })"

definition deploy_stone :: "dfg_env \<Rightarrow> EVstone \<Rightarrow> deploy_msg_stone \<Rightarrow> evp \<Rightarrow> evp option" where
  "deploy_stone env loc s e =
    do {
      e \<leftarrow> set_deployed_attrs env loc (dm_attrs s) e;
      ll \<leftarrow> local_list e (dm_out_links s);
      assoc_actions env loc ll (dm_action s # xactions s) e
    }"

fun deploy_stones :: "dfg_env \<Rightarrow> (EVstone \<times> deploy_msg_stone) list \<Rightarrow> evp \<Rightarrow> evp option" where
  "deploy_stones env [] e = Some e"
| "deploy_stones env ((loc, s) # ss) e =
    do { e \<leftarrow> deploy_stone env loc s e; deploy_stones env ss e }"

definition auto_entries :: "(EVstone \<times> deploy_msg_stone) list \<Rightarrow> (int \<times> int \<times> int) list" where
  "auto_entries ss =
    map (\<lambda>(loc, s). (loc, dm_period_secs s, dm_period_usecs s))
      (filter (\<lambda>(loc, s). dm_period_secs s \<noteq> -1) ss)"

definition sink_stones :: "deploy_msg_stone list \<Rightarrow> int" where
  \<comment> \<open>the stones counted in active_sink_count: those whose first action is a sink\<close>
  "sink_stones ss = int (length (filter (\<lambda>s. action_type_of (dm_action s) = Action_Terminal) ss))"

definition dfg_deploy_handler :: "dfg_env \<Rightarrow> conn ptr \<Rightarrow> EVdfg_deploy_msg \<Rightarrow> world \<Rightarrow> world option" where
  "dfg_deploy_handler env con msg w =
    do {
      w \<leftarrow> CManager_lock w;
      let (locs, e) = alloc_deployed (stone_list msg) (w_evp w);
      let ss = zip locs (stone_list msg);
      e \<leftarrow> deploy_stones env ss e;
      let w = w\<lparr>w_evp := e\<rparr>;
      w \<leftarrow> mod_client (\<lambda>c. c\<lparr>active_sink_count := active_sink_count c + sink_stones (stone_list msg)\<rparr>) w;
      w \<leftarrow> (case con of
              None \<Rightarrow> Some w
            | Some _ \<Rightarrow> do {
                c \<leftarrow> w_client w;
                mc \<leftarrow> master_connection c;
                Some (w_emit (CMwrite mc (Msg_deploy_ack (dm_canonical_name msg))) w) });
      let autos = auto_entries ss;
      w \<leftarrow> mod_client (\<lambda>c. c\<lparr>pending_auto_list := (if autos = [] then None else Some autos)\<rparr>) w;
      CManager_unlock w
    }"

section \<open>Becoming ready\<close>

fun enable_autos :: "(int \<times> int \<times> int) list \<Rightarrow> evp \<Rightarrow> evp option" where
  "enable_autos [] e = Some e"
| "enable_autos ((s, secs, usecs) # as) e =
    do { e \<leftarrow> INT_EVenable_auto_stone s secs usecs e; enable_autos as e }"

definition enable_auto_stones :: "world \<Rightarrow> world option" where
  "enable_auto_stones w =
    do {
      c \<leftarrow> w_client w;
      let w = w\<lparr>w_client := Some (c\<lparr>pending_auto_list := None\<rparr>)\<rparr>;
      run_evp (enable_autos (case pending_auto_list c of None \<Rightarrow> [] | Some l \<Rightarrow> l)) w
    }"

definition dfg_ready_handler :: "int \<Rightarrow> world \<Rightarrow> world option" where
  \<comment> \<open>the argument is the node_id of the message\<close>
  "dfg_ready_handler node_id w =
    do {
      w \<leftarrow> mod_client (\<lambda>c. c\<lparr>my_node_id := node_id\<rparr>) w;
      w \<leftarrow> CManager_lock w;
      w \<leftarrow> enable_auto_stones w;
      c \<leftarrow> w_client w;
      let w = (if ready_condition c \<noteq> -1 then w_signal (ready_condition c) w else w);
      CManager_unlock w
    }"

definition INT_EVclient_ready_wait :: "dfg_env \<Rightarrow> world \<Rightarrow> (int \<times> world) option" where
  "INT_EVclient_ready_wait env w =
    do {
      c \<leftarrow> w_client w;
      (_, w) \<leftarrow> INT_CMCondition_wait (w_wait_env env) (ready_condition c) w;
      w \<leftarrow> mod_client (\<lambda>c. c\<lparr>ready_condition := -1\<rparr>) w;
      Some (1, w)
    }"

section \<open>Shutdown as the client sees it\<close>

definition signal_all :: "int list ptr \<Rightarrow> world \<Rightarrow> world" where
  "signal_all conds w = fold w_signal (case conds of None \<Rightarrow> [] | Some l \<Rightarrow> l) w"

definition dfg_shutdown_handler :: "int \<Rightarrow> world \<Rightarrow> world option" where
  "dfg_shutdown_handler value w =
    do {
      w \<leftarrow> CManager_lock w;
      w \<leftarrow> mod_client (\<lambda>c. c\<lparr>shutdown_value := value, already_shutdown := True\<rparr>) w;
      c \<leftarrow> w_client w;
      CManager_unlock (signal_all (shutdown_conditions c) w)
    }"

definition new_shutdown_condition :: "dfg_env \<Rightarrow> conn ptr \<Rightarrow> world \<Rightarrow> (int \<times> world) option" where
  "new_shutdown_condition env con w =
    do {
      c \<leftarrow> w_client w;
      let old = (case shutdown_conditions c of None \<Rightarrow> [] | Some l \<Rightarrow> l);
      let (n, w) = w_condition_get env con w;
      w \<leftarrow> mod_client (\<lambda>c. c\<lparr>shutdown_conditions := Some (old @ [n])\<rparr>) w;
      Some (n, w)
    }"

definition INT_EVclient_wait_for_shutdown :: "dfg_env \<Rightarrow> world \<Rightarrow> (int \<times> world) option" where
  "INT_EVclient_wait_for_shutdown env w =
    do {
      c \<leftarrow> w_client w;
      if already_shutdown c then Some (shutdown_value c, w)
      else do {
        (n, w) \<leftarrow> new_shutdown_condition env (master_connection c) w;
        (_, w) \<leftarrow> INT_CMCondition_wait (w_wait_env env) n w;
        c \<leftarrow> w_client w;
        Some (shutdown_value c, w) }
    }"

definition INT_EVclient_test_for_shutdown :: "world \<Rightarrow> bool option" where
  "INT_EVclient_test_for_shutdown w = map_option already_shutdown (w_client w)"

definition INT_EVclient_active_sink_count :: "world \<Rightarrow> int option" where
  "INT_EVclient_active_sink_count w = map_option active_sink_count (w_client w)"

definition INT_EVclient_source_active :: "addr \<Rightarrow> world \<Rightarrow> bool option" where
  "INT_EVclient_source_active src w =
    map_option (\<lambda>s. local_stone_id s \<noteq> -1) (source_heap (w_evp w) src)"

section \<open>Registering sources and sinks\<close>

definition INT_EVclient_register_source :: "string \<Rightarrow> addr \<Rightarrow> evp \<Rightarrow> evp" where
  "INT_EVclient_register_source name src e = e\<lparr>sources := sources e @ [(name, src)]\<rparr>"

definition INT_EVclient_register_sink_handler ::
    "string \<Rightarrow> addr ptr \<Rightarrow> addr \<Rightarrow> addr ptr \<Rightarrow> evp \<Rightarrow> evp" where
  "INT_EVclient_register_sink_handler name format_list handler client_data e =
    e\<lparr>sink_handlers := sink_handlers e @ [\<lparr>sink_name = name, sink_format_list = format_list,
        sink_handler = handler, sink_client_data = client_data\<rparr>]\<rparr>"

definition INT_EVclient_register_raw_sink_handler ::
    "string \<Rightarrow> addr \<Rightarrow> addr ptr \<Rightarrow> evp \<Rightarrow> evp" where
  "INT_EVclient_register_raw_sink_handler name handler client_data e =
    e\<lparr>sink_handlers := sink_handlers e @ [\<lparr>sink_name = name, sink_format_list = None,
        sink_handler = handler, sink_client_data = client_data\<rparr>]\<rparr>"

section \<open>Reporting attributes\<close>

fun attrs_entries :: "dfg_env \<Rightarrow> int \<Rightarrow> nat \<Rightarrow> evp \<Rightarrow> (int \<times> string) list option" where
  \<comment> \<open>\<open>n\<close> stones from number \<open>cur\<close>; the stone pointer is not tested\<close>
  "attrs_entries env cur 0 e = Some []"
| "attrs_entries env cur (Suc n) e =
    do {
      s \<leftarrow> stone_deref cur e;
      st \<leftarrow> stone_at s e;
      rest \<leftarrow> attrs_entries env (cur + 1) n e;
      Some (case stone_attrs st of
              None \<Rightarrow> rest
            | Some a \<Rightarrow> (lookup_global_stone e (local_id st), attr_list_to_string env a) # rest)
    }"

definition build_attrs_msg :: "dfg_env \<Rightarrow> evp \<Rightarrow> (int \<times> string) list option" where
  "build_attrs_msg env e = attrs_entries env (stone_base_num e) (nat (stone_count e)) e"

end
