(* ===== verification/Dfg_Master.thy ===== *)
theory Dfg_Master
  imports Dfg_Client
begin

text \<open>
  The master (ev_dfg.c): deploying stones to the nodes and performing the pending actions on
  them, counting deploy acknowledgements, joins, lost connections, flushed attributes, the
  decision to shut down, and the message queue with the table that says which message is
  handled in which state.
\<close>

section \<open>Deploying\<close>

definition deploy_stone_msg :: "dfg_env \<Rightarrow> EVdfg_stone_state \<Rightarrow> deploy_msg_stone" where
  \<comment> \<open>add_stone_to_deploy_msg: the link of a bridge is not deployed\<close>
  "deploy_stone_msg env s =
    \<lparr>global_stone_id = ss_stone_id s, dm_attrs = map_option (attr_list_to_string env) (ss_attrs s),
     dm_period_secs = period_secs s, dm_period_usecs = period_usecs s,
     dm_out_links = (if bridge_stone s then [] else out_links s),
     dm_action = ss_action s, xactions = extra_actions s\<rparr>"

definition handle_deploy_ack :: "world \<Rightarrow> world option" where
  \<comment> \<open>called with the lock dropped\<close>
  "handle_deploy_ack w =
    do {
      w \<leftarrow> mod_dfg (\<lambda>d. d\<lparr>deploy_ack_count := deploy_ack_count d + 1\<rparr>) w;
      d \<leftarrow> w_dfg w;
      m \<leftarrow> w_master w;
      if deploy_ack_count d = node_count m \<and> deploy_ack_condition d \<noteq> -1 then do {
        w \<leftarrow> CMCondition_signal (deploy_ack_condition d) w;
        w \<leftarrow> mod_dfg (\<lambda>d. d\<lparr>deploy_ack_condition := -1\<rparr>) w;
        assert_c (state m = DFG_Starting);
        mod_master (\<lambda>m. m\<lparr>state := DFG_Running\<rparr>) w }
      else if state m = DFG_Reconfiguring \<and> deploy_ack_count d = node_count m then
        mod_master (\<lambda>m. m\<lparr>state := DFG_Running\<rparr>) w
      else Some w
    }"

definition send_deploy :: "dfg_env \<Rightarrow> EVint_node_rec \<Rightarrow> EVdfg_deploy_msg \<Rightarrow> world \<Rightarrow> world option" where
  \<comment> \<open>to the node's connection, or to the client of this process\<close>
  "send_deploy env n msg w =
    (case node_conn n of
       Some c \<Rightarrow> Some (w_emit (CMwrite c (Msg_deploy msg)) w)
     | None \<Rightarrow> do {
         w \<leftarrow> CManager_unlock w;
         w \<leftarrow> dfg_deploy_handler env None msg w;
         w \<leftarrow> handle_deploy_ack w;
         CManager_lock w })"

definition to_deploy :: "EVdfg \<Rightarrow> int \<Rightarrow> nat list option" where
  \<comment> \<open>the positions of the stones of a node from deployed_stone_count up to stone_count\<close>
  "to_deploy d node =
    (let first = nat (deployed_stone_count d); n = nat (dfg_stone_count d)
     in if n > length (stones (working_state d)) then None
        else Some (filter (\<lambda>i. ss_node (stones (working_state d) ! i) = node) [first..<n]))"

definition mark_deployed :: "nat list \<Rightarrow> EVdfg_configuration \<Rightarrow> EVdfg_configuration" where
  "mark_deployed is cf = fold (\<lambda>i. mod_ss i (\<lambda>s. s\<lparr>condition := EVstone_Deployed\<rparr>)) is cf"

definition deploy_to_node :: "dfg_env \<Rightarrow> int \<Rightarrow> world \<Rightarrow> world option" where
  "deploy_to_node env node w =
    do {
      d \<leftarrow> w_dfg w;
      is \<leftarrow> to_deploy d node;
      if is = [] then do {
        w \<leftarrow> mod_dfg (\<lambda>d. d\<lparr>deploy_ack_count := deploy_ack_count d + 1\<rparr>) w;
        mod_node node (\<lambda>n. n\<lparr>needs_ready := False\<rparr>) w }
      else do {
        n \<leftarrow> node_at node w;
        let msg = \<lparr>dm_canonical_name = canonical_name n,
                   stone_list = map (\<lambda>i. deploy_stone_msg env (stones (working_state d) ! i)) is\<rparr>;
        w \<leftarrow> mod_dfg (\<lambda>d. d\<lparr>working_state := mark_deployed is (working_state d)\<rparr>) w;
        w \<leftarrow> mod_node node (\<lambda>n. n\<lparr>needs_ready := True\<rparr>) w;
        send_deploy env n msg w }
    }"

definition cancel_for_stone :: "nat \<Rightarrow> int \<Rightarrow> EVdfg_config_action list \<Rightarrow> EVdfg_config_action list" where
  \<comment> \<open>the actions on a stone from position \<open>i\<close> on become no-ops\<close>
  "cancel_for_stone i sid q =
    take i q @ map (\<lambda>a. if ca_stone_id a = sid then a\<lparr>ca_type := ACT_no_op\<rparr> else a) (drop i q)"

fun collect_creates :: "nat \<Rightarrow> nat \<Rightarrow> int \<Rightarrow> EVdfg_stone_state list \<Rightarrow> EVdfg_config_action list
    \<Rightarrow> (EVdfg_stone_state list \<times> EVdfg_config_action list) option" where
  \<comment> \<open>\<open>n\<close> actions from position \<open>i\<close>: the stones created on the node, and the queue with all
     their actions cancelled\<close>
  "collect_creates 0 i node ss q = Some ([], q)"
| "collect_creates (Suc n) i node ss q =
    (let act = q ! i
     in if ca_type act = ACT_create \<or> ca_type act = ACT_create_bridge then do {
          an \<leftarrow> ca_node act;
          if an = node then do {
            (rest, q) \<leftarrow> collect_creates n (Suc i) node ss (cancel_for_stone i (ca_stone_id act) q);
            Some (filter (\<lambda>s. ss_stone_id s = ca_stone_id act) ss @ rest, q) }
          else collect_creates n (Suc i) node ss q }
        else collect_creates n (Suc i) node ss q)"

definition build_deploy_msg_for_node_stones :: "dfg_env \<Rightarrow> nat \<Rightarrow> world \<Rightarrow> world option" where
  "build_deploy_msg_for_node_stones env act_num w =
    do {
      d \<leftarrow> w_dfg w;
      let cf = working_state d;
      q \<leftarrow> pending_action_queue cf;
      orig_act \<leftarrow> nth_c q (int act_num);
      node \<leftarrow> ca_node orig_act;
      n \<leftarrow> node_at node w;
      (ss, q) \<leftarrow> collect_creates (length q - act_num) act_num node (stones cf) q;
      w \<leftarrow> mod_dfg (\<lambda>d. d\<lparr>working_state := cf\<lparr>pending_action_queue := Some q\<rparr>\<rparr>) w;
      let msg = \<lparr>dm_canonical_name = canonical_name n, stone_list = map (deploy_stone_msg env) ss\<rparr>;
      w \<leftarrow> (if needs_ready n then Some w
            else do {
              w \<leftarrow> mod_node node (\<lambda>n. n\<lparr>needs_ready := True\<rparr>) w;
              mod_dfg (\<lambda>d. d\<lparr>deploy_ack_count := deploy_ack_count d - 1\<rparr>) w });
      send_deploy env n msg w
    }"

section \<open>Performing the pending actions\<close>

definition perform_action :: "dfg_env \<Rightarrow> nat \<Rightarrow> EVdfg_config_action \<Rightarrow> world \<Rightarrow> world option" where
  \<comment> \<open>one iteration of perform_actions_on_nodes, here or through a remote call\<close>
  "perform_action env i act w =
    do {
      node \<leftarrow> ca_node act;
      n \<leftarrow> node_at node w;
      let sid = ca_stone_id act;
      let con = node_conn n;
      case ca_type act of
        ACT_create \<Rightarrow> build_deploy_msg_for_node_stones env i w
      | ACT_create_bridge \<Rightarrow> build_deploy_msg_for_node_stones env i w
      | ACT_link_port \<Rightarrow> do {
          (p, d) \<leftarrow> link_u act; port \<leftarrow> p; dest \<leftarrow> d;
          if node_self n then map_option snd (on_evp (INT_EVstone_set_output sid port dest) w)
          else Some (w_emit (REVstone_set_output con sid port dest) w) }
      | ACT_link_dest \<Rightarrow> do {
          (p, d) \<leftarrow> link_u act; dest \<leftarrow> d;
          if node_self n then map_option snd (on_evp (INT_EVstone_add_split_target sid dest) w)
          else Some (w_emit (REVstone_add_split_target con sid dest) w) }
      | ACT_unlink_port \<Rightarrow> do {
          (p, d) \<leftarrow> link_u act; port \<leftarrow> p;
          if node_self n then map_option snd (on_evp (INT_EVstone_set_output sid port (-1)) w)
          else Some (w_emit (REVstone_set_output con sid port (-1)) w) }
      | ACT_unlink_dest \<Rightarrow> do {
          (p, d) \<leftarrow> link_u act; dest \<leftarrow> d;
          if node_self n then run_evp (INT_EVstone_remove_split_target sid dest) w
          else Some (w_emit (REVstone_remove_split_target con sid dest) w) }
      | ACT_set_attrs \<Rightarrow>
          (case ca_u act of
             U_attrs a \<Rightarrow>
               if node_self n then run_evp (INT_EVset_attr_list sid a) w
               else Some (w_emit (REVset_attr_list con sid a) w)
           | _ \<Rightarrow> None)
      | ACT_destroy \<Rightarrow>
          if node_self n then map_option snd (on_evp (INT_EVdestroy_stone (ev_env env) sid) w)
          else Some (w_emit (REVdestroy_stone con sid) w)
      | ACT_freeze \<Rightarrow>
          if node_self n then map_option snd (on_evp (INT_EVfreeze_stone sid) w)
          else Some (w_emit (REVfreeze_stone con sid) w)
      | ACT_unfreeze \<Rightarrow>
          if node_self n then map_option snd (on_evp (INT_EVunfreeze_stone sid) w)
          else Some (w_emit (REVunfreeze_stone con sid) w)
      | _ \<Rightarrow> Some w
    }"

definition pending :: "world \<Rightarrow> EVdfg_config_action list option" where
  "pending w =
    do {
      d \<leftarrow> w_dfg w;
      case pending_action_queue (working_state d) of
        None \<Rightarrow> if pending_action_count (working_state d) \<le> 0 then Some [] else None
      | Some q \<Rightarrow> Some q
    }"

fun perform_from :: "dfg_env \<Rightarrow> nat \<Rightarrow> nat \<Rightarrow> world \<Rightarrow> world option" where
  "perform_from env 0 i w = Some w"
| "perform_from env (Suc n) i w =
    do {
      q \<leftarrow> pending w;
      act \<leftarrow> nth_c q (int i);
      w \<leftarrow> perform_action env i act w;
      perform_from env n (Suc i) w
    }"

definition perform_actions_on_nodes :: "dfg_env \<Rightarrow> world \<Rightarrow> world option" where
  "perform_actions_on_nodes env w = do { q \<leftarrow> pending w; perform_from env (length q) 0 w }"

fun deploy_all :: "dfg_env \<Rightarrow> int list \<Rightarrow> world \<Rightarrow> world option" where
  \<comment> \<open>everyone needs a ready the first time through\<close>
  "deploy_all env [] w = Some w"
| "deploy_all env (i # is) w =
    do {
      w \<leftarrow> deploy_to_node env i w;
      w \<leftarrow> mod_node i (\<lambda>n. n\<lparr>needs_ready := True\<rparr>) w;
      deploy_all env is w
    }"

definition update_working :: "(EVdfg_configuration \<Rightarrow> EVdfg_configuration option) \<Rightarrow> world \<Rightarrow> world option" where
  "update_working f w =
    do { d \<leftarrow> w_dfg w; cf \<leftarrow> f (working_state d);
         Some (w\<lparr>w_dfg := Some (d\<lparr>working_state := cf\<rparr>)\<rparr>) }"

fun deploy_new :: "dfg_env \<Rightarrow> int list \<Rightarrow> world \<Rightarrow> world option" where
  \<comment> \<open>the nodes that joined during a reconfiguration\<close>
  "deploy_new env [] w = Some w"
| "deploy_new env (i # is) w =
    do {
      w \<leftarrow> deploy_to_node env i w;
      w \<leftarrow> mod_node i (\<lambda>n. n\<lparr>needs_ready := True\<rparr>) w;
      w \<leftarrow> update_working (remove_actions_for_node i) w;
      deploy_new env is w
    }"

definition perform_deployment :: "dfg_env \<Rightarrow> world \<Rightarrow> world option" where
  "perform_deployment env w =
    do {
      m \<leftarrow> w_master w;
      if \<not> sig_reconfig_bool m then do {
        assert_c (state m = DFG_Joining);
        w \<leftarrow> mod_master (\<lambda>m. m\<lparr>state := DFG_Starting\<rparr>) w;
        w \<leftarrow> add_bridge_stones w;
        w \<leftarrow> mod_dfg (\<lambda>d. d\<lparr>deploy_ack_count := 0\<rparr>) w;
        d \<leftarrow> w_dfg w;
        w \<leftarrow> (if deploy_ack_condition d = -1 then
                (let (c, w) = w_condition_get env None w
                 in mod_dfg (\<lambda>d. d\<lparr>deploy_ack_condition := c\<rparr>) w)
              else Some w);
        deploy_all env [0..node_count m - 1] w }
      else do {
        assert_c (state m = DFG_Reconfiguring);
        w \<leftarrow> update_working (assign_actions_to_nodes m) w;
        w \<leftarrow> add_bridge_stones w;
        w \<leftarrow> update_working (\<lambda>cf. Some (add_unfreeze_actions cf)) w;
        w \<leftarrow> deploy_new env [old_node_count m..node_count m - 1] w;
        w \<leftarrow> perform_actions_on_nodes env w;
        update_working (\<lambda>cf. Some (cf\<lparr>pending_action_queue := None\<rparr>)) w }
    }"

definition wait_for_deploy_acks :: "dfg_env \<Rightarrow> world \<Rightarrow> world option" where
  "wait_for_deploy_acks env w =
    do {
      d \<leftarrow> w_dfg w;
      m \<leftarrow> w_master w;
      if deploy_ack_count d \<noteq> node_count m \<and> deploy_ack_condition d \<noteq> -1 then do {
        w \<leftarrow> CManager_unlock w;
        (_, w) \<leftarrow> CMCondition_wait env (deploy_ack_condition d) w;
        CManager_lock w }
      else Some w
    }"

fun ready_nodes :: "int list \<Rightarrow> world \<Rightarrow> world option" where
  \<comment> \<open>the loop of signal_ready; a node that is neither connected nor this process: exit(1)\<close>
  "ready_nodes [] w = Some w"
| "ready_nodes (i # is) w =
    do {
      n \<leftarrow> node_at i w;
      if \<not> needs_ready n then ready_nodes is w
      else do {
        w \<leftarrow> (case node_conn n of
                Some c \<Rightarrow> Some (w_emit (CMwrite c (Msg_ready i)) w)
              | None \<Rightarrow> do {
                  assert_c (node_self n);
                  w \<leftarrow> CManager_unlock w;
                  w \<leftarrow> dfg_ready_handler i w;
                  CManager_lock w });
        w \<leftarrow> mod_node i (\<lambda>n. n\<lparr>needs_ready := False\<rparr>) w;
        ready_nodes is w }
    }"

definition signal_ready :: "world \<Rightarrow> world option" where
  "signal_ready w = do { m \<leftarrow> w_master w; ready_nodes [0..node_count m - 1] w }"

definition adopt_working :: "world \<Rightarrow> world option" where
  \<comment> \<open>the working configuration becomes the deployed one\<close>
  "adopt_working w =
    do {
      d \<leftarrow> w_dfg w;
      let freed = (case deployed_state d of None \<Rightarrow> [] | Some cf \<Rightarrow> free_dfg_state cf);
      let (copy, refs) = copy_dfg_state (working_state d);
      Some (w\<lparr>w_dfg := Some (d\<lparr>deployed_state := Some (working_state d), working_state := copy\<rparr>),
              w_effects := refs @ freed @ w_effects w\<rparr>)
    }"

definition complete_deployment :: "dfg_env \<Rightarrow> world \<Rightarrow> world option" where
  \<comment> \<open>the second half of check_all_nodes_registered\<close>
  "complete_deployment env w =
    do {
      m \<leftarrow> w_master w;
      w \<leftarrow> (if \<not> no_deployment m
            then do { w \<leftarrow> perform_deployment env w; wait_for_deploy_acks env w }
            else Some w);
      w \<leftarrow> mod_master (\<lambda>m. m\<lparr>no_deployment := False\<rparr>) w;
      w \<leftarrow> adopt_working w;
      w \<leftarrow> signal_ready w;
      w \<leftarrow> mod_dfg (\<lambda>d. d\<lparr>deployed_stone_count := dfg_stone_count d\<rparr>) w;
      mod_master (\<lambda>m. m\<lparr>old_node_count := node_count m\<rparr>) w
    }"

definition check_all_nodes_registered :: "dfg_env \<Rightarrow> world \<Rightarrow> world option" where
  "check_all_nodes_registered env w =
    do {
      m \<leftarrow> w_master w;
      case node_join_handler m of
        Some h \<Rightarrow> do {
          n \<leftarrow> node_at (node_count m - 1) w;
          w \<leftarrow> CManager_unlock w;
          w \<leftarrow> call_join_handler env h (node_name n) w;
          w \<leftarrow> CManager_lock w;
          m \<leftarrow> w_master w;
          case w_dfg w of
            None \<Rightarrow> Some w
          | Some d \<Rightarrow> if \<not> realized d \<or> reconfig m then Some w else complete_deployment env w }
      | None \<Rightarrow>
          if \<exists>n \<in> set (nodes m). \<not> node_self n \<and> node_conn n = None then Some w
          else complete_deployment env w
    }"

section \<open>Shutting down\<close>

fun signal_node :: "conn ptr \<Rightarrow> EVint_node_rec list \<Rightarrow> int \<Rightarrow> int \<Rightarrow> int" where
  \<comment> \<open>the node the contribution comes from: the last match, -1 when there is none\<close>
  "signal_node con [] i r = r"
| "signal_node con (n # ns) i r =
    signal_node con ns (i + 1)
      (if con = None \<and> node_self n then i else if con = node_conn n then i else r)"

fun shutdown_tally :: "int list \<Rightarrow> bool \<times> bool \<times> int" where
  \<comment> \<open>over all contributions: everyone ready, someone contributed, the failures together\<close>
  "shutdown_tally [] = (True, False, STATUS_SUCCESS)"
| "shutdown_tally (c # cs) =
    (let (shutdown, contributed, status) = shutdown_tally cs
     in if c = STATUS_UNDETERMINED then (False, contributed, status)
        else if c = STATUS_NO_CONTRIBUTION then (shutdown, contributed, status)
        else if c = STATUS_SUCCESS \<or> c = STATUS_FAILED then (shutdown, True, status)
        else (shutdown, contributed, status OR c))"

fun send_shutdown :: "int \<Rightarrow> EVint_node_rec list \<Rightarrow> dfg_effect list option" where
  \<comment> \<open>a node that is neither connected nor this process: exit(1)\<close>
  "send_shutdown value [] = Some []"
| "send_shutdown value (n # ns) =
    (case node_conn n of
       Some c \<Rightarrow> map_option (\<lambda>es. es @ [CMwrite c (Msg_shutdown value)]) (send_shutdown value ns)
     | None \<Rightarrow> if node_self n then send_shutdown value ns else None)"

definition close_effects :: "dfg_env \<Rightarrow> EVint_node_rec list \<Rightarrow> dfg_effect list" where
  "close_effects env ns =
    rev (map (\<lambda>c. if conn_closed env c then Conn_dereference c else Conn_close c)
          (map the (filter (\<lambda>c. c \<noteq> None) (map node_conn ns))))"

definition finish_client :: "int \<Rightarrow> world \<Rightarrow> world" where
  "finish_client status w =
    (case w_client w of
       None \<Rightarrow> w
     | Some c \<Rightarrow> signal_all (shutdown_conditions c)
         (w\<lparr>w_client := Some (c\<lparr>shutdown_value := status, already_shutdown := True\<rparr>)\<rparr>))"

definition possibly_signal_shutdown :: "dfg_env \<Rightarrow> int \<Rightarrow> conn ptr \<Rightarrow> world \<Rightarrow> world option" where
  "possibly_signal_shutdown env value con w =
    do {
      assert_c (CManager_locked w);
      m \<leftarrow> w_master w;
      let from = signal_node con (nodes m) 0 (-1);
      let force = (value \<ge> 0 \<and> has_bits value STATUS_FORCE);
      let value = (if force then value XOR STATUS_FORCE else value);
      w \<leftarrow> mod_node from (\<lambda>n. n\<lparr>shutdown_status_contribution := value\<rparr>) w;
      m \<leftarrow> w_master w;
      let (ready, contributed, status) =
        shutdown_tally (map shutdown_status_contribution (nodes m));
      let shutdown = (force \<or> ready);
      let status = (if force then value else status);
      if \<not> shutdown \<or> \<not> contributed then Some w
      else do {
        w \<leftarrow> mod_master (\<lambda>m. m\<lparr>state := DFG_Shutting_Down\<rparr>) w;
        effs \<leftarrow> send_shutdown status (nodes m);
        w \<leftarrow> cm_sleep env (w\<lparr>w_effects := effs @ w_effects w\<rparr>);
        m \<leftarrow> w_master w;
        let w = w\<lparr>w_effects := close_effects env (nodes m) @ w_effects w\<rparr>;
        w \<leftarrow> mod_master (\<lambda>m. m\<lparr>nodes := map (\<lambda>n. n\<lparr>node_conn := None\<rparr>) (nodes m)\<rparr>) w;
        Some (finish_client status w) }
    }"

end
