(* ===== verification/Dfg_Queue.thy ===== *)
theory Dfg_Queue
  imports Dfg_Master
begin

text \<open>
  The master's message queue (ev_dfg.c: action_model, handle_queued_messages, queue_master_msg),
  the handlers of the five messages, and the client functions that send them or, in the
  master's own process, queue them. A message is a value: the copies queue_master_msg makes and
  free_master_msg frees are not visible here.
\<close>

section \<open>Handlers\<close>

definition handle_shutdown_contrib :: "dfg_env \<Rightarrow> conn ptr \<Rightarrow> int \<Rightarrow> world \<Rightarrow> world option" where
  "handle_shutdown_contrib env con value w = possibly_signal_shutdown env value con w"

definition handle_deploy_ack_wrapper :: "world \<Rightarrow> world option" where
  "handle_deploy_ack_wrapper w =
    do { w \<leftarrow> CManager_unlock w; w \<leftarrow> handle_deploy_ack w; CManager_lock w }"

definition join_static :: "dfg_env \<Rightarrow> conn ptr \<Rightarrow> EVnode_join_msg \<Rightarrow> world \<Rightarrow> (bool \<times> world) option" where
  \<comment> \<open>with a static node list: whether a node of this name was found. A node of the master's own
     process keeps its contribution.\<close>
  "join_static env con msg w =
    do {
      m \<leftarrow> w_master w;
      case find_index (\<lambda>n. node_name n = nj_node_name msg) (nodes m) of
        None \<Rightarrow> Some (False, w_emit (Warning ''Registering node not found in node list'' 0) w)
      | Some i \<Rightarrow>
          (case con of
             None \<Rightarrow> do {
               w \<leftarrow> mod_node (int i) (\<lambda>n. n\<lparr>node_self := True\<rparr>) w;
               w \<leftarrow> mod_client (\<lambda>c. c\<lparr>my_node_id := int i\<rparr>) w;
               Some (True, w) }
           | Some c \<Rightarrow> do {
               w \<leftarrow> mod_node (int i) (\<lambda>n. n\<lparr>node_conn := Some c,
                      str_contact_list := Some (nj_contact_string msg),
                      contact_list := attr_list_from_string env (nj_contact_string msg),
                      shutdown_status_contribution := STATUS_UNDETERMINED\<rparr>)
                    (w_emit (Conn_add_reference c) w);
               Some (True, w) })
    }"

definition join_dynamic :: "dfg_env \<Rightarrow> conn ptr \<Rightarrow> EVnode_join_msg \<Rightarrow> world \<Rightarrow> world option" where
  "join_dynamic env con msg w =
    do {
      m \<leftarrow> w_master w;
      let m = (if (case w_dfg w of None \<Rightarrow> False | Some d \<Rightarrow> realized d) \<and> \<not> reconfig m
               then m\<lparr>reconfig := True, sig_reconfig_bool := True, old_node_count := node_count m\<rparr>
               else m);
      let n = \<lparr>node_name = nj_node_name msg, canonical_name = None,
               contact_list = (if con = None then None
                               else attr_list_from_string env (nj_contact_string msg)),
               str_contact_list = (if con = None then None else Some (nj_contact_string msg)),
               node_conn = con, node_self = (con = None),
               shutdown_status_contribution = STATUS_UNDETERMINED, needs_ready = False\<rparr>;
      let w = w\<lparr>w_master := Some (m\<lparr>nodes := nodes m @ [n]\<rparr>)\<rparr>;
      case con of
        None \<Rightarrow> mod_client (\<lambda>c. c\<lparr>my_node_id := node_count m\<rparr>) w
      | Some c \<Rightarrow> Some (w_emit (Conn_add_reference c) w)
    }"

definition handle_node_join :: "dfg_env \<Rightarrow> conn ptr \<Rightarrow> EVnode_join_msg \<Rightarrow> world \<Rightarrow> world option" where
  "handle_node_join env con msg w =
    do {
      assert_c (CManager_locked w);
      w \<leftarrow> mod_master (\<lambda>m. if state m = DFG_Running then m\<lparr>state := DFG_Reconfiguring\<rparr> else m) w;
      m \<leftarrow> w_master w;
      if node_join_handler m = None then do {
        (found, w) \<leftarrow> join_static env con msg w;
        if found then check_all_nodes_registered env w else Some w }
      else do {
        w \<leftarrow> join_dynamic env con msg w;
        check_all_nodes_registered env w }
    }"

definition INT_EVmaster_assign_canonical_name :: "addr \<Rightarrow> (EVint_node_rec \<Rightarrow> addr) \<Rightarrow> string \<Rightarrow> world
    \<Rightarrow> world option" where
  \<comment> \<open>the given name is compared by address; the second argument tells where a node's name is\<close>
  "INT_EVmaster_assign_canonical_name given name_addr cname w =
    mod_master (\<lambda>m. m\<lparr>nodes := map (\<lambda>n. if name_addr n = given
      then n\<lparr>canonical_name := Some cname\<rparr> else n) (nodes m)\<rparr>) w"

fun reports_dead :: "int \<Rightarrow> EVdfg_configuration \<Rightarrow> int list \<Rightarrow> int \<Rightarrow> int option" where
  \<comment> \<open>the inner loop over the links of one stone: a link to the reporting stone gives the target
     its bridge specification names\<close>
  "reports_dead sid cf [] target = Some target"
| "reports_dead sid cf (l # ls) target =
    (if l = sid then do {
       s \<leftarrow> find_stone_state l cf;
       spec \<leftarrow> ss_action (stones cf ! s);
       (t, _) \<leftarrow> parse_bridge_action_spec spec target;
       reports_dead sid cf ls t }
     else reports_dead sid cf ls target)"

fun find_dead :: "int \<Rightarrow> EVdfg_configuration \<Rightarrow> EVdfg_stone_state list \<Rightarrow> int \<Rightarrow> int option" where
  "find_dead sid cf [] target = Some target"
| "find_dead sid cf (s # ss) target =
    do { t \<leftarrow> reports_dead sid cf (out_links s) target; find_dead sid cf ss t }"

definition lose_node :: "int \<Rightarrow> EVdfg_configuration \<Rightarrow> EVdfg_configuration" where
  "lose_node node cf =
    cf\<lparr>stones := map (\<lambda>s. if ss_node s = node then s\<lparr>condition := EVstone_Lost\<rparr> else s) (stones cf)\<rparr>"

fun fail_nodes :: "int \<Rightarrow> EVdfg_stone_state list \<Rightarrow> string ptr \<Rightarrow> world \<Rightarrow> (string ptr \<times> world) option" where
  \<comment> \<open>every stone with the dead stone's id: its node has failed and all its stones are lost\<close>
  "fail_nodes target [] fnode w = Some (fnode, w)"
| "fail_nodes target (s # ss) fnode w =
    (if ss_stone_id s = target then do {
       n \<leftarrow> node_at (ss_node s) w;
       w \<leftarrow> mod_node (ss_node s) (\<lambda>n. n\<lparr>shutdown_status_contribution := STATUS_FAILED\<rparr>) w;
       d \<leftarrow> w_dfg w;
       cf \<leftarrow> deployed_state d;
       let w = w\<lparr>w_dfg := Some (d\<lparr>deployed_state := Some (lose_node (ss_node s) cf)\<rparr>)\<rparr>;
       fail_nodes target ss (canonical_name n) w }
     else fail_nodes target ss fnode w)"

definition start_reconfig :: "dfg_env \<Rightarrow> world \<Rightarrow> world option" where
  \<comment> \<open>the common end of the failure and the reconfiguration handler\<close>
  "start_reconfig env w =
    do {
      w \<leftarrow> mod_master (\<lambda>m. m\<lparr>reconfig := True, sig_reconfig_bool := True\<rparr>) w;
      check_all_nodes_registered env w
    }"

definition freeze_reporting :: "int \<Rightarrow> world \<Rightarrow> world option" where
  "freeze_reporting sid w =
    do {
      d \<leftarrow> w_dfg w;
      cf \<leftarrow> deployed_state d;
      s \<leftarrow> find_stone_state sid cf;
      Some (w\<lparr>w_dfg := Some (d\<lparr>deployed_state :=
        Some (mod_ss s (\<lambda>st. st\<lparr>condition := EVstone_Frozen\<rparr>) cf)\<rparr>)\<rparr>)
    }"

definition handle_conn_shutdown :: "dfg_env \<Rightarrow> int \<Rightarrow> world \<Rightarrow> world option" where
  "handle_conn_shutdown env sid w =
    do {
      w \<leftarrow> freeze_reporting sid w;
      m \<leftarrow> w_master w;
      case node_fail_handler m of
        None \<Rightarrow> Some w
      | Some h \<Rightarrow> do {
          w \<leftarrow> mod_master (\<lambda>m. m\<lparr>state := DFG_Reconfiguring\<rparr>) w;
          d \<leftarrow> w_dfg w;
          cf \<leftarrow> deployed_state d;
          assert_c (dfg_stone_count d \<le> int (length (stones cf)));
          let ss = take (nat (dfg_stone_count d)) (stones cf);
          target \<leftarrow> find_dead sid cf ss (-1);
          (fnode, w) \<leftarrow> fail_nodes target ss None w;
          w \<leftarrow> CManager_unlock w;
          w \<leftarrow> call_fail_handler env h fnode target w;
          w \<leftarrow> CManager_lock w;
          start_reconfig env w }
    }"

definition set_stone_attrs :: "nat \<Rightarrow> addr ptr \<Rightarrow> EVdfg_configuration
    \<Rightarrow> EVdfg_configuration \<times> dfg_effect list" where
  "set_stone_attrs i a cf =
    (mod_ss i (\<lambda>s. s\<lparr>ss_attrs := a\<rparr>) cf,
     case ss_attrs (stones cf ! i) of None \<Rightarrow> [] | Some old \<Rightarrow> [Free_attr_list old])"

fun flush_attrs :: "dfg_env \<Rightarrow> (int \<times> string) list \<Rightarrow> world \<Rightarrow> world option" where
  \<comment> \<open>into the deployed and, at the same position, the working configuration\<close>
  "flush_attrs env [] w = Some w"
| "flush_attrs env ((sid, str) # as) w =
    do {
      d \<leftarrow> w_dfg w;
      if dfg_stone_count d \<le> 0 then flush_attrs env as w
      else do {
        cf \<leftarrow> deployed_state d;
        case find_index (\<lambda>s. ss_stone_id s = sid) (take (nat (dfg_stone_count d)) (stones cf)) of
          None \<Rightarrow> do {
            assert_c (dfg_stone_count d \<le> int (length (stones cf)));
            flush_attrs env as w }
        | Some j \<Rightarrow> do {
            assert_c (j < length (stones (working_state d)));
            let (cf, e1) = set_stone_attrs j (attr_list_from_string env str) cf;
            let (wk, e2) = set_stone_attrs j (attr_list_from_string env str) (working_state d);
            flush_attrs env as
              (w\<lparr>w_dfg := Some (d\<lparr>deployed_state := Some cf, working_state := wk\<rparr>),
                 w_effects := e2 @ e1 @ w_effects w\<rparr>) } }
    }"

definition handle_flush_reconfig :: "dfg_env \<Rightarrow> int \<Rightarrow> (int \<times> string) list \<Rightarrow> world \<Rightarrow> world option" where
  \<comment> \<open>the reconfiguration handler is called without a test for NULL\<close>
  "handle_flush_reconfig env reconf attrs w =
    do {
      assert_c (CManager_locked w);
      w \<leftarrow> (if reconf \<noteq> 0 then mod_master (\<lambda>m. m\<lparr>state := DFG_Reconfiguring\<rparr>) w else Some w);
      w \<leftarrow> flush_attrs env attrs w;
      if reconf \<noteq> 0 then do {
        m \<leftarrow> w_master w;
        w \<leftarrow> CManager_unlock w;
        h \<leftarrow> node_reconfig_handler m;
        w \<leftarrow> call_reconfig_handler env h w;
        w \<leftarrow> CManager_lock w;
        start_reconfig env w }
      else Some w
    }"

definition master_msg_handler :: "dfg_env \<Rightarrow> EVmaster_msg \<Rightarrow> world \<Rightarrow> world option" where
  "master_msg_handler env msg w =
    (case msg_u msg of
       U_node_join j \<Rightarrow> handle_node_join env (msg_conn msg) j w
     | U_deploy_ack _ \<Rightarrow> handle_deploy_ack_wrapper w
     | U_shutdown_contrib v \<Rightarrow> handle_shutdown_contrib env (msg_conn msg) v w
     | U_conn_shutdown s \<Rightarrow> handle_conn_shutdown env s w
     | U_flush_reconfig r as \<Rightarrow> handle_flush_reconfig env r as w)"

section \<open>The queue\<close>

datatype msg_action = Act_H | Act_U | Act_Q | Act_I
  \<comment> \<open>handle, unexpected, leave queued, ignore\<close>

fun action_model :: "DFG_State \<Rightarrow> EVmaster_msg_type \<Rightarrow> msg_action" where
  "action_model DFG_Joining t = (if t = DFGnode_join then Act_H else Act_U)"
| "action_model DFG_Starting t =
    (if t = DFGdeploy_ack \<or> t = DFGshutdown_contrib then Act_H else Act_Q)"
| "action_model DFG_Running t = (if t = DFGdeploy_ack then Act_U else Act_H)"
| "action_model DFG_Reconfiguring t =
    (if t = DFGdeploy_ack \<or> t = DFGshutdown_contrib then Act_H else Act_Q)"
| "action_model DFG_Shutting_Down t = (if t = DFGconn_shutdown then Act_I else Act_U)"

text \<open>
  The loop keeps \<open>last_ptr\<close> at the head of the queue: it never moves it past a message left
  queued. Unlinking the message at position \<open>k\<close> therefore sets the head to its successor, and
  the messages before it are lost.
\<close>

definition unlink_msg :: "nat \<Rightarrow> EVmaster_msg list \<Rightarrow> EVmaster_msg list" where
  \<comment> \<open>*last_ptr = next->next\<close>
  "unlink_msg k q = drop (Suc k) q"

partial_function (option) handle_loop :: "dfg_env \<Rightarrow> nat \<Rightarrow> world \<Rightarrow> world option" where
  \<comment> \<open>\<open>k\<close> is the position of \<open>next\<close>\<close>
  "handle_loop env k w =
    do {
      m \<leftarrow> w_master w;
      if k < length (queued_messages m) then
        (let msg = queued_messages m ! k;
             removed = w\<lparr>w_master := Some (m\<lparr>queued_messages := unlink_msg k (queued_messages m)\<rparr>)\<rparr>
         in case action_model (state m) (msg_type msg) of
              Act_H \<Rightarrow> do { w \<leftarrow> master_msg_handler env msg removed; handle_loop env 0 w }
            | Act_U \<Rightarrow> handle_loop env 0 removed
            | Act_I \<Rightarrow> handle_loop env 0 removed
            | Act_Q \<Rightarrow> handle_loop env (Suc k) w)
      else Some w
    }"

definition handle_queued_messages :: "dfg_env \<Rightarrow> world \<Rightarrow> world option" where
  "handle_queued_messages env w =
    do {
      m \<leftarrow> w_master w;
      if queued_messages m = [] then Some w
      else do { assert_c (CManager_locked w); handle_loop env 0 w }
    }"

definition handle_queued_messages_lock :: "dfg_env \<Rightarrow> world \<Rightarrow> world option" where
  "handle_queued_messages_lock env w =
    do { w \<leftarrow> CManager_lock w; w \<leftarrow> handle_queued_messages env w; CManager_unlock w }"

definition queue_master_msg :: "dfg_env \<Rightarrow> EVmaster_msg \<Rightarrow> world \<Rightarrow> world option" where
  "queue_master_msg env msg w =
    do {
      w \<leftarrow> mod_master (\<lambda>m. m\<lparr>queued_messages := queued_messages m @ [msg]\<rparr>) w;
      if server_thread (w_cl w) \<noteq> 0 then Some (w_emit Wake_server_thread w)
      else handle_queued_messages env w
    }"

definition dfg_master_msg_handler :: "dfg_env \<Rightarrow> conn \<Rightarrow> master_msg_u \<Rightarrow> world \<Rightarrow> world option" where
  "dfg_master_msg_handler env con u w =
    queue_master_msg env \<lparr>msg_conn = Some con, msg_u = u\<rparr> w"

section \<open>What a client tells the master\<close>

definition tell_master :: "dfg_env \<Rightarrow> dfg_msg \<Rightarrow> (world \<Rightarrow> world option) \<Rightarrow> world \<Rightarrow> world option" where
  \<comment> \<open>if (client->master_connection != NULL) INT_CMwrite(...); else ...\<close>
  "tell_master env msg here w =
    do {
      c \<leftarrow> w_client w;
      case master_connection c of
        Some mc \<Rightarrow> Some (w_emit (CMwrite mc msg) w)
      | None \<Rightarrow> here w
    }"

definition wait_shutdown_value :: "dfg_env \<Rightarrow> world \<Rightarrow> (int \<times> world) option" where
  \<comment> \<open>the common end of the two shutdown functions: the condition is created after the lock is
     dropped\<close>
  "wait_shutdown_value env w =
    do {
      c \<leftarrow> w_client w;
      w \<leftarrow> (if already_shutdown c then Some w
            else do {
              w \<leftarrow> CManager_unlock w;
              (n, w) \<leftarrow> new_shutdown_condition env (master_connection c) w;
              (_, w) \<leftarrow> CMCondition_wait env n w;
              CManager_lock w });
      c \<leftarrow> w_client w;
      Some (shutdown_value c, w)
    }"

definition INT_EVclient_shutdown :: "dfg_env \<Rightarrow> int \<Rightarrow> world \<Rightarrow> (int \<times> world) option" where
  "INT_EVclient_shutdown env result w =
    do {
      w \<leftarrow> tell_master env (Msg_shutdown_contrib result)
        (queue_master_msg env \<lparr>msg_conn = None, msg_u = U_shutdown_contrib result\<rparr>) w;
      wait_shutdown_value env w
    }"

definition INT_EVclient_force_shutdown :: "dfg_env \<Rightarrow> int \<Rightarrow> world \<Rightarrow> (int \<times> world) option" where
  "INT_EVclient_force_shutdown env result w =
    do {
      let result = result OR STATUS_FORCE;
      w \<leftarrow> tell_master env (Msg_shutdown_contrib result)
        (possibly_signal_shutdown env result None) w;
      wait_shutdown_value env w
    }"

definition INT_EVclient_ready_for_shutdown :: "dfg_env \<Rightarrow> world \<Rightarrow> world option" where
  "INT_EVclient_ready_for_shutdown env w =
    do {
      c \<leftarrow> w_client w;
      if already_shutdown c then Some w
      else tell_master env (Msg_shutdown_contrib STATUS_NO_CONTRIBUTION)
        (possibly_signal_shutdown env STATUS_NO_CONTRIBUTION None) w
    }"

fun global_id_of :: "(int \<times> int) list \<Rightarrow> int \<Rightarrow> int \<Rightarrow> int" where
  \<comment> \<open>the last entry of the table with this local id\<close>
  "global_id_of [] stone r = r"
| "global_id_of ((g, l) # t) stone r = global_id_of t stone (if stone = l then g else r)"

definition dfg_stone_close_handler :: "dfg_env \<Rightarrow> EVstone \<Rightarrow> world \<Rightarrow> world option" where
  "dfg_stone_close_handler env stone w =
    do {
      w \<leftarrow> CManager_lock w;
      (_, w) \<leftarrow> on_evp (INT_EVfreeze_stone stone) w;
      let g = global_id_of (stone_lookup_table (w_evp w)) stone (-1);
      w \<leftarrow> (if g = -1 then Some w
            else tell_master env (Msg_conn_shutdown g)
              (queue_master_msg env \<lparr>msg_conn = None, msg_u = U_conn_shutdown g\<rparr>) w);
      CManager_unlock w
    }"

definition flush_and_trigger :: "dfg_env \<Rightarrow> int \<Rightarrow> world \<Rightarrow> world option" where
  \<comment> \<open>in the master's own process the address of the format variable is queued as if it were the
     message: what is read there is undefined\<close>
  "flush_and_trigger env reconf w =
    do {
      attrs \<leftarrow> build_attrs_msg env (w_evp w);
      tell_master env (Msg_flush_reconfig reconf attrs) (\<lambda>w. None) w
    }"

section \<open>Master and client creation\<close>

definition INT_EVmaster_create :: "string ptr \<Rightarrow> world \<Rightarrow> world" where
  \<comment> \<open>the argument is the contact string of this process\<close>
  "INT_EVmaster_create contact w =
    w\<lparr>w_master := Some \<lparr>node_join_handler = None, node_fail_handler = None,
        node_reconfig_handler = None, queued_messages = [], state = DFG_Joining, nodes = [],
        my_contact_str = contact, reconfig = False, old_node_count = 1, sig_reconfig_bool = False,
        no_deployment = False\<rparr>\<rparr>"

definition INT_EVmaster_node_join_handler :: "addr ptr \<Rightarrow> world \<Rightarrow> world option" where
  "INT_EVmaster_node_join_handler h w = mod_master (\<lambda>m. m\<lparr>node_join_handler := h\<rparr>) w"

definition INT_EVmaster_node_fail_handler :: "addr ptr \<Rightarrow> world \<Rightarrow> world option" where
  "INT_EVmaster_node_fail_handler h w = mod_master (\<lambda>m. m\<lparr>node_fail_handler := h\<rparr>) w"

definition INT_EVmaster_node_reconfig_handler :: "addr ptr \<Rightarrow> world \<Rightarrow> world option" where
  "INT_EVmaster_node_reconfig_handler h w = mod_master (\<lambda>m. m\<lparr>node_reconfig_handler := h\<rparr>) w"

definition INT_EVdfg_reconfig_transfer_events :: "int \<Rightarrow> int \<Rightarrow> int \<Rightarrow> int \<Rightarrow> world \<Rightarrow> world option" where
  "INT_EVdfg_reconfig_transfer_events src src_port dest dest_port w =
    mod_dfg (\<lambda>d. d\<lparr>transfer_events_list := transfer_events_list d @ [(src, src_port, dest, dest_port)]\<rparr>) w"

definition named :: "string \<Rightarrow> leaf_element" where
  "named s = \<lparr>leaf_name = Some s, FMtype = None\<rparr>"

definition join_message :: "dfg_env \<Rightarrow> string \<Rightarrow> world \<Rightarrow> EVnode_join_msg" where
  "join_message env name w =
    \<lparr>nj_node_name = name, nj_contact_string = my_contact_string env,
     nj_sinks = map (\<lambda>h. named (sink_name h)) (sink_handlers (w_evp w)),
     nj_sources = map (\<lambda>s. named (fst s)) (sources (w_evp w))\<rparr>"

definition new_client :: "string ptr \<Rightarrow> int \<Rightarrow> EVclient" where
  "new_client contact ready =
    \<lparr>shutdown_conditions = None, master_contact_str = contact, shutdown_value = 0,
     ready_condition = ready, master_connection = None, my_node_id = 0, already_shutdown = False,
     active_sink_count = 0, pending_auto_list = None\<rparr>"

definition dfg_assoc_client :: "dfg_env \<Rightarrow> addr \<Rightarrow> string \<Rightarrow> string ptr \<Rightarrow> bool \<Rightarrow> bool \<Rightarrow> world
    \<Rightarrow> (bool \<times> world) option" where
  \<comment> \<open>\<open>master_contact\<close> is given by a remote client, \<open>local\<close> says the master is in this process,
     \<open>registered\<close> that the ready format has been registered before; the result is whether a
     client was returned\<close>
  "dfg_assoc_client env close_handler name master_contact loc registered w =
    (if (loc \<and> w_client w \<noteq> None) \<or> (\<not> loc \<and> registered)
     then Some (False, w_emit (Warning ''Rejecting attempt to associate a DFG client'' 0) w)
     else do {
       let (n, w) = w_condition_get env None w;
       let w = w\<lparr>w_client := Some (new_client master_contact n),
                 w_evp := INT_EVregister_close_handler (Some close_handler) (w_evp w)\<rparr>;
       let msg = join_message env name w;
       if loc then do {
         w \<leftarrow> queue_master_msg env \<lparr>msg_conn = None, msg_u = U_node_join msg\<rparr> w;
         Some (True, w) }
       else do {
         contact \<leftarrow> master_contact;
         case master_conn env contact of
           None \<Rightarrow> Some (False, w_emit (Warning ''failed to contact Master'' 0) w)
         | Some c \<Rightarrow> do {
             w \<leftarrow> mod_client (\<lambda>cl. cl\<lparr>master_connection := Some c\<rparr>)
                    (w_emit (CMwrite c (Msg_node_join msg)) w);
             Some (True, w) } } })"

definition INT_EVclient_assoc_local :: "dfg_env \<Rightarrow> addr \<Rightarrow> string \<Rightarrow> world \<Rightarrow> (bool \<times> world) option" where
  "INT_EVclient_assoc_local env close_handler name w =
    dfg_assoc_client env close_handler name None True False w"

definition INT_EVclient_assoc :: "dfg_env \<Rightarrow> addr \<Rightarrow> string \<Rightarrow> string \<Rightarrow> bool \<Rightarrow> world
    \<Rightarrow> (bool \<times> world) option" where
  "INT_EVclient_assoc env close_handler name contact registered w =
    dfg_assoc_client env close_handler name (Some contact) False registered w"

end
