(* ===== verification/Dfg_Machine.thy ===== *)
theory Dfg_Machine
  imports Dfg_Queue
begin

text \<open>
  The master as a state machine: what the message queue does in each state, the shutdown
  decision against its specification, the count of deploy acknowledgements, and the waking of
  the clients that wait for a shutdown.
\<close>

section \<open>The world's parts\<close>

lemma mod_simps [simp]:
  "mod_master f w = Some w' \<longleftrightarrow> (\<exists>m. w_master w = Some m \<and> w' = w\<lparr>w_master := Some (f m)\<rparr>)"
  "mod_client g w = Some w' \<longleftrightarrow> (\<exists>c. w_client w = Some c \<and> w' = w\<lparr>w_client := Some (g c)\<rparr>)"
  "mod_dfg h w = Some w' \<longleftrightarrow> (\<exists>d. w_dfg w = Some d \<and> w' = w\<lparr>w_dfg := Some (h d)\<rparr>)"
  by (auto simp: mod_master_def mod_client_def mod_dfg_def crash_simps)

lemma mod_eval:
  "w_master w = Some m \<Longrightarrow> mod_master f w = Some (w\<lparr>w_master := Some (f m)\<rparr>)"
  "w_client w = Some c \<Longrightarrow> mod_client g w = Some (w\<lparr>w_client := Some (g c)\<rparr>)"
  "w_dfg w = Some d \<Longrightarrow> mod_dfg h w = Some (w\<lparr>w_dfg := Some (h d)\<rparr>)"
  by simp_all

lemma w_emit_sel [simp]:
  "w_evp (w_emit x w) = w_evp w" "w_cl (w_emit x w) = w_cl w" "w_master (w_emit x w) = w_master w"
  "w_client (w_emit x w) = w_client w" "w_dfg (w_emit x w) = w_dfg w"
  "w_effects (w_emit x w) = x # w_effects w"
  by (simp_all add: w_emit_def)

lemma CManager_lock_Some:
  "CManager_lock w = Some w' \<longleftrightarrow>
    locked (w_evp w) \<le> 0 \<and> w' = w\<lparr>w_evp := (w_evp w)\<lparr>locked := locked (w_evp w) + 1\<rparr>\<rparr>"
  by (auto simp: CManager_lock_def Let_def)

lemma CManager_unlock_Some:
  "CManager_unlock w = Some w' \<longleftrightarrow>
    locked (w_evp w) = 1 \<and> w' = w\<lparr>w_evp := (w_evp w)\<lparr>locked := 0\<rparr>\<rparr>"
  by (auto simp: CManager_unlock_def Let_def)

lemmas lock_simps = CManager_lock_Some CManager_unlock_Some

section \<open>The message queue\<close>

definition with_queue :: "EVmaster_msg list \<Rightarrow> world \<Rightarrow> world" where
  "with_queue q w = w\<lparr>w_master := map_option (\<lambda>m. m\<lparr>queued_messages := q\<rparr>) (w_master w)\<rparr>"

lemma with_queue_sel [simp]:
  "w_master w = Some m \<Longrightarrow> w_master (with_queue q w) = Some (m\<lparr>queued_messages := q\<rparr>)"
  "w_evp (with_queue q w) = w_evp w" "w_cl (with_queue q w) = w_cl w"
  "w_client (with_queue q w) = w_client w" "w_dfg (with_queue q w) = w_dfg w"
  "w_effects (with_queue q w) = w_effects w"
  "with_queue q (with_queue q' w) = with_queue q w"
  by (simp_all add: with_queue_def option.map_comp comp_def)

lemma with_queue_same: "w_master w = Some m \<Longrightarrow> queued_messages m = q \<Longrightarrow> with_queue q w = w"
  by (simp add: with_queue_def)

lemma handle_loop_done:
  "w_master w = Some m \<Longrightarrow> length (queued_messages m) \<le> k \<Longrightarrow> handle_loop env k w = Some w"
  by (subst handle_loop.simps) simp

lemma handle_loop_discard:
  assumes "w_master w = Some m" "k < length (queued_messages m)"
    and "action_model (state m) (msg_type (queued_messages m ! k)) \<in> {Act_U, Act_I}"
  shows "handle_loop env k w = handle_loop env 0 (with_queue (drop (Suc k) (queued_messages m)) w)"
  using assms
  by (subst handle_loop.simps) (auto simp: unlink_msg_def with_queue_def)

lemma handle_loop_handle:
  assumes "w_master w = Some m" "k < length (queued_messages m)"
    and "action_model (state m) (msg_type (queued_messages m ! k)) = Act_H"
  shows "handle_loop env k w =
    Option.bind (master_msg_handler env (queued_messages m ! k)
      (with_queue (drop (Suc k) (queued_messages m)) w)) (handle_loop env 0)"
  using assms
  by (subst handle_loop.simps) (auto simp: unlink_msg_def with_queue_def)

lemma handle_loop_leave:
  assumes "w_master w = Some m" "k < length (queued_messages m)"
    and "action_model (state m) (msg_type (queued_messages m ! k)) = Act_Q"
  shows "handle_loop env k w = handle_loop env (Suc k) w"
  using assms by (subst handle_loop.simps) auto

lemma handle_loop_leave_many:
  assumes "w_master w = Some m" "queued_messages m = pre @ rest"
    and "\<forall>msg \<in> set pre. action_model (state m) (msg_type msg) = Act_Q" "j \<le> length pre"
  shows "handle_loop env (length pre - j) w = handle_loop env (length pre) w"
  using assms(4)
proof (induction j)
  case 0
  then show ?case by simp
next
  case (Suc j)
  let ?k = "length pre - Suc j"
  have "?k < length pre" using Suc.prems by simp
  then have "queued_messages m ! ?k \<in> set pre"
    using assms(2) by (simp add: nth_append)
  then have "handle_loop env ?k w = handle_loop env (Suc ?k) w"
    using assms Suc.prems by (intro handle_loop_leave [of w m]) auto
  also have "Suc ?k = length pre - j" using Suc.prems by simp
  finally show ?case using Suc by simp
qed

text \<open>A message handled behind messages left queued takes them with it.\<close>

lemma handle_loop_behind_queued:
  assumes "w_master w = Some m" "queued_messages m = pre @ msg # rest"
    and "\<forall>x \<in> set pre. action_model (state m) (msg_type x) = Act_Q"
    and "action_model (state m) (msg_type msg) = Act_H"
  shows "handle_loop env 0 w =
    Option.bind (master_msg_handler env msg (with_queue rest w)) (handle_loop env 0)"
proof -
  have "handle_loop env 0 w = handle_loop env (length pre) w"
    using handle_loop_leave_many [of w m pre "msg # rest" "length pre"] assms by simp
  then show ?thesis
    using assms by (simp add: handle_loop_handle [of w m] nth_append)
qed

section \<open>After the shutdown\<close>

lemma shut_down_discards:
  assumes "w_master w = Some m" "state m = DFG_Shutting_Down"
  shows "handle_loop env 0 w = Some (with_queue [] w)"
  using assms
proof (induction "queued_messages m" arbitrary: w m)
  case Nil
  then show ?case by (simp add: handle_loop_done with_queue_same)
next
  case (Cons msg q)
  have "queued_messages m = msg # q" using Cons.hyps by simp
  then have "handle_loop env 0 w = handle_loop env 0 (with_queue q w)"
    using Cons.prems by (subst handle_loop_discard [of w m]) auto
  also have "\<dots> = Some (with_queue [] (with_queue q w))"
    using Cons.prems by (intro Cons.hyps(1) [of "m\<lparr>queued_messages := q\<rparr>"]) simp_all
  finally show ?case by simp
qed

lemma shut_down_handles:
  assumes "w_master w = Some m" "state m = DFG_Shutting_Down" "CManager_locked w"
  shows "handle_queued_messages env w = Some (with_queue [] w)"
  using assms shut_down_discards [OF assms(1,2)]
  by (auto simp: handle_queued_messages_def with_queue_same)

text \<open>What can happen to the master of a running program.\<close>

inductive master_step :: "dfg_env \<Rightarrow> world \<Rightarrow> world \<Rightarrow> bool" for env :: dfg_env where
  message: "dfg_master_msg_handler env con u w = Some w' \<Longrightarrow> master_step env w w'"
| poll: "handle_queued_messages_lock env w = Some w' \<Longrightarrow> master_step env w w'"
| stone_closed: "dfg_stone_close_handler env stone w = Some w' \<Longrightarrow> master_step env w w'"
| graph: "perform_working act b w = Some w'' \<Longrightarrow> snd w'' = w' \<Longrightarrow> master_step env w w'"
| client_wait: "new_shutdown_condition env con w = Some (n, w') \<Longrightarrow> master_step env w w'"
| told_shutdown: "dfg_shutdown_handler v w = Some w' \<Longrightarrow> master_step env w w'"
| told_ready: "dfg_ready_handler i w = Some w' \<Longrightarrow> master_step env w w'"

inductive_cases master_stepE: "master_step env w w'"

definition shut :: "world \<Rightarrow> bool" where
  "shut w \<longleftrightarrow> (\<exists>m. w_master w = Some m \<and> state m = DFG_Shutting_Down)"

lemma shut_upd [simp]:
  "shut (w\<lparr>w_evp := e\<rparr>) = shut w" "shut (w\<lparr>w_cl := cl\<rparr>) = shut w"
  "shut (w\<lparr>w_client := c\<rparr>) = shut w" "shut (w\<lparr>w_dfg := d\<rparr>) = shut w"
  "shut (w\<lparr>w_effects := es\<rparr>) = shut w" "shut (w_emit x w) = shut w"
  by (simp_all add: shut_def)

lemma shut_with_queue: "shut w \<Longrightarrow> shut (with_queue q w)"
  by (auto simp: shut_def)

lemma shut_handle_queued: "shut w \<Longrightarrow> handle_queued_messages env w = Some w' \<Longrightarrow> shut w'"
  using shut_down_discards
  by (auto simp: shut_def handle_queued_messages_def crash_simps split: if_splits)

lemma shut_queue_master_msg: "shut w \<Longrightarrow> queue_master_msg env msg w = Some w' \<Longrightarrow> shut w'"
  by (auto simp: queue_master_msg_def crash_simps split: if_splits
      dest!: shut_handle_queued [rotated]) (auto simp: shut_def)

lemma shut_tell_master:
  "shut w \<Longrightarrow> tell_master env msg (queue_master_msg env x) w = Some w' \<Longrightarrow> shut w'"
  by (auto simp: tell_master_def crash_simps split: option.splits dest: shut_queue_master_msg)

lemma shut_signal_all [simp]: "shut (signal_all l w) = shut w"
proof -
  have "shut (fold w_signal cs w) = shut w" for cs
    by (induction cs arbitrary: w) (simp_all add: w_signal_def)
  then show ?thesis by (simp add: signal_all_def)
qed

lemma shut_run_evp: "run_evp f w = Some w' \<Longrightarrow> shut w' = shut w"
  "on_evp g w = Some (r, w') \<Longrightarrow> shut w' = shut w"
  by (auto simp: run_evp_def on_evp_def crash_simps split: prod.splits)

lemma shut_locks: "CManager_lock w = Some w' \<Longrightarrow> shut w' = shut w"
  "CManager_unlock w = Some w' \<Longrightarrow> shut w' = shut w"
  by (auto simp: lock_simps)

lemma shut_enable: "enable_auto_stones w = Some w' \<Longrightarrow> shut w' = shut w"
  by (auto simp: enable_auto_stones_def crash_simps Let_def dest!: shut_run_evp(1))

lemma shut_step:
  assumes "master_step env w w'" "shut w"
  shows "shut w'"
  using assms(1)
proof cases
  case (message con u)
  then show ?thesis
    using assms(2) shut_queue_master_msg by (auto simp: dfg_master_msg_handler_def)
next
  case poll
  then obtain w1 w2 where w1: "CManager_lock w = Some w1"
    and w2: "handle_queued_messages env w1 = Some w2" and w3: "CManager_unlock w2 = Some w'"
    by (auto simp: handle_queued_messages_lock_def crash_simps)
  have "shut w1" using assms(2) w1 by (simp add: lock_simps)
  then have "shut w2" using w2 by (rule shut_handle_queued)
  then show ?thesis using w3 by (simp add: lock_simps)
next
  case (stone_closed stone)
  then obtain w1 r w2 w3 where w1: "CManager_lock w = Some w1"
    and w2: "on_evp (INT_EVfreeze_stone stone) w1 = Some (r, w2)"
    and w3: "CManager_unlock w3 = Some w'"
    and g: "(if global_id_of (stone_lookup_table (w_evp w2)) stone (-1) = -1 then Some w2
      else tell_master env (Msg_conn_shutdown (global_id_of (stone_lookup_table (w_evp w2)) stone (-1)))
        (queue_master_msg env \<lparr>msg_conn = None,
           msg_u = U_conn_shutdown (global_id_of (stone_lookup_table (w_evp w2)) stone (-1))\<rparr>) w2) = Some w3"
    unfolding dfg_stone_close_handler_def Let_def by (auto simp: crash_simps simp del: if_split)
  have "shut w2" using assms(2) w1 shut_run_evp(2) [OF w2] by (simp add: lock_simps)
  then have "shut w3" using g shut_tell_master by (auto split: if_splits)
  then show ?thesis using w3 by (simp add: lock_simps)
next
  case (graph act b w'')
  then show ?thesis
    using assms(2) by (auto simp: perform_working_def crash_simps)
next
  case (client_wait con n)
  then show ?thesis
    using assms(2)
    by (auto simp: new_shutdown_condition_def w_condition_get_def crash_simps Let_def split: prod.splits)
next
  case (told_shutdown v)
  then show ?thesis
    using assms(2) by (auto simp: dfg_shutdown_handler_def crash_simps lock_simps)
next
  case (told_ready i)
  then show ?thesis
    using assms(2)
    by (auto simp: dfg_ready_handler_def crash_simps w_signal_def Let_def
        dest!: shut_locks shut_enable split: if_splits)
qed

section \<open>The shutdown decision\<close>

definition is_failure :: "int \<Rightarrow> bool" where
  "is_failure c \<longleftrightarrow> c \<notin> {STATUS_FAILED, STATUS_UNDETERMINED, STATUS_NO_CONTRIBUTION, STATUS_SUCCESS}"

definition combined :: "int list \<Rightarrow> int" where
  "combined cs = foldr (\<lambda>c s. s OR c) (filter is_failure cs) STATUS_SUCCESS"

definition all_ready :: "int list \<Rightarrow> bool" where
  "all_ready cs \<longleftrightarrow> STATUS_UNDETERMINED \<notin> set cs"

definition some_contributed :: "int list \<Rightarrow> bool" where
  "some_contributed cs \<longleftrightarrow> STATUS_SUCCESS \<in> set cs \<or> STATUS_FAILED \<in> set cs"

lemma shutdown_tally_eq: "shutdown_tally cs = (all_ready cs, some_contributed cs, combined cs)"
  by (induction cs) (auto simp: all_ready_def some_contributed_def combined_def is_failure_def)

definition connections :: "EVint_node_rec list \<Rightarrow> conn list" where
  "connections ns = map the (filter (\<lambda>c. c \<noteq> None) (map node_conn ns))"

lemma connections_simps [simp]:
  "connections [] = []"
  "connections (n # ns) = (case node_conn n of None \<Rightarrow> connections ns | Some c \<Rightarrow> c # connections ns)"
  by (auto simp: connections_def split: option.splits)

lemma send_shutdown_eq:
  "\<forall>n \<in> set ns. node_conn n \<noteq> None \<or> node_self n \<Longrightarrow>
    send_shutdown v ns = Some (rev (map (\<lambda>c. CMwrite c (Msg_shutdown v)) (connections ns)))"
  by (induction ns) (auto split: option.splits)

definition forced :: "int \<Rightarrow> bool" where
  "forced value \<longleftrightarrow> value \<ge> 0 \<and> has_bits value STATUS_FORCE"

text \<open>The contributions once the node the message came from has its new one.\<close>

definition contribute :: "nat \<Rightarrow> int \<Rightarrow> EVmaster \<Rightarrow> EVmaster" where
  "contribute i value m =
    m\<lparr>nodes := (nodes m)[i := (nodes m ! i)\<lparr>shutdown_status_contribution := value\<rparr>]\<rparr>"

definition contributions :: "EVmaster \<Rightarrow> int list" where
  "contributions m = map shutdown_status_contribution (nodes m)"

lemma contributions_contribute [simp]:
  "contributions (contribute i value m) = (contributions m)[i := value]"
  by (simp add: contributions_def contribute_def map_update)

lemma contribute_sel [simp]:
  "state (contribute i value m) = state m" "length (nodes (contribute i value m)) = length (nodes m)"
  by (simp_all add: contribute_def)

lemma connections_contribute [simp]:
  "i < length (nodes m) \<Longrightarrow> connections (nodes (contribute i value m)) = connections (nodes m)"
  by (simp add: connections_def contribute_def map_update)
    (metis (no_types, lifting) list_update_id map_update nth_map)

lemma reachable_contribute:
  assumes "i < length (nodes m)" "\<forall>n \<in> set (nodes m). node_conn n \<noteq> None \<or> node_self n"
  shows "\<forall>n \<in> set (nodes (contribute i value m)). node_conn n \<noteq> None \<or> node_self n"
proof
  fix n assume "n \<in> set (nodes (contribute i value m))"
  then have "n = (nodes m ! i)\<lparr>shutdown_status_contribution := value\<rparr> \<or> n \<in> set (nodes m)"
    using set_update_subset_insert [of "nodes m" i] by (auto simp: contribute_def)
  moreover have "node_conn (nodes m ! i) \<noteq> None \<or> node_self (nodes m ! i)"
    using assms(2) nth_mem [OF assms(1)] by blast
  ultimately show "node_conn n \<noteq> None \<or> node_self n"
    using assms(2) by auto
qed

lemma shutdown_refused:
  assumes "w_master w = Some m" "CManager_locked w" "\<not> forced value"
    and "signal_node con (nodes m) 0 (-1) = int i" "i < length (nodes m)"
    and "\<not> all_ready ((contributions m)[i := value]) \<or> \<not> some_contributed ((contributions m)[i := value])"
  shows "possibly_signal_shutdown env value con w = Some (w\<lparr>w_master := Some (contribute i value m)\<rparr>)"
proof -
  have t: "shutdown_tally (map shutdown_status_contribution (nodes (contribute i value m))) =
      (all_ready ((contributions m)[i := value]), some_contributed ((contributions m)[i := value]),
       combined ((contributions m)[i := value]))"
    by (simp add: shutdown_tally_eq contributions_def [symmetric])
  have n: "mod_node (int i) (\<lambda>n. n\<lparr>shutdown_status_contribution := value\<rparr>) w =
      Some (w\<lparr>w_master := Some (contribute i value m)\<rparr>)"
    using assms(1,5) by (simp add: mod_node_def nth_c_def contribute_def)
  show ?thesis
    using assms(1-4,6) n t
    by (auto simp: possibly_signal_shutdown_def forced_def Let_def)
qed

definition shut_world :: "dfg_env \<Rightarrow> int \<Rightarrow> EVmaster \<Rightarrow> world \<Rightarrow> world" where
  \<comment> \<open>everyone told, all connections given up, the local client finished\<close>
  "shut_world env status m w =
    finish_client status
      (w\<lparr>w_effects := close_effects env (nodes m)
           @ rev (map (\<lambda>c. CMwrite c (Msg_shutdown status)) (connections (nodes m))) @ w_effects w,
         w_master := Some (m\<lparr>state := DFG_Shutting_Down,
           nodes := map (\<lambda>n. n\<lparr>node_conn := None\<rparr>) (nodes m)\<rparr>)\<rparr>)"

lemma shutdown_performed:
  assumes "w_master w = Some m" "CManager_locked w"
    and "signal_node con (nodes m) 0 (-1) = int i" "i < length (nodes m)"
    and "\<forall>n \<in> set (nodes m). node_conn n \<noteq> None \<or> node_self n" "cm_sleep env = Some"
    and "\<not> forced value" "all_ready ((contributions m)[i := value])"
    and "some_contributed ((contributions m)[i := value])"
  shows "possibly_signal_shutdown env value con w =
    Some (shut_world env (combined ((contributions m)[i := value])) (contribute i value m) w)"
proof -
  have t: "shutdown_tally (map shutdown_status_contribution (nodes (contribute i value m))) =
      (True, True, combined ((contributions m)[i := value]))"
    using assms(8,9) by (simp add: shutdown_tally_eq contributions_def [symmetric])
  have n: "mod_node (int i) (\<lambda>n. n\<lparr>shutdown_status_contribution := value\<rparr>) w =
      Some (w\<lparr>w_master := Some (contribute i value m)\<rparr>)"
    using assms(1,4) by (simp add: mod_node_def nth_c_def contribute_def)
  have s: "\<And>v. send_shutdown v (nodes (contribute i value m)) =
      Some (rev (map (\<lambda>c. CMwrite c (Msg_shutdown v)) (connections (nodes (contribute i value m)))))"
    by (rule send_shutdown_eq) (rule reachable_contribute [OF assms(4,5)])
  have f: "\<not> (value \<ge> 0 \<and> has_bits value STATUS_FORCE)"
    using assms(7) by (simp add: forced_def)
  show ?thesis
    unfolding possibly_signal_shutdown_def Let_def if_not_P [OF f]
    using assms(1-4,6) n t f s
    by (simp add: mod_eval shut_world_def)
qed

lemma finish_client_master [simp]:
  "w_master (finish_client v w) = w_master w" "w_effects (finish_client v w) = w_effects w"
proof -
  have a: "w_master (fold w_signal cs w) = w_master w" "w_effects (fold w_signal cs w) = w_effects w"
    for cs w by (induction cs arbitrary: w) (simp_all add: w_signal_def)
  show "w_master (finish_client v w) = w_master w" "w_effects (finish_client v w) = w_effects w"
    by (simp_all add: finish_client_def signal_all_def a split: option.splits)
qed

section \<open>Waking the clients\<close>

lemma fold_signal_sel [simp]:
  "w_client (fold w_signal cs w) = w_client w" "w_evp (fold w_signal cs w) = w_evp w"
  "w_dfg (fold w_signal cs w) = w_dfg w"
  by (induction cs arbitrary: w) (simp_all add: w_signal_def)

lemma cond_at_fold_signal:
  "cond_at (w_cl (fold w_signal cs w)) n =
    (if n \<in> set cs then map_option (\<lambda>c. c\<lparr>signaled := True\<rparr>) (cond_at (w_cl w) n)
     else cond_at (w_cl w) n)"
proof (induction cs arbitrary: w)
  case Nil
  then show ?case by simp
next
  case (Cons c cs)
  then show ?case
    by (cases "cond_at (w_cl w) n") (auto simp: w_signal_def cond_at_signal)
qed

section \<open>Deploy acknowledgements\<close>

primrec acks :: "nat \<Rightarrow> world \<Rightarrow> world option" where
  "acks 0 w = Some w"
| "acks (Suc k) w = Option.bind (acks k w) handle_deploy_ack"

definition after_acks :: "nat \<Rightarrow> EVdfg \<Rightarrow> world \<Rightarrow> world" where
  "after_acks k d w = w\<lparr>w_dfg := Some (d\<lparr>deploy_ack_count := deploy_ack_count d + int k\<rparr>)\<rparr>"

lemma early_ack:
  assumes "w_master w = Some m" "state m = DFG_Starting" "w_dfg w = Some d"
    and "deploy_ack_count d + 1 < node_count m"
  shows "handle_deploy_ack w = Some (after_acks 1 d w)"
  using assms by (simp add: handle_deploy_ack_def mod_eval after_acks_def)

lemma early_acks:
  assumes "w_master w = Some m" "state m = DFG_Starting" "w_dfg w = Some d"
    and "deploy_ack_count d + int k < node_count m"
  shows "acks k w = Some (after_acks k d w)"
  using assms(4)
proof (induction k)
  case 0
  then show ?case using assms(3) by (simp add: after_acks_def)
next
  case (Suc k)
  then have "acks k w = Some (after_acks k d w)" by simp
  moreover have "handle_deploy_ack (after_acks k d w) =
      Some (after_acks 1 (d\<lparr>deploy_ack_count := deploy_ack_count d + int k\<rparr>) (after_acks k d w))"
    using assms(1,2) Suc.prems by (intro early_ack [of _ m]) (simp_all add: after_acks_def)
  ultimately show ?case by (simp add: after_acks_def algebra_simps)
qed

lemma last_ack:
  assumes "w_master w = Some m" "state m = DFG_Starting" "w_dfg w = Some d"
    and "deploy_ack_count d + 1 = node_count m" "deploy_ack_condition d = c" "c \<noteq> -1"
    and "locked (w_evp w) = 0"
  shows "handle_deploy_ack w =
    Some (w\<lparr>w_master := Some (m\<lparr>state := DFG_Running\<rparr>),
            w_dfg := Some (d\<lparr>deploy_ack_count := node_count m, deploy_ack_condition := -1\<rparr>),
            w_cl := INT_CMCondition_signal c (w_cl w)\<rparr>)"
  using assms
  by (simp add: handle_deploy_ack_def mod_eval CMCondition_signal_def CManager_lock_def
      CManager_unlock_def Let_def)

lemma all_acks:
  assumes "w_master w = Some m" "state m = DFG_Starting" "w_dfg w = Some d"
    and "deploy_ack_count d + int (Suc k) = node_count m"
    and "deploy_ack_condition d = c" "c \<noteq> -1" "locked (w_evp w) = 0"
  shows "(\<forall>j \<le> k. \<exists>w'. acks j w = Some w' \<and> w_master w' = Some m \<and> w_cl w' = w_cl w) \<and>
    (\<exists>w'. acks (Suc k) w = Some w' \<and> w_master w' = Some (m\<lparr>state := DFG_Running\<rparr>) \<and>
       w_cl w' = INT_CMCondition_signal c (w_cl w))"
proof -
  have a: "acks j w = Some (after_acks j d w)" if "j \<le> k" for j
    using early_acks [OF assms(1-3), of j] assms(4) that by simp
  have "handle_deploy_ack (after_acks k d w) \<noteq> None"
    and "w_master (the (handle_deploy_ack (after_acks k d w))) = Some (m\<lparr>state := DFG_Running\<rparr>)"
    and "w_cl (the (handle_deploy_ack (after_acks k d w))) = INT_CMCondition_signal c (w_cl w)"
    using last_ack [of "after_acks k d w" m "d\<lparr>deploy_ack_count := deploy_ack_count d + int k\<rparr>" c]
      assms by (auto simp: after_acks_def)
  then show ?thesis
    using a assms(1) by (auto simp: after_acks_def)
qed

lemma shutdown_handler_wakes:
  assumes "locked (w_evp w) = 0" "w_client w = Some c" "shutdown_conditions c = Some ns"
    and "n \<in> set ns" "cond_at (w_cl w) n = Some cond"
  shows "\<exists>w' c'. dfg_shutdown_handler v w = Some w' \<and> w_client w' = Some c' \<and>
    shutdown_value c' = v \<and> already_shutdown c' \<and>
    cond_at (w_cl w') n = Some (cond\<lparr>signaled := True\<rparr>) \<and>
    (\<forall>w2. CManager_lock w' = Some w2 \<longrightarrow> INT_CMCondition_wait (w_wait_env env) n w2 = Some (1, w2)) \<and>
    (\<forall>n'. n' \<notin> set ns \<longrightarrow> cond_at (w_cl w') n' = cond_at (w_cl w) n')"
proof -
  let ?c = "c\<lparr>shutdown_value := v, already_shutdown := True\<rparr>"
  let ?w = "w\<lparr>w_evp := (w_evp w)\<lparr>locked := 1\<rparr>, w_client := Some ?c\<rparr>"
  let ?w' = "(fold w_signal ns ?w)\<lparr>w_evp := (w_evp w)\<lparr>locked := 0\<rparr>\<rparr>"
  have run: "dfg_shutdown_handler v w = Some ?w'"
    using assms(1-3)
    by (simp add: dfg_shutdown_handler_def CManager_lock_def CManager_unlock_def Let_def mod_eval signal_all_def)
  have sig: "cond_at (w_cl ?w') n = Some (cond\<lparr>signaled := True\<rparr>)"
    using assms(4,5) by (simp add: cond_at_fold_signal)
  moreover have "INT_CMCondition_wait (w_wait_env env) n w2 = Some (1, w2)"
    if "CManager_lock ?w' = Some w2" for w2
  proof (rule wait_signaled)
    show "cond_at (get_cl (w_wait_env env) w2) n = Some (cond\<lparr>signaled := True\<rparr>)"
      using that sig by (simp add: CManager_lock_Some w_wait_env_def)
    show "cm_locked (w_wait_env env) w2"
      using that by (simp add: CManager_lock_Some w_wait_env_def CManager_locked_def)
  qed simp
  moreover have "cond_at (w_cl ?w') n' = cond_at (w_cl w) n'" if "n' \<notin> set ns" for n'
    using that by (simp add: cond_at_fold_signal)
  ultimately show ?thesis using run by auto
qed

end
