(* ===== verification/Dfg_Bridge.thy ===== *)
theory Dfg_Bridge
  imports Dfg_Machine
begin

text \<open>
  Well-formed graphs: the stone ids of a configuration and what its links may hold, kept by every
  operation that builds it; and the bridge stones, which put every link between two nodes
  through a stone on the source's node.
\<close>

section \<open>Stone ids\<close>

lemma dfg_stone_id_eq: "k < 2 ^ 31 \<Longrightarrow> dfg_stone_id (int k) = int k - 2 ^ 31"
proof -
  assume k: "k < 2 ^ 31"
  have "(0x80000000::int) AND int k = 0"
  proof (rule bit_eqI)
    fix n
    have "\<not> bit (int k) 31"
      using k by (simp add: bit_iff_odd)
    then show "bit ((0x80000000::int) AND int k) n \<longleftrightarrow> bit (0::int) n"
      using bit_2_iff by (auto simp: bit_and_iff bit_exp_iff [of 31 n, where 'a = int, simplified])
  qed
  then have "(0x80000000::int) OR int k = 0x80000000 + int k"
    using plus_and_or [of "0x80000000::int" "int k"] by simp
  moreover have "signed_take_bit 31 (0x80000000 + int k) = int k - 2 ^ 31"
    using k by (simp add: signed_take_bit_eq_take_bit_shift take_bit_eq_mod)
  ultimately show ?thesis
    by (simp add: dfg_stone_id_def to_s32_def)
qed

definition stone_ids :: "EVdfg_stone_state list \<Rightarrow> bool" where
  \<comment> \<open>the stone at position k has the k-th id\<close>
  "stone_ids ss \<longleftrightarrow> length ss < 2 ^ 31 - 1 \<and>
     (\<forall>k < length ss. ss_stone_id (ss ! k) = int k - 2 ^ 31)"

definition link_ok :: "EVdfg_stone_state list \<Rightarrow> int \<Rightarrow> bool" where
  \<comment> \<open>unlinked (-1, or the 0 of a first allocation) or an existing stone\<close>
  "link_ok ss l \<longleftrightarrow> l = -1 \<or> l = 0 \<or> (\<exists>k < length ss. l = int k - 2 ^ 31)"

definition links_ok :: "EVdfg_stone_state list \<Rightarrow> bool" where
  "links_ok ss \<longleftrightarrow> (\<forall>s \<in> set ss. \<forall>l \<in> set (out_links s). link_ok ss l)"

definition graph_ok :: "EVdfg \<Rightarrow> bool" where
  "graph_ok d \<longleftrightarrow> dfg_stone_count d = int (length (stones (working_state d))) \<and>
     stone_ids (stones (working_state d)) \<and> links_ok (stones (working_state d))"

lemma stone_idsD: "stone_ids ss \<Longrightarrow> k < length ss \<Longrightarrow> ss_stone_id (ss ! k) = int k - 2 ^ 31"
  by (simp add: stone_ids_def)

lemma stone_ids_inj:
  "stone_ids ss \<Longrightarrow> j < length ss \<Longrightarrow> k < length ss \<Longrightarrow> ss_stone_id (ss ! j) = ss_stone_id (ss ! k) \<Longrightarrow> j = k"
  by (simp add: stone_ids_def)

lemma find_stone_state_Some:
  assumes "stone_ids (stones cf)"
  shows "find_stone_state sid cf = Some k \<longleftrightarrow> k < length (stones cf) \<and> sid = int k - 2 ^ 31"
  using assms by (auto simp: find_stone_state_def find_index_Some stone_ids_def)

lemma link_ok_find:
  assumes "stone_ids (stones cf)" "find_stone_state sid cf = Some k"
  shows "link_ok (stones cf) sid"
  using assms by (auto simp: find_stone_state_Some link_ok_def)

lemma last_with_id_None:
  "\<forall>s \<in> set ss. ss_stone_id s \<noteq> sid \<Longrightarrow> last_with_id sid ss n r = r"
  by (induction ss arbitrary: n r) auto

lemma last_with_id_unique:
  "j < length xs \<Longrightarrow> ss_stone_id (xs ! j) = sid \<Longrightarrow>
    \<forall>i < length xs. ss_stone_id (xs ! i) = sid \<longrightarrow> i = j \<Longrightarrow> last_with_id sid xs n r = Some (n + j)"
proof (induction xs arbitrary: n j r)
  case Nil
  then show ?case by simp
next
  case (Cons x xs)
  show ?case
  proof (cases j)
    case 0
    have "\<forall>s \<in> set xs. ss_stone_id s \<noteq> sid"
    proof
      fix s assume "s \<in> set xs"
      then obtain i where i: "i < length xs" "xs ! i = s" by (auto simp: in_set_conv_nth)
      then show "ss_stone_id s \<noteq> sid"
        using Cons.prems(3) [rule_format, of "Suc i"] 0 by auto
    qed
    then show ?thesis using 0 Cons.prems(2) by (simp add: last_with_id_None)
  next
    case (Suc i)
    have "last_with_id sid xs (Suc n) r' = Some (Suc n + i)" for r'
      using Cons.prems Suc by (intro Cons.IH) auto
    then show ?thesis using Suc by simp
  qed
qed

lemma last_with_id_eq:
  assumes "stone_ids ss" "k < length ss"
  shows "last_with_id (int k - 2 ^ 31) ss 0 None = Some k"
  using last_with_id_unique [of k ss "int k - 2 ^ 31" 0 None] assms by (auto simp: stone_ids_def)

lemma last_with_id_unlinked:
  assumes "stone_ids ss" "l = -1 \<or> l = 0"
  shows "last_with_id l ss 0 None = None"
proof (rule last_with_id_None)
  show "\<forall>s \<in> set ss. ss_stone_id s \<noteq> l"
    using assms by (fastforce simp: stone_ids_def in_set_conv_nth)
qed

section \<open>Building keeps the graph well formed\<close>

lemma stones_queue_if [simp]: "stones (queue_if b act cf) = stones cf"
  by (simp add: queue_if_def EVdfg_add_act_to_queue_def split: option.splits)

lemma stones_add_act [simp]: "stones (EVdfg_add_act_to_queue act cf) = stones cf"
  by (simp add: EVdfg_add_act_to_queue_def split: option.splits)

lemma stones_mod_ss [simp]: "stones (mod_ss i f cf) = (stones cf)[i := f (stones cf ! i)]"
  by (simp add: mod_ss_def)

text \<open>Two stone lists that agree in ids and where the second has only good links.\<close>

definition stones_ok :: "EVdfg_stone_state list \<Rightarrow> bool" where
  "stones_ok ss \<longleftrightarrow> stone_ids ss \<and> links_ok ss"

lemma stones_ok_update:
  assumes "stones_ok ss" "ss_stone_id x = ss_stone_id (ss ! i)"
    and "\<forall>l \<in> set (out_links x). l = -1 \<or> l = 0 \<or> link_ok ss l"
  shows "stones_ok (ss[i := x])"
proof (cases "i < length ss")
  case False
  then show ?thesis using assms(1) by (simp add: list_update_beyond)
next
  case True
  have l: "\<And>l. link_ok (ss[i := x]) l \<longleftrightarrow> link_ok ss l" by (simp add: link_ok_def)
  have "stone_ids (ss[i := x])"
    using assms(1,2) True by (auto simp: stones_ok_def stone_ids_def nth_list_update)
  moreover have "links_ok (ss[i := x])"
    unfolding links_ok_def l
  proof
    fix s assume "s \<in> set (ss[i := x])"
    then have "s = x \<or> s \<in> set ss" using set_update_subset_insert [of ss i x] by auto
    then show "\<forall>l \<in> set (out_links s). link_ok ss l"
      using assms by (auto simp: stones_ok_def links_ok_def link_ok_def)
  qed
  ultimately show ?thesis by (simp add: stones_ok_def)
qed

lemma links_ok_nth: "links_ok ss \<Longrightarrow> i < length ss \<Longrightarrow> l \<in> set (out_links (ss ! i)) \<Longrightarrow> link_ok ss l"
  by (auto simp: links_ok_def)

lemma links_of_nth:
  assumes "stones_ok ss" "i < length ss" "l \<in> set (out_links (ss ! i))"
  shows "link_ok ss l"
  using assms links_ok_nth by (auto simp: stones_ok_def)

text \<open>A step on a configuration that keeps the number of stones and the well-formedness.\<close>

definition keeps :: "EVdfg_configuration \<Rightarrow> EVdfg_configuration \<Rightarrow> bool" where
  "keeps cf cf' \<longleftrightarrow> stones_ok (stones cf) \<longrightarrow>
     stones_ok (stones cf') \<and> length (stones cf') = length (stones cf)"

lemma keeps_refl [simp]: "keeps cf cf"
  by (simp add: keeps_def)

lemma keeps_trans: "keeps a b \<Longrightarrow> keeps b c \<Longrightarrow> keeps a c"
  by (simp add: keeps_def)

lemma keeps_stones: "stones cf' = stones cf \<Longrightarrow> keeps cf cf'"
  by (simp add: keeps_def)

lemma keeps_queue [simp]: "keeps cf (queue_if b act cf')= keeps cf cf'"
  "keeps cf (EVdfg_add_act_to_queue act cf') = keeps cf cf'"
  by (simp_all add: keeps_def)

lemma keeps_mod_ss:
  assumes "\<And>s. ss_stone_id (f s) = ss_stone_id s"
    and "\<And>s. i < length (stones cf) \<Longrightarrow> s = stones cf ! i \<Longrightarrow> stones_ok (stones cf) \<Longrightarrow>
      \<forall>l \<in> set (out_links (f s)). l = -1 \<or> l = 0 \<or> link_ok (stones cf) l"
  shows "keeps cf (mod_ss i f cf)"
proof (cases "i < length (stones cf)")
  case True
  then show ?thesis
    using assms by (auto simp: keeps_def intro!: stones_ok_update)
next
  case False
  then show ?thesis by (simp add: keeps_def list_update_beyond)
qed

lemma keeps_mod_ss_links:
  assumes "\<And>s. ss_stone_id (f s) = ss_stone_id s" "\<And>s. out_links (f s) = out_links s"
  shows "keeps cf (mod_ss i f cf)"
  using assms links_of_nth by (intro keeps_mod_ss) auto

lemma keeps_add_in_link: "keeps cf (add_in_link d sid cf)"
  unfolding add_in_link_def by (rule keeps_mod_ss_links) auto

lemma keeps_act_destroy: "keeps cf (snd (act_destroy act b cf))"
  by (simp add: act_destroy_def split: option.splits)

lemma keeps_destroy: "act_destroy act b cf = (r, cf') \<Longrightarrow> keeps cf cf'"
  using keeps_act_destroy [of cf act b] by simp

lemma stones_act_destroy [simp]: "stones (snd (act_destroy act b cf)) = stones cf"
  by (simp add: act_destroy_def split: option.splits)

lemma keeps_unlink_port:
  assumes "act_unlink_port act b cf = Some (r, cf')"
  shows "keeps cf cf'"
proof -
  have k: "keeps c (mod_ss s (\<lambda>st. st\<lparr>out_links := (out_links st)[n := -1]\<rparr>) c)" for c s n
  proof (rule keeps_mod_ss)
    fix st assume i: "s < length (stones c)" "st = stones c ! s" "stones_ok (stones c)"
    have "set ((out_links st)[n := -1]) \<subseteq> insert (-1) (set (out_links st))"
      by (rule set_update_subset_insert)
    then show "\<forall>l \<in> set (out_links (st\<lparr>out_links := (out_links st)[n := -1]\<rparr>)).
        l = -1 \<or> l = 0 \<or> link_ok (stones c) l"
      using links_of_nth [OF i(3,1)] i(2) by auto
  qed simp
  obtain p d where u: "link_u act = Some (Some p, d)"
    using assms by (auto simp: act_unlink_port_def crash_simps)
  show ?thesis
  proof (cases "find_stone_state (ca_stone_id act) cf")
    case None
    then show ?thesis using assms u by (simp add: act_unlink_port_def)
  next
    case (Some s)
    show ?thesis
    proof (cases "int (length (out_links (stones cf ! s))) \<le> p \<or>
        out_links (stones cf ! s) ! nat p = -1 \<or>
        find_stone_state (out_links (stones cf ! s) ! nat p) cf = None")
      case True
      then have "cf' = cf"
        using assms u Some
        by (auto simp: act_unlink_port_def crash_simps Let_def split: if_splits)
      then show ?thesis by simp
    next
      case False
      then obtain y where y: "find_stone_state (out_links (stones cf ! s) ! nat p) cf = Some y"
        by auto
      let ?c = "if bridge_stone (stones cf ! y)
        then snd (act_destroy (destroy_action (ss_stone_id (stones cf ! y))) b cf) else cf"
      have "cf' = queue_if b act (mod_ss s (\<lambda>st. st\<lparr>out_links := (out_links st)[nat p := -1]\<rparr>) ?c)"
        using assms u Some y False by (auto simp: act_unlink_port_def crash_simps Let_def)
      then show ?thesis
        using k keeps_trans [OF keeps_act_destroy k] by simp
    qed
  qed
qed

lemma keeps_link_port:
  assumes "act_link_port act b cf = Some (r, cf')"
  shows "keeps cf cf'"
proof (cases "stones_ok (stones cf)")
  case False
  then show ?thesis by (simp add: keeps_def)
next
  case ok: True
  from assms obtain port dest_id where u: "link_u act = Some (Some port, Some dest_id)"
    by (auto simp: act_link_port_def crash_simps)
  show ?thesis
  proof (cases "find_stone_state (ca_stone_id act) cf")
    case None
    then show ?thesis using assms u by (simp add: act_link_port_def)
  next
    case (Some s)
    let ?c1 = "mod_ss s (\<lambda>st. st\<lparr>out_links := grow_links (out_links st) port\<rparr>) cf"
    let ?set = "\<lambda>c. mod_ss s (\<lambda>st. st\<lparr>out_links := (out_links st)[nat port := dest_id]\<rparr>) c"
    from assms u Some obtain dst c3 where dst: "find_stone_state dest_id cf = Some dst"
      and d3: "drop_old_link s port b (add_in_link dst (ca_stone_id act) ?c1) = Some c3"
      and cf': "cf' = set_link act s port dest_id b c3"
      by (auto simp: act_link_port_def crash_simps Let_def)
    have c3: "c3 = add_in_link dst (ca_stone_id act) ?c1 \<or>
        (\<exists>x y. act_unlink_port x b (add_in_link dst (ca_stone_id act) ?c1) = Some (y, c3))"
      using d3 by (auto simp: drop_old_link_def crash_simps split: if_splits)
    have k1: "keeps cf ?c1"
    proof (rule keeps_mod_ss)
      fix st assume i: "s < length (stones cf)" "st = stones cf ! s" "stones_ok (stones cf)"
      have "set (grow_links (out_links st) port) \<subseteq> {0, -1} \<union> set (out_links st)"
        by (auto simp: grow_links_def set_replicate_conv_if split: if_splits)
      then show "\<forall>l \<in> set (out_links (st\<lparr>out_links := grow_links (out_links st) port\<rparr>)).
          l = -1 \<or> l = 0 \<or> link_ok (stones cf) l"
        using links_of_nth [OF i(3,1)] i(2) by auto
    qed simp
    have k3: "keeps cf c3"
      using c3 keeps_trans [OF k1 keeps_add_in_link]
        keeps_trans [OF keeps_trans [OF k1 keeps_add_in_link] keeps_unlink_port] by blast
    have "link_ok (stones cf) dest_id"
      using ok dst by (auto simp: stones_ok_def intro: link_ok_find)
    then have d: "link_ok (stones c3) dest_id"
      using k3 ok by (simp add: keeps_def link_ok_def)
    have k4: "keeps c3 (?set c3)"
    proof (rule keeps_mod_ss)
      fix st assume i: "s < length (stones c3)" "st = stones c3 ! s" "stones_ok (stones c3)"
      have "set ((out_links st)[nat port := dest_id]) \<subseteq> insert dest_id (set (out_links st))"
        by (rule set_update_subset_insert)
      then show "\<forall>l \<in> set (out_links (st\<lparr>out_links := (out_links st)[nat port := dest_id]\<rparr>)).
          l = -1 \<or> l = 0 \<or> link_ok (stones c3) l"
        using links_of_nth [OF i(3,1)] i(2) d by auto
    qed simp
    have k5: "keeps (?set c3) (mod_ss s (\<lambda>st. st\<lparr>condition := EVstone_Frozen\<rparr>) (?set c3))"
      by (rule keeps_mod_ss_links) simp_all
    have "keeps cf (?set c3)" using keeps_trans [OF k3 k4] .
    then show ?thesis
      using keeps_trans [OF _ k5, of cf]
      by (auto simp: cf' set_link_def Let_def keeps_def)
  qed
qed

lemma keeps_link_dest:
  assumes "act_link_dest act b cf = Some (r, cf')"
  shows "keeps cf cf'"
proof (cases "stones_ok (stones cf)")
  case False
  then show ?thesis by (simp add: keeps_def)
next
  case ok: True
  from assms obtain p dest_id s where u: "link_u act = Some (p, Some dest_id)"
    and s: "find_stone_state (ca_stone_id act) cf = Some s"
    by (auto simp: act_link_dest_def crash_simps)
  show ?thesis
  proof (cases "dest_id \<in> set (out_links (stones cf ! s))")
    case True
    then show ?thesis using assms u s by (simp add: act_link_dest_def)
  next
    case False
    let ?c = "mod_ss s (\<lambda>st. st\<lparr>out_links := out_links st @ [dest_id]\<rparr>) cf"
    from assms u s False obtain dst where dst: "find_stone_state dest_id cf = Some dst"
      and cf': "cf' = queue_if b act (add_in_link dst (ca_stone_id act) ?c)"
      by (auto simp: act_link_dest_def crash_simps Let_def)
    have "link_ok (stones cf) dest_id"
      using ok dst by (auto simp: stones_ok_def intro: link_ok_find)
    then have "keeps cf ?c"
      using links_of_nth by (intro keeps_mod_ss) auto
    then show ?thesis
      using cf' keeps_trans keeps_add_in_link by auto
  qed
qed

lemma set_move_down: "i < length l \<Longrightarrow> set (move_down i l) \<subseteq> set l"
  by (cases "l = []") (auto simp: move_down_def dest: in_set_takeD in_set_dropD)

lemma keeps_move_down:
  "i < length (out_links (stones cf ! s)) \<Longrightarrow>
    keeps cf (mod_ss s (\<lambda>st. st\<lparr>out_links := move_down i (out_links st)\<rparr>) cf)"
  using links_of_nth set_move_down by (intro keeps_mod_ss) fastforce+

lemma length_move_down [simp]: "i < length l \<Longrightarrow> length (move_down i l) = length l"
  by (simp add: move_down_def)

lemma keeps_unlink_dest_loop:
  assumes "unlink_dest_loop n i s dest b act found cf = Some (act', found', cf')"
    and "i + n = length (out_links (stones cf ! s))" "s < length (stones cf)"
  shows "keeps cf cf'"
  using assms
proof (induction n arbitrary: i act found cf)
  case 0
  then show ?case by simp
next
  case (Suc n)
  let ?mv = "\<lambda>c. mod_ss s (\<lambda>st. st\<lparr>out_links := move_down i (out_links st)\<rparr>) c"
  have i: "i < length (out_links (stones cf ! s))" using Suc.prems by simp
  from Suc.prems(1) obtain act2 found2 c2
    where l: "unlink_dest_loop n (Suc i) s dest b act2 found2 c2 = Some (act', found', cf')"
      and c2: "c2 = cf \<or> c2 = ?mv cf \<or> (\<exists>x. c2 = ?mv (snd (act_destroy x b cf)))"
    by (auto simp: crash_simps Let_def split: if_splits)
  have k2: "keeps cf c2"
    using c2 i keeps_move_down [of i cf s] keeps_move_down [of i "snd (act_destroy x b cf)" s for x]
      keeps_trans [OF keeps_act_destroy]
    by (metis (no_types, lifting) keeps_refl stones_act_destroy)
  have "length (out_links (stones c2 ! s)) = length (out_links (stones cf ! s))"
    "length (stones c2) = length (stones cf)"
    using c2 i Suc.prems(3) by auto
  then have "keeps c2 cf'"
    using Suc.prems by (intro Suc.IH [OF l]) simp_all
  then show ?case using k2 keeps_trans by blast
qed

lemma keeps_unlink_dest:
  assumes "act_unlink_dest act b cf = Some (r, cf')"
  shows "keeps cf cf'"
proof -
  from assms consider "cf' = cf"
    | s dest act2 found2 c where "s < length (stones cf)"
        "unlink_dest_loop (length (out_links (stones cf ! s))) 0 s dest b act 0 cf = Some (act2, found2, c)"
        "cf' = c \<or> cf' = queue_if b act2 c"
    by (fastforce simp: act_unlink_dest_def crash_simps find_stone_state_def find_index_Some
        split: option.splits if_splits prod.splits)
  then show ?thesis
  proof cases
    case (2 s dest act2 found2 c)
    then have "keeps cf c" using keeps_unlink_dest_loop by simp
    then show ?thesis using 2(3) by auto
  qed simp
qed

text \<open>Every action but the two that create a stone.\<close>

lemma keeps_perform:
  assumes "EVdfg_perform_act_on_state act b cf = Some (r, cf', es)"
    and "ca_type act \<noteq> ACT_create" "ca_type act \<noteq> ACT_create_bridge"
  shows "keeps cf cf'"
proof -
  have u: "keeps cf (mod_ss s f cf)"
    if "\<And>s. ss_stone_id (f s) = ss_stone_id s" "\<And>s. out_links (f s) = out_links s" for s f
    using that by (rule keeps_mod_ss_links)
  show ?thesis
    using assms
    by (cases "ca_type act")
      (auto simp: EVdfg_perform_act_on_state_def no_effects_def act_add_action_def
        act_set_auto_period_def act_set_attrs_def act_assign_node_def Let_def
        split: action_u.splits option.splits if_splits prod.splits intro!: u
        dest: keeps_link_port keeps_link_dest keeps_unlink_port keeps_unlink_dest keeps_destroy
        intro: keeps_stones)
qed

section \<open>The graphs a program can build\<close>

lemma perform_working_keeps:
  assumes "perform_working act b w = Some (r, w')" "w_dfg w = Some d" "graph_ok d"
    and "ca_type act \<noteq> ACT_create" "ca_type act \<noteq> ACT_create_bridge"
  shows "\<exists>d'. w_dfg w' = Some d' \<and> graph_ok d'"
proof -
  obtain cf es where cf: "EVdfg_perform_act_on_state act b (working_state d) = Some (r, cf, es)"
    and w': "w_dfg w' = Some (d\<lparr>working_state := cf\<rparr>)"
    using assms(1,2) by (auto simp: perform_working_def crash_simps)
  have "keeps (working_state d) cf" using cf assms(4,5) by (rule keeps_perform)
  then show ?thesis
    using w' assms(3) by (auto simp: graph_ok_def keeps_def stones_ok_def)
qed

lemma link_ok_append: "link_ok ss l \<Longrightarrow> link_ok (ss @ xs) l"
  by (auto simp: link_ok_def)

lemma stones_ok_append:
  assumes "stones_ok ss" "ss_stone_id x = int (length ss) - 2 ^ 31" "length ss + 1 < 2 ^ 31 - 1"
    and "\<forall>l \<in> set (out_links x). link_ok (ss @ [x]) l"
  shows "stones_ok (ss @ [x])"
proof -
  have "stone_ids (ss @ [x])"
    using assms(1-3) by (auto simp: stones_ok_def stone_ids_def nth_append less_Suc_eq)
  moreover have "links_ok (ss @ [x])"
    using assms(1,4) by (auto simp: stones_ok_def links_ok_def intro: link_ok_append)
  ultimately show ?thesis by (simp add: stones_ok_def)
qed

lemma create_stone_result:
  assumes "w_dfg w = Some d"
  shows "INT_EVdfg_create_stone action w =
    (let sid = dfg_stone_id (dfg_stone_count d);
         cf = working_state d;
         d' = d\<lparr>dfg_stone_count := dfg_stone_count d + 1, dfg_stones := dfg_stones d @ [Some sid],
            working_state := EVdfg_add_act_to_queue (mk_act ACT_create sid (U_create action))
              (cf\<lparr>stones := stones cf @ [(new_stone_state sid)\<lparr>ss_action := action\<rparr>]\<rparr>)\<rparr>
     in Some (sid, w\<lparr>w_dfg := Some d'\<rparr>))"
  using assms
  by (simp add: INT_EVdfg_create_stone_def perform_working_def mod_eval Let_def mk_act_def
      EVdfg_perform_act_on_state_def act_create_def queue_if_def)

lemma create_stone_keeps:
  assumes "INT_EVdfg_create_stone action w = Some (sid, w')" "w_dfg w = Some d" "graph_ok d"
    and "dfg_stone_count d + 1 < 2 ^ 31 - 1"
  shows "\<exists>d'. w_dfg w' = Some d' \<and> graph_ok d'"
proof -
  let ?n = "length (stones (working_state d))"
  have n: "dfg_stone_count d = int ?n" using assms(3) by (simp add: graph_ok_def)
  have sid: "dfg_stone_id (dfg_stone_count d) = int ?n - 2 ^ 31"
    unfolding n by (rule dfg_stone_id_eq) (use assms(4) n in simp)
  have "stones_ok (stones (working_state d) @ [(new_stone_state (int ?n - 2 ^ 31))\<lparr>ss_action := action\<rparr>])"
    using assms(3,4) n
    by (intro stones_ok_append) (auto simp: graph_ok_def stones_ok_def new_stone_state_def)
  then show ?thesis
    using assms(1) unfolding create_stone_result [OF assms(2)] sid
    by (auto simp: graph_ok_def stones_ok_def Let_def n)
qed

inductive built :: "world \<Rightarrow> bool" where
  created: "INT_EVdfg_create w = Some w' \<Longrightarrow> built w'"
| stone: "built w \<Longrightarrow> w_dfg w = Some d \<Longrightarrow> dfg_stone_count d + 1 < 2 ^ 31 - 1 \<Longrightarrow>
    INT_EVdfg_create_stone action w = Some (sid, w') \<Longrightarrow> built w'"
| action: "built w \<Longrightarrow> INT_EVdfg_add_action sid action w = Some w' \<Longrightarrow> built w'"
| auto_stone: "built w \<Longrightarrow> INT_EVdfg_enable_auto_stone sid secs usecs w = Some w' \<Longrightarrow> built w'"
| link_port: "built w \<Longrightarrow> INT_EVdfg_link_port src port dest w = Some (r, w') \<Longrightarrow> built w'"
| link_dest: "built w \<Longrightarrow> INT_EVdfg_link_dest src dest w = Some (r, w') \<Longrightarrow> built w'"
| unlink_port: "built w \<Longrightarrow> INT_EVdfg_unlink_port src port w = Some (r, w') \<Longrightarrow> built w'"
| unlink_dest: "built w \<Longrightarrow> INT_EVdfg_unlink_dest src dest w = Some (r, w') \<Longrightarrow> built w'"
| attrs: "built w \<Longrightarrow> INT_EVdfg_set_attr_list sid a w = Some (r, w') \<Longrightarrow> built w'"
| assign: "built w \<Longrightarrow> INT_EVdfg_assign_node sid name w = Some (r, w') \<Longrightarrow> built w'"
| realize: "built w \<Longrightarrow> INT_EVdfg_realize w = Some (r, w') \<Longrightarrow> built w'"
| nodes: "built w \<Longrightarrow> INT_EVmaster_register_node_list names w = Some w' \<Longrightarrow> built w'"

lemma built_graph_ok: "built w \<Longrightarrow> \<exists>d. w_dfg w = Some d \<and> graph_ok d"
proof (induction rule: built.induct)
  case (created w w')
  then show ?case
    by (auto simp: INT_EVdfg_create_def crash_simps graph_ok_def stone_ids_def links_ok_def
        new_dfg_configuration_def)
next
  case (stone w d action sid w')
  then show ?case using create_stone_keeps by auto
next
  case (link_port w src port dest r w')
  then show ?case
    by (auto simp: INT_EVdfg_link_port_def mk_act_def split: if_splits dest: perform_working_keeps)
next
  case (unlink_port w src port r w')
  then show ?case
    by (auto simp: INT_EVdfg_unlink_port_def mk_act_def split: if_splits dest: perform_working_keeps)
next
  case (assign w sid name r w')
  then show ?case
    by (auto simp: INT_EVdfg_assign_node_def mk_act_def crash_simps Let_def split: if_splits
        dest: perform_working_keeps)
next
  case (realize w r w')
  then show ?case
    by (auto simp: INT_EVdfg_realize_def crash_simps Let_def graph_ok_def split: if_splits)
qed (auto simp: INT_EVdfg_add_action_def INT_EVdfg_enable_auto_stone_def INT_EVdfg_link_dest_def
      INT_EVdfg_unlink_dest_def INT_EVdfg_set_attr_list_def INT_EVmaster_register_node_list_def
      mk_act_def dest: perform_working_keeps)

end
