(* ===== verification/Dfg_Cross.thy ===== *)
theory Dfg_Cross
  imports Dfg_Bridge
begin

text \<open>
  add_bridge_stones on a well-formed graph: it ends, no link between two nodes is left, and every
  link it changed leads to a new bridge on the source's node that targets what the link led to.
  The lists of incoming links play no part in this, so stones are compared without them.
\<close>

definition sk :: "EVdfg_stone_state \<Rightarrow> EVdfg_stone_state" where
  "sk s = s\<lparr>in_links := []\<rparr>"

lemma sk_sel [simp]:
  "ss_node (sk s) = ss_node s" "bridge_stone (sk s) = bridge_stone s"
  "ss_stone_id (sk s) = ss_stone_id s" "out_links (sk s) = out_links s"
  "bridge_target (sk s) = bridge_target s" "condition (sk s) = condition s"
  by (simp_all add: sk_def)

lemma sk_in_links [simp]: "sk (s\<lparr>in_links := l\<rparr>) = sk s"
  by (simp add: sk_def)

lemma sk_out_links_cong: "sk s = sk s' \<Longrightarrow>
    sk (s\<lparr>out_links := (out_links s)[j := l]\<rparr>) = sk (s'\<lparr>out_links := (out_links s')[j := l]\<rparr>)"
  by (cases s; cases s') (simp add: sk_def)

lemma sk_node_same: "ss_node s = n \<Longrightarrow> s\<lparr>ss_node := n\<rparr> = s"
  by (cases s) simp

definition contact_of :: "EVmaster \<Rightarrow> int \<Rightarrow> string option" where
  "contact_of m node =
    do { n \<leftarrow> nth_c (nodes m) node; if node_self n then my_contact_str m else str_contact_list n }"

definition placed :: "EVmaster \<Rightarrow> EVdfg_stone_state list \<Rightarrow> bool" where
  \<comment> \<open>every stone is on a node that can be reached\<close>
  "placed m ss \<longleftrightarrow> (\<forall>s \<in> set ss. contact_of m (ss_node s) \<noteq> None)"

definition bridge_to :: "int \<Rightarrow> int \<Rightarrow> string \<Rightarrow> int \<Rightarrow> EVdfg_stone_state" where
  "bridge_to sid target action node =
    (new_stone_state sid)\<lparr>bridge_stone := True, ss_action := Some action, bridge_target := target,
      ss_node := node, out_links := [target]\<rparr>"

lemma stones_add_in_link:
  "map sk (stones (add_in_link d sid cf)) = map sk (stones cf)"
  by (cases "d < length (stones cf)")
    (auto simp: add_in_link_def map_update list_update_same_conv list_update_beyond)

lemma length_add_in_link [simp]: "length (stones (add_in_link d sid cf)) = length (stones cf)"
  by (simp add: add_in_link_def)

lemma link_new_bridge:
  assumes "stone_ids (stones cf)" "stones cf = ss @ [b]" "out_links b = []" "t < length ss"
    and "a = \<lparr>ca_type = ACT_link_dest, ca_stone_id = int (length ss) - 2 ^ 31, ca_node = nd,
      ca_u = U_link None (Some (int t - 2 ^ 31))\<rparr>"
  shows "\<exists>cf'. EVdfg_perform_act_on_state a False cf = Some (1, cf', []) \<and>
    map sk (stones cf') = map sk ss @ [sk (b\<lparr>out_links := [int t - 2 ^ 31]\<rparr>)]"
proof -
  let ?n = "length ss"
  have f: "find_stone_state (int ?n - 2 ^ 31) cf = Some ?n"
    "find_stone_state (int t - 2 ^ 31) cf = Some t"
    using assms(2,4) by (simp_all add: find_stone_state_Some [OF assms(1)])
  let ?c = "mod_ss ?n (\<lambda>st. st\<lparr>out_links := out_links st @ [int t - 2 ^ 31]\<rparr>) cf"
  have "act_link_dest a False cf = Some (1, add_in_link t (int ?n - 2 ^ 31) ?c)"
    using f assms(2,3) by (simp add: act_link_dest_def assms(5) link_u_def queue_if_def)
  moreover have "map sk (stones (add_in_link t (int ?n - 2 ^ 31) ?c)) =
      map sk ss @ [sk (b\<lparr>out_links := [int t - 2 ^ 31]\<rparr>)]"
    unfolding stones_add_in_link using assms(2,3) by simp
  ultimately show ?thesis
    by (simp add: EVdfg_perform_act_on_state_def no_effects_def assms(5))
qed

lemma create_bridge_stone_result:
  assumes "w_dfg w = Some d" "w_master w = Some m" "graph_ok d"
    and "length (stones (working_state d)) + 1 < 2 ^ 31 - 1"
    and "t < length (stones (working_state d))"
    and "contact_of m (ss_node (stones (working_state d) ! t)) \<noteq> None"
  defines "sid \<equiv> int (length (stones (working_state d))) - 2 ^ 31"
  shows "\<exists>w' d' action. create_bridge_stone (stones (working_state d) ! t) node w = Some (sid, w') \<and>
    w_dfg w' = Some d' \<and> w_master w' = Some m \<and>
    dfg_stone_count d' = dfg_stone_count d + 1 \<and>
    map sk (stones (working_state d')) =
      map sk (stones (working_state d)) @ [sk (bridge_to sid (int t - 2 ^ 31) action node)]"
proof -
  let ?cf = "working_state d"
  let ?n = "length (stones ?cf)"
  let ?t = "stones ?cf ! t"
  have ok: "stone_ids (stones ?cf)" "dfg_stone_count d = int ?n"
    using assms(3) by (simp_all add: graph_ok_def)
  have t: "ss_stone_id ?t = int t - 2 ^ 31"
    using stone_idsD [OF ok(1) assms(5)] .
  have sid: "dfg_stone_id (dfg_stone_count d) = sid"
    unfolding ok(2) sid_def by (rule dfg_stone_id_eq) (use assms(4) in simp)
  obtain n contact where n: "nth_c (nodes m) (ss_node ?t) = Some n"
    and contact: "(if node_self n then my_contact_str m else str_contact_list n) = Some contact"
    using assms(6) by (auto simp: contact_of_def split: bind_splits)
  have "int32 (int t - 2 ^ 31)" using assms(4,5) by (simp add: int32_def)
  then obtain action where spec: "INT_create_bridge_action_spec (int t - 2 ^ 31) contact = Some action"
    using create_bridge_eq by blast
  let ?b = "(new_stone_state sid)\<lparr>bridge_stone := True, ss_action := Some action,
      bridge_target := int t - 2 ^ 31, ss_node := node\<rparr>"
  let ?act = "\<lparr>ca_type = ACT_create_bridge, ca_stone_id = sid, ca_node = Some node,
      ca_u = U_bridge action (int t - 2 ^ 31)\<rparr>"
  let ?cf1 = "EVdfg_add_act_to_queue ?act (?cf\<lparr>stones := stones ?cf @ [?b]\<rparr>)"
  let ?d1 = "d\<lparr>dfg_stone_count := dfg_stone_count d + 1, dfg_stones := dfg_stones d @ [None],
      working_state := ?cf1\<rparr>"
  have "stones_ok (stones ?cf @ [?b])"
    using assms(3,4) by (intro stones_ok_append) (auto simp: graph_ok_def stones_ok_def new_stone_state_def sid_def)
  then have ids: "stone_ids (stones ?cf1)" by (simp add: stones_ok_def)
  obtain cf' where link: "EVdfg_perform_act_on_state \<lparr>ca_type = ACT_link_dest, ca_stone_id = sid,
        ca_node = Some node, ca_u = U_link None (Some (int t - 2 ^ 31))\<rparr> False ?cf1 = Some (1, cf', [])"
    and sk': "map sk (stones cf') = map sk (stones ?cf) @ [sk (?b\<lparr>out_links := [int t - 2 ^ 31]\<rparr>)]"
    using link_new_bridge [OF ids, of "stones ?cf" ?b t _ "Some node"] assms(5)
    by (auto simp: new_stone_state_def sid_def)
  have create: "EVdfg_perform_act_on_state ?act True ?cf = Some (1, ?cf1, [])"
    by (simp add: EVdfg_perform_act_on_state_def act_create_def queue_if_def)
  have "create_bridge_stone ?t node w =
      Some (sid, w\<lparr>w_dfg := Some (?d1\<lparr>working_state := cf'\<rparr>)\<rparr>)"
    using assms(1,2) n contact spec sid t create link
    by (simp add: create_bridge_stone_def perform_working_def mod_eval)
  moreover have "?b\<lparr>out_links := [int t - 2 ^ 31]\<rparr> = bridge_to sid (int t - 2 ^ 31) action node"
    by (simp add: bridge_to_def)
  ultimately show ?thesis
    using assms(2) sk' by auto
qed

text \<open>What bridging link \<open>j\<close> of stone \<open>i\<close> does to the list of stones.\<close>

definition rerouted :: "nat \<Rightarrow> nat \<Rightarrow> EVdfg_stone_state list \<Rightarrow> EVdfg_stone_state list \<Rightarrow> bool" where
  "rerouted i j ss ss' \<longleftrightarrow>
    (let n = length ss; sid = int n - 2 ^ 31
     in length ss' = Suc n \<and>
        (\<forall>k < n. ss_stone_id (ss' ! k) = ss_stone_id (ss ! k) \<and> ss_node (ss' ! k) = ss_node (ss ! k) \<and>
           bridge_stone (ss' ! k) = bridge_stone (ss ! k) \<and>
           bridge_target (ss' ! k) = bridge_target (ss ! k) \<and>
           out_links (ss' ! k) =
             (if k = i then (out_links (ss ! i))[j := sid] else out_links (ss ! k))) \<and>
        ss_stone_id (ss' ! n) = sid \<and> ss_node (ss' ! n) = ss_node (ss ! i) \<and> bridge_stone (ss' ! n) \<and>
        out_links (ss' ! n) = [out_links (ss ! i) ! j] \<and>
        bridge_target (ss' ! n) = out_links (ss ! i) ! j)"

definition link_local :: "EVdfg_stone_state list \<Rightarrow> nat \<Rightarrow> nat \<Rightarrow> bool" where
  "link_local ss i j \<longleftrightarrow> bridge_stone (ss ! i) \<or>
    (\<forall>k < length ss. ss_stone_id (ss ! k) = out_links (ss ! i) ! j \<longrightarrow> ss_node (ss ! k) = ss_node (ss ! i))"

lemma rerouted_of_sk:
  assumes "map sk ss' = (map sk ss)[i := sk ((ss ! i)\<lparr>out_links := (out_links (ss ! i))[j := sid]\<rparr>)]
      @ [sk (bridge_to sid (out_links (ss ! i) ! j) action (ss_node (ss ! i)))]"
    and "sid = int (length ss) - 2 ^ 31" "i < length ss"
  shows "rerouted i j ss ss'"
proof -
  have len: "length ss' = Suc (length ss)"
    using arg_cong [OF assms(1), of length] by simp
  have nth: "k < length ss \<Longrightarrow> sk (ss' ! k) =
      (if k = i then sk ((ss ! i)\<lparr>out_links := (out_links (ss ! i))[j := sid]\<rparr>) else sk (ss ! k))" for k
    using arg_cong [OF assms(1), of "\<lambda>l. l ! k"] len
    by (simp add: nth_append nth_list_update less_Suc_eq)
  have new: "sk (ss' ! length ss) = sk (bridge_to sid (out_links (ss ! i) ! j) action (ss_node (ss ! i)))"
    using arg_cong [OF assms(1), of "\<lambda>l. l ! length ss"] len by (simp add: nth_append)
  have old: "ss_stone_id (ss' ! k) = ss_stone_id (ss ! k)" "ss_node (ss' ! k) = ss_node (ss ! k)"
    "bridge_stone (ss' ! k) = bridge_stone (ss ! k)"
    "bridge_target (ss' ! k) = bridge_target (ss ! k)"
    "out_links (ss' ! k) = (if k = i then (out_links (ss ! i))[j := sid] else out_links (ss ! k))"
    if "k < length ss" for k
    using arg_cong [OF nth [OF that], of ss_stone_id] arg_cong [OF nth [OF that], of ss_node]
      arg_cong [OF nth [OF that], of bridge_stone] arg_cong [OF nth [OF that], of out_links]
      arg_cong [OF nth [OF that], of bridge_target]
    by (auto split: if_splits)
  have "ss_stone_id (ss' ! length ss) = sid" "ss_node (ss' ! length ss) = ss_node (ss ! i)"
    "bridge_stone (ss' ! length ss)" "out_links (ss' ! length ss) = [out_links (ss ! i) ! j]"
    "bridge_target (ss' ! length ss) = out_links (ss ! i) ! j"
    using arg_cong [OF new, of ss_stone_id] arg_cong [OF new, of ss_node]
      arg_cong [OF new, of bridge_stone] arg_cong [OF new, of out_links]
      arg_cong [OF new, of bridge_target]
    by (simp_all add: bridge_to_def new_stone_state_def)
  then show ?thesis
    using len old assms(2) by (simp add: rerouted_def Let_def)
qed

lemma stones_redirect [simp]: "stones (redirect_pending t b cf) = stones cf"
  by (simp add: redirect_pending_def)

text \<open>The world while bridges are added.\<close>

definition bridging :: "EVmaster \<Rightarrow> EVdfg_stone_state list \<Rightarrow> world \<Rightarrow> bool" where
  "bridging m ss w \<longleftrightarrow> w_master w = Some m \<and>
     (\<exists>d. w_dfg w = Some d \<and> graph_ok d \<and> stones (working_state d) = ss) \<and> placed m ss"

lemma rerouted_keeps:
  assumes "rerouted i j ss ss'" "stones_ok ss" "placed m ss" "i < length ss"
    and "j < length (out_links (ss ! i))" "Suc (length ss) < 2 ^ 31 - 1"
  shows "stones_ok ss'" "placed m ss'"
proof -
  let ?n = "length ss" and ?sid = "int (length ss) - 2 ^ 31"
  have len: "length ss' = Suc ?n" using assms(1) by (simp add: rerouted_def Let_def)
  have split: "k < length ss' \<Longrightarrow> k < ?n \<or> k = ?n" for k using len by auto
  have "stone_ids ss'"
    unfolding stone_ids_def
  proof (intro conjI allI impI)
    show "length ss' < 2 ^ 31 - 1" using len assms(6) by simp
    fix k assume "k < length ss'"
    then show "ss_stone_id (ss' ! k) = int k - 2 ^ 31"
      using split [of k] assms(1,2) by (auto simp: rerouted_def Let_def stones_ok_def stone_ids_def)
  qed
  moreover have "links_ok ss'"
    unfolding links_ok_def
  proof (intro ballI)
    fix s l assume s: "s \<in> set ss'" and l: "l \<in> set (out_links s)"
    then obtain k where k: "k < length ss'" "s = ss' ! k" by (auto simp: in_set_conv_nth)
    have up: "link_ok ss x \<Longrightarrow> link_ok ss' x" for x using len by (auto simp: link_ok_def)
    have new: "link_ok ss' ?sid" using len by (auto simp: link_ok_def)
    have i: "x \<in> set (out_links (ss ! i)) \<Longrightarrow> link_ok ss x" for x
      using links_of_nth [OF assms(2,4)] .
    show "link_ok ss' l"
    proof (cases "k = ?n")
      case True
      then have "l = out_links (ss ! i) ! j"
        using l k assms(1) by (simp add: rerouted_def Let_def)
      then show ?thesis using up i nth_mem [OF assms(5)] by blast
    next
      case False
      then have kn: "k < ?n" using split [OF k(1)] by simp
      then have "out_links s = (if k = i then (out_links (ss ! i))[j := ?sid] else out_links (ss ! k))"
        using k(2) assms(1) by (simp add: rerouted_def Let_def)
      then have "l = ?sid \<or> l \<in> set (out_links (ss ! k))"
        using l set_update_subset_insert [of "out_links (ss ! i)" j ?sid] by (auto split: if_splits)
      then show ?thesis using up new links_of_nth [OF assms(2) kn] by blast
    qed
  qed
  ultimately show "stones_ok ss'" by (simp add: stones_ok_def)
  show "placed m ss'"
    unfolding placed_def
  proof
    fix s assume "s \<in> set ss'"
    then obtain k where k: "k < length ss'" "s = ss' ! k" by (auto simp: in_set_conv_nth)
    then have "\<exists>k' < ?n. ss_node s = ss_node (ss ! k')"
      using split [OF k(1)] assms(1,4) by (auto simp: rerouted_def Let_def)
    then show "contact_of m (ss_node s) \<noteq> None"
      using assms(3) by (auto simp: placed_def)
  qed
qed

lemma bridge_link_cases:
  assumes "bridging m ss w" "i < length ss" "j < length (out_links (ss ! i))"
    and "Suc (length ss) < 2 ^ 31 - 1"
  shows "(bridge_link i j w = Some w \<and> link_local ss i j) \<or>
    (\<exists>w' ss'. bridge_link i j w = Some w' \<and> bridging m ss' w' \<and> rerouted i j ss ss' \<and>
      \<not> bridge_stone (ss ! i) \<and> \<not> link_local ss i j)"
proof -
  obtain d where d: "w_dfg w = Some d" "graph_ok d" "stones (working_state d) = ss"
    and m: "w_master w = Some m" "placed m ss"
    using assms(1) by (auto simp: bridging_def)
  have ok: "stone_ids ss" "stones_ok ss" "dfg_stone_count d = int (length ss)"
    using d(2,3) by (auto simp: graph_ok_def stones_ok_def)
  let ?cur = "ss ! i" and ?l = "out_links (ss ! i) ! j"
  have l: "link_ok ss ?l"
    using links_of_nth [OF ok(2) assms(2)] assms(3) by simp
  show ?thesis
  proof (cases "\<exists>t < length ss. ?l = int t - 2 ^ 31")
    case False
    then have "?l = -1 \<or> ?l = 0" using l by (auto simp: link_ok_def)
    then have "bridge_link i j w = Some w"
      using last_with_id_unlinked [OF ok(1)] d by (simp add: bridge_link_def)
    moreover have "link_local ss i j"
      using False ok(1) by (auto simp: link_local_def stone_ids_def)
    ultimately show ?thesis by blast
  next
    case True
    then obtain t where t: "t < length ss" "?l = int t - 2 ^ 31" by blast
    have f: "last_with_id ?l ss 0 None = Some t"
      unfolding t(2) by (rule last_with_id_eq [OF ok(1) t(1)])
    show ?thesis
    proof (cases "bridge_stone ?cur \<or> ss_node ?cur = ss_node (ss ! t)")
      case True
      then have "bridge_link i j w = Some w"
        using f d by (simp add: bridge_link_def)
      moreover have "link_local ss i j"
        using True t ok(1) by (auto simp: link_local_def stone_ids_def)
      ultimately show ?thesis by blast
    next
      case False
      let ?sid = "int (length ss) - 2 ^ 31"
      have "contact_of m (ss_node (ss ! t)) \<noteq> None"
        using m(2) t(1) by (simp add: placed_def)
      then obtain w1 d1 action where w1: "create_bridge_stone (ss ! t) (ss_node ?cur) w = Some (?sid, w1)"
        and d1: "w_dfg w1 = Some d1" "w_master w1 = Some m" "dfg_stone_count d1 = dfg_stone_count d + 1"
        and sk1: "map sk (stones (working_state d1)) =
          map sk ss @ [sk (bridge_to ?sid (int t - 2 ^ 31) action (ss_node ?cur))]"
        using create_bridge_stone_result [OF d(1) m(1) d(2), of t "ss_node ?cur"] d(3) t(1) assms(4)
        by auto
      let ?n = "length ss" and ?s1 = "stones (working_state d1)"
      have len: "length ?s1 = Suc ?n" using arg_cong [OF sk1, of length] by simp
      have nth1: "k < ?n \<Longrightarrow> sk (?s1 ! k) = sk (ss ! k)" for k
        using arg_cong [OF sk1, of "\<lambda>l. l ! k"] len by (simp add: nth_append)
      have new1: "sk (?s1 ! ?n) = sk (bridge_to ?sid (int t - 2 ^ 31) action (ss_node ?cur))"
        using arg_cong [OF sk1, of "\<lambda>l. l ! ?n"] len by (simp add: nth_append)
      have idn: "ss_stone_id (?s1 ! ?n) = ?sid" "ss_node (?s1 ! ?n) = ss_node ?cur"
        using arg_cong [OF new1, of ss_stone_id] arg_cong [OF new1, of ss_node]
        by (simp_all add: bridge_to_def new_stone_state_def)
      let ?c2 = "mod_ss i (\<lambda>st. st\<lparr>out_links := (out_links st)[j := ?sid]\<rparr>) (working_state d1)"
      have ids1: "stone_ids (stones ?c2)"
        unfolding stone_ids_def
      proof (intro conjI allI impI)
        show "length (stones ?c2) < 2 ^ 31 - 1" using len assms(4) by simp
        fix k assume "k < length (stones ?c2)"
        then have "k < ?n \<or> k = ?n" using len by auto
        then have "ss_stone_id (?s1 ! k) = int k - 2 ^ 31"
          using nth1 [of k] ok(1) idn by (metis sk_sel(3) stone_idsD)
        then show "ss_stone_id (stones ?c2 ! k) = int k - 2 ^ 31"
          using assms(2) len by (cases "k = i") simp_all
      qed
      have f1: "last_with_id ?sid (stones ?c2) 0 None = Some ?n"
        by (rule last_with_id_eq [OF ids1]) (simp add: len)
      let ?cf4 = "mod_ss ?n (\<lambda>st. st\<lparr>ss_node := ss_node ?cur\<rparr>)
        (redirect_pending (ss_stone_id (ss ! t)) (ss_stone_id (stones ?c2 ! ?n)) ?c2)"
      let ?w' = "w1\<lparr>w_dfg := Some (d1\<lparr>working_state := ?cf4\<rparr>)\<rparr>"
      have run: "bridge_link i j w = Some ?w'"
        using f d False w1 d1(1) f1 by (simp add: bridge_link_def Let_def)
      have upd: "sk ((?s1 ! i)\<lparr>out_links := (out_links (?s1 ! i))[j := ?sid]\<rparr>) =
          sk (?cur\<lparr>out_links := (out_links ?cur)[j := ?sid]\<rparr>)"
        by (rule sk_out_links_cong) (rule nth1 [OF assms(2)])
      have "map sk (stones ?cf4) = (map sk ?s1)[i := sk (?cur\<lparr>out_links := (out_links ?cur)[j := ?sid]\<rparr>)]"
        using idn(2) assms(2) len upd
        by (simp add: map_update list_update_swap [of i ?n] sk_node_same del: sk_sel)
      also have "\<dots> = (map sk ss)[i := sk (?cur\<lparr>out_links := (out_links ?cur)[j := ?sid]\<rparr>)]
          @ [sk (bridge_to ?sid ?l action (ss_node ?cur))]"
        unfolding sk1 t(2) using assms(2) by (simp add: list_update_append)
      finally have re: "rerouted i j ss (stones ?cf4)"
        by (rule rerouted_of_sk) (simp_all add: assms(2))
      have "stones_ok (stones ?cf4)" "placed m (stones ?cf4)"
        using rerouted_keeps [OF re ok(2) m(2) assms(2,3)] assms(4) by simp_all
      moreover have "length (stones ?cf4) = Suc ?n"
        using re by (simp add: rerouted_def Let_def)
      ultimately have "bridging m (stones ?cf4) ?w'"
        using d1 ok(3) unfolding bridging_def graph_ok_def stones_ok_def by auto
      moreover have "\<not> link_local ss i j"
        using False t ok(1) by (auto simp: link_local_def stone_ids_def)
      ultimately show ?thesis using run re False by blast
    qed
  qed
qed

section \<open>The loops\<close>

definition via_bridge :: "EVdfg_stone_state list \<Rightarrow> EVdfg_stone_state list \<Rightarrow> nat \<Rightarrow> nat \<Rightarrow> bool" where
  \<comment> \<open>link j of stone k now leads to a new bridge on the same node, which targets what it led to\<close>
  "via_bridge ss ss' k j \<longleftrightarrow>
    (\<exists>b. length ss \<le> b \<and> b < length ss' \<and> out_links (ss' ! k) ! j = ss_stone_id (ss' ! b) \<and>
       bridge_stone (ss' ! b) \<and> bridge_target (ss' ! b) = out_links (ss ! k) ! j \<and>
       ss_node (ss' ! b) = ss_node (ss ! k))"

definition extends :: "EVdfg_stone_state list \<Rightarrow> EVdfg_stone_state list \<Rightarrow> bool" where
  "extends ss ss' \<longleftrightarrow> length ss \<le> length ss' \<and>
    (\<forall>k < length ss. ss_stone_id (ss' ! k) = ss_stone_id (ss ! k) \<and> ss_node (ss' ! k) = ss_node (ss ! k) \<and>
       bridge_stone (ss' ! k) = bridge_stone (ss ! k) \<and> bridge_target (ss' ! k) = bridge_target (ss ! k) \<and>
       length (out_links (ss' ! k)) = length (out_links (ss ! k)) \<and>
       (\<forall>j < length (out_links (ss ! k)).
          (if link_local ss k j then out_links (ss' ! k) ! j = out_links (ss ! k) ! j \<and> link_local ss' k j
           else out_links (ss' ! k) ! j = out_links (ss ! k) ! j \<or>
                via_bridge ss ss' k j \<and> link_local ss' k j))) \<and>
    (\<forall>b. length ss \<le> b \<and> b < length ss' \<longrightarrow> bridge_stone (ss' ! b))"

lemma extends_refl [simp]: "extends ss ss"
  by (auto simp: extends_def)

lemma extends_sel:
  assumes "extends ss ss'" "k < length ss"
  shows "ss_stone_id (ss' ! k) = ss_stone_id (ss ! k)" "ss_node (ss' ! k) = ss_node (ss ! k)"
    "bridge_stone (ss' ! k) = bridge_stone (ss ! k)" "bridge_target (ss' ! k) = bridge_target (ss ! k)"
    "length (out_links (ss' ! k)) = length (out_links (ss ! k))"
  using assms by (auto simp: extends_def)

lemma extends_link:
  assumes "extends ss ss'" "k < length ss" "j < length (out_links (ss ! k))"
  shows "link_local ss k j \<Longrightarrow> out_links (ss' ! k) ! j = out_links (ss ! k) ! j \<and> link_local ss' k j"
    and "out_links (ss' ! k) ! j = out_links (ss ! k) ! j \<or> via_bridge ss ss' k j \<and> link_local ss' k j"
  using assms by (auto simp: extends_def split: if_splits)

lemma extends_new: "extends ss ss' \<Longrightarrow> length ss \<le> b \<Longrightarrow> b < length ss' \<Longrightarrow> bridge_stone (ss' ! b)"
  by (simp add: extends_def)

lemma extends_length: "extends ss ss' \<Longrightarrow> length ss \<le> length ss'"
  by (simp add: extends_def)

lemma extends_trans:
  assumes "extends a b" "extends b c"
  shows "extends a c"
  unfolding extends_def
proof (intro conjI allI impI)
  show "length a \<le> length c"
    using extends_length [OF assms(1)] extends_length [OF assms(2)] by simp
next
  fix x assume "length a \<le> x \<and> x < length c"
  then show "bridge_stone (c ! x)"
    using extends_new [OF assms(1)] extends_new [OF assms(2)] extends_sel(3) [OF assms(2)]
    by (cases "x < length b") auto
next
  fix k assume k: "k < length a"
  then have kb: "k < length b" using extends_length [OF assms(1)] by simp
  note ab = extends_sel [OF assms(1) k] and bc = extends_sel [OF assms(2) kb]
  show "ss_stone_id (c ! k) = ss_stone_id (a ! k)" "ss_node (c ! k) = ss_node (a ! k)"
    "bridge_stone (c ! k) = bridge_stone (a ! k)" "bridge_target (c ! k) = bridge_target (a ! k)"
    "length (out_links (c ! k)) = length (out_links (a ! k))"
    using ab bc by simp_all
  fix j assume j: "j < length (out_links (a ! k))"
  then have jb: "j < length (out_links (b ! k))" using ab(5) by simp
  note l1 = extends_link [OF assms(1) k j] and l2 = extends_link [OF assms(2) kb jb]
  show "if link_local a k j then out_links (c ! k) ! j = out_links (a ! k) ! j \<and> link_local c k j
      else out_links (c ! k) ! j = out_links (a ! k) ! j \<or> via_bridge a c k j \<and> link_local c k j"
  proof (cases "link_local a k j")
    case True
    then show ?thesis using l1(1) l2(1) by simp
  next
    case False
    from l1(2) show ?thesis
    proof
      assume same: "out_links (b ! k) ! j = out_links (a ! k) ! j"
      have "via_bridge b c k j \<Longrightarrow> via_bridge a c k j"
        unfolding via_bridge_def using same ab(2) extends_length [OF assms(1)]
        by (metis le_trans)
      then show ?thesis using False l2(2) same by auto
    next
      assume v: "via_bridge a b k j \<and> link_local b k j"
      then have same: "out_links (c ! k) ! j = out_links (b ! k) ! j" and loc: "link_local c k j"
        using l2(1) by simp_all
      from v obtain x where x: "length a \<le> x" "x < length b"
        "out_links (b ! k) ! j = ss_stone_id (b ! x)" "bridge_stone (b ! x)"
        "bridge_target (b ! x) = out_links (a ! k) ! j" "ss_node (b ! x) = ss_node (a ! k)"
        by (auto simp: via_bridge_def)
      have "via_bridge a c k j"
        unfolding via_bridge_def
        using x same extends_sel [OF assms(2) x(2)] extends_length [OF assms(2)]
        by (intro exI [of _ x]) auto
      then show ?thesis using False loc by simp
    qed
  qed
qed

lemma rerouted_extends:
  assumes re: "rerouted i j ss ss'" and ok: "stones_ok ss" and i: "i < length ss"
    and j: "j < length (out_links (ss ! i))" and nl: "\<not> link_local ss i j"
  shows "extends ss ss'" "link_local ss' i j"
proof -
  let ?n = "length ss" and ?sid = "int (length ss) - 2 ^ 31"
  have len: "length ss' = Suc ?n" using re by (simp add: rerouted_def Let_def)
  have old: "ss_stone_id (ss' ! k) = ss_stone_id (ss ! k)" "ss_node (ss' ! k) = ss_node (ss ! k)"
    "bridge_stone (ss' ! k) = bridge_stone (ss ! k)" "bridge_target (ss' ! k) = bridge_target (ss ! k)"
    "out_links (ss' ! k) = (if k = i then (out_links (ss ! i))[j := ?sid] else out_links (ss ! k))"
    if "k < ?n" for k
    using re that by (auto simp: rerouted_def Let_def)
  have new: "ss_stone_id (ss' ! ?n) = ?sid" "ss_node (ss' ! ?n) = ss_node (ss ! i)" "bridge_stone (ss' ! ?n)"
    "bridge_target (ss' ! ?n) = out_links (ss ! i) ! j"
    using re by (auto simp: rerouted_def Let_def)
  have ids: "k < ?n \<Longrightarrow> ss_stone_id (ss ! k) \<noteq> ?sid" for k
    using ok by (auto simp: stones_ok_def stone_ids_def)
  have link_old: "link_ok ss l \<Longrightarrow> l \<noteq> ?sid" for l
    using ok by (auto simp: link_ok_def stones_ok_def stone_ids_def)
  show loc: "link_local ss' i j"
    unfolding link_local_def
  proof (intro disjI2 allI impI)
    fix k assume k: "k < length ss'" "ss_stone_id (ss' ! k) = out_links (ss' ! i) ! j"
    have "out_links (ss' ! i) ! j = ?sid" using old(5) [OF i] j by simp
    then have "k = ?n" using k ids old(1) len by (metis less_SucE)
    then show "ss_node (ss' ! k) = ss_node (ss' ! i)" using new(2) old(2) [OF i] by simp
  qed
  have keep: "link_local ss' k j'"
    if k: "k < ?n" and j': "j' < length (out_links (ss ! k))" and l: "link_local ss k j'"
      and same: "out_links (ss' ! k) ! j' = out_links (ss ! k) ! j'" for k j'
  proof (cases "bridge_stone (ss ! k)")
    case True
    then show ?thesis using old(3) [OF k] by (simp add: link_local_def)
  next
    case False
    have "out_links (ss ! k) ! j' \<noteq> ?sid"
      using links_of_nth [OF ok k] j' link_old by simp
    then show ?thesis
      using l False same new(1) old(1,2) k len
      unfolding link_local_def by (metis less_SucE)
  qed
  show "extends ss ss'"
    unfolding extends_def
  proof (intro conjI allI impI)
    show "length ss \<le> length ss'" using len by simp
  next
    fix b assume "length ss \<le> b \<and> b < length ss'"
    then have "b = ?n" using len by simp
    then show "bridge_stone (ss' ! b)" using new(3) by simp
  next
    fix k assume k: "k < length ss"
    show "ss_stone_id (ss' ! k) = ss_stone_id (ss ! k)" "ss_node (ss' ! k) = ss_node (ss ! k)"
      "bridge_stone (ss' ! k) = bridge_stone (ss ! k)" "bridge_target (ss' ! k) = bridge_target (ss ! k)"
      "length (out_links (ss' ! k)) = length (out_links (ss ! k))"
      using old [OF k] by simp_all
    fix j' assume j': "j' < length (out_links (ss ! k))"
    show "if link_local ss k j' then out_links (ss' ! k) ! j' = out_links (ss ! k) ! j' \<and> link_local ss' k j'
      else out_links (ss' ! k) ! j' = out_links (ss ! k) ! j' \<or> via_bridge ss ss' k j' \<and> link_local ss' k j'"
    proof (cases "k = i \<and> j' = j")
      case True
      have "via_bridge ss ss' i j"
        unfolding via_bridge_def
        using new len old(2,5) [OF i] j by (intro exI [of _ ?n]) simp
      then show ?thesis using True nl loc by simp
    next
      case False
      then have "out_links (ss' ! k) ! j' = out_links (ss ! k) ! j'"
        using old(5) [OF k] j' by (auto simp: nth_list_update)
      then show ?thesis using keep [OF k j'] by simp
    qed
  qed
qed

lemma bridge_links_ok:
  assumes "bridging m ss w" "i < length ss" "j + n = length (out_links (ss ! i))"
    and "length ss + n < 2 ^ 31 - 1"
  shows "\<exists>w' ss'. bridge_links n i j w = Some w' \<and> bridging m ss' w' \<and> extends ss ss' \<and>
    length ss' \<le> length ss + (if bridge_stone (ss ! i) then 0 else n) \<and>
    (\<forall>k. j \<le> k \<and> k < j + n \<longrightarrow> link_local ss' i k)"
  using assms
proof (induction n arbitrary: ss w j)
  case 0
  then show ?case by auto
next
  case (Suc n)
  have j: "j < length (out_links (ss ! i))" using Suc.prems(3) by simp
  have b: "Suc (length ss) < 2 ^ 31 - 1" using Suc.prems(4) by simp
  have ok: "stones_ok ss"
    using Suc.prems(1) by (auto simp: bridging_def graph_ok_def stones_ok_def)
  consider "bridge_link i j w = Some w" "link_local ss i j"
    | w1 s1 where "bridge_link i j w = Some w1" "bridging m s1 w1" "rerouted i j ss s1"
      "\<not> bridge_stone (ss ! i)" "\<not> link_local ss i j"
    using bridge_link_cases [OF Suc.prems(1,2) j b] by blast
  then show ?case
  proof cases
    case 1
    obtain w' ss' where r: "bridge_links n i (Suc j) w = Some w'" "bridging m ss' w'" "extends ss ss'"
      "length ss' \<le> length ss + (if bridge_stone (ss ! i) then 0 else n)"
      "\<forall>k. Suc j \<le> k \<and> k < Suc j + n \<longrightarrow> link_local ss' i k"
      using Suc.IH [OF Suc.prems(1,2), of "Suc j"] Suc.prems(3,4) by auto
    have "link_local ss' i j"
      using extends_link(1) [OF r(3) Suc.prems(2) j 1(2)] by simp
    then have "\<forall>k. j \<le> k \<and> k < j + Suc n \<longrightarrow> link_local ss' i k"
      using r(5) by (metis Suc_leI add_Suc_shift le_neq_implies_less)
    then show ?thesis using 1(1) r by auto
  next
    case (2 w1 s1)
    note ex = rerouted_extends [OF 2(3) ok Suc.prems(2) j 2(5)]
    have len: "length s1 = Suc (length ss)" using 2(3) by (simp add: rerouted_def Let_def)
    have i1: "i < length s1" and n1: "Suc j + n = length (out_links (s1 ! i))"
      using Suc.prems(2,3) len extends_sel(5) [OF ex(1) Suc.prems(2)] by simp_all
    obtain w' ss' where r: "bridge_links n i (Suc j) w1 = Some w'" "bridging m ss' w'" "extends s1 ss'"
      "length ss' \<le> length s1 + (if bridge_stone (s1 ! i) then 0 else n)"
      "\<forall>k. Suc j \<le> k \<and> k < Suc j + n \<longrightarrow> link_local ss' i k"
      using Suc.IH [OF 2(2) i1 n1] Suc.prems(4) len by auto
    have "link_local ss' i j"
      using extends_link(1) [OF r(3) i1 _ ex(2)] n1 by simp
    then have "\<forall>k. j \<le> k \<and> k < j + Suc n \<longrightarrow> link_local ss' i k"
      using r(5) by (metis Suc_leI add_Suc_shift le_neq_implies_less)
    moreover have "length ss' \<le> length ss + Suc n"
      using r(4) len by (auto split: if_splits)
    ultimately show ?thesis
      using 2(1,4) r(1,2) extends_trans [OF ex(1) r(3)] by auto
  qed
qed

definition work :: "EVdfg_stone_state \<Rightarrow> nat" where
  "work s = Suc (if bridge_stone s then 0 else length (out_links s))"

definition work_from :: "nat \<Rightarrow> EVdfg_stone_state list \<Rightarrow> nat" where
  "work_from i ss = sum_list (map work (drop i ss))"

lemma work_from_step:
  assumes "extends ss ss'" "i < length ss"
    and "length ss' \<le> length ss + (if bridge_stone (ss ! i) then 0 else length (out_links (ss ! i)))"
  shows "Suc (work_from (Suc i) ss') \<le> work_from i ss"
proof -
  have "map work (drop (Suc i) ss') =
      map work (drop (Suc i) ss) @ replicate (length ss' - length ss) 1"
  proof (rule nth_equalityI)
    show "length (map work (drop (Suc i) ss')) =
        length (map work (drop (Suc i) ss) @ replicate (length ss' - length ss) 1)"
      using assms(2) extends_length [OF assms(1)] by simp
    fix k assume "k < length (map work (drop (Suc i) ss'))"
    then have k: "Suc i + k < length ss'" by simp
    show "map work (drop (Suc i) ss') ! k =
        (map work (drop (Suc i) ss) @ replicate (length ss' - length ss) 1) ! k"
    proof (cases "Suc i + k < length ss")
      case True
      then have "k < length ss - Suc i" by simp
      then show ?thesis
        using True k extends_sel [OF assms(1) True] by (simp add: nth_append work_def)
    next
      case False
      then have "\<not> k < length ss - Suc i" by simp
      then show ?thesis
        using False k extends_new [OF assms(1)] by (simp add: nth_append work_def)
    qed
  qed
  then have "work_from (Suc i) ss' = work_from (Suc i) ss + (length ss' - length ss)"
    by (simp add: work_from_def sum_list_replicate)
  moreover have "work_from i ss = work (ss ! i) + work_from (Suc i) ss"
    using assms(2) by (simp add: work_from_def Cons_nth_drop_Suc [symmetric])
  ultimately show ?thesis using assms(3) by (simp add: work_def split: if_splits)
qed

lemma length_le_work: "length ss \<le> i + work_from i ss"
proof -
  have "length xs \<le> sum_list (map work xs)" for xs
    by (induction xs) (auto simp: work_def)
  from this [of "drop i ss"] show ?thesis by (simp add: work_from_def)
qed

definition all_local :: "nat \<Rightarrow> EVdfg_stone_state list \<Rightarrow> bool" where
  "all_local i ss \<longleftrightarrow> (\<forall>k < min i (length ss). \<forall>j < length (out_links (ss ! k)). link_local ss k j)"

lemma bridge_stones_from_ok:
  assumes "bridging m ss w" "i + work_from i ss < 2 ^ 31 - 1" "all_local i ss"
  shows "\<exists>w' ss'. bridge_stones_from i w = Some w' \<and> bridging m ss' w' \<and> extends ss ss' \<and>
    all_local (length ss') ss'"
  using assms
proof (induction "work_from i ss" arbitrary: i ss w rule: less_induct)
  case less
  obtain d where d: "w_dfg w = Some d" "stones (working_state d) = ss"
    using less.prems(1) by (auto simp: bridging_def)
  show ?case
  proof (cases "i < length ss")
    case False
    then have "bridge_stones_from i w = Some w"
      using d by (subst bridge_stones_from.simps) simp
    then show ?thesis
      using less.prems False by (auto simp: all_local_def)
  next
    case i: True
    let ?L = "length (out_links (ss ! i))"
    have "work_from i ss = work (ss ! i) + work_from (Suc i) ss"
      using i by (simp add: work_from_def Cons_nth_drop_Suc [symmetric])
    then have bound: "bridge_stone (ss ! i) \<or> length ss + ?L < 2 ^ 31 - 1"
      using less.prems(2) length_le_work [of ss "Suc i"] by (auto simp: work_def split: if_splits)
    obtain w1 s1 where r: "bridge_links ?L i 0 w = Some w1" "bridging m s1 w1" "extends ss s1"
      "length s1 \<le> length ss + (if bridge_stone (ss ! i) then 0 else ?L)"
      "\<forall>k < ?L. link_local s1 i k"
    proof (cases "bridge_stone (ss ! i)")
      case False
      then show ?thesis
        using bridge_links_ok [OF less.prems(1) i, of 0 ?L] bound that by auto
    next
      case True
      then have "bridge_link i j w = Some w" for j
        using d by (auto simp: bridge_link_def Let_def split: option.splits)
      then have "bridge_links n i j w = Some w" for n j
        by (induction n arbitrary: j) auto
      then show ?thesis
        using that [of w ss] less.prems(1) True by (simp add: link_local_def)
    qed
    have w: "Suc (work_from (Suc i) s1) \<le> work_from i ss"
      by (rule work_from_step [OF r(3) i r(4)])
    have loc: "all_local (Suc i) s1"
      unfolding all_local_def
    proof (intro allI impI)
      fix k j assume k: "k < min (Suc i) (length s1)" and j: "j < length (out_links (s1 ! k))"
      have kl: "k < length ss" using k i by simp
      show "link_local s1 k j"
      proof (cases "k = i")
        case True
        then show ?thesis using r(5) j extends_sel(5) [OF r(3) kl] by simp
      next
        case False
        then have "link_local ss k j"
          using k j i less.prems(3) extends_sel(5) [OF r(3) kl] by (simp add: all_local_def)
        then show ?thesis
          using extends_link(1) [OF r(3) kl] j extends_sel(5) [OF r(3) kl] by simp
      qed
    qed
    obtain w' ss' where r': "bridge_stones_from (Suc i) w1 = Some w'" "bridging m ss' w'"
      "extends s1 ss'" "all_local (length ss') ss'"
      using less.hyps [OF _ r(2) _ loc] w less.prems(2) by auto
    have "bridge_stones_from i w = Some w'"
      using d i r(1) r'(1) by (subst bridge_stones_from.simps) simp
    then show ?thesis using r' extends_trans [OF r(3) r'(3)] by blast
  qed
qed

lemma add_bridge_stones_ok:
  assumes "w_master w = Some m" "w_dfg w = Some d" "graph_ok d"
    and "placed m (stones (working_state d))" "work_from 0 (stones (working_state d)) < 2 ^ 31 - 1"
  shows "\<exists>w' d'. add_bridge_stones w = Some w' \<and> w_master w' = Some m \<and> w_dfg w' = Some d' \<and>
    graph_ok d' \<and> extends (stones (working_state d)) (stones (working_state d')) \<and>
    all_local (length (stones (working_state d'))) (stones (working_state d'))"
proof -
  have "bridging m (stones (working_state d)) w"
    using assms by (auto simp: bridging_def)
  from bridge_stones_from_ok [OF this, of 0] assms(5) show ?thesis
    by (auto simp: add_bridge_stones_def all_local_def bridging_def)
qed

end
