(* ===== verification/Dfg_Link.thy ===== *)
theory Dfg_Link
  imports Dfg_Cross
begin

text \<open>
  The stones of a configuration as a table searched from the front, and what linking and
  unlinking a port does to the links of a well-formed graph.
\<close>

section \<open>Finding stones\<close>

definition stone_of :: "EVdfg_configuration \<Rightarrow> int \<Rightarrow> EVdfg_stone_state option" where
  "stone_of cf sid = map_option ((!) (stones cf)) (find_stone_state sid cf)"

definition action_of :: "EVdfg_configuration \<Rightarrow> int \<Rightarrow> string ptr option" where
  "action_of cf sid = map_option ss_action (stone_of cf sid)"

definition add_stone :: "int \<Rightarrow> string ptr \<Rightarrow> EVdfg_configuration \<Rightarrow> EVdfg_configuration" where
  "add_stone sid action cf =
    cf\<lparr>stones := stones cf @ [(new_stone_state sid)\<lparr>ss_action := action\<rparr>]\<rparr>"

lemma action_of_map: "action_of cf = map_of (map (\<lambda>s. (ss_stone_id s, ss_action s)) (stones cf))"
proof
  fix sid
  have "map_option ss_action (map_option ((!) xs) (find_index (\<lambda>s. sid = ss_stone_id s) xs)) =
      map_of (map (\<lambda>s. (ss_stone_id s, ss_action s)) xs) sid" for xs
    by (induction xs) (auto simp: option.map_comp comp_def)
  then show "action_of cf sid = map_of (map (\<lambda>s. (ss_stone_id s, ss_action s)) (stones cf)) sid"
    by (simp add: action_of_def stone_of_def find_stone_state_def)
qed

interpretation config_stones: first_match_table action_of add_stone
  by unfold_locales
    (auto simp: action_of_map add_stone_def map_add_def new_stone_state_def split: option.splits)

definition after_create :: "string ptr \<Rightarrow> EVdfg \<Rightarrow> EVdfg" where
  "after_create action d =
    (let sid = dfg_stone_id (dfg_stone_count d)
     in d\<lparr>dfg_stone_count := dfg_stone_count d + 1, dfg_stones := dfg_stones d @ [Some sid],
          working_state := EVdfg_add_act_to_queue (mk_act ACT_create sid (U_create action))
            (add_stone sid action (working_state d))\<rparr>)"

lemma create_stone_after:
  "w_dfg w = Some d \<Longrightarrow> INT_EVdfg_create_stone action w =
    Some (dfg_stone_id (dfg_stone_count d), w\<lparr>w_dfg := Some (after_create action d)\<rparr>)"
  by (simp add: create_stone_result after_create_def add_stone_def Let_def)

lemma action_of_queue [simp]: "action_of (EVdfg_add_act_to_queue act cf) = action_of cf"
  by (simp add: action_of_map)

lemma action_of_after_create:
  "action_of (working_state (after_create action d)) =
    action_of (add_stone (dfg_stone_id (dfg_stone_count d)) action (working_state d))"
  by (simp add: after_create_def Let_def)

lemma fresh_stone_id:
  assumes "graph_ok d" "dfg_stone_count d < 2 ^ 31 - 1"
  shows "action_of (working_state d) (dfg_stone_id (dfg_stone_count d)) = None"
proof -
  let ?ss = "stones (working_state d)"
  have "dfg_stone_id (dfg_stone_count d) = int (length ?ss) - 2 ^ 31"
    using assms dfg_stone_id_eq [of "length ?ss"] by (simp add: graph_ok_def)
  moreover have "\<forall>s \<in> set ?ss. ss_stone_id s \<noteq> int (length ?ss) - 2 ^ 31"
    using assms(1) by (fastforce simp: graph_ok_def stone_ids_def in_set_conv_nth)
  ultimately show ?thesis
    by (auto simp: action_of_map map_of_eq_None_iff)
qed

section \<open>Linking a port\<close>

lemma find_at:
  "stone_ids (stones cf) \<Longrightarrow> k < length (stones cf) \<Longrightarrow> find_stone_state (int k - 2 ^ 31) cf = Some k"
  by (simp add: find_stone_state_Some)

definition outs :: "EVdfg_configuration \<Rightarrow> int list list" where
  "outs cf = map out_links (stones cf)"

definition ins :: "EVdfg_configuration \<Rightarrow> int list list" where
  "ins cf = map in_links (stones cf)"

definition add_last :: "int \<Rightarrow> int list \<Rightarrow> int list" where
  "add_last x xs = (if x \<in> set xs then xs else xs @ [x])"

lemma outs_update:
  "i < length (stones cf) \<Longrightarrow> outs (mod_ss i f cf) = (outs cf)[i := out_links (f (stones cf ! i))]"
  by (simp add: outs_def map_update)

lemma ins_update:
  "i < length (stones cf) \<Longrightarrow> ins (mod_ss i f cf) = (ins cf)[i := in_links (f (stones cf ! i))]"
  by (simp add: ins_def map_update)

lemma outs_nth: "i < length (stones cf) \<Longrightarrow> out_links (stones cf ! i) = outs cf ! i"
  by (simp add: outs_def)

lemma ins_nth: "i < length (stones cf) \<Longrightarrow> in_links (stones cf ! i) = ins cf ! i"
  by (simp add: ins_def)

lemma mod_links [simp]:
  "i < length (stones cf) \<Longrightarrow>
    outs (mod_ss i (\<lambda>st. st\<lparr>out_links := f (out_links st)\<rparr>) cf) = (outs cf)[i := f (outs cf ! i)]"
  "i < length (stones cf) \<Longrightarrow> ins (mod_ss i (\<lambda>st. st\<lparr>out_links := f (out_links st)\<rparr>) cf) = ins cf"
  "i < length (stones cf) \<Longrightarrow> outs (mod_ss i (\<lambda>st. st\<lparr>condition := c\<rparr>) cf) = outs cf"
  "i < length (stones cf) \<Longrightarrow> ins (mod_ss i (\<lambda>st. st\<lparr>condition := c\<rparr>) cf) = ins cf"
  by (simp_all add: outs_update ins_update) (simp_all add: outs_nth ins_nth)

lemmas set_port = mod_links(1,2) [where f = "\<lambda>l. l[n := x]" for n x]
lemmas grow_port = mod_links(1,2) [where f = "\<lambda>l. grow_links l p" for p]

lemma same_links [simp]:
  "outs (EVdfg_add_act_to_queue act cf) = outs cf" "ins (EVdfg_add_act_to_queue act cf) = ins cf"
  "outs (queue_if b act cf) = outs cf" "ins (queue_if b act cf) = ins cf"
  "outs (snd (act_destroy act b cf)) = outs cf" "ins (snd (act_destroy act b cf)) = ins cf"
  by (simp_all add: outs_def ins_def)

lemma add_in_link_links [simp]:
  "d < length (stones cf) \<Longrightarrow> outs (add_in_link d sid cf) = outs cf"
  "d < length (stones cf) \<Longrightarrow> ins (add_in_link d sid cf) = (ins cf)[d := add_last sid (ins cf ! d)]"
  by (simp_all add: add_in_link_def outs_update ins_update add_last_def)
    (auto simp add: outs_nth ins_nth)

lemma set_link_links:
  assumes "s < length (stones cf)"
  shows "outs (set_link act s port sid b cf) = (outs cf)[s := (outs cf ! s)[nat port := sid]]"
    and "ins (set_link act s port sid b cf) = ins cf"
  using assms by (simp_all add: set_link_def Let_def set_port)

text \<open>Unlinking a port, when it is in use, changes that port only.\<close>

lemma unlink_port_links:
  assumes "act_unlink_port act b cf = Some (r, cf')" "link_u act = Some (Some p, d)"
    and "find_stone_state (ca_stone_id act) cf = Some s"
  shows "length (stones cf') = length (stones cf)" "ins cf' = ins cf"
    and "outs cf' = outs cf \<or> outs cf' = (outs cf)[s := (outs cf ! s)[nat p := -1]]"
proof -
  have s: "s < length (stones cf)"
    using assms(3) by (simp add: find_stone_state_def find_index_Some)
  have cases: "cf' = cf \<or> (\<exists>c. (c = cf \<or> (\<exists>x. c = snd (act_destroy x b cf))) \<and>
      cf' = queue_if b act (mod_ss s (\<lambda>st. st\<lparr>out_links := (out_links st)[nat p := -1]\<rparr>) c))"
    using assms
    by (auto simp: act_unlink_port_def crash_simps Let_def split: if_splits option.splits)
  show "length (stones cf') = length (stones cf)"
    using cases by auto
  show "ins cf' = ins cf"
    using cases s by (auto simp: set_port)
  show "outs cf' = outs cf \<or> outs cf' = (outs cf)[s := (outs cf ! s)[nat p := -1]]"
    using cases s by (auto simp: set_port)
qed

lemma unlink_port_total:
  assumes "link_u act = Some (Some p, d)" "0 \<le> p"
  shows "\<exists>r cf'. act_unlink_port act b cf = Some (r, cf')"
  using assms
  by (auto simp: act_unlink_port_def nth_c_def Let_def split: option.splits)

lemma length_grow_links: "0 \<le> port \<Longrightarrow> nat port < length (grow_links l port)"
  by (auto simp: grow_links_def)

lemma grow_links_nth: "p < length l \<Longrightarrow> grow_links l port ! p = l ! p"
  by (auto simp: grow_links_def nth_append)

lemma drop_old_link_ok:
  assumes "stone_ids (stones cf)" "s < length (stones cf)" "0 \<le> port" "nat port < length (outs cf ! s)"
  shows "\<exists>cf'. drop_old_link s port b cf = Some cf' \<and> length (stones cf') = length (stones cf) \<and>
    ins cf' = ins cf \<and>
    (outs cf' = outs cf \<or> outs cf' = (outs cf)[s := (outs cf ! s)[nat port := -1]])"
proof -
  let ?act = "unlink_port_action (stones cf ! s) port"
  have old: "nth_c (out_links (stones cf ! s)) port = Some (outs cf ! s ! nat port)"
    using assms by (simp add: nth_c_def outs_nth)
  show ?thesis
  proof (cases "b \<and> outs cf ! s ! nat port \<noteq> -1")
    case False
    then show ?thesis using old by (auto simp: drop_old_link_def)
  next
    case True
    have u: "link_u ?act = Some (Some port, None)"
      by (simp add: unlink_port_action_def link_u_def)
    have f: "find_stone_state (ca_stone_id ?act) cf = Some s"
      using assms(1,2) by (simp add: unlink_port_action_def find_stone_state_Some stone_idsD)
    obtain r cf' where run: "act_unlink_port ?act b cf = Some (r, cf')"
      using unlink_port_total [OF u assms(3)] by blast
    show ?thesis
      using True old run unlink_port_links [OF run u f] by (auto simp: drop_old_link_def)
  qed
qed

lemma stone_ids_update [simp]:
  "ss_stone_id x = ss_stone_id (ss ! i) \<Longrightarrow> stone_ids (ss[i := x]) = stone_ids ss"
  by (cases "i < length ss") (auto simp: stone_ids_def nth_list_update list_update_beyond)

definition link_port_act :: "int \<Rightarrow> int \<Rightarrow> int \<Rightarrow> EVdfg_config_action" where
  "link_port_act src port dest = mk_act ACT_link_port src (U_link (Some port) (Some dest))"

definition link_result :: "EVdfg_configuration \<Rightarrow> nat \<Rightarrow> nat \<Rightarrow> nat \<Rightarrow> EVdfg_configuration \<Rightarrow> bool" where
  \<comment> \<open>port p of stone s leads to stone t, which knows s as one of its sources; the links of the
     other stones and the other ports of s are as before\<close>
  "link_result cf s p t cf' \<longleftrightarrow>
    outs cf' = (outs cf)[s := (grow_links (outs cf ! s) (int p))[p := int t - 2 ^ 31]] \<and>
    ins cf' = (ins cf)[t := add_last (int s - 2 ^ 31) (ins cf ! t)]"

lemma act_link_port_ok:
  assumes "stone_ids (stones cf)" "s < length (stones cf)" "t < length (stones cf)"
  shows "\<exists>cf'. act_link_port (link_port_act (int s - 2 ^ 31) (int p) (int t - 2 ^ 31)) b cf =
      Some (1, cf') \<and> link_result cf s p t cf'"
proof -
  let ?src = "int s - 2 ^ 31" and ?dst = "int t - 2 ^ 31"
  let ?act = "link_port_act ?src (int p) ?dst"
  let ?c2 = "add_in_link t ?src (mod_ss s (\<lambda>st. st\<lparr>out_links := grow_links (out_links st) (int p)\<rparr>) cf)"
  have u: "link_u ?act = Some (Some (int p), Some ?dst)" "ca_stone_id ?act = ?src"
    by (simp_all add: link_port_act_def mk_act_def link_u_def)
  have s2: "s < length (stones ?c2)" "length (stones ?c2) = length (stones cf)"
    using assms by (simp_all add: add_in_link_def)
  have ids: "stone_ids (stones ?c2)"
    using assms(1) by (simp add: add_in_link_def)
  have o2: "outs ?c2 = (outs cf)[s := grow_links (outs cf ! s) (int p)]"
    and i2: "ins ?c2 = (ins cf)[t := add_last ?src (ins cf ! t)]"
    using assms(2,3) by (simp_all add: grow_port)
  have len: "s < length (outs cf)" using assms(2) by (simp add: outs_def)
  then have "nat (int p) < length (outs ?c2 ! s)"
    unfolding o2 using length_grow_links [of "int p" "outs cf ! s"] by simp
  from drop_old_link_ok [OF ids s2(1) _ this, of b]
  obtain c3 where c3: "drop_old_link s (int p) b ?c2 = Some c3"
    "length (stones c3) = length (stones cf)" "ins c3 = ins ?c2"
    "outs c3 = outs ?c2 \<or> outs c3 = (outs ?c2)[s := (outs ?c2 ! s)[p := -1]]"
    using s2(2) by auto
  have "act_link_port ?act b cf = Some (1, set_link ?act s (int p) ?dst b c3)"
    using u find_at [OF assms(1,2)] find_at [OF assms(1,3)] c3(1) by (simp add: act_link_port_def)
  moreover have "link_result cf s p t (set_link ?act s (int p) ?dst b c3)"
    using c3(2-4) assms(2) len unfolding o2 i2
    by (auto simp: link_result_def set_link_links)
  ultimately show ?thesis by blast
qed

definition links_to :: "EVdfg_configuration \<Rightarrow> nat \<Rightarrow> nat \<Rightarrow> nat \<Rightarrow> bool" where
  "links_to cf s p t \<longleftrightarrow>
    p < length (out_links (stones cf ! s)) \<and> out_links (stones cf ! s) ! p = int t - 2 ^ 31 \<and>
    int s - 2 ^ 31 \<in> set (in_links (stones cf ! t))"

definition same_other_links :: "EVdfg_configuration \<Rightarrow> EVdfg_configuration \<Rightarrow> nat \<Rightarrow> nat \<Rightarrow> bool" where
  "same_other_links cf cf' s p \<longleftrightarrow>
    length (stones cf') = length (stones cf) \<and>
    (\<forall>q < length (out_links (stones cf ! s)). q \<noteq> p \<longrightarrow>
       out_links (stones cf' ! s) ! q = out_links (stones cf ! s) ! q) \<and>
    (\<forall>k < length (stones cf). k \<noteq> s \<longrightarrow> out_links (stones cf' ! k) = out_links (stones cf ! k))"

lemma link_result_ports:
  assumes "link_result cf s p t cf'" "s < length (stones cf)" "t < length (stones cf)"
  shows "links_to cf' s p t" "same_other_links cf cf' s p"
proof -
  let ?o = "(grow_links (outs cf ! s) (int p))[p := int t - 2 ^ 31]"
  have o: "outs cf' = (outs cf)[s := ?o]"
    and i: "ins cf' = (ins cf)[t := add_last (int s - 2 ^ 31) (ins cf ! t)]"
    using assms(1) by (simp_all add: link_result_def)
  have len: "length (stones cf') = length (stones cf)"
    using arg_cong [OF o, of length] by (simp add: outs_def)
  have l: "length (outs cf) = length (stones cf)" "length (ins cf) = length (stones cf)"
    by (simp_all add: outs_def ins_def)
  have os: "out_links (stones cf' ! k) = (if k = s then ?o else out_links (stones cf ! k))"
    if "k < length (stones cf)" for k
    using that len l assms(2) by (simp add: outs_nth o nth_list_update)
  have it: "in_links (stones cf' ! t) = add_last (int s - 2 ^ 31) (ins cf ! t)"
    using assms(3) len l by (simp add: ins_nth i)
  have p: "p < length (grow_links (outs cf ! s) (int p))"
    using length_grow_links [of "int p"] by simp
  show "links_to cf' s p t"
    using os [OF assms(2)] it p by (simp add: links_to_def add_last_def)
  show "same_other_links cf cf' s p"
    using os assms(2) len by (simp add: same_other_links_def outs_nth grow_links_nth)
qed

lemma link_port_world:
  assumes "w_dfg w = Some d" "graph_ok d"
    and "s < length (stones (working_state d))" "t < length (stones (working_state d))"
  shows "\<exists>w' d'. INT_EVdfg_link_port (int s - 2 ^ 31) (int p) (int t - 2 ^ 31) w = Some (1, w') \<and>
    w_dfg w' = Some d' \<and> links_to (working_state d') s p t \<and>
    same_other_links (working_state d) (working_state d') s p"
proof -
  let ?act = "link_port_act (int s - 2 ^ 31) (int p) (int t - 2 ^ 31)"
  have "stone_ids (stones (working_state d))" using assms(2) by (simp add: graph_ok_def)
  from act_link_port_ok [OF this assms(3,4), of p True] obtain cf' where
    run: "act_link_port ?act True (working_state d) = Some (1, cf')"
    and r: "link_result (working_state d) s p t cf'" by blast
  have "ca_type ?act = ACT_link_port" by (simp add: link_port_act_def mk_act_def)
  then have "EVdfg_perform_act_on_state ?act True (working_state d) = Some (1, cf', [])"
    using run by (simp add: EVdfg_perform_act_on_state_def no_effects_def)
  then have "INT_EVdfg_link_port (int s - 2 ^ 31) (int p) (int t - 2 ^ 31) w =
      Some (1, w\<lparr>w_dfg := Some (d\<lparr>working_state := cf'\<rparr>), w_effects := [] @ w_effects w\<rparr>)"
    using assms(1) by (simp add: INT_EVdfg_link_port_def link_port_act_def perform_working_def)
  then show ?thesis
    using link_result_ports [OF r assms(3,4)] by auto
qed

end
