(* ===== verification/Dfg_Example.thy ===== *)
theory Dfg_Example
  imports Dfg_Link Ev_Example
begin

text \<open>
  A small concrete graph: a master with two nodes, itself and a connected one, a source stone on
  the first linked to a sink stone on the second. The closed instances of the properties about
  the dataflow graph are evaluated on it.
\<close>

definition dfg_env0 :: dfg_env where
  "dfg_env0 =
    \<lparr>ev_env = env0, attr_list_from_string = (\<lambda>s. None), attr_list_to_string = (\<lambda>a. []),
     call_join_handler = (\<lambda>h n w. Some w), call_fail_handler = (\<lambda>h n i w. Some w),
     call_reconfig_handler = (\<lambda>h w. Some w), network_step = Some, other_thread = (\<lambda>n. Some),
     cm_sleep = Some, conn_closed = (\<lambda>c. False), this_thread = 1, my_contact_string = ''A'',
     master_conn = (\<lambda>s. Some 5)\<rparr>"

definition ex_cl :: control_list where
  "ex_cl =
    \<lparr>condition_list = [], next_condition_num = 1, cond_polling = False, has_thread = False,
     server_thread = 0, cl_closed = False, abort_read_ahead = False, control_effects = []\<rparr>"

definition ex_node :: "string \<Rightarrow> bool \<Rightarrow> conn ptr \<Rightarrow> EVint_node_rec" where
  "ex_node name self con =
    \<lparr>node_name = name, canonical_name = Some name, contact_list = None, str_contact_list = Some ''B'',
     node_conn = con, node_self = self, shutdown_status_contribution = STATUS_UNDETERMINED,
     needs_ready = False\<rparr>"

definition ex_master :: EVmaster where
  "ex_master =
    \<lparr>node_join_handler = None, node_fail_handler = None, node_reconfig_handler = None,
     queued_messages = [], state = DFG_Starting,
     nodes = [ex_node ''a'' True None, ex_node ''b'' False (Some 5)], my_contact_str = Some ''A'',
     reconfig = False, old_node_count = 1, sig_reconfig_bool = False, no_deployment = False\<rparr>"

definition ex_source_stone :: EVdfg_stone_state where
  "ex_source_stone = (new_stone_state (-2147483648))\<lparr>ss_node := 0, ss_action := Some ''source:s'',
     out_links := [-2147483647]\<rparr>"

definition ex_sink_stone :: EVdfg_stone_state where
  "ex_sink_stone = (new_stone_state (-2147483647))\<lparr>ss_node := 1, ss_action := Some ''sink:t'',
     in_links := [-2147483648]\<rparr>"

definition ex_dfg :: EVdfg where
  "ex_dfg =
    \<lparr>dfg_stone_count = 2, deployed_stone_count = 0,
     dfg_stones = [Some (-2147483648), Some (-2147483647)], realized = False, deploy_ack_count = 0,
     deploy_ack_condition = -1, deployed_state = None,
     working_state = \<lparr>stones = [ex_source_stone, ex_sink_stone], pending_action_count = 0,
       pending_action_queue = None\<rparr>, transfer_events_list = []\<rparr>"

definition ex_world :: world where
  "ex_world =
    \<lparr>w_evp = ex_stone, w_cl = ex_cl, w_master = Some ex_master, w_client = None,
     w_dfg = Some ex_dfg, w_effects = []\<rparr>"

lemma ex_world_sel [simp]:
  "w_master ex_world = Some ex_master" "w_dfg ex_world = Some ex_dfg" "w_cl ex_world = ex_cl"
  "w_client ex_world = None" "w_effects ex_world = []"
  by (simp_all add: ex_world_def)

lemma ex_stones [simp]:
  "stones (working_state ex_dfg) = [ex_source_stone, ex_sink_stone]" "dfg_stone_count ex_dfg = 2"
  by (simp_all add: ex_dfg_def)

lemma ex_locked [simp]: "locked (w_evp ex_world) = 1"
  by (simp add: ex_world_def ex_simps)

lemma ex_stone_ids: "stone_ids [ex_source_stone, ex_sink_stone]"
  by (auto simp: stone_ids_def ex_source_stone_def ex_sink_stone_def new_stone_state_def less_Suc_eq)

lemma ex_graph_ok: "graph_ok ex_dfg"
  using ex_stone_ids
  by (auto simp: graph_ok_def links_ok_def link_ok_def ex_source_stone_def ex_sink_stone_def
      new_stone_state_def intro!: exI [of _ 1])

lemma ex_placed: "placed ex_master [ex_source_stone, ex_sink_stone]"
  by (simp add: placed_def contact_of_def ex_master_def ex_node_def ex_source_stone_def
      ex_sink_stone_def new_stone_state_def nth_c_def)

lemma ex_work: "work_from 0 [ex_source_stone, ex_sink_stone] = 3"
  by (simp add: work_from_def work_def ex_source_stone_def ex_sink_stone_def new_stone_state_def)

definition ex_new_dfg :: EVdfg where  \<comment> \<open>what INT_EVdfg_create makes\<close>
  "ex_new_dfg =
    \<lparr>dfg_stone_count = 0, deployed_stone_count = 0, dfg_stones = [], realized = False,
     deploy_ack_count = 0, deploy_ack_condition = -1, deployed_state = None,
     working_state = new_dfg_configuration, transfer_events_list = []\<rparr>"

lemma ex_built:
  "\<exists>w w'. INT_EVdfg_create ex_world = Some w \<and> w_dfg w = Some ex_new_dfg \<and>
     INT_EVdfg_create_stone None w = Some (-2147483648, w') \<and> built w'"
proof -
  define w where "w = the (INT_EVdfg_create ex_world)"
  have w: "INT_EVdfg_create ex_world = Some w" "w_dfg w = Some ex_new_dfg"
    by (simp_all add: w_def INT_EVdfg_create_def mod_eval ex_new_dfg_def)
  have "dfg_stone_id 0 = -2147483648" using dfg_stone_id_eq [of 0] by simp
  then obtain w' where w': "INT_EVdfg_create_stone None w = Some (-2147483648, w')"
    using create_stone_after [OF w(2), of None] by (simp add: ex_new_dfg_def)
  have "built w'"
    using built.stone [OF built.created [OF w(1)] w(2) _ w'] by (simp add: ex_new_dfg_def)
  then show ?thesis using w w' by blast
qed

section \<open>States of the master\<close>

definition ex_report :: "int \<Rightarrow> EVint_node_rec \<Rightarrow> EVint_node_rec" where
  "ex_report v n = n\<lparr>shutdown_status_contribution := v\<rparr>"

definition ex_with :: "EVmaster \<Rightarrow> world" where
  "ex_with m = ex_world\<lparr>w_master := Some m\<rparr>"

lemma ex_with_sel [simp]:
  "w_master (ex_with m) = Some m" "w_effects (ex_with m) = []" "w_cl (ex_with m) = ex_cl"
  "w_client (ex_with m) = None" "w_dfg (ex_with m) = Some ex_dfg" "CManager_locked (ex_with m)"
  "locked (w_evp (ex_with m)) = 1" "w_evp (ex_with m) = ex_stone"
  by (simp_all add: ex_with_def CManager_locked_def) (simp add: ex_world_def)

lemma ex_stone_locked [simp]: "locked ex_stone = 1"
  by (simp add: ex_simps)

lemma ex_self_locked [simp]: "CManager_locked ex_world"
  by (simp add: CManager_locked_def)

lemma env_sleep [simp]: "cm_sleep dfg_env0 = Some" "conn_closed dfg_env0 c = False"
  by (simp_all add: dfg_env0_def)

definition ex_shut :: world where
  "ex_shut = ex_with (ex_master\<lparr>state := DFG_Shutting_Down\<rparr>)"

lemma ex_shut_master:
  "w_master ex_shut = Some (ex_master\<lparr>state := DFG_Shutting_Down\<rparr>)"
  "state (ex_master\<lparr>state := DFG_Shutting_Down\<rparr>) = DFG_Shutting_Down"
  by (simp_all add: ex_shut_def)

lemma ex_shut_message: "\<exists>w'. dfg_master_msg_handler dfg_env0 5 (U_deploy_ack None) ex_shut = Some w'"
proof -
  let ?msg = "\<lparr>msg_conn = Some 5, msg_u = U_deploy_ack None\<rparr>"
  let ?m = "ex_master\<lparr>state := DFG_Shutting_Down, queued_messages := [?msg]\<rparr>"
  have "CManager_locked (ex_shut\<lparr>w_master := Some ?m\<rparr>)" 
    by (simp add: ex_shut_def CManager_locked_def)
  then show ?thesis
    using shut_down_handles [of "ex_shut\<lparr>w_master := Some ?m\<rparr>" ?m dfg_env0]
    by (simp add: dfg_master_msg_handler_def queue_master_msg_def mod_eval ex_shut_def ex_cl_def
        ex_master_def)
qed

definition ex_one_left_master :: EVmaster where  \<comment> \<open>the first node has reported failure code 4\<close>
  "ex_one_left_master =
    ex_master\<lparr>nodes := [ex_report 4 (ex_node ''a'' True None), ex_node ''b'' False (Some 5)]\<rparr>"

definition ex_one_left :: world where
  "ex_one_left = ex_with ex_one_left_master"

lemma ex_one_left_facts:
  "w_master ex_one_left = Some ex_one_left_master" "CManager_locked ex_one_left"
  "signal_node (Some 5) (nodes ex_one_left_master) 0 (-1) = int 1" "1 < length (nodes ex_one_left_master)"
  "\<forall>n \<in> set (nodes ex_one_left_master). node_conn n \<noteq> None \<or> node_self n"
  "\<not> forced 0" "all_ready ((contributions ex_one_left_master)[1 := 0])"
  "some_contributed ((contributions ex_one_left_master)[1 := 0])"
  "combined ((contributions ex_one_left_master)[1 := 0]) = 4"
  "connections (nodes ex_one_left_master) = [5]" "w_effects ex_one_left = []"
  "close_effects dfg_env0 (nodes (contribute 1 0 ex_one_left_master)) = [Conn_close 5]"
  by (simp_all add: ex_one_left_def ex_one_left_master_def ex_report_def ex_node_def ex_master_def
      forced_def has_bits_def all_ready_def some_contributed_def combined_def contributions_def
      is_failure_def close_effects_def contribute_def)

definition ex_one_failed_master :: EVmaster where
  "ex_one_failed_master = ex_one_left_master\<lparr>state := DFG_Running\<rparr>"

definition ex_one_failed :: world where
  "ex_one_failed = ex_with ex_one_failed_master"

lemma ex_one_failed_facts:
  "w_master ex_one_failed = Some ex_one_failed_master" "CManager_locked ex_one_failed"
  "signal_node (Some 5) (nodes ex_one_failed_master) 0 (-1) = int 1"
  "1 < length (nodes ex_one_failed_master)" "\<not> forced 1"
  "\<forall>c \<in> set ((contributions ex_one_failed_master)[1 := 1]). c = STATUS_NO_CONTRIBUTION \<or> is_failure c"
  "w_effects ex_one_failed = []" "state ex_one_failed_master = DFG_Running"
  by (simp_all add: ex_one_failed_def ex_one_failed_master_def ex_one_left_master_def ex_report_def
      ex_node_def ex_master_def forced_def has_bits_def contributions_def is_failure_def)

lemma ex_master_facts:
  "\<not> forced 0" "signal_node (Some 5) (nodes ex_master) 0 (-1) = int 1" "1 < length (nodes ex_master)"
  "\<not> all_ready ((contributions ex_master)[1 := 0]) \<or> \<not> some_contributed ((contributions ex_master)[1 := 0])"
  by (simp_all add: ex_master_def ex_node_def forced_def has_bits_def all_ready_def contributions_def)

definition ex_deploying :: world where  \<comment> \<open>both nodes have still to acknowledge\<close>
  "ex_deploying = ex_world\<lparr>w_evp := (w_evp ex_world)\<lparr>locked := 0\<rparr>,
     w_dfg := Some (ex_dfg\<lparr>deploy_ack_condition := 1\<rparr>)\<rparr>"

lemma ex_deploying_facts:
  "w_master ex_deploying = Some ex_master" "state ex_master = DFG_Starting"
  "w_dfg ex_deploying = Some (ex_dfg\<lparr>deploy_ack_condition := 1\<rparr>)"
  "deploy_ack_count ex_dfg = 0" "node_count ex_master = 2" "locked (w_evp ex_deploying) = 0"
  "w_cl ex_deploying = ex_cl"
  by (simp_all add: ex_deploying_def ex_master_def ex_dfg_def node_count_def)

definition ex_join :: EVmaster_msg where
  "ex_join = \<lparr>msg_conn = Some 6, msg_u = U_node_join
    \<lparr>nj_node_name = ''c'', nj_contact_string = ''C'', nj_sinks = [], nj_sources = []\<rparr>\<rparr>"

definition ex_ack :: EVmaster_msg where
  "ex_ack = \<lparr>msg_conn = Some 5, msg_u = U_deploy_ack None\<rparr>"

definition ex_mixed_master :: EVmaster where
  "ex_mixed_master = ex_master\<lparr>queued_messages := [ex_join, ex_ack]\<rparr>"

definition ex_mixed :: world where
  "ex_mixed = ex_with ex_mixed_master"

lemma ex_mixed_facts:
  "w_master ex_mixed = Some ex_mixed_master" "queued_messages ex_mixed_master = [ex_join] @ ex_ack # []"
  "\<forall>x \<in> set [ex_join]. action_model (state ex_mixed_master) (msg_type x) = Act_Q"
  "action_model (state ex_mixed_master) (msg_type ex_ack) = Act_H"
  by (simp_all add: ex_mixed_def ex_mixed_master_def ex_master_def ex_join_def ex_ack_def msg_type_def)

lemma ex_ack_handled:
  "\<exists>w'. Option.bind (master_msg_handler dfg_env0 ex_ack
      (ex_mixed\<lparr>w_master := Some (ex_mixed_master\<lparr>queued_messages := []\<rparr>)\<rparr>)) (handle_loop dfg_env0 0)
    = Some w' \<and> queued_messages (the (w_master w')) = []"
  by (simp add: master_msg_handler_def ex_ack_def handle_deploy_ack_wrapper_def handle_deploy_ack_def
      CManager_lock_def CManager_unlock_def Let_def ex_mixed_def mod_eval ex_dfg_def node_count_def
      ex_mixed_master_def ex_master_def) (subst handle_loop.simps, simp)

section \<open>A wait\<close>

text \<open>The control list alone as the state: the network step signals condition 1.\<close>

definition ex_wait_env :: "control_list wait_env" where
  "ex_wait_env =
    \<lparr>get_cl = (\<lambda>cl. cl), put_cl = (\<lambda>cl' cl. cl'),
     CMcontrol_list_wait = (\<lambda>cl. Some (INT_CMCondition_signal 1 cl)), cond_block = (\<lambda>n. Some),
     thr_self = 1, cm_locked = (\<lambda>cl. True)\<rparr>"

definition ex_waiting :: control_list where
  "ex_waiting = snd (INT_CMCondition_get (\<lambda>c. False) None ex_cl)"

lemma ex_waiting_eq: "ex_waiting = ex_cl\<lparr>condition_list := [\<lparr>condition_num = 1, waiting = 0,
    signaled = False, failed = False, cond_conn = None, cond_client_data = None\<rparr>],
    next_condition_num := 2\<rparr>"
  by (simp add: ex_waiting_def INT_CMCondition_get_def ex_cl_def Let_def)

section \<open>A client that waits\<close>

definition ex_client :: EVclient where
  "ex_client = (new_client None (-1))\<lparr>shutdown_conditions := Some [1]\<rparr>"

definition ex_client_waits :: world where
  "ex_client_waits = ex_world\<lparr>w_evp := (w_evp ex_world)\<lparr>locked := 0\<rparr>, w_client := Some ex_client,
     w_cl := ex_waiting\<rparr>"

lemma ex_client_facts:
  "locked (w_evp ex_client_waits) = 0" "w_client ex_client_waits = Some ex_client"
  "shutdown_conditions ex_client = Some [1]" "1 \<in> set [1]"
  "cond_at (w_cl ex_client_waits) 1 = Some (hd (condition_list ex_waiting))"
  by (simp_all add: ex_client_waits_def ex_client_def ex_waiting_eq cond_at_def CMCondition_find_def)

section \<open>A format\<close>

definition ex_format :: FMStructDescRec where
  "ex_format = \<lparr>format_name = Some ''simple'', field_list = Some [\<lparr>field_name = ''a'',
     field_type = ''integer'', field_size = 4, field_offset = 0\<rparr>], struct_size = 4\<rparr>"

lemma ex_format_ok: "list_ok [ex_format]" "list_ok []"
  by (simp_all add: ex_format_def list_ok_def format_ok_def field_ok_def fields_of_def int32_def)

lemma ex_format_named: "\<not> is_anonymous [ex_format]" "is_anonymous []"
  by (simp_all add: ex_format_def is_anonymous_def)

end
