(* ===== verification/Chr_Time.thy ===== *)
theory Chr_Time
  imports Ev_Prelude
begin

text \<open>
  Time values (chr_time.c): struct timeval with its seconds and microseconds, the difference and
  the sum of two times. The conversions to double and the readings of the clock are not modelled.
\<close>

record timeval =
  tv_sec :: int
  tv_usec :: int

definition chr_timer_eq_zero :: "timeval \<Rightarrow> bool" where
  "chr_timer_eq_zero t \<longleftrightarrow> tv_sec t = 0 \<and> tv_usec t = 0"

definition chr_timer_diff :: "timeval \<Rightarrow> timeval \<Rightarrow> timeval" where
  "chr_timer_diff s1 s2 =
    (let sec = tv_sec s1 - tv_sec s2; usec = tv_usec s1 - tv_usec s2
     in if usec < 0 then \<lparr>tv_sec = sec - 1, tv_usec = usec + 1000000\<rparr>
        else \<lparr>tv_sec = sec, tv_usec = usec\<rparr>)"

definition chr_timer_sum :: "timeval \<Rightarrow> timeval \<Rightarrow> timeval" where
  \<comment> \<open>the test is > 1000000\<close>
  "chr_timer_sum s1 s2 =
    (let sec = tv_sec s1 + tv_sec s2; usec = tv_usec s1 + tv_usec s2
     in if usec > 1000000 then \<lparr>tv_sec = sec + 1, tv_usec = usec - 1000000\<rparr>
        else \<lparr>tv_sec = sec, tv_usec = usec\<rparr>)"

definition chr_timer_stop :: "timeval \<Rightarrow> timeval \<Rightarrow> timeval" where
  \<comment> \<open>the first argument is what the clock reads now\<close>
  "chr_timer_stop now time = chr_timer_diff now time"

definition microsecs :: "timeval \<Rightarrow> int" where
  "microsecs t = tv_sec t * 1000000 + tv_usec t"

definition normal_time :: "timeval \<Rightarrow> bool" where
  "normal_time t \<longleftrightarrow> 0 \<le> tv_usec t \<and> tv_usec t < 1000000"

lemma normal_parts:
  "normal_time t \<Longrightarrow> tv_sec t = microsecs t div 1000000 \<and> tv_usec t = microsecs t mod 1000000"
  by (simp add: normal_time_def microsecs_def)

lemma normal_time_unique:
  "normal_time s \<Longrightarrow> normal_time t \<Longrightarrow> microsecs s = microsecs t \<Longrightarrow> s = t"
  using normal_parts [of s] normal_parts [of t] by (intro timeval.equality) simp_all

lemma microsecs_diff [simp]: "microsecs (chr_timer_diff s t) = microsecs s - microsecs t"
  by (simp add: chr_timer_diff_def microsecs_def Let_def algebra_simps)

lemma microsecs_sum [simp]: "microsecs (chr_timer_sum s t) = microsecs s + microsecs t"
  by (simp add: chr_timer_sum_def microsecs_def Let_def algebra_simps)

lemma normal_diff: "normal_time s \<Longrightarrow> normal_time t \<Longrightarrow> normal_time (chr_timer_diff s t)"
  by (auto simp: chr_timer_diff_def normal_time_def Let_def)

lemma normal_sum:
  "normal_time s \<Longrightarrow> normal_time t \<Longrightarrow>
    normal_time (chr_timer_sum s t) \<longleftrightarrow> tv_usec s + tv_usec t \<noteq> 1000000"
  by (auto simp: chr_timer_sum_def normal_time_def Let_def)

lemma sum_of_diff:
  assumes "normal_time s" "normal_time t"
  shows "chr_timer_sum (chr_timer_diff s t) t = s \<longleftrightarrow> tv_usec s \<noteq> 0 \<or> tv_usec t = 0"
proof -
  have "chr_timer_sum (chr_timer_diff s t) t = s \<longleftrightarrow> normal_time (chr_timer_sum (chr_timer_diff s t) t)"
    using assms normal_time_unique by force
  also have "\<dots> \<longleftrightarrow> tv_usec (chr_timer_diff s t) + tv_usec t \<noteq> 1000000"
    by (rule normal_sum [OF normal_diff [OF assms] assms(2)])
  also have "\<dots> \<longleftrightarrow> tv_usec s \<noteq> 0 \<or> tv_usec t = 0"
    using assms by (auto simp: chr_timer_diff_def normal_time_def Let_def)
  finally show ?thesis .
qed

end
