(* ===== verification/CM_Wire.thy ===== *)
theory CM_Wire
  imports Ev_Types "HOL-Library.Word"
begin

unbundle bit_operations_syntax

text \<open>
  The message formats of the connection manager (cm.c): what INT_CMwrite_attr,
  internal_write_event, INT_CMwrite_evcontrol and the handshake put on the wire, the checksum that
  INT_CMwrite_raw adds, and the recognition of a message by CMact_on_data, up to the point where
  the message is handed to its receiver. Memory is a list of bytes; an integer is read and written
  in the byte order of its host (True: big endian), which both sides take as an argument, since
  WORDS_BIGENDIAN is a choice of the build. Reading outside of the bytes received is None.
\<close>

type_synonym byte = "8 word"
type_synonym int32 = "32 word"

section \<open>Integers in memory\<close>

definition int_bytes :: "bool \<Rightarrow> int32 \<Rightarrow> byte list" where
  "int_bytes big w =
    (let bs = map (\<lambda>i. ucast (drop_bit (8 * i) w)) [0, 1, 2, 3] in if big then rev bs else bs)"

definition bytes_int :: "bool \<Rightarrow> byte list \<Rightarrow> int32" where
  "bytes_int big bs =
    foldr (\<lambda>b w. push_bit 8 w OR ucast b) (if big then rev bs else bs) 0"

definition get_int :: "bool \<Rightarrow> byte list \<Rightarrow> nat \<Rightarrow> int32 option" where
  "get_int big bs k = (if k + 4 \<le> length bs then Some (bytes_int big (take 4 (drop k bs))) else None)"

definition get_byte :: "byte list \<Rightarrow> nat \<Rightarrow> byte option" where
  "get_byte bs k = (if k < length bs then Some (bs ! k) else None)"

section \<open>Recognising a message\<close>

datatype msg_kind = CMD | CMB | CMA | EVC | CMP | CML | CMH

definition message_kind :: "int32 \<Rightarrow> (msg_kind \<times> bool) option" where
  \<comment> \<open>the switch on message_key: the kind, and whether the sender has the other byte order\<close>
  "message_kind first =
    (let key = 0x00ffff00 AND first
     in if key = 0x00444d00 then Some (CMD, True)
        else if key = 0x004d4400 then Some (CMD, False)
        else if key = 0x00424d00 then Some (CMB, True)
        else if key = 0x004d4200 then Some (CMB, False)
        else if key = 0x00414d00 then Some (CMA, True)
        else if key = 0x004d4100 then Some (CMA, False)
        else if key = 0x00005645 then Some (EVC, True)
        else if key = 0x45560000 then Some (EVC, False)
        else if key = 0x00504d00 then Some (CMP, True)
        else if key = 0x004d5000 then Some (CMP, False)
        else if key = 0x004c4d00 then Some (CML, True)
        else if key = 0x004d4c00 then Some (CML, False)
        else if key = 0x00484d00 then Some (CMH, True)
        else if key = 0x004d4800 then Some (CMH, False)
        else None)"

definition get_attrs :: "msg_kind \<Rightarrow> bool" where
  "get_attrs k \<longleftrightarrow> k = CMB \<or> k = CMA \<or> k = CML"

definition short_length :: "msg_kind \<Rightarrow> bool" where
  "short_length k \<longleftrightarrow> k \<noteq> CMB \<and> k \<noteq> CMP"

definition header_len :: "msg_kind \<Rightarrow> nat" where
  "header_len k = (if get_attrs k then 16 else if short_length k then 8 else 12)"

definition header_skip :: "msg_kind \<Rightarrow> nat" where
  "header_skip k = (if get_attrs k \<and> k \<noteq> CML \<and> short_length k then 4 else 0)"

definition header_lengths ::
  "bool \<Rightarrow> msg_kind \<Rightarrow> bool \<Rightarrow> byte list \<Rightarrow> (int \<times> int) option" where
  \<comment> \<open>data_length (an int64_t) and attr_length (an int); a long length of the other byte order has
    both its halves sign-extended\<close>
  "header_lengths big k swap bs =
    (let base = 4 + header_skip k; get = get_int (big \<noteq> swap) bs
     in if short_length k
        then do {
          d \<leftarrow> get base;
          a \<leftarrow> (if header_len k \<noteq> 8 then get (base + 4) else Some 0);
          Some (sint d, sint a) }
        else do {
          hi \<leftarrow> get base;
          lo \<leftarrow> get (base + 4);
          a \<leftarrow> (if header_len k \<noteq> 12 then get (base + 8) else Some 0);
          let d = (if swap then push_bit 32 (scast hi) + scast lo
                   else push_bit 32 (ucast hi) + ucast lo :: 64 word);
          Some (sint d, sint a) })"

definition sent_checksum :: "bool \<Rightarrow> bool \<Rightarrow> byte list \<Rightarrow> byte option" where
  "sent_checksum big swap bs = get_byte bs (if swap \<noteq> big then 3 else 0)"

definition int64_ok :: "int \<Rightarrow> bool" where
  "int64_ok x \<longleftrightarrow> - (2 ^ 63) \<le> x \<and> x < 2 ^ 63"

record header =
  h_kind :: msg_kind
  h_swap :: bool
  h_checksum :: byte
  data_length :: int
  attr_length :: int
  performance_func :: nat
  handshake_version :: nat
  h_stone :: int32

definition read_header :: "bool \<Rightarrow> msg_kind \<Rightarrow> bool \<Rightarrow> byte list \<Rightarrow> header option" where
  "read_header big k swap bs =
    do {
      (d, a) \<leftarrow> header_lengths big k swap bs;
      c \<leftarrow> sent_checksum big swap bs;
      stone \<leftarrow> (if k = CML then get_int (big \<noteq> swap) bs (4 + header_skip k + 8) else Some 0);
      let perf = (k = CMP \<or> k = EVC);
      let func = (if perf then nat (d div 2 ^ 56 mod 256) else 0);
      let d = (if perf then d mod 2 ^ 56 - 12 else d);
      let version = (if k = CMH then nat (d div 2 ^ 24 mod 256) else 0);
      let d = (if k = CMH then d mod 2 ^ 24 - 8 else d);
      Some \<lparr>h_kind = k, h_swap = swap, h_checksum = c, data_length = d, attr_length = a,
            performance_func = func, handshake_version = version, h_stone = stone\<rparr>
    }"

datatype message =
    Need_more nat                              \<comment> \<open>bytes\<close>
  | Non_cm int32                               \<comment> \<open>for CMdo_non_CM_handler or CM_pbio_query\<close>
  | Handshake nat int32 int32                  \<comment> \<open>CMdo_handshake: version, format server, manager\<close>
  | Corrupt
  | Performance int nat bool "byte list"       \<comment> \<open>CMdo_performance_response\<close>
  | Evcontrol nat int32                        \<comment> \<open>INT_EVhandle_control_message\<close>
  | Event "byte list" "byte list" int32        \<comment> \<open>internal_cm_network_submit: attributes, data, stone\<close>
  | Data_record "byte list" "byte list"        \<comment> \<open>attributes, and what FFS decodes\<close>

definition byte_sum :: "byte list \<Rightarrow> byte" where
  "byte_sum bs = sum_list bs"

definition payload :: "header \<Rightarrow> byte list \<Rightarrow> (byte list \<times> byte list) option" where
  \<comment> \<open>attributes and data; a negative length, which the code does not reject, is None\<close>
  "payload h bs =
    (let base = header_len (h_kind h)
     in if 0 \<le> attr_length h \<and> 0 \<le> data_length h
        then Some (take (nat (attr_length h)) (drop base bs),
                   take (nat (data_length h)) (drop (base + nat (attr_length h)) bs))
        else None)"

definition accept_message :: "bool \<Rightarrow> header \<Rightarrow> byte list \<Rightarrow> message option" where
  "accept_message big h bs =
    (let k = h_kind h; base = header_len k; get = get_int (big \<noteq> h_swap h) bs
     in if k = CMH then do {
          server \<leftarrow> get base;
          manager \<leftarrow> get (base + 4);
          Some (Handshake (handshake_version h) server manager) }
        else if h_checksum h \<noteq> 0 \<and> byte_sum (drop 4 bs) \<noteq> h_checksum h then Some Corrupt
        else if k = CMP then
          Some (Performance (data_length h) (performance_func h) (h_swap h) (drop base bs))
        else if k = EVC then do { arg \<leftarrow> get base; Some (Evcontrol (performance_func h) arg) }
        else do {
          (attrs, data) \<leftarrow> payload h bs;
          Some (if k = CML then Event attrs data (h_stone h) else Data_record attrs data) })"

definition CMact_on_data :: "bool \<Rightarrow> byte list \<Rightarrow> message option" where
  "CMact_on_data big bs =
    (if length bs < 4 then Some (Need_more (4 - length bs))
     else do {
       first \<leftarrow> get_int big bs 0;
       case message_kind first of
         None \<Rightarrow> Some (Non_cm first)
       | Some (k, swap) \<Rightarrow>
           if length bs < header_len k then Some (Need_more (header_len k - length bs))
           else do {
             h \<leftarrow> read_header big k swap bs;
             let total = int (header_len k) + data_length h + attr_length h;
             if \<not> int64_ok total then None
             else if int (length bs) < total then Some (Need_more (nat (total - int (length bs))))
             else accept_message big h bs } })"

section \<open>Writing a message\<close>

definition round8 :: "nat \<Rightarrow> nat" where
  "round8 n = (n + 7) div 8 * 8"

definition checksum_limit :: nat where
  "checksum_limit = 10240"

definition stamp :: "bool \<Rightarrow> byte list list \<Rightarrow> byte list list" where
  \<comment> \<open>INT_CMwrite_raw: a checksum of small messages goes to the low byte of the first integer\<close>
  "stamp big vec =
    (let len = sum_list (map length vec);
         c = (if len < checksum_limit then byte_sum (drop 4 (concat vec)) else 0);
         first = bytes_int big (take 4 (hd vec));
         first = (first AND 0xffffff00) OR ucast c
     in (int_bytes big first @ drop 4 (hd vec)) # tl vec)"

definition ints :: "bool \<Rightarrow> int32 list \<Rightarrow> byte list" where
  "ints big ws = concat (map (int_bytes big) ws)"

definition attr_header :: "bool \<Rightarrow> nat \<Rightarrow> nat \<Rightarrow> byte list" where
  "attr_header big len attr_len =
    ints big [0x434d4100, 0x434d4100, of_nat len, of_nat (round8 attr_len)]"

definition no_attr_header :: "bool \<Rightarrow> nat \<Rightarrow> byte list" where
  "no_attr_header big len = ints big [0x434d4400, of_nat len]"

definition attr_long_header :: "bool \<Rightarrow> nat \<Rightarrow> nat \<Rightarrow> byte list" where
  "attr_long_header big len attr_len =
    ints big [0x434d4200, of_nat (len div 2 ^ 32), of_nat len, of_nat (round8 attr_len)]"

text \<open>
  What encode_attr_for_xmit returns is the buffer of the encoded attributes and their length, which
  the writers round up to a multiple of eight: the buffer is that long.
\<close>

definition record_vectors ::
  "bool \<Rightarrow> (byte list \<times> nat) option \<Rightarrow> byte list list \<Rightarrow> byte list list" where
  \<comment> \<open>INT_CMwrite_attr: the vectors it passes to INT_CMwrite_raw\<close>
  "record_vectors big attrs vec =
    (let len = sum_list (map length vec);
         attr_len = (case attrs of None \<Rightarrow> 0 | Some (_, n) \<Rightarrow> n);
         hdr = (if len > 0x7fffffff then attr_long_header big len attr_len
                else if attrs \<noteq> None then attr_header big len attr_len
                else no_attr_header big len)
     in case attrs of
          None \<Rightarrow> hdr # vec
        | Some (enc, n) \<Rightarrow> hdr # take (round8 n) enc # vec)"

definition event_vectors ::
  "bool \<Rightarrow> int32 \<Rightarrow> (byte list \<times> nat) option \<Rightarrow> byte list list \<Rightarrow> byte list list" where
  \<comment> \<open>internal_write_event to a stone (path_len = 4)\<close>
  "event_vectors big stone attrs vec =
    (let len = sum_list (map length vec)
     in case attrs of
          None \<Rightarrow> ints big [0x434d4C00, of_nat len, 0, stone] # vec
        | Some (enc, n) \<Rightarrow>
            ints big [0x434d4C00, of_nat len, of_nat (round8 n), stone] # take (round8 n) enc # vec)"

definition evcontrol_vectors :: "bool \<Rightarrow> byte \<Rightarrow> int32 \<Rightarrow> byte list list" where
  \<comment> \<open>INT_CMwrite_evcontrol\<close>
  "evcontrol_vectors big type arg =
    [ints big [0x45564300, push_bit 24 (ucast type) OR 12], int_bytes big arg]"

definition perf_vectors :: "bool \<Rightarrow> byte \<Rightarrow> nat \<Rightarrow> byte list \<Rightarrow> byte list list option" where
  \<comment> \<open>the answer of CMdo_performance_response to a probe, of len bytes with its header\<close>
  "perf_vectors big func len buf =
    (if 12 \<le> len \<and> len - 12 \<le> length buf
     then Some [ints big [0x434d5000, (of_nat (len div 2 ^ 32) AND 0xffffff) OR push_bit 24 (ucast func),
                          of_nat len],
                take (len - 12) buf]
     else None)"

definition handshake_bytes :: "bool \<Rightarrow> bool \<Rightarrow> int32 \<Rightarrow> int32 \<Rightarrow> byte list" where
  \<comment> \<open>send_and_maybe_wait_for_handshake; CURRENT_HANDSHAKE_VERSION is 1\<close>
  "handshake_bytes big known server manager =
    (let server = (if server = 0 then - 1 else server)
     in ints big [0x434d4800, push_bit 24 1 + 20, server,
                  if known then manager OR 0x80000000 else manager, 0])"

section \<open>Facts about the integers\<close>

lemma length_int_bytes [simp]: "length (int_bytes big w) = 4"
  by (simp add: int_bytes_def Let_def)

lemma length_ints [simp]: "length (ints big ws) = 4 * length ws"
  by (induction ws) (simp_all add: ints_def)

lemma masks: "(0x00ffff00 :: int32) = push_bit 8 (mask 16)" "(0xffffff00 :: int32) = push_bit 8 (mask 24)"
  by (simp_all add: mask_eq_exp_minus_1 push_bit_eq_mult)

lemma bit_bytes_int:
  "bit (bytes_int False [a, b, c, d]) n \<longleftrightarrow>
    (if n < 8 then bit a n else if n < 16 then bit b (n - 8) else if n < 24 then bit c (n - 16)
     else n < 32 \<and> bit d (n - 24))"
proof -
  have small: "m < 8" if "bit x m" for x :: byte and m using bit_imp_le_length [OF that] by simp
  show ?thesis
    by (auto simp: bytes_int_def bit_simps dest: small)
qed

lemma bytes_int_bytes [simp]: "bytes_int big (int_bytes big w) = w"
proof -
  have "bytes_int False (int_bytes False w) = w"
    by (rule bit_word_eqI) (auto simp: int_bytes_def Let_def bit_bytes_int bit_simps)
  then show ?thesis by (cases big) (simp_all add: bytes_int_def int_bytes_def Let_def)
qed

lemma get_int_here:
  "length pre = k \<Longrightarrow> get_int big (pre @ int_bytes big w @ post) k = Some w"
  by (simp add: get_int_def)

lemma get_int_take:
  "k + 4 \<le> n \<Longrightarrow> n \<le> length bs \<Longrightarrow> get_int big (take n bs) k = get_int big bs k"
  by (simp add: get_int_def drop_take take_take min_def)

lemma get_byte_take:
  "k < n \<Longrightarrow> n \<le> length bs \<Longrightarrow> get_byte (take n bs) k = get_byte bs k"
  by (simp add: get_byte_def)

lemma masked_ends:
  "0x00ffff00 AND bytes_int big [a, b, c, d] = 0x00ffff00 AND bytes_int big [0, b, c, 0]"
proof -
  have "0x00ffff00 AND bytes_int False [a, b, c, d] = 0x00ffff00 AND bytes_int False [0, b, c, 0]"
    for a b c d
    unfolding masks by (rule bit_word_eqI) (auto simp: bit_bytes_int bit_simps)
  then show ?thesis by (cases big) (simp_all add: bytes_int_def)
qed

lemma stamped_int:
  "int_bytes big ((w AND 0xffffff00) OR ucast c) =
    (if big then butlast (int_bytes big w) @ [c] else c # tl (int_bytes big w))"
proof -
  have high: "\<not> bit c (8 + n)" "\<not> bit c (16 + n)" "\<not> bit c (24 + n)" for n
    using bit_imp_le_length [of c] by force+
  have "int_bytes False ((w AND 0xffffff00) OR ucast c) = c # tl (int_bytes False w)"
    unfolding masks
    by (auto simp: int_bytes_def Let_def bit_simps high intro!: bit_word_eqI)
  then show ?thesis by (cases big) (simp_all add: int_bytes_def Let_def)
qed

section \<open>What the writer puts on the wire is what the reader takes from it\<close>

definition magic :: "bool \<Rightarrow> int32 \<Rightarrow> byte \<Rightarrow> byte list" where
  "magic big m c = (if big then butlast (int_bytes big m) @ [c] else c # tl (int_bytes big m))"

lemma length_magic [simp]: "length (magic big m c) = 4"
  by (simp add: magic_def)

lemma ints_Cons: "ints big (w # ws) = int_bytes big w @ ints big ws"
  by (simp add: ints_def)

lemma stamped_vectors:
  "\<exists>c. concat (stamp big (ints big (m # ws) # vec)) = magic big m c @ ints big ws @ concat vec \<and>
    (c \<noteq> 0 \<longrightarrow> c = byte_sum (ints big ws @ concat vec))"
  by (rule exI [of _ "if sum_list (map length (ints big (m # ws) # vec)) < checksum_limit
                     then byte_sum (ints big ws @ concat vec) else 0"])
    (auto simp: stamp_def Let_def ints_Cons stamped_int magic_def)

lemma get_ints:
  "length pre + 4 * i = k \<Longrightarrow> i < length ws \<Longrightarrow> get_int big (pre @ ints big ws @ post) k = Some (ws ! i)"
proof (induction ws arbitrary: pre i)
  case (Cons w ws)
  show ?case
  proof (cases i)
    case 0
    with Cons.prems show ?thesis by (simp add: get_int_here ints_Cons)
  next
    case (Suc i')
    with Cons.prems Cons.IH [of "pre @ int_bytes big w" i'] show ?thesis by (simp add: ints_Cons)
  qed
qed simp

lemma get_header_ints:
  assumes "length pre = 4"
  shows "get_int big (pre @ ints big (x # ws) @ post) 4 = Some x"
    and "get_int big (pre @ ints big (x # y # ws) @ post) 8 = Some y"
    and "get_int big (pre @ ints big (x # y # z # ws) @ post) 12 = Some z"
  using assms get_ints [of pre 0 4 "x # ws"] get_ints [of pre 1 8 "x # y # ws"]
    get_ints [of pre 2 12 "x # y # z # ws"]
  by (auto simp del: append_assoc)

lemma message_kind_cong:
  "0x00ffff00 AND x = 0x00ffff00 AND y \<Longrightarrow> message_kind x = message_kind y"
  by (simp add: message_kind_def)

lemma message_kind_magic:
  assumes "int_bytes False m = [e, a, b, d]"
  shows "message_kind (bytes_int big (magic big' m c)) = message_kind (bytes_int (big \<noteq> big') [0, a, b, 0])"
proof -
  have "0x00ffff00 AND bytes_int big (magic big' m c) = 0x00ffff00 AND bytes_int (big \<noteq> big') [0, a, b, 0]"
    using assms masked_ends [of "big \<noteq> big'" c a b d]
    by (cases big; cases big')
      (simp_all add: magic_def int_bytes_def Let_def bytes_int_def)
  then show ?thesis by (rule message_kind_cong)
qed

lemma magic_kinds:
  "message_kind (bytes_int big (magic big' 0x434d4400 c)) = Some (CMD, big \<noteq> big')"
  "message_kind (bytes_int big (magic big' 0x434d4200 c)) = Some (CMB, big \<noteq> big')"
  "message_kind (bytes_int big (magic big' 0x434d4100 c)) = Some (CMA, big \<noteq> big')"
  "message_kind (bytes_int big (magic big' 0x434d5000 c)) = Some (CMP, big \<noteq> big')"
  "message_kind (bytes_int big (magic big' 0x434d4C00 c)) = Some (CML, big \<noteq> big')"
  "message_kind (bytes_int big (magic big' 0x434d4800 c)) = Some (CMH, big \<noteq> big')"
  by (subst message_kind_magic, simp add: int_bytes_def Let_def, cases "big = big'";
      simp add: bytes_int_def message_kind_def)+

lemma sent_checksum_magic:
  "sent_checksum big (big \<noteq> big') (magic big' m c @ bs) = Some c"
proof -
  have "length (int_bytes big' m) = 4" by simp
  then show ?thesis
    by (cases big'; cases big) (simp_all add: sent_checksum_def get_byte_def magic_def nth_append)
qed

lemma sint_small: "n \<le> 0x7fffffff \<Longrightarrow> sint (of_nat n :: int32) = int n"
  by (simp add: signed_of_nat signed_take_bit_int_eq_self)

lemma other_order [simp]: "(big \<noteq> (big \<noteq> big')) = big'"
  by auto

definition whole_message :: "bool \<Rightarrow> byte list \<Rightarrow> bool" where
  \<comment> \<open>one message, from its first byte to its last\<close>
  "whole_message big m =
    (case get_int big m 0 of None \<Rightarrow> False
     | Some first \<Rightarrow> (case message_kind first of None \<Rightarrow> False
       | Some (k, swap) \<Rightarrow> header_len k \<le> length m \<and> length m < 2 ^ 63 \<and>
           (case read_header big k swap m of None \<Rightarrow> False
            | Some h \<Rightarrow> int (length m) = int (header_len k) + data_length h + attr_length h)))"

lemma whole_messageE:
  assumes "whole_message big m"
  obtains first k swap h where "get_int big m 0 = Some first" "message_kind first = Some (k, swap)"
    "header_len k \<le> length m" "length m < 2 ^ 63" "read_header big k swap m = Some h"
    "int (length m) = int (header_len k) + data_length h + attr_length h"
  using assms by (auto simp: whole_message_def split: option.splits)

lemma act_on_message:
  assumes m: "message_kind (bytes_int big (magic big' m c)) = Some (k, big \<noteq> big')"
    and h: "read_header big k (big \<noteq> big') (magic big' m c @ bs) = Some h"
    and k: "header_len k \<le> length bs + 4"
    and len: "int (length bs) + 4 = int (header_len k) + data_length h + attr_length h"
    and small: "length bs + 4 < 2 ^ 63"
  shows "whole_message big (magic big' m c @ bs)"
    and "CMact_on_data big (magic big' m c @ bs) = accept_message big h (magic big' m c @ bs)"
proof -
  have g: "get_int big (magic big' m c @ bs) 0 = Some (bytes_int big (magic big' m c))"
    by (simp add: get_int_def)
  with m h k len small show "whole_message big (magic big' m c @ bs)"
    by (simp add: whole_message_def)
  have "int64_ok (int (header_len k) + data_length h + attr_length h)"
    using small unfolding len [symmetric] by (simp add: int64_ok_def)
  with g show "CMact_on_data big (magic big' m c @ bs) = accept_message big h (magic big' m c @ bs)"
    using m h k len by (simp add: CMact_on_data_def)
qed

lemmas kind_defs = header_skip_def header_len_def short_length_def get_attrs_def

lemma read_short_header:
  assumes "sent_checksum big swap bs = Some c" "get_int (big \<noteq> swap) bs (4 + header_skip k) = Some d"
    and "if header_len k = 8 then a = 0 else get_int (big \<noteq> swap) bs (8 + header_skip k) = Some a"
    and "if k = CML then get_int (big \<noteq> swap) bs 12 = Some stone else stone = 0"
    and "k = CMD \<or> k = CMA \<or> k = CML"
  shows "read_header big k swap bs =
    Some \<lparr>h_kind = k, h_swap = swap, h_checksum = c, data_length = sint d, attr_length = sint a,
          performance_func = 0, handshake_version = 0, h_stone = stone\<rparr>"
  using assms by (auto simp: read_header_def header_lengths_def kind_defs)

lemma read_long_header:
  assumes "sent_checksum big swap bs = Some c" "get_int (big \<noteq> swap) bs 4 = Some hi"
    and "get_int (big \<noteq> swap) bs 8 = Some lo" "get_int (big \<noteq> swap) bs 12 = Some a"
  shows "read_header big CMB swap bs =
    Some \<lparr>h_kind = CMB, h_swap = swap, h_checksum = c,
          data_length = sint (if swap then push_bit 32 (scast hi) + scast lo
                              else push_bit 32 (ucast hi) + ucast lo :: 64 word),
          attr_length = sint a, performance_func = 0, handshake_version = 0, h_stone = 0\<rparr>"
  using assms by (auto simp: read_header_def header_lengths_def kind_defs)

lemma act_on_written:
  assumes kind: "message_kind (bytes_int big (magic big' m c)) = Some (k, big \<noteq> big')"
    and h: "read_header big k (big \<noteq> big') (magic big' m c @ ints big' ws @ a @ d) = Some h"
    and "h_kind h = k" "h_checksum h = c" "data_length h = int (length d)" "attr_length h = int (length a)"
    and k: "header_len k = 4 + 4 * length ws" "k \<noteq> CMH" "k \<noteq> CMP" "k \<noteq> EVC"
    and c: "c \<noteq> 0 \<longrightarrow> c = byte_sum (ints big' ws @ a @ d)"
    and small: "4 + 4 * length ws + length a + length d < 2 ^ 63"
  shows "whole_message big (magic big' m c @ ints big' ws @ a @ d) \<and>
    CMact_on_data big (magic big' m c @ ints big' ws @ a @ d) =
      Some (if k = CML then Event a d (h_stone h) else Data_record a d)"
proof -
  have whole: "whole_message big (magic big' m c @ ints big' ws @ a @ d)"
    by (rule act_on_message [OF kind h]) (use assms in auto)
  have "CMact_on_data big (magic big' m c @ ints big' ws @ a @ d) =
      accept_message big h (magic big' m c @ ints big' ws @ a @ d)"
    by (rule act_on_message [OF kind h]) (use assms in auto)
  also have "\<dots> = Some (if k = CML then Event a d (h_stone h) else Data_record a d)"
    using assms by (auto simp: accept_message_def payload_def)
  finally have act: "CMact_on_data big (magic big' m c @ ints big' ws @ a @ d) =
      Some (if k = CML then Event a d (h_stone h) else Data_record a d)" .
  then show ?thesis using whole by simp
qed

definition attr_bytes :: "(byte list \<times> nat) option \<Rightarrow> byte list" where
  "attr_bytes attrs = (case attrs of None \<Rightarrow> [] | Some (enc, n) \<Rightarrow> take (round8 n) enc)"

definition attrs_fit :: "(byte list \<times> nat) option \<Rightarrow> bool" where
  "attrs_fit attrs \<longleftrightarrow> (case attrs of None \<Rightarrow> True | Some (enc, n) \<Rightarrow> n \<le> 0x7ffffff0 \<and> round8 n \<le> length enc)"

lemma attr_bytes_length:
  "attrs_fit (Some (enc, n)) \<Longrightarrow> length (take (round8 n) enc) = round8 n \<and> round8 n \<le> 0x7fffffff"
  by (auto simp: attrs_fit_def round8_def)

lemma concat_length: "sum_list (map length vec) = length (concat vec)"
  by (simp add: length_concat)

lemma event_wire_bytes:
  assumes "attrs_fit attrs"
  shows "event_vectors big stone attrs vec =
    ints big [0x434d4C00, of_nat (length (concat vec)), of_nat (length (attr_bytes attrs)), stone] #
      (case attrs of None \<Rightarrow> vec | Some _ \<Rightarrow> attr_bytes attrs # vec)"
  using assms attr_bytes_length
  by (auto simp: event_vectors_def attr_bytes_def concat_length split: option.splits)

lemma concat_attrs:
  "concat (case attrs of None \<Rightarrow> vec | Some _ \<Rightarrow> attr_bytes attrs # vec) = attr_bytes attrs @ concat vec"
  by (auto simp: attr_bytes_def split: option.splits)

lemma event_roundtrip:
  assumes "length (concat vec) \<le> 0x7fffffff" "attrs_fit attrs"
  shows "whole_message big (concat (stamp big' (event_vectors big' stone attrs vec))) \<and>
    CMact_on_data big (concat (stamp big' (event_vectors big' stone attrs vec))) =
      Some (Event (attr_bytes attrs) (concat vec) stone)"
proof -
  let ?d = "concat vec" and ?a = "attr_bytes attrs"
  let ?ws = "[of_nat (length ?d), of_nat (length ?a), stone]"
  let ?b = "ints big' ?ws @ ?a @ ?d"
  let ?v = "case attrs of None \<Rightarrow> vec | Some _ \<Rightarrow> ?a # vec"
  obtain c where c: "concat (stamp big' (ints big' (0x434d4C00 # ?ws) # ?v)) = magic big' 0x434d4C00 c @ ?b \<and>
      (c \<noteq> 0 \<longrightarrow> c = byte_sum ?b)"
    using stamped_vectors [of big' "0x434d4C00" ?ws ?v] unfolding concat_attrs by (rule exE)
  have a: "length ?a \<le> 0x7fffffff"
    using assms(2) attr_bytes_length by (auto simp: attr_bytes_def split: option.splits)
  let ?h = "\<lparr>h_kind = CML, h_swap = (big \<noteq> big'), h_checksum = c, data_length = int (length ?d),
    attr_length = int (length ?a), performance_func = 0, handshake_version = 0, h_stone = stone\<rparr>"
  note g = get_header_ints [OF length_magic]
  have h: "read_header big CML (big \<noteq> big') (magic big' 0x434d4C00 c @ ?b) = Some ?h"
    unfolding sint_small [OF a, symmetric] sint_small [OF assms(1), symmetric]
    by (rule read_short_header [OF sent_checksum_magic]) (simp_all only: other_order, simp_all add: kind_defs g)
  have "whole_message big (magic big' 0x434d4C00 c @ ?b) \<and>
      CMact_on_data big (magic big' 0x434d4C00 c @ ?b) = Some (Event ?a ?d stone)"
    using act_on_written [OF magic_kinds(5) h] c a assms(1) by (simp add: kind_defs)
  then show ?thesis unfolding event_wire_bytes [OF assms(2)] conjunct1 [OF c] .
qed

lemma record_bytes:
  assumes "attrs_fit attrs"
  shows "record_vectors big attrs vec =
    (let len = length (concat vec); alen = length (attr_bytes attrs)
     in (if len > 0x7fffffff
         then ints big [0x434d4200, of_nat (len div 2 ^ 32), of_nat len, of_nat alen]
         else if attrs \<noteq> None then ints big [0x434d4100, 0x434d4100, of_nat len, of_nat alen]
         else ints big [0x434d4400, of_nat len])) #
      (case attrs of None \<Rightarrow> vec | Some _ \<Rightarrow> attr_bytes attrs # vec)"
  using assms attr_bytes_length
  by (auto simp: record_vectors_def attr_bytes_def concat_length Let_def attr_header_def
      no_attr_header_def attr_long_header_def round8_def split: option.splits)

lemma long_length:
  assumes "n < 2 ^ 63"
  shows "sint (push_bit 32 (ucast (of_nat (n div 2 ^ 32) :: int32)) + ucast (of_nat n :: int32) :: 64 word)
    = int n"
proof -
  let ?hi = "push_bit 32 (ucast (of_nat (n div 2 ^ 32) :: int32)) :: 64 word"
  let ?lo = "ucast (of_nat n :: int32) :: 64 word"
  have "?hi + ?lo = ?hi OR ?lo"
    by (rule disjunctive_add) (auto simp: bit_simps)
  also have "\<dots> = of_nat n"
    unfolding drop_bit_eq_div [symmetric] by (rule bit_word_eqI) (auto simp: bit_simps)
  finally have "?hi + ?lo = of_nat n" .
  then show ?thesis
    using assms by (simp add: signed_of_nat signed_take_bit_int_eq_self)
qed

lemma record_roundtrip:
  assumes "length (concat vec) \<le> 0x7fffffff \<or> big = big' \<and> length (concat vec) < 2 ^ 62"
    and "attrs_fit attrs"
  shows "whole_message big (concat (stamp big' (record_vectors big' attrs vec))) \<and>
    CMact_on_data big (concat (stamp big' (record_vectors big' attrs vec))) =
      Some (Data_record (attr_bytes attrs) (concat vec))"
proof -
  let ?d = "concat vec" and ?a = "attr_bytes attrs"
  let ?v = "case attrs of None \<Rightarrow> vec | Some _ \<Rightarrow> ?a # vec"
  have a: "length ?a \<le> 0x7fffffff"
    using assms(2) attr_bytes_length by (auto simp: attr_bytes_def split: option.splits)
  note g = get_header_ints [OF length_magic]
  consider (long) "length ?d > 0x7fffffff" | (plain) "length ?d \<le> 0x7fffffff" "attrs = None"
    | (attr) "length ?d \<le> 0x7fffffff" "attrs \<noteq> None"
    by linarith
  then show ?thesis
  proof cases
    case long
    then have same: "big = big'" and d: "length ?d < 2 ^ 62" using assms(1) by auto
    let ?ws = "[of_nat (length ?d div 2 ^ 32), of_nat (length ?d), of_nat (length ?a)]"
    let ?b = "ints big' ?ws @ ?a @ ?d"
    obtain c where c: "concat (stamp big' (ints big' (0x434d4200 # ?ws) # ?v)) = magic big' 0x434d4200 c @ ?b \<and>
        (c \<noteq> 0 \<longrightarrow> c = byte_sum ?b)"
      using stamped_vectors [of big' "0x434d4200" ?ws ?v] unfolding concat_attrs by (rule exE)
    let ?h = "\<lparr>h_kind = CMB, h_swap = False, h_checksum = c, data_length = int (length ?d),
      attr_length = int (length ?a), performance_func = 0, handshake_version = 0, h_stone = 0\<rparr>"
    note rl = read_long_header [OF sent_checksum_magic, unfolded other_order, OF g]
    have "read_header big CMB (big \<noteq> big') (magic big' 0x434d4200 c @ ?b) = Some ?h"
      by (rule rl [THEN trans]) (use long_length [of "length ?d"] d sint_small [OF a] same in simp)
    from act_on_written [OF magic_kinds(2) this] c a d show ?thesis
      unfolding record_bytes [OF assms(2)] using long by (simp add: kind_defs Let_def)
  next
    case plain
    let ?ws = "[of_nat (length ?d)]"
    let ?b = "ints big' ?ws @ ?a @ ?d"
    obtain c where c: "concat (stamp big' (ints big' (0x434d4400 # ?ws) # ?v)) = magic big' 0x434d4400 c @ ?b \<and>
        (c \<noteq> 0 \<longrightarrow> c = byte_sum ?b)"
      using stamped_vectors [of big' "0x434d4400" ?ws ?v] unfolding concat_attrs by (rule exE)
    let ?h = "\<lparr>h_kind = CMD, h_swap = (big \<noteq> big'), h_checksum = c, data_length = int (length ?d),
      attr_length = sint (0 :: int32), performance_func = 0, handshake_version = 0, h_stone = 0\<rparr>"
    have h: "read_header big CMD (big \<noteq> big') (magic big' 0x434d4400 c @ ?b) = Some ?h"
      unfolding sint_small [OF plain(1), symmetric]
      by (rule read_short_header [OF sent_checksum_magic])
        (simp_all only: other_order, simp_all add: kind_defs g)
    from act_on_written [OF magic_kinds(1) this] c plain show ?thesis
      unfolding record_bytes [OF assms(2)] by (simp add: kind_defs Let_def attr_bytes_def)
  next
    case attr
    let ?ws = "[0x434d4100, of_nat (length ?d), of_nat (length ?a)]"
    let ?b = "ints big' ?ws @ ?a @ ?d"
    obtain c where c: "concat (stamp big' (ints big' (0x434d4100 # ?ws) # ?v)) = magic big' 0x434d4100 c @ ?b \<and>
        (c \<noteq> 0 \<longrightarrow> c = byte_sum ?b)"
      using stamped_vectors [of big' "0x434d4100" ?ws ?v] unfolding concat_attrs by (rule exE)
    let ?h = "\<lparr>h_kind = CMA, h_swap = (big \<noteq> big'), h_checksum = c, data_length = int (length ?d),
      attr_length = int (length ?a), performance_func = 0, handshake_version = 0, h_stone = 0\<rparr>"
    have h: "read_header big CMA (big \<noteq> big') (magic big' 0x434d4100 c @ ?b) = Some ?h"
      unfolding sint_small [OF attr(1), symmetric] sint_small [OF a, symmetric]
      by (rule read_short_header [OF sent_checksum_magic])
        (simp_all only: other_order, simp_all add: kind_defs g)
    from act_on_written [OF magic_kinds(3) this] c a attr show ?thesis
      unfolding record_bytes [OF assms(2)] by (simp add: kind_defs Let_def)
  qed
qed

section \<open>Parts of a message, and damaged ones\<close>

lemma read_header_cong:
  assumes "take (header_len k) bs' = take (header_len k) bs"
    and "header_len k \<le> length bs" "header_len k \<le> length bs'"
  shows "read_header big k swap bs' = read_header big k swap bs"
proof -
  have i: "get_int b bs' n = get_int b bs n" if "n + 4 \<le> header_len k" for n b
    using get_int_take [OF that assms(2), of b] get_int_take [OF that assms(3), of b] assms(1) by simp
  have c: "get_byte bs' n = get_byte bs n" if "n < header_len k" for n
    using get_byte_take [OF that assms(2)] get_byte_take [OF that assms(3)] assms(1) by simp
  show ?thesis
    using i [of 4] i [of 8] i [of 12] c [of 0] c [of 3]
    by (cases k) (simp_all add: read_header_def header_lengths_def sent_checksum_def kind_defs Let_def)
qed

lemma first_int_cong:
  "take 4 bs' = take 4 bs \<Longrightarrow> 4 \<le> length bs \<Longrightarrow> 4 \<le> length bs' \<Longrightarrow> get_int big bs' 0 = get_int big bs 0"
  by (simp add: get_int_def)

lemma header_len_ge: "8 \<le> header_len k"
  by (simp add: header_len_def)

lemma part_of_message:
  assumes w: "whole_message big m" and n: "n < length m"
  shows "\<exists>j. CMact_on_data big (take n m) = Some (Need_more j) \<and> 0 < j \<and> n + j \<le> length m"
proof -
  from w obtain first k swap h where f: "get_int big m 0 = Some first" "message_kind first = Some (k, swap)"
    and k: "header_len k \<le> length m" and small: "length m < 2 ^ 63" and h: "read_header big k swap m = Some h"
    and len: "int (length m) = int (header_len k) + data_length h + attr_length h"
    by (rule whole_messageE)
  have k8: "8 \<le> header_len k" by (rule header_len_ge)
  consider "n < 4" | "4 \<le> n" "n < header_len k" | "header_len k \<le> n" by linarith
  then show ?thesis
  proof cases
    case 1
    then show ?thesis using n k k8 by (simp add: CMact_on_data_def)
  next
    case 2
    then have "get_int big (take n m) 0 = Some first"
      using first_int_cong [of "take n m" m] n f by (simp add: take_take min_def)
    then show ?thesis using 2 n k k8 f by (simp add: CMact_on_data_def)
  next
    case 3
    then have "get_int big (take n m) 0 = Some first"
      using first_int_cong [of "take n m" m] n f k8 by (simp add: take_take min_def)
    moreover have "read_header big k swap (take n m) = Some h"
      using read_header_cong [of k "take n m" m] 3 n h by (simp add: take_take min_def)
    moreover have "int64_ok (int (header_len k) + data_length h + attr_length h)"
      using small unfolding len [symmetric] by (simp add: int64_ok_def)
    ultimately show ?thesis
      using 3 n k8 f len [symmetric] by (simp add: CMact_on_data_def)
  qed
qed

lemma header_len_not_zero: "whole_message big m \<Longrightarrow> 8 \<le> length m"
  by (erule whole_messageE) (use header_len_ge le_trans in blast)

lemma whole_act:
  assumes "whole_message big m"
  shows "CMact_on_data big m \<noteq> Some (Need_more j)"
proof -
  from assms obtain first k swap h where f: "get_int big m 0 = Some first" "message_kind first = Some (k, swap)"
    and k: "header_len k \<le> length m" and small: "length m < 2 ^ 63" and h: "read_header big k swap m = Some h"
    and len: "int (length m) = int (header_len k) + data_length h + attr_length h"
    by (rule whole_messageE)
  have "int64_ok (int (header_len k) + data_length h + attr_length h)"
    using small unfolding len [symmetric] by (simp add: int64_ok_def)
  then show ?thesis
    using f h k len header_len_ge [of k]
    by (auto simp: CMact_on_data_def accept_message_def Let_def split: if_splits option.splits bind_splits)
qed

section \<open>Control messages\<close>

text \<open>No first integer selects the branches of event control: the mask clears what they test.\<close>

lemma and_key: "(0x00ffff00 :: int32) AND first = key \<Longrightarrow> 0x00ffff00 AND key = key"
  by auto
lemma evcontrol_never: "message_kind first \<noteq> Some (EVC, swap)"
  using and_key [of first "0x00005645"] and_key [of first "0x45560000"]
  by (auto simp: message_kind_def Let_def split: if_splits)

lemma evcontrol_kind: "message_kind (bytes_int big (magic big' 0x45564300 c)) = None"
  by (subst message_kind_magic, simp add: int_bytes_def Let_def, cases "big = big'";
      simp add: bytes_int_def message_kind_def)

lemma evcontrol_unknown:
  "\<exists>first. CMact_on_data big (concat (stamp big' (evcontrol_vectors big' type arg))) = Some (Non_cm first)"
proof -
  let ?ws = "[push_bit 24 (ucast type) OR 12 :: int32]"
  obtain c where c: "concat (stamp big' (ints big' (0x45564300 # ?ws) # [int_bytes big' arg])) =
      magic big' 0x45564300 c @ ints big' ?ws @ concat [int_bytes big' arg] \<and>
      (c \<noteq> 0 \<longrightarrow> c = byte_sum (ints big' ?ws @ concat [int_bytes big' arg]))"
    using stamped_vectors [of big' "0x45564300" ?ws "[int_bytes big' arg]"] by (rule exE)
  have "get_int big (magic big' 0x45564300 c @ ints big' ?ws @ concat [int_bytes big' arg]) 0 =
      Some (bytes_int big (magic big' 0x45564300 c))"
    by (simp add: get_int_def)
  then show ?thesis
    unfolding evcontrol_vectors_def conjunct1 [OF c] by (simp add: CMact_on_data_def evcontrol_kind)
qed

lemma other_order_long:
  \<comment> \<open>a record of 2 to 4 gigabytes from a host of the other byte order is given a negative length\<close>
  assumes "0x80000000 \<le> n" "n < 0x100000000" "get_int (big \<noteq> swap) bs 4 = Some 0"
    and "get_int (big \<noteq> swap) bs 8 = Some (of_nat n)" "get_int (big \<noteq> swap) bs 12 = Some 0" "swap"
  shows "header_lengths big CMB swap bs = Some (int n - 2 ^ 32, 0)"
proof -
  have "int n div 2147483648 = 1"
    by (rule int_div_pos_eq [where r = "int n - 2147483648"]) (use assms(1,2) in simp_all)
  then have s: "sint (of_nat n :: int32) = int n - 2 ^ 32"
    using assms(1,2) by (simp add: signed_of_nat signed_take_bit_eq_take_bit_minus take_bit_int_eq_self bit_iff_odd)
  have "sint (scast (of_nat n :: int32) :: 64 word) = int n - 2 ^ 32"
    by (subst sint_up_scast) (simp_all add: s is_up)
  then show ?thesis
    using assms by (simp add: header_lengths_def kind_defs)
qed

lemma byte_sum_update: "j < length bs \<Longrightarrow> byte_sum (bs[j := b]) = byte_sum bs + b - bs ! j"
  unfolding byte_sum_def
  by (induction bs arbitrary: j) (auto split: nat.split)

lemma damaged_payload:
  assumes w: "whole_message big m"
    and f: "get_int big m 0 = Some first" "message_kind first = Some (k, swap)" "k \<noteq> CMH"
    and c: "sent_checksum big swap m = Some c" "c \<noteq> 0" "byte_sum (drop 4 m) = c"
    and i: "header_len k \<le> i" "i < length m" "b \<noteq> m ! i"
  shows "CMact_on_data big (m[i := b]) = Some Corrupt"
proof -
  from w f obtain h where k: "header_len k \<le> length m" and small: "length m < 2 ^ 63"
    and h: "read_header big k swap m = Some h"
    and len: "int (length m) = int (header_len k) + data_length h + attr_length h"
    by (auto elim: whole_messageE)
  have k8: "8 \<le> header_len k" by (rule header_len_ge)
  have f': "get_int big (m[i := b]) 0 = Some first"
    using first_int_cong [of "m[i := b]" m] i k8 f by simp
  have h': "read_header big k swap (m[i := b]) = Some h"
    using read_header_cong [of k "m[i := b]" m big swap] i k h by simp
  have hc: "h_checksum h = c" "h_kind h = k"
    using h c(1) by (auto simp: read_header_def Let_def split: bind_splits)
  have "drop 4 m ! (i - 4) = m ! i" using i k8 by simp
  have "drop 4 (m[i := b]) = (drop 4 m)[i - 4 := b]"
    using i k8 by (simp add: drop_update_swap)
  then have "byte_sum (drop 4 (m[i := b])) = byte_sum (drop 4 m) + b - m ! i"
    using i k8 by (simp add: byte_sum_update)
  then have "byte_sum (drop 4 (m[i := b])) \<noteq> c"
    using c i by simp
  then show ?thesis
    using f f' h' k k8 len small c hc
    by (simp add: CMact_on_data_def accept_message_def int64_ok_def)
qed

lemma perf_word:
  fixes func :: byte
  assumes "n < 2 ^ 31"
  defines "hi \<equiv> (of_nat (n div 2 ^ 32) AND 0xffffff) OR push_bit 24 (ucast func) :: int32"
  defines "w \<equiv> push_bit 32 (ucast hi) + ucast (of_nat n :: int32) :: 64 word"
  shows "push_bit 32 (scast hi) + scast (of_nat n :: int32) = w"
    and "sint w div 2 ^ 56 mod 256 = uint func" and "sint w mod 2 ^ 56 = int n"
proof -
  have hi: "hi = push_bit 24 (ucast func)" using assms by (simp add: hi_def)
  have n: "\<not> bit n k" if "31 \<le> k" for k
    using assms(1) that by (metis bit_take_bit_iff linorder_not_le take_bit_nat_eq_self_iff)
  have f: "\<not> bit func k" if "8 \<le> k" for k
    using that bit_imp_le_length [of func k] by fastforce
  have lo: "ucast (of_nat n :: int32) = (of_nat n :: 64 word)" "scast (of_nat n :: int32) = (of_nat n :: 64 word)"
    using assms(1) by (simp_all add: unsigned_of_nat take_bit_nat_eq_self scast_eq sint_small)
  have last: "k = 63" if "k < 64" "31 \<le> k - 32" for k :: nat using that by linarith
  have h: "push_bit 32 (ucast (push_bit 24 (ucast func) :: int32)) = (push_bit 56 (ucast func) :: 64 word)"
      "push_bit 32 (scast (push_bit 24 (ucast func) :: int32)) = (push_bit 56 (ucast func) :: 64 word)"
    by (rule bit_word_eqI; auto simp: bit_simps min_def dest: bit_imp_le_length last)+
  have "push_bit 56 (ucast func) + of_nat n = (push_bit 56 (ucast func) OR of_nat n :: 64 word)"
    by (rule disjunctive_add) (use n in \<open>auto simp: bit_simps\<close>)
  then have w: "w = push_bit 56 (ucast func) OR of_nat n"
    by (simp add: w_def hi lo h)
  show "push_bit 32 (scast hi) + scast (of_nat n :: int32) = w"
    by (simp add: w_def hi lo h)
  have "take_bit 8 (drop_bit 56 (sint w)) = uint func"
  proof (rule bit_eqI)
    fix k :: nat
    consider "k < 7" | "k = 7" | "8 \<le> k" by linarith
    then show "bit (take_bit 8 (drop_bit 56 (sint w))) k \<longleftrightarrow> bit (uint func) k"
      by cases (use n f in \<open>auto simp: w bit_simps min_def\<close>)
  qed
  then show "sint w div 2 ^ 56 mod 256 = uint func"
    by (simp add: take_bit_eq_mod drop_bit_eq_div)
  have n': "k < 31" if "bit n k" for k using n [of k] that by (cases "31 \<le> k") auto
  have "take_bit 56 (sint w) = int n"
    by (rule bit_eqI) (use f in \<open>auto simp: w bit_simps min_def dest: n'\<close>)
  then show "sint w mod 2 ^ 56 = int n"
    by (simp add: take_bit_eq_mod)
qed

lemma perf_header:
  fixes func :: byte
  assumes "n < 2 ^ 31" "12 \<le> n" "sent_checksum big swap bs = Some c"
    and "get_int (big \<noteq> swap) bs 4 = Some ((of_nat (n div 2 ^ 32) AND 0xffffff) OR push_bit 24 (ucast func))"
    and "get_int (big \<noteq> swap) bs 8 = Some (of_nat n)"
  shows "read_header big CMP swap bs =
    Some \<lparr>h_kind = CMP, h_swap = swap, h_checksum = c, data_length = int (n - 12), attr_length = 0,
          performance_func = unat func, handshake_version = 0, h_stone = 0\<rparr>"
proof -
  define hi where "hi = (of_nat (n div 2 ^ 32) AND 0xffffff) OR push_bit 24 (ucast func :: int32)"
  note w = perf_word [OF assms(1), of func, folded hi_def] and g = assms(4) [folded hi_def] assms(5)
  have "header_lengths big CMP swap bs = Some (sint (push_bit 32 (ucast hi) + ucast (of_nat n :: int32) :: 64 word), 0)"
    using g by (simp add: header_lengths_def kind_defs w(1))
  then show ?thesis
    using assms(2,3) by (simp add: read_header_def w(2,3) [simplified] of_nat_diff)
qed

lemma perf_roundtrip:
  assumes "perf_vectors big' func n buf = Some vec" "n < 2 ^ 31"
  shows "whole_message big (concat (stamp big' vec)) \<and>
    CMact_on_data big (concat (stamp big' vec)) =
      Some (Performance (int (n - 12)) (unat func) (big \<noteq> big') (take (n - 12) buf))"
proof -
  define hi where "hi = (of_nat (n div 2 ^ 32) AND 0xffffff) OR push_bit 24 (ucast func :: int32)"
  let ?ws = "[hi, of_nat n]" and ?d = "take (n - 12) buf"
  let ?b = "ints big' ?ws @ concat [?d]"
  from assms(1) have n: "12 \<le> n" "length ?d = n - 12" and vec: "vec = ints big' (0x434d5000 # ?ws) # [?d]"
    by (auto simp: perf_vectors_def hi_def split: if_splits)
  obtain c where c: "concat (stamp big' (ints big' (0x434d5000 # ?ws) # [?d])) = magic big' 0x434d5000 c @ ?b \<and>
      (c \<noteq> 0 \<longrightarrow> c = byte_sum ?b)"
    using stamped_vectors [of big' "0x434d5000" ?ws "[?d]"] by (rule exE)
  note h = perf_header [where func = func, OF assms(2) n(1) sent_checksum_magic, unfolded other_order,
      folded hi_def, OF get_header_ints(1,2) [OF length_magic]]
  have "whole_message big (magic big' 0x434d5000 c @ ?b)"
    by (rule act_on_message(1) [OF magic_kinds(4) h]) (use n assms(2) in \<open>simp_all add: kind_defs\<close>)
  moreover have "CMact_on_data big (magic big' 0x434d5000 c @ ?b) =
      Some (Performance (int (n - 12)) (unat func) (big \<noteq> big') ?d)"
    by (subst act_on_message(2) [OF magic_kinds(4) h])
      (use n assms(2) c in \<open>auto simp: kind_defs accept_message_def\<close>)
  ultimately show ?thesis unfolding vec conjunct1 [OF c] by simp
qed

lemma handshake_roundtrip:
  "whole_message big (handshake_bytes big' known server manager) \<and>
    CMact_on_data big (handshake_bytes big' known server manager) =
      Some (Handshake 1 (if server = 0 then - 1 else server) (if known then manager OR 0x80000000 else manager))"
proof -
  define s where "s = (if server = 0 then - 1 else server)"
  define g where "g = (if known then manager OR 0x80000000 else manager)"
  let ?m = "magic big' 0x434d4800 0" and ?ws = "[0x01000014, s, g, 0]"
  have b: "handshake_bytes big' known server manager = ?m @ ints big' ?ws @ []"
    by (simp add: handshake_bytes_def s_def g_def ints_def magic_def int_bytes_def push_bit_eq_mult)
  have i: "get_int big' (?m @ ints big' ?ws @ []) 4 = Some 0x01000014"
      "get_int big' (?m @ ints big' ?ws @ []) 8 = Some s" "get_int big' (?m @ ints big' ?ws @ []) 12 = Some g"
    by (rule get_header_ints [OF length_magic])+
  let ?h = "\<lparr>h_kind = CMH, h_swap = (big \<noteq> big'), h_checksum = 0, data_length = 12, attr_length = 0,
    performance_func = 0, handshake_version = 1, h_stone = 0\<rparr>"
  have h: "read_header big CMH (big \<noteq> big') (?m @ ints big' ?ws @ []) = Some ?h"
    unfolding read_header_def header_lengths_def other_order Let_def sent_checksum_magic
    using i by (simp add: kind_defs)
  have "CMact_on_data big (?m @ ints big' ?ws @ []) = accept_message big ?h (?m @ ints big' ?ws @ [])"
    by (rule act_on_message [OF magic_kinds(6) h]) (simp_all add: kind_defs)
  also have "\<dots> = Some (Handshake 1 s g)"
    unfolding accept_message_def Let_def other_order header.simps using i by (simp add: kind_defs)
  finally have "CMact_on_data big (?m @ ints big' ?ws @ []) = Some (Handshake 1 s g)" .
  moreover have "whole_message big (?m @ ints big' ?ws @ [])"
    by (rule act_on_message [OF magic_kinds(6) h]) (simp_all add: kind_defs)
  ultimately show ?thesis unfolding b s_def g_def by blast
qed

end
