(* ===== verification/CM_Buffer.thy ===== *)
theory CM_Buffer
  imports Ev_Types
begin

text \<open>
  The data buffers of the connection manager (cm.c): a list of buffers with reference counts,
  reused when nobody refers to them. Buffers live in a heap, as the transports keep pointers to
  buffers too; what the memory holds is not modelled. The allocator is a parameter.
\<close>

record CMbuffer =
  cb_buffer :: addr
  cb_size :: nat
  cb_ref_count :: int
  return_callback :: "addr ptr"
  return_callback_data :: "addr ptr"

record buffers =
  buf_heap :: "addr \<Rightarrow> CMbuffer ptr"
  cm_buffer_list :: "addr list"
  next_buf :: addr
  callbacks :: "(addr \<times> addr ptr) list"     \<comment> \<open>return callbacks made, newest first\<close>

record mem_env =
  CMmalloc :: "nat \<Rightarrow> buffers \<Rightarrow> addr"
  CMrealloc :: "addr \<Rightarrow> nat \<Rightarrow> buffers \<Rightarrow> addr ptr"   \<comment> \<open>None: NULL\<close>

definition put_buf :: "addr \<Rightarrow> CMbuffer \<Rightarrow> buffers \<Rightarrow> buffers" where
  "put_buf i b s = s\<lparr>buf_heap := (buf_heap s)(i := Some b)\<rparr>"

section \<open>Creating buffers\<close>

definition cm_create_transport_buffer :: "addr \<Rightarrow> nat \<Rightarrow> buffers \<Rightarrow> addr \<times> buffers" where
  \<comment> \<open>not in the list\<close>
  "cm_create_transport_buffer buffer len s =
    (let i = next_buf s;
         b = \<lparr>cb_buffer = buffer, cb_size = len, cb_ref_count = 1, return_callback = None,
              return_callback_data = None\<rparr>
     in (i, (put_buf i b s)\<lparr>next_buf := i + 1\<rparr>))"

definition link_buffer :: "addr \<Rightarrow> buffers \<Rightarrow> buffers" where
  "link_buffer i s = s\<lparr>cm_buffer_list := i # cm_buffer_list s\<rparr>"

definition cm_create_transport_and_link_buffer :: "addr \<Rightarrow> nat \<Rightarrow> buffers \<Rightarrow> addr \<times> buffers" where
  "cm_create_transport_and_link_buffer buffer len s =
    (let (i, s) = cm_create_transport_buffer buffer len s in (i, link_buffer i s))"

section \<open>Finding a free buffer\<close>

fun scan_bufs :: "(CMbuffer \<Rightarrow> bool) \<Rightarrow> addr list \<Rightarrow> buffers \<Rightarrow> addr ptr option" where
  \<comment> \<open>the first buffer of the list that satisfies a test\<close>
  "scan_bufs p [] s = Some None"
| "scan_bufs p (i # is) s =
    do { b \<leftarrow> buf_heap s i; if p b then Some (Some i) else scan_bufs p is s }"

definition free_buf :: "CMbuffer \<Rightarrow> bool" where
  "free_buf b \<longleftrightarrow> cb_ref_count b \<le> 0"

definition resize_buf :: "mem_env \<Rightarrow> addr \<Rightarrow> nat \<Rightarrow> buffers \<Rightarrow> (addr ptr \<times> buffers) option" where
  \<comment> \<open>INT_CMrealloc to exactly the length asked for, and take the buffer\<close>
  "resize_buf me i len s =
    do {
      b \<leftarrow> buf_heap s i;
      Some (case CMrealloc me (cb_buffer b) len s of
              None \<Rightarrow> (None, s)
            | Some t \<Rightarrow>
                (Some i, put_buf i (b\<lparr>cb_buffer := t, cb_size := len, cb_ref_count := 1\<rparr>) s))
    }"

definition cm_get_data_buf :: "mem_env \<Rightarrow> nat \<Rightarrow> buffers \<Rightarrow> (addr ptr \<times> buffers) option" where
  \<comment> \<open>big enough but not too big; way too big, cut down; too small, extended; a new one\<close>
  "cm_get_data_buf me len s =
    do {
      fit \<leftarrow> scan_bufs (\<lambda>b. free_buf b \<and> len \<le> cb_size b \<and> cb_size b div 10 < len) (cm_buffer_list s) s;
      case fit of
        Some i \<Rightarrow> do {
          b \<leftarrow> buf_heap s i;
          Some (Some i, put_buf i (b\<lparr>cb_ref_count := 1\<rparr>) s) }
      | None \<Rightarrow> do {
          large \<leftarrow> scan_bufs (\<lambda>b. free_buf b \<and> len \<le> cb_size b) (cm_buffer_list s) s;
          case large of
            Some i \<Rightarrow> resize_buf me i len s
          | None \<Rightarrow> do {
              small \<leftarrow> scan_bufs (\<lambda>b. free_buf b \<and> cb_size b \<le> len) (cm_buffer_list s) s;
              case small of
                Some i \<Rightarrow> resize_buf me i len s
              | None \<Rightarrow>
                  (let (i, s) = cm_create_transport_buffer (CMmalloc me len s) len s
                   in Some (Some i, link_buffer i s)) } } }"

definition cm_extend_data_buf :: "mem_env \<Rightarrow> addr \<Rightarrow> nat \<Rightarrow> buffers \<Rightarrow> (addr ptr \<times> buffers) option" where
  "cm_extend_data_buf me i len s =
    do {
      b \<leftarrow> buf_heap s i;
      Some (if cb_size b < len
            then case CMrealloc me (cb_buffer b) len s of
                   None \<Rightarrow> (None, s)
                 | Some t \<Rightarrow> (Some i, put_buf i (b\<lparr>cb_buffer := t, cb_size := len\<rparr>) s)
            else (Some i, s))
    }"

section \<open>Giving a buffer back\<close>

definition cm_return_data_buf :: "addr \<Rightarrow> buffers \<Rightarrow> buffers option" where
  \<comment> \<open>only a buffer of the list that a transport gave away is unlinked, returned to it and freed\<close>
  "cm_return_data_buf i s =
    do {
      b \<leftarrow> buf_heap s i;
      let b = b\<lparr>cb_ref_count := cb_ref_count b - 1\<rparr>;
      let s = put_buf i b s;
      Some (case return_callback b of
              None \<Rightarrow> s
            | Some f \<Rightarrow>
                if cb_ref_count b = 0 \<and> i \<in> set (cm_buffer_list s)
                then s\<lparr>cm_buffer_list := remove1 i (cm_buffer_list s),
                       callbacks := (f, return_callback_data b) # callbacks s,
                       buf_heap := (buf_heap s)(i := None)\<rparr>
                else s)
    }"

definition holds_addr :: "addr \<Rightarrow> CMbuffer \<Rightarrow> bool" where
  "holds_addr a b \<longleftrightarrow> cb_buffer b \<le> a \<and> a < cb_buffer b + cb_size b"

definition cm_buffer_lookup :: "addr \<Rightarrow> buffers \<Rightarrow> addr ptr option" where
  "cm_buffer_lookup a s = scan_bufs (holds_addr a) (cm_buffer_list s) s"

definition INT_CMtake_buffer :: "addr \<Rightarrow> buffers \<Rightarrow> (addr ptr \<times> buffers) option" where
  "INT_CMtake_buffer data s =
    do {
      r \<leftarrow> cm_buffer_lookup data s;
      case r of
        None \<Rightarrow> Some (None, s)
      | Some i \<Rightarrow> do {
          b \<leftarrow> buf_heap s i;
          Some (Some data, put_buf i (b\<lparr>cb_ref_count := cb_ref_count b + 1\<rparr>) s) }
    }"

definition INT_CMreturn_buffer :: "addr \<Rightarrow> buffers \<Rightarrow> buffers option" where
  "INT_CMreturn_buffer data s =
    do {
      r \<leftarrow> cm_buffer_lookup data s;
      case r of None \<Rightarrow> Some s | Some i \<Rightarrow> cm_return_data_buf i s
    }"

definition fill_cmbuffer :: "mem_env \<Rightarrow> nat \<Rightarrow> buffers \<Rightarrow> (addr \<times> buffers) option" where
  \<comment> \<open>the result of cm_get_data_buf is written to without a test\<close>
  "fill_cmbuffer me len s =
    do { (r, s) \<leftarrow> cm_get_data_buf me len s; i \<leftarrow> r; Some (i, s) }"

section \<open>Facts\<close>

definition bufs_ok :: "buffers \<Rightarrow> bool" where
  "bufs_ok s \<longleftrightarrow> distinct (cm_buffer_list s) \<and> (\<forall>i \<in> set (cm_buffer_list s). buf_heap s i \<noteq> None) \<and>
     (\<forall>i. next_buf s \<le> i \<longrightarrow> buf_heap s i = None)"

lemma scan_bufs_total:
  "\<forall>i \<in> set is. buf_heap s i \<noteq> None \<Longrightarrow>
    scan_bufs p is s = Some (find (\<lambda>i. p (the (buf_heap s i))) is)"
  by (induction "is") auto

lemma scan_ok: "bufs_ok s \<Longrightarrow>
    scan_bufs p (cm_buffer_list s) s = Some (find (\<lambda>i. p (the (buf_heap s i))) (cm_buffer_list s))"
  by (simp add: scan_bufs_total bufs_ok_def)

lemma find_in: "find q xs = Some x \<Longrightarrow> x \<in> set xs \<and> q x"
  by (induction xs) (auto split: if_splits)

text \<open>A buffer handed out: it was free or is new, it is big enough, and it is the only one changed.\<close>

definition handed_out :: "nat \<Rightarrow> addr \<Rightarrow> buffers \<Rightarrow> buffers \<Rightarrow> bool" where
  "handed_out len i s s' \<longleftrightarrow>
    i \<in> set (cm_buffer_list s') \<and>
    (\<exists>b. buf_heap s' i = Some b \<and> cb_ref_count b = 1 \<and> len \<le> cb_size b) \<and>
    (\<forall>b. buf_heap s i = Some b \<longrightarrow> cb_ref_count b \<le> 0) \<and>
    (\<forall>j. j \<noteq> i \<longrightarrow> buf_heap s' j = buf_heap s j) \<and> callbacks s' = callbacks s"

lemma put_buf_ok:
  "bufs_ok s \<Longrightarrow> i \<in> set (cm_buffer_list s) \<Longrightarrow> bufs_ok (put_buf i b s)"
  by (force simp: bufs_ok_def put_buf_def)

lemma take_listed:
  assumes "bufs_ok s" "find (\<lambda>i. free_buf (the (buf_heap s i)) \<and> q (the (buf_heap s i))) (cm_buffer_list s) = Some i"
  shows "\<exists>b. buf_heap s i = Some b \<and> free_buf b \<and> q b \<and> i \<in> set (cm_buffer_list s)"
  using find_in [OF assms(2)] assms(1) by (auto simp: bufs_ok_def)

lemma handed_put:
  assumes "i \<in> set (cm_buffer_list s)" "buf_heap s i = Some b" "free_buf b"
    and "cb_ref_count b' = 1" "len \<le> cb_size b'"
  shows "handed_out len i s (put_buf i b' s)"
  using assms by (simp add: handed_out_def put_buf_def free_buf_def)

lemma resize_handed:
  assumes "bufs_ok s" "buf_heap s i = Some b" "free_buf b" "i \<in> set (cm_buffer_list s)"
    and "CMrealloc me (cb_buffer b) len s \<noteq> None"
  shows "\<exists>s'. resize_buf me i len s = Some (Some i, s') \<and> handed_out len i s s' \<and> bufs_ok s'"
  using assms handed_put [OF assms(4,2,3)] put_buf_ok [OF assms(1,4)]
  by (auto simp: resize_buf_def)

lemma new_handed:
  assumes "bufs_ok s" "cm_create_transport_buffer a len s = (i, s')"
  shows "handed_out len i s (link_buffer i s') \<and> bufs_ok (link_buffer i s')"
proof -
  have "i \<notin> set (cm_buffer_list s)" "buf_heap s i = None"
    using assms by (auto simp: cm_create_transport_buffer_def bufs_ok_def Let_def)
  then show ?thesis
    using assms
    by (auto simp: cm_create_transport_buffer_def link_buffer_def put_buf_def bufs_ok_def
        handed_out_def Let_def)
qed

lemma get_data_buf_ok:
  assumes ok: "bufs_ok s" and mem: "\<And>a n s. CMrealloc me a n s \<noteq> None"
  shows "\<exists>i s'. cm_get_data_buf me len s = Some (Some i, s') \<and> handed_out len i s s' \<and> bufs_ok s'"
proof -
  let ?find = "\<lambda>q. find (\<lambda>i. free_buf (the (buf_heap s i)) \<and> q (the (buf_heap s i))) (cm_buffer_list s)"
  let ?fit = "?find (\<lambda>b. len \<le> cb_size b \<and> cb_size b div 10 < len)"
  let ?large = "?find (\<lambda>b. len \<le> cb_size b)" and ?small = "?find (\<lambda>b. cb_size b \<le> len)"
  show ?thesis
  proof (cases ?fit)
    case (Some i)
    obtain b where b: "buf_heap s i = Some b" "free_buf b" "len \<le> cb_size b" "i \<in> set (cm_buffer_list s)"
      using take_listed [OF ok Some] by auto
    then show ?thesis
      using Some handed_put [OF b(4,1,2), of "b\<lparr>cb_ref_count := 1\<rparr>" len] put_buf_ok [OF ok b(4)]
      by (auto simp: cm_get_data_buf_def scan_ok [OF ok])
  next
    case fit: None
    show ?thesis
    proof (cases ?large)
      case (Some i)
      obtain b where b: "buf_heap s i = Some b" "free_buf b" "i \<in> set (cm_buffer_list s)"
        using take_listed [OF ok Some] by auto
      from resize_handed [OF ok b mem] obtain s'
        where "resize_buf me i len s = Some (Some i, s')" "handed_out len i s s'" "bufs_ok s'"
        by blast
      then show ?thesis
        using fit Some by (auto simp: cm_get_data_buf_def scan_ok [OF ok])
    next
      case large: None
      show ?thesis
      proof (cases ?small)
        case (Some i)
        obtain b where b: "buf_heap s i = Some b" "free_buf b" "i \<in> set (cm_buffer_list s)"
          using take_listed [OF ok Some] by auto
        from resize_handed [OF ok b mem] obtain s'
        where "resize_buf me i len s = Some (Some i, s')" "handed_out len i s s'" "bufs_ok s'"
        by blast
      then show ?thesis
          using fit large Some by (auto simp: cm_get_data_buf_def scan_ok [OF ok])
      next
        case None
        then show ?thesis
          using fit large new_handed [OF ok prod.collapse [symmetric], of len "CMmalloc me len s"]
          by (auto simp: cm_get_data_buf_def scan_ok [OF ok] case_prod_beta)
      qed
    qed
  qed
qed

lemma scan_bufs_cong:
  "(\<And>i. i \<in> set is \<Longrightarrow> map_option p (buf_heap s' i) = map_option p (buf_heap s i)) \<Longrightarrow>
    scan_bufs p is s' = scan_bufs p is s"
proof (induction "is")
  case Nil
  then show ?case by simp
next
  case (Cons i "is")
  have "map_option p (buf_heap s' i) = map_option p (buf_heap s i)" using Cons.prems by simp
  moreover have "scan_bufs p is s' = scan_bufs p is s" using Cons by simp
  ultimately show ?case by (cases "buf_heap s' i"; cases "buf_heap s i") auto
qed

lemma take_return_ok:
  assumes "cm_buffer_lookup data s = Some (Some i)" "buf_heap s i = Some b" "0 < cb_ref_count b"
  shows "\<exists>s'. INT_CMtake_buffer data s = Some (Some data, s') \<and>
    buf_heap s' i = Some (b\<lparr>cb_ref_count := cb_ref_count b + 1\<rparr>) \<and> INT_CMreturn_buffer data s' = Some s"
proof -
  let ?s' = "put_buf i (b\<lparr>cb_ref_count := cb_ref_count b + 1\<rparr>) s"
  have "cm_buffer_lookup data ?s' = cm_buffer_lookup data s"
    using assms(2) unfolding cm_buffer_lookup_def
    by (auto simp: put_buf_def holds_addr_def intro!: scan_bufs_cong)
  moreover have "cm_return_data_buf i ?s' = Some s"
    using assms(2,3)
    by (auto simp: cm_return_data_buf_def put_buf_def Let_def fun_upd_idem split: option.splits)
  ultimately show ?thesis
    using assms by (simp add: INT_CMtake_buffer_def INT_CMreturn_buffer_def) (simp add: put_buf_def)
qed

end
