(* ===== verification/CM_Read.thy ===== *)
theory CM_Read
  imports CM_Wire CM_Buffer
begin

text \<open>
  Reading from a connection (CMDataAvailable of cm.c): the bytes of the stream are collected in the
  connection's header buffer or, when a message needs more room, in a data buffer, until
  CMact_on_data has a whole message; what is unfinished when the transport has no more is kept for
  the next call. The transport is a parameter, as are the receivers of the messages. Only the
  bytes read so far of the buffer in use are kept. The read hooks are NULL; locks are not modelled.
\<close>

record 't reader =
  source :: 't                               \<comment> \<open>transport_data\<close>
  message_buffer :: "addr ptr"
  buffer_full_point :: nat
  read_bytes :: "byte list"                  \<comment> \<open>the first buffer_data_end bytes of the buffer in use\<close>
  conn_failed :: bool
  conn_closed :: bool
  abort_read_ahead :: bool
  rd_bufs :: buffers
  delivered :: "message list"                \<comment> \<open>messages given to their receivers, oldest first\<close>

record 't read_env =
  host_big :: bool
  rd_mem :: mem_env
  read_to_buffer :: "nat \<Rightarrow> bool \<Rightarrow> 't \<Rightarrow> (byte list option \<times> 't) option"
  use_blocking_reads :: bool
  use_read_thread :: bool
  read_ahead_msg_limit :: nat
  read_ahead_byte_limit :: nat
  receive :: "message \<Rightarrow> addr ptr \<Rightarrow> buffers \<Rightarrow> buffers \<times> bool"
    \<comment> \<open>what a receiver does to the buffers, and whether it sets abort_read_ahead\<close>
  non_cm :: "int32 \<Rightarrow> byte list \<Rightarrow> nat option"
    \<comment> \<open>CM_pbio_query: bytes it still needs, or the handlers of other protocols: None is failure\<close>

definition HEADER_BUFFER_SIZE :: nat where
  "HEADER_BUFFER_SIZE = 20"

definition fail_connection :: "'t reader \<Rightarrow> 't reader" where
  "fail_connection st = st\<lparr>conn_failed := True, conn_closed := True\<rparr>"

definition place_data ::
  "'t read_env \<Rightarrow> addr ptr \<Rightarrow> nat \<Rightarrow> 't reader \<Rightarrow> (addr ptr \<times> 't reader) option" where
  \<comment> \<open>the buffer to read into. The result of cm_extend_data_buf is ignored: a buffer that has stayed
    too small is overrun, which is None\<close>
  "place_data env mb full st =
    (if full < HEADER_BUFFER_SIZE then Some (mb, st)
     else do {
       (r, s) \<leftarrow> (case mb of None \<Rightarrow> cm_get_data_buf (rd_mem env) full (rd_bufs st)
                   | Some i \<Rightarrow> cm_extend_data_buf (rd_mem env) i full (rd_bufs st));
       i \<leftarrow> (case mb of None \<Rightarrow> r | Some i \<Rightarrow> Some i);
       b \<leftarrow> buf_heap s i;
       if cb_size b < full then None else Some (Some i, st\<lparr>rd_bufs := s\<rparr>) })"

definition hand_over ::
  "'t read_env \<Rightarrow> message \<Rightarrow> addr ptr \<Rightarrow> nat \<Rightarrow> 't reader \<Rightarrow> 't reader option" where
  \<comment> \<open>an event in the header buffer is copied to a data buffer for the time of its submission\<close>
  "hand_over env msg mb len st =
    (let s = rd_bufs st
     in do {
       (s, abort) \<leftarrow> (case (msg, mb) of
           (Event _ _ _, None) \<Rightarrow> do {
             (i, s) \<leftarrow> fill_cmbuffer (rd_mem env) len s;
             let (s, abort) = receive env msg (Some i) s;
             s \<leftarrow> cm_return_data_buf i s;
             Some (s, abort) }
         | _ \<Rightarrow> Some (receive env msg mb s));
       Some (st\<lparr>rd_bufs := s, abort_read_ahead := abort_read_ahead st \<or> abort,
                delivered := delivered st @ [msg]\<rparr>) })"

definition act_on :: "'t read_env \<Rightarrow> addr ptr \<Rightarrow> byte list \<Rightarrow> 't reader \<Rightarrow> (nat \<times> 't reader) option" where
  \<comment> \<open>CMact_on_data with its effects; the first component is the number of bytes still needed\<close>
  "act_on env mb bs st =
    do {
      msg \<leftarrow> CMact_on_data (host_big env) bs;
      case msg of
        Need_more n \<Rightarrow> Some (n, st)
      | Non_cm first \<Rightarrow>
          Some (case non_cm env first bs of
                  Some n \<Rightarrow> (n, st)
                | None \<Rightarrow> (0, if conn_closed st then st else fail_connection st))
      | _ \<Rightarrow> do { st \<leftarrow> hand_over env msg mb (length bs) st; Some (0, st) }
    }"

definition drop_buffer :: "addr ptr \<Rightarrow> 't reader \<Rightarrow> 't reader option" where
  "drop_buffer mb st =
    (case mb of None \<Rightarrow> Some st
     | Some i \<Rightarrow> do { s \<leftarrow> cm_return_data_buf i (rd_bufs st); Some (st\<lparr>rd_bufs := s\<rparr>) })"

record read_call =          \<comment> \<open>the local variables of a call\<close>
  local_buffer :: "addr ptr"             \<comment> \<open>message_buffer\<close>
  full_point :: nat
  local_bytes :: "byte list"             \<comment> \<open>buffer_data_end of them\<close>
  first_four :: bool
  read_msg_count :: nat
  read_byte_count :: nat

definition fresh_call :: read_call where
  "fresh_call = \<lparr>local_buffer = None, full_point = 0, local_bytes = [], first_four = False,
    read_msg_count = 0, read_byte_count = 0\<rparr>"

definition start_read :: "read_call \<Rightarrow> read_call" where
  "start_read c = (if full_point c = 0 then c\<lparr>full_point := 4, local_bytes := [], first_four := True\<rparr> else c)"

definition message_done ::
  "'t read_env \<Rightarrow> read_call \<Rightarrow> 't reader \<Rightarrow> (read_call option \<times> 't reader) option" where
  \<comment> \<open>a message is complete: its buffer goes back, and another one is tried\<close>
  "message_done env c st =
    do {
      st \<leftarrow> drop_buffer (local_buffer c) st;
      let msgs = read_msg_count c + 1;
      let total = read_byte_count c + length (local_bytes c);
      Some (if abort_read_ahead st then (None, st\<lparr>abort_read_ahead := False\<rparr>)
            else if msgs > read_ahead_msg_limit env \<or> total > read_ahead_byte_limit env
            then (None, st)
            else (Some (c\<lparr>local_buffer := None, full_point := 0, local_bytes := [],
                          read_msg_count := msgs, read_byte_count := total\<rparr>), st)) }"

definition read_step ::
  "'t read_env \<Rightarrow> read_call \<Rightarrow> 't reader \<Rightarrow> (read_call option \<times> 't reader) option" where
  \<comment> \<open>from start_read to the next goto (Some) or return (None)\<close>
  "read_step env c st =
    (if conn_failed st then Some (None, st)
     else do {
       let c = start_read c;
       (mb, st) \<leftarrow> place_data env (local_buffer c) (full_point c) st;
       let c = c\<lparr>local_buffer := mb\<rparr>;
       let non_blocking = (first_four c \<or> \<not> use_blocking_reads env) \<and> \<not> use_read_thread env;
       (r, t) \<leftarrow> read_to_buffer env (full_point c - length (local_bytes c)) non_blocking (source st);
       let st = st\<lparr>source := t\<rparr>;
       case r of
         None \<Rightarrow> Some (None, fail_connection st)
       | Some new \<Rightarrow>
           (let c = c\<lparr>local_bytes := local_bytes c @ new\<rparr>
            in if length (local_bytes c) < full_point c
               then Some (None, st\<lparr>message_buffer := local_buffer c, buffer_full_point := full_point c,
                                  read_bytes := local_bytes c\<rparr>)
               else do {
                 (need, st) \<leftarrow> act_on env (local_buffer c) (local_bytes c) st;
                 if need \<noteq> 0 then Some (Some (c\<lparr>full_point := full_point c + need\<rparr>), st)
                 else message_done env c st }) })"

partial_function (option) read_loop :: "'t read_env \<Rightarrow> read_call \<Rightarrow> 't reader \<Rightarrow> 't reader option" where
  "read_loop env c st =
    do {
      (next, st) \<leftarrow> read_step env c st;
      case next of None \<Rightarrow> Some st | Some c \<Rightarrow> read_loop env c st
    }"

definition CMDataAvailable :: "'t read_env \<Rightarrow> 't reader \<Rightarrow> 't reader option" where
  \<comment> \<open>a transport with read_to_buffer_func\<close>
  "CMDataAvailable env st =
    (if buffer_full_point st = 0 then read_loop env fresh_call st
     else read_loop env
       (fresh_call\<lparr>local_buffer := message_buffer st, full_point := buffer_full_point st,
                   local_bytes := read_bytes st\<rparr>)
       (st\<lparr>message_buffer := None, buffer_full_point := 0, read_bytes := []\<rparr>))"

end
