(* ===== verification/CM_Stream.thy ===== *)
theory CM_Stream
  imports CM_Read
begin

text \<open>
  What CMDataAvailable makes of a stream of messages: whatever pieces the transport delivers it in,
  the messages reach their receivers whole, once and in order; and a transport that gives what it
  has is read to the end. The transport is a locale, interpreted by the sockets.
\<close>

section \<open>The messages of a stream are delivered in order\<close>

locale byte_source =
  fixes read :: "nat \<Rightarrow> bool \<Rightarrow> 't \<Rightarrow> (byte list option \<times> 't) option"
    and pending :: "'t \<Rightarrow> byte list"    \<comment> \<open>the bytes the transport has still to give\<close>
  assumes read_takes: "read n nb t = Some (Some bs, t') \<Longrightarrow> pending t = bs @ pending t' \<and> length bs \<le> n"

definition sent_ok :: "bool \<Rightarrow> byte list \<Rightarrow> bool" where
  "sent_ok big m \<longleftrightarrow> whole_message big m \<and> CMact_on_data big m \<noteq> None"

definition at_stage :: "byte list \<Rightarrow> nat \<Rightarrow> byte list list \<Rightarrow> bool" where
  \<comment> \<open>how far the reader has come in the messages of the stream\<close>
  "at_stage bs full ms \<longleftrightarrow>
    full = 0 \<and> bs = [] \<or> full = 4 \<and> bs = [] \<or>
    (case ms of [] \<Rightarrow> False
     | m # _ \<Rightarrow> length bs < full \<and> full \<le> length m \<and> bs = take (length bs) m)"

definition stream_at :: "('t \<Rightarrow> byte list) \<Rightarrow> byte list list \<Rightarrow> byte list \<Rightarrow> nat \<Rightarrow> 't reader \<Rightarrow> bool" where
  "stream_at pending ms bs full st \<longleftrightarrow> at_stage bs full ms \<and> bs @ pending (source st) = concat ms"

definition reads_to ::
  "('t \<Rightarrow> byte list) \<Rightarrow> bool \<Rightarrow> byte list list \<Rightarrow> 't reader \<Rightarrow> 't reader \<Rightarrow> bool" where
  \<comment> \<open>some of the messages have been delivered, in order; unless the connection has failed, the
    reader is now at the next one\<close>
  "reads_to pending big ms st st' \<longleftrightarrow>
    (\<exists>k \<le> length ms.
      delivered st' = delivered st @ map (\<lambda>m. the (CMact_on_data big m)) (take k ms) \<and>
      (conn_failed st' \<or>
       stream_at pending (drop k ms) (read_bytes st') (buffer_full_point st') st'))"

lemma reads_none:
  "delivered st' = delivered st \<Longrightarrow>
    conn_failed st' \<or> stream_at pending ms (read_bytes st') (buffer_full_point st') st' \<Longrightarrow>
    reads_to pending big ms st st'"
  by (auto simp: reads_to_def intro!: exI [of _ 0])

lemma reads_first:
  assumes "delivered st1 = delivered st @ [the (CMact_on_data big m)]" "reads_to pending big ms st1 st'"
  shows "reads_to pending big (m # ms) st st'"
proof -
  obtain k where "k \<le> length ms" "delivered st' = delivered st1 @ map (\<lambda>m. the (CMact_on_data big m)) (take k ms)"
    "conn_failed st' \<or> stream_at pending (drop k ms) (read_bytes st') (buffer_full_point st') st'"
    using assms(2) by (auto simp: reads_to_def)
  then show ?thesis
    using assms(1) unfolding reads_to_def by (intro exI [of _ "Suc k"]) simp
qed

lemma whole_delivers:
  assumes "sent_ok big m"
  obtains msg where "CMact_on_data big m = Some msg" "\<And>n. msg \<noteq> Need_more n" "\<And>i. msg \<noteq> Non_cm i"
proof -
  obtain msg where a: "CMact_on_data big m = Some msg" using assms by (auto simp: sent_ok_def)
  moreover have "msg \<noteq> Need_more n" for n
    using whole_act [of big m n] assms a by (auto simp: sent_ok_def)
  moreover have "msg \<noteq> Non_cm i" for i
  proof
    assume "msg = Non_cm i"
    with assms a show False
      by (auto simp: sent_ok_def CMact_on_data_def accept_message_def Let_def
          split: if_splits option.splits bind_splits elim!: whole_messageE)
  qed
  ultimately show ?thesis by (rule that)
qed

lemma place_data_frame:
  assumes "place_data env mb full st = Some (mb', st1)"
  shows "source st1 = source st" "delivered st1 = delivered st" "buffer_full_point st1 = buffer_full_point st"
    "conn_failed st1 = conn_failed st" "read_bytes st1 = read_bytes st" "abort_read_ahead st1 = abort_read_ahead st"
  using assms by (auto simp: place_data_def split: if_splits option.splits bind_splits)

lemma act_on_whole:
  assumes "sent_ok (host_big env) m" "act_on env mb m st = Some (need, st1)"
  shows "need = 0" "source st1 = source st" "buffer_full_point st1 = buffer_full_point st"
    "conn_failed st1 = conn_failed st" "read_bytes st1 = read_bytes st"
    "delivered st1 = delivered st @ [the (CMact_on_data (host_big env) m)]"
proof -
  obtain msg where msg: "CMact_on_data (host_big env) m = Some msg" "\<And>n. msg \<noteq> Need_more n" "\<And>i. msg \<noteq> Non_cm i"
    using assms(1) by (rule whole_delivers) blast
  have "act_on env mb m st = do { st \<leftarrow> hand_over env msg mb (length m) st; Some (0, st) }"
    using msg by (cases msg) (auto simp: act_on_def)
  then have h: "hand_over env msg mb (length m) st = Some st1" "need = 0"
    using assms(2) by (auto split: bind_splits)
  then show "need = 0" "source st1 = source st" "buffer_full_point st1 = buffer_full_point st"
    "conn_failed st1 = conn_failed st" "read_bytes st1 = read_bytes st"
    "delivered st1 = delivered st @ [the (CMact_on_data (host_big env) m)]"
    using msg(1) by (auto simp: hand_over_def Let_def split: bind_splits)
qed

lemma act_on_part:
  assumes "sent_ok (host_big env) m" "n < length m" "act_on env mb (take n m) st = Some (need, st1)"
  shows "st1 = st \<and> 0 < need \<and> n + need \<le> length m"
  using part_of_message [of "host_big env" m n] assms by (auto simp: sent_ok_def act_on_def)

lemma drop_buffer_frame:
  assumes "drop_buffer mb st = Some st1"
  shows "source st1 = source st" "delivered st1 = delivered st" "buffer_full_point st1 = buffer_full_point st"
    "conn_failed st1 = conn_failed st" "read_bytes st1 = read_bytes st" "abort_read_ahead st1 = abort_read_ahead st"
  using assms by (auto simp: drop_buffer_def split: option.splits bind_splits)


lemma at_stage_first: "at_stage [] 4 ms"
  by (simp add: at_stage_def)

lemma stage_in_message:
  assumes "at_stage bs full (m # ms)" "full \<noteq> 0" "sent_ok big m"
  shows "length bs < full" "full \<le> length m" "bs = take (length bs) m"
  using assms header_len_not_zero [of big m] by (auto simp: at_stage_def sent_ok_def)

lemma stage_reads:
  assumes at: "at_stage bs full (m # ms)" "full \<noteq> 0" "sent_ok big m"
    and s: "bs @ new @ rest = concat (m # ms)" and l: "length new \<le> full - length bs"
  shows "bs @ new = take (length (bs @ new)) m" "length (bs @ new) \<le> full"
proof -
  note i = stage_in_message [OF at]
  from i l show "length (bs @ new) \<le> full" by simp
  then have "length (bs @ new) \<le> length m" using i by simp
  moreover have "bs @ new = take (length (bs @ new)) ((bs @ new) @ rest)" by simp
  ultimately show "bs @ new = take (length (bs @ new)) m"
    using s by (simp add: take_append)
qed

context byte_source
begin

definition ready :: "byte list list \<Rightarrow> read_call \<Rightarrow> 't reader \<Rightarrow> bool" where
  "ready ms c st \<longleftrightarrow> buffer_full_point st = 0 \<and> read_bytes st = [] \<and>
    stream_at pending ms (local_bytes c) (full_point c) st"

lemma step_delivers:
  assumes step: "read_step env c st = Some (next, st')" and rd: "read_to_buffer env = read"
    and ok: "\<forall>m \<in> set ms. sent_ok (host_big env) m" and at: "ready ms c st"
  shows "case next of None \<Rightarrow> reads_to pending (host_big env) ms st st'
    | Some c' \<Rightarrow> delivered st' = delivered st \<and> ready ms c' st' \<or>
        (\<exists>m ms'. ms = m # ms' \<and> delivered st' = delivered st @ [the (CMact_on_data (host_big env) m)] \<and>
          ready ms' c' st')"
proof (cases "conn_failed st")
  case True
  with step show ?thesis by (auto simp: read_step_def intro: reads_none)
next
  case False
  define c0 where "c0 = start_read c"
  have c0: "ready ms c0 st" "full_point c0 \<noteq> 0"
    using at by (auto simp: c0_def start_read_def ready_def stream_at_def at_stage_def split: list.splits)
  obtain mb st1 where place: "place_data env (local_buffer c0) (full_point c0) st = Some (mb, st1)"
    using step False by (auto simp: c0_def read_step_def Let_def split: bind_splits)
  define nb where "nb = ((first_four c0 \<or> \<not> use_blocking_reads env) \<and> \<not> use_read_thread env)"
  let ?want = "full_point c0 - length (local_bytes c0)"
  obtain r t where r: "read ?want nb (source st) = Some (r, t)"
    using step False place place_data_frame [OF place]
    by (auto simp: c0_def nb_def read_step_def Let_def rd split: bind_splits)
  let ?st = "st1\<lparr>source := t\<rparr>"
  have rest: "read_step env c st = (case r of
         None \<Rightarrow> Some (None, fail_connection ?st)
       | Some new \<Rightarrow>
           (let c = c0\<lparr>local_buffer := mb, local_bytes := local_bytes c0 @ new\<rparr>
            in if length (local_bytes c) < full_point c
               then Some (None, ?st\<lparr>message_buffer := local_buffer c, buffer_full_point := full_point c,
                                  read_bytes := local_bytes c\<rparr>)
               else do {
                 (need, st) \<leftarrow> act_on env (local_buffer c) (local_bytes c) ?st;
                 if need \<noteq> 0 then Some (Some (c\<lparr>full_point := full_point c + need\<rparr>), st)
                 else message_done env c st }))"
    using False place place_data_frame(1) [OF place] r
    by (simp add: read_step_def Let_def rd split: option.split flip: c0_def nb_def)
  note frame = place_data_frame [OF place]
  show ?thesis
  proof (cases r)
    case None
    then have "next = None" "st' = fail_connection ?st" using step rest by auto
    then show ?thesis by (auto simp: fail_connection_def frame intro: reads_none)
  next
    case (Some new)
    have p: "pending (source st) = new @ pending t" and l: "length new \<le> ?want"
      using read_takes r Some by blast+
    let ?bs = "local_bytes c0 @ new"
    show ?thesis
    proof (cases "length ?bs < full_point c0")
      case True
      then have "next = None" "st' = ?st\<lparr>message_buffer := mb, buffer_full_point := full_point c0,
                                  read_bytes := ?bs\<rparr>"
        using step rest Some by auto
      moreover have "stream_at pending ms ?bs (full_point c0) ?st"
      proof (cases ms)
        case Nil
        with c0 p show ?thesis by (auto simp: ready_def stream_at_def at_stage_def)
      next
        case (Cons m ms')
        then have at0: "at_stage (local_bytes c0) (full_point c0) (m # ms')"
          and s0: "local_bytes c0 @ new @ pending t = concat (m # ms')"
          and m: "sent_ok (host_big env) m"
          using c0(1) p ok by (auto simp: ready_def stream_at_def)
        from stage_reads(1) [OF at0 c0(2) m s0 l] stage_in_message(2) [OF at0 c0(2) m] True
        have "at_stage ?bs (full_point c0) ms" unfolding at_stage_def Cons list.case by blast
        with s0 Cons show ?thesis by (simp add: stream_at_def)
      qed
      ultimately show ?thesis using frame
        by (auto intro!: reads_none simp: stream_at_def)
    next
      case False
      let ?c = "c0\<lparr>local_buffer := mb, local_bytes := ?bs\<rparr>"
      obtain need st2 where act: "act_on env mb ?bs ?st = Some (need, st2)"
        using step rest Some False by (auto simp: Let_def split: bind_splits)
      have nxt: "if need \<noteq> 0 then next = Some (?c\<lparr>full_point := full_point c0 + need\<rparr>) \<and> st' = st2
          else message_done env ?c st2 = Some (next, st')"
        using step rest Some False act by (simp add: Let_def split: if_splits)
      have "ms \<noteq> []"
        using False c0 p by (auto simp: ready_def stream_at_def at_stage_def)
      then obtain m ms' where ms: "ms = m # ms'" by (cases ms) auto
      have m: "sent_ok (host_big env) m" using ok ms by simp
      have at0: "at_stage (local_bytes c0) (full_point c0) (m # ms')"
        and s0: "local_bytes c0 @ new @ pending t = concat (m # ms')"
        using c0(1) p ms by (auto simp: ready_def stream_at_def)
      note i = stage_in_message [OF at0 c0(2) m] and b = stage_reads [OF at0 c0(2) m s0 l]
      have len: "length ?bs = full_point c0" using False b(2) by simp
      have bm: "?bs = take (full_point c0) m" using b(1) len by argo
      show ?thesis
      proof (cases "full_point c0 < length m")
        case True
        have "st2 = ?st \<and> 0 < need \<and> full_point c0 + need \<le> length m"
          by (rule act_on_part [OF m True, of mb]) (use act bm in argo)
        moreover have "at_stage ?bs (full_point c0 + need) ms" if "0 < need" "full_point c0 + need \<le> length m"
          using that b(1) len unfolding at_stage_def ms list.case by linarith
        ultimately show ?thesis
          using nxt frame c0(1) s0 ms by (auto simp: ready_def stream_at_def)
      next
        case False
        then have "?bs = m" "pending t = concat ms'"
          using bm i(2) s0 by auto
        with act have a: "act_on env mb m ?st = Some (need, st2)" by simp
        note a = act_on_whole [OF m a]
        have "message_done env ?c st2 = Some (next, st')" using nxt a(1) by simp
        then obtain st3 where d: "drop_buffer mb st2 = Some st3"
          and fin: "next = None \<and> (st' = st3\<lparr>abort_read_ahead := False\<rparr> \<or> st' = st3) \<or>
            (\<exists>c'. next = Some c' \<and> full_point c' = 0 \<and> local_bytes c' = [] \<and> st' = st3)"
          by (auto simp: message_done_def Let_def split: bind_splits if_splits)
        note d = drop_buffer_frame [OF d]
        have "delivered st' = delivered st @ [the (CMact_on_data (host_big env) m)]"
            "source st' = t" "buffer_full_point st' = 0" "read_bytes st' = []"
          using fin d a frame c0(1) by (auto simp: ready_def)
        moreover have "reads_to pending (host_big env) ms st st'"
          unfolding ms by (rule reads_first [OF calculation(1) reads_none])
            (use calculation \<open>pending t = concat ms'\<close> in \<open>simp_all add: stream_at_def at_stage_def\<close>)
        ultimately show ?thesis
          using fin \<open>pending t = concat ms'\<close> ms
          by (auto simp: ready_def stream_at_def at_stage_def)
      qed
    qed
  qed
qed

lemma loop_delivers:
  assumes "read_loop env c st = Some st'"
  shows "\<forall>ms. read_to_buffer env = read \<longrightarrow> (\<forall>m \<in> set ms. sent_ok (host_big env) m) \<longrightarrow> ready ms c st \<longrightarrow>
    reads_to pending (host_big env) ms st st'"
proof (rule read_loop.raw_induct [where P = "\<lambda>env c st st'. \<forall>ms. read_to_buffer env = read \<longrightarrow>
    (\<forall>m \<in> set ms. sent_ok (host_big env) m) \<longrightarrow> ready ms c st \<longrightarrow>
    reads_to pending (host_big env) ms st st'", OF _ assms], goal_cases)
  case (1 loop env c st st')
  note IH = 1(1)
  from 1(2) obtain nxt st1 where s: "read_step env c st = Some (nxt, st1)"
    and l: "case nxt of None \<Rightarrow> st' = st1 | Some c \<Rightarrow> loop env c st1 = Some st'"
    by (auto split: bind_splits option.splits)
  show ?case
  proof (intro allI impI)
    fix ms
    assume rd: "read_to_buffer env = read" and ok: "\<forall>m \<in> set ms. sent_ok (host_big env) m" and at: "ready ms c st"
    note d = step_delivers [OF s rd ok at]
    show "reads_to pending (host_big env) ms st st'"
    proof (cases nxt)
      case None
      with d l show ?thesis by simp
    next
      case (Some c')
      then have l': "loop env c' st1 = Some st'" using l by simp
      from d Some consider "delivered st1 = delivered st" "ready ms c' st1"
        | m ms' where "ms = m # ms'" "delivered st1 = delivered st @ [the (CMact_on_data (host_big env) m)]"
            "ready ms' c' st1"
        by auto
      then show ?thesis
      proof cases
        case 1
        with IH [OF l'] rd ok show ?thesis by (auto simp: reads_to_def)
      next
        case 2
        with IH [OF l'] rd ok show ?thesis by (auto intro: reads_first)
      qed
    qed
  qed
qed
lemma data_available_delivers:
  assumes "CMDataAvailable env st = Some st'" "read_to_buffer env = read"
    and "\<forall>m \<in> set ms. sent_ok (host_big env) m"
    and at: "stream_at pending ms (read_bytes st) (buffer_full_point st) st"
  shows "reads_to pending (host_big env) ms st st'"
proof (cases "buffer_full_point st = 0")
  case True
  then have "ready ms fresh_call st"
    using at by (auto simp: ready_def fresh_call_def stream_at_def at_stage_def split: list.splits)
  then show ?thesis
    using assms loop_delivers [of env fresh_call st st'] True by (auto simp: CMDataAvailable_def)
next
  case False
  let ?c = "fresh_call\<lparr>local_buffer := message_buffer st, full_point := buffer_full_point st,
                   local_bytes := read_bytes st\<rparr>"
  let ?st = "st\<lparr>message_buffer := None, buffer_full_point := 0, read_bytes := []\<rparr>"
  have "ready ms ?c ?st" using at by (simp add: ready_def stream_at_def)
  then have "reads_to pending (host_big env) ms ?st st'"
    using assms loop_delivers [of env ?c ?st st'] False by (simp add: CMDataAvailable_def)
  then show ?thesis by (simp add: reads_to_def)
qed

lemma reads_to_trans:
  assumes "reads_to pending big ms st st1" "\<not> conn_failed st1"
    and "\<And>ms'. stream_at pending ms' (read_bytes st1) (buffer_full_point st1) st1 \<Longrightarrow> set ms' \<subseteq> set ms \<Longrightarrow>
      reads_to pending big ms' st1 st2"
  shows "reads_to pending big ms st st2"
proof -
  obtain k where k: "k \<le> length ms" "delivered st1 = delivered st @ map (\<lambda>m. the (CMact_on_data big m)) (take k ms)"
      "stream_at pending (drop k ms) (read_bytes st1) (buffer_full_point st1) st1"
    using assms(1,2) by (auto simp: reads_to_def)
  then have "reads_to pending big (drop k ms) st1 st2"
    by (intro assms(3)) (auto dest: in_set_dropD)
  then obtain j where "j \<le> length ms - k"
      "delivered st2 = delivered st1 @ map (\<lambda>m. the (CMact_on_data big m)) (take j (drop k ms))"
      "conn_failed st2 \<or> stream_at pending (drop j (drop k ms)) (read_bytes st2) (buffer_full_point st2) st2"
    by (auto simp: reads_to_def)
  then show ?thesis
    using k unfolding reads_to_def by (intro exI [of _ "k + j"]) (auto simp: take_add add.commute [of j k])
qed

end

fun data_available_calls :: "'t read_env \<Rightarrow> nat \<Rightarrow> 't reader \<Rightarrow> 't reader option" where
  \<comment> \<open>the network loop has seen data on the connection a number of times\<close>
  "data_available_calls env 0 st = Some st"
| "data_available_calls env (Suc n) st =
    do { st \<leftarrow> CMDataAvailable env st; data_available_calls env n st }"

lemma failed_stays: "conn_failed st \<Longrightarrow> CMDataAvailable env st = Some st' \<Longrightarrow>
    conn_failed st' \<and> delivered st' = delivered st"
  by (auto simp: CMDataAvailable_def read_loop.simps read_step_def split: if_splits)

lemma failed_calls: "conn_failed st \<Longrightarrow> data_available_calls env n st = Some st' \<Longrightarrow>
    conn_failed st' \<and> delivered st' = delivered st"
proof (induction n arbitrary: st)
  case (Suc n)
  then obtain st1 where "CMDataAvailable env st = Some st1" "data_available_calls env n st1 = Some st'"
    by (auto split: bind_splits)
  with Suc.IH [of st1] failed_stays [OF Suc.prems(1)] show ?case by simp
qed simp

context byte_source
begin

lemma calls_deliver:
  assumes "data_available_calls env n st = Some st'" "read_to_buffer env = read"
    and "\<forall>m \<in> set ms. sent_ok (host_big env) m"
    and "stream_at pending ms (read_bytes st) (buffer_full_point st) st"
  shows "reads_to pending (host_big env) ms st st'"
  using assms
proof (induction n arbitrary: st ms)
  case 0
  then show ?case by (auto intro: reads_none)
next
  case (Suc n)
  from Suc.prems(1) obtain st1 where st1: "CMDataAvailable env st = Some st1"
    and n: "data_available_calls env n st1 = Some st'"
    by (auto split: bind_splits)
  note d = data_available_delivers [OF st1 Suc.prems(2-4)]
  show ?case
  proof (cases "conn_failed st1")
    case True
    with d failed_calls [OF True n] show ?thesis by (auto simp: reads_to_def)
  next
    case False
    show ?thesis
      by (rule reads_to_trans [OF d False]) (use Suc.IH [OF n Suc.prems(2)] Suc.prems(3) in blast)
  qed
qed

end

section \<open>A transport that gives what it has is read to the end\<close>

locale eager_source = byte_source read pending
  for read :: "nat \<Rightarrow> bool \<Rightarrow> 't \<Rightarrow> (byte list option \<times> 't) option" and pending :: "'t \<Rightarrow> byte list" +
  assumes read_all: "0 < n \<Longrightarrow> n \<le> length (pending t) \<Longrightarrow>
      \<exists>bs t'. read n nb t = Some (Some bs, t') \<and> length bs = n"
    and read_nothing: "0 < n \<Longrightarrow> pending t = [] \<Longrightarrow> \<exists>t'. read n True t = Some (Some [], t')"

definition holds_buffer :: "addr ptr \<Rightarrow> buffers \<Rightarrow> bool" where
  "holds_buffer mb s \<longleftrightarrow> bufs_ok s \<and> (case mb of None \<Rightarrow> True | Some i \<Rightarrow> i \<in> set (cm_buffer_list s))"

definition memory_lasts :: "mem_env \<Rightarrow> bool" where
  "memory_lasts me \<longleftrightarrow> (\<forall>a n s. CMrealloc me a n s \<noteq> None)"

definition receivers_ok :: "'t read_env \<Rightarrow> bool" where
  \<comment> \<open>receivers keep the buffer list and do not ask for reading to stop\<close>
  "receivers_ok env \<longleftrightarrow> (\<forall>msg mb s. holds_buffer mb s \<longrightarrow>
    holds_buffer mb (fst (receive env msg mb s)) \<and> \<not> snd (receive env msg mb s))"

lemma place_total:
  assumes "holds_buffer mb (rd_bufs st)" "memory_lasts (rd_mem env)"
  shows "\<exists>mb' st'. place_data env mb full st = Some (mb', st') \<and> holds_buffer mb' (rd_bufs st')"
proof (cases mb)
  case None
  have ok: "bufs_ok (rd_bufs st)" using assms(1) by (simp add: holds_buffer_def)
  obtain i s' where "cm_get_data_buf (rd_mem env) full (rd_bufs st) = Some (Some i, s')"
      "handed_out full i (rd_bufs st) s'" "bufs_ok s'"
    using get_data_buf_ok [OF ok, of "rd_mem env" full] assms(2) by (auto simp: memory_lasts_def)
  then show ?thesis
    using None assms(1) by (auto simp: place_data_def holds_buffer_def handed_out_def)
next
  case (Some i)
  have ok: "bufs_ok (rd_bufs st)" "i \<in> set (cm_buffer_list (rd_bufs st))"
    using assms(1) Some by (simp_all add: holds_buffer_def)
  then obtain b where b: "buf_heap (rd_bufs st) i = Some b" by (auto simp: bufs_ok_def)
  obtain a where "CMrealloc (rd_mem env) (cb_buffer b) full (rd_bufs st) = Some a"
    using assms(2) unfolding memory_lasts_def by (metis option.exhaust)
  then show ?thesis
    using Some ok b put_buf_ok [OF ok]
    by (auto simp: place_data_def cm_extend_data_buf_def holds_buffer_def) (auto simp: put_buf_def)
qed

lemma return_total:
  assumes "bufs_ok s" "i \<in> set (cm_buffer_list s)"
  shows "\<exists>s'. cm_return_data_buf i s = Some s' \<and> bufs_ok s' \<and>
    (\<forall>j \<in> set (cm_buffer_list s). j \<noteq> i \<longrightarrow> j \<in> set (cm_buffer_list s'))"
proof -
  obtain b where b: "buf_heap s i = Some b" using assms by (auto simp: bufs_ok_def)
  let ?b = "b\<lparr>cb_ref_count := cb_ref_count b - 1\<rparr>"
  have "bufs_ok (put_buf i ?b s)" by (rule put_buf_ok [OF assms])
  then show ?thesis
    using assms b
    by (auto simp: cm_return_data_buf_def Let_def put_buf_def bufs_ok_def split: option.splits
        dest: notin_set_remove1)
qed

lemma drop_total:
  assumes "holds_buffer mb (rd_bufs st)"
  shows "\<exists>st'. drop_buffer mb st = Some st' \<and> holds_buffer None (rd_bufs st')"
  using assms return_total
  by (cases mb) (fastforce simp: drop_buffer_def holds_buffer_def)+

lemma hand_over_total:
  assumes "holds_buffer mb (rd_bufs st)" "memory_lasts (rd_mem env)" "receivers_ok env"
  shows "\<exists>st'. hand_over env msg mb len st = Some st' \<and> holds_buffer mb (rd_bufs st') \<and>
    abort_read_ahead st' = abort_read_ahead st"
proof -
  have plain: ?thesis if "hand_over env msg mb len st =
      Some (st\<lparr>rd_bufs := fst (receive env msg mb (rd_bufs st)),
               abort_read_ahead := abort_read_ahead st \<or> snd (receive env msg mb (rd_bufs st)),
               delivered := delivered st @ [msg]\<rparr>)"
    using that assms by (auto simp: receivers_ok_def)
  show ?thesis
  proof (cases "(\<exists>a d s. msg = Event a d s) \<and> mb = None")
    case False
    then show ?thesis
      by (intro plain) (cases msg; cases mb; simp add: hand_over_def case_prod_beta Let_def)
  next
    case True
    then obtain a d s where msg: "msg = Event a d s" and mb: "mb = None" by blast
    have ok: "bufs_ok (rd_bufs st)" using assms(1) by (simp add: holds_buffer_def)
    obtain i s1 where i: "cm_get_data_buf (rd_mem env) len (rd_bufs st) = Some (Some i, s1)"
        "handed_out len i (rd_bufs st) s1" "bufs_ok s1"
      using get_data_buf_ok [OF ok, of "rd_mem env" len] assms(2) by (auto simp: memory_lasts_def)
    then have "holds_buffer (Some i) s1" by (simp add: holds_buffer_def handed_out_def)
    then have r: "holds_buffer (Some i) (fst (receive env msg (Some i) s1))" "\<not> snd (receive env msg (Some i) s1)"
      using assms(3) by (simp_all add: receivers_ok_def)
    then obtain s2 where "cm_return_data_buf i (fst (receive env msg (Some i) s1)) = Some s2" "bufs_ok s2"
      using return_total [of "fst (receive env msg (Some i) s1)" i] by (auto simp: holds_buffer_def)
    then show ?thesis
      using i r msg mb by (simp add: hand_over_def fill_cmbuffer_def case_prod_beta holds_buffer_def)
  qed
qed

lemma act_whole_total:
  assumes "sent_ok (host_big env) m" "holds_buffer mb (rd_bufs st)" "memory_lasts (rd_mem env)" "receivers_ok env"
  shows "\<exists>st'. act_on env mb m st = Some (0, st') \<and> holds_buffer mb (rd_bufs st') \<and>
    abort_read_ahead st' = abort_read_ahead st"
proof -
  obtain msg where msg: "CMact_on_data (host_big env) m = Some msg" "\<And>n. msg \<noteq> Need_more n" "\<And>i. msg \<noteq> Non_cm i"
    using assms(1) by (rule whole_delivers) blast
  have "act_on env mb m st = do { st \<leftarrow> hand_over env msg mb (length m) st; Some (0, st) }"
    using msg by (cases msg) (auto simp: act_on_def)
  then show ?thesis using hand_over_total [OF assms(2-4), of msg "length m"] by auto
qed


lemma act_part_total:
  assumes "sent_ok (host_big env) m" "n < length m"
  shows "\<exists>need. act_on env mb (take n m) st = Some (need, st) \<and> 0 < need \<and> n + need \<le> length m"
  using part_of_message [of "host_big env" m n] assms by (auto simp: sent_ok_def act_on_def)

context eager_source
begin

definition eager_call :: "'t read_env \<Rightarrow> byte list list \<Rightarrow> read_call \<Rightarrow> 't reader \<Rightarrow> bool" where
  \<comment> \<open>the limits of reading ahead are not reached by the messages that are left, and only a first
    read finds nothing\<close>
  "eager_call env ms c st \<longleftrightarrow> ready ms c st \<and> \<not> conn_failed st \<and> \<not> abort_read_ahead st \<and>
    holds_buffer (local_buffer c) (rd_bufs st) \<and> (full_point c = 0 \<or> ms \<noteq> []) \<and>
    read_msg_count c + length ms \<le> read_ahead_msg_limit env \<and>
    read_byte_count c + length (concat ms) \<le> read_ahead_byte_limit env"

lemma step_progress:
  assumes rd: "read_to_buffer env = read" and ok: "\<forall>m \<in> set ms. sent_ok (host_big env) m"
    and mem: "memory_lasts (rd_mem env)" and rc: "receivers_ok env" and thr: "\<not> use_read_thread env"
    and at: "eager_call env ms c st"
  shows "\<exists>nxt st'. read_step env c st = Some (nxt, st') \<and>
    (case nxt of None \<Rightarrow> ms = [] \<and> delivered st' = delivered st \<and> \<not> conn_failed st'
     | Some c' \<Rightarrow> length (pending (source st')) < length (pending (source st)) \<and>
         (delivered st' = delivered st \<and> eager_call env ms c' st' \<or>
          (\<exists>m ms'. ms = m # ms' \<and> delivered st' = delivered st @ [the (CMact_on_data (host_big env) m)] \<and>
            eager_call env ms' c' st')))"
proof -
  have alive: "\<not> conn_failed st" and rdy: "ready ms c st" using at by (simp_all add: eager_call_def)
  define c0 where "c0 = start_read c"
  have c0: "ready ms c0 st" "full_point c0 \<noteq> 0" and same: "local_buffer c0 = local_buffer c"
      "read_msg_count c0 = read_msg_count c" "read_byte_count c0 = read_byte_count c"
    using rdy by (auto simp: c0_def start_read_def ready_def stream_at_def at_stage_def split: list.splits)
  obtain mb st1 where place: "place_data env (local_buffer c0) (full_point c0) st = Some (mb, st1)"
    and hold: "holds_buffer mb (rd_bufs st1)"
    using place_total [of "local_buffer c0" st env "full_point c0"] at mem same by (auto simp: eager_call_def)
  note frame = place_data_frame [OF place]
  define nb where "nb = ((first_four c0 \<or> \<not> use_blocking_reads env) \<and> \<not> use_read_thread env)"
  let ?want = "full_point c0 - length (local_bytes c0)"
  have want: "0 < ?want" and at0: "at_stage (local_bytes c0) (full_point c0) ms"
    and s0: "local_bytes c0 @ pending (source st) = concat ms"
    using c0 by (auto simp: ready_def stream_at_def at_stage_def split: list.splits)
  have "\<exists>new t. read ?want nb (source st) = Some (Some new, t) \<and> (ms \<noteq> [] \<longrightarrow> length new = ?want)"
  proof (cases ms)
    case Nil
    then have "pending (source st) = []" "full_point c = 0" using s0 at by (simp_all add: eager_call_def)
    moreover from this(2) have "nb" using thr by (simp add: nb_def c0_def start_read_def)
    ultimately show ?thesis using read_nothing [OF want, of "source st"] Nil by auto
  next
    case (Cons m ms')
    then have "length (local_bytes c0) + length (pending (source st)) = length m + length (concat ms')"
      using arg_cong [OF s0, of length] by simp
    moreover have "full_point c0 \<le> length m"
      using stage_in_message(2) [OF at0 [unfolded Cons] c0(2), of "host_big env"] ok Cons by simp
    ultimately have "?want \<le> length (pending (source st))" by simp
    from read_all [OF want this, of nb] show ?thesis by blast
  qed
  then obtain new t where r: "read ?want nb (source st) = Some (Some new, t)"
    and full: "ms \<noteq> [] \<Longrightarrow> length new = ?want"
    by blast
  have p: "pending (source st) = new @ pending t" and l: "length new \<le> ?want"
    using read_takes [OF r] by auto
  let ?st = "st1\<lparr>source := t\<rparr>" and ?bs = "local_bytes c0 @ new"
  let ?c = "c0\<lparr>local_buffer := mb, local_bytes := ?bs\<rparr>"
  have rest: "read_step env c st =
      (if length ?bs < full_point c0
       then Some (None, ?st\<lparr>message_buffer := mb, buffer_full_point := full_point c0, read_bytes := ?bs\<rparr>)
       else do {
         (need, st) \<leftarrow> act_on env mb ?bs ?st;
         if need \<noteq> 0 then Some (Some (?c\<lparr>full_point := full_point c0 + need\<rparr>), st)
         else message_done env ?c st })"
    using alive place frame(1) r
    by (simp add: read_step_def Let_def rd cong: if_cong flip: c0_def nb_def)
  show ?thesis
  proof (cases ms)
    case Nil
    then have "new = []" using s0 p by simp
    then show ?thesis using rest want Nil frame alive by simp
  next
    case (Cons m ms')
    have m: "sent_ok (host_big env) m" and at1: "at_stage (local_bytes c0) (full_point c0) (m # ms')"
      and s1: "local_bytes c0 @ new @ pending t = concat (m # ms')"
      using ok at0 s0 p Cons by auto
    note i = stage_in_message [OF at1 c0(2) m] and b = stage_reads [OF at1 c0(2) m s1 l]
    have len: "length ?bs = full_point c0" using full Cons i(1) by simp
    then have bm: "?bs = take (full_point c0) m" using b(1) by argo
    have less: "length (pending t) < length (pending (source st))"
      using p len i(1) by (cases new) auto
    show ?thesis
    proof (cases "full_point c0 < length m")
      case True
      obtain need where n: "act_on env mb ?bs ?st = Some (need, ?st)" "0 < need" "full_point c0 + need \<le> length m"
        using act_part_total [OF m True, of mb ?st] unfolding bm [symmetric] by blast
      have "at_stage ?bs (full_point c0 + need) ms"
        using n b(1) len unfolding at_stage_def Cons list.case by linarith
      then have "eager_call env ms (?c\<lparr>full_point := full_point c0 + need\<rparr>) ?st"
        using at c0(1) s1 Cons frame same hold by (auto simp: eager_call_def ready_def stream_at_def)
      then show ?thesis
        using rest len n less frame by simp
    next
      case False
      then have bm: "?bs = m" and t: "pending t = concat ms'"
        using bm i(2) s1 by auto
      obtain st2 where a: "act_on env mb m ?st = Some (0, st2)" "holds_buffer mb (rd_bufs st2)"
          "abort_read_ahead st2 = abort_read_ahead ?st"
        using act_whole_total [OF m, of mb ?st] hold mem rc by auto
      note af = act_on_whole [OF m a(1)]
      obtain st3 where d: "drop_buffer mb st2 = Some st3" "holds_buffer None (rd_bufs st3)"
        using drop_total [OF a(2)] by blast
      note df = drop_buffer_frame [OF d(1)]
      let ?c' = "?c\<lparr>local_buffer := None, full_point := 0, local_bytes := [],
        read_msg_count := read_msg_count c + 1, read_byte_count := read_byte_count c + length m\<rparr>"
      have quiet: "\<not> abort_read_ahead st3" using at frame a(3) df by (simp add: eager_call_def)
      have "message_done env ?c st2 = Some (Some ?c', st3)"
        using d(1) quiet at Cons same bm by (simp add: message_done_def eager_call_def Let_def)
      moreover have "eager_call env ms' ?c' st3"
        using at Cons t frame af df quiet d(2) c0(1)
        by (auto simp: eager_call_def ready_def stream_at_def at_stage_def)
      ultimately show ?thesis
        using rest len a(1) less bm Cons frame af df by auto
    qed
  qed
qed

lemma loop_progress:
  assumes "read_to_buffer env = read" "\<forall>m \<in> set ms. sent_ok (host_big env) m"
    and "memory_lasts (rd_mem env)" "receivers_ok env" "\<not> use_read_thread env" "eager_call env ms c st"
  shows "\<exists>st'. read_loop env c st = Some st' \<and> \<not> conn_failed st' \<and>
    delivered st' = delivered st @ map (\<lambda>m. the (CMact_on_data (host_big env) m)) ms"
  using assms
proof (induction "length (pending (source st))" arbitrary: c st ms rule: less_induct)
  case less
  obtain nxt st1 where s: "read_step env c st = Some (nxt, st1)"
    and n: "case nxt of None \<Rightarrow> ms = [] \<and> delivered st1 = delivered st \<and> \<not> conn_failed st1
     | Some c' \<Rightarrow> length (pending (source st1)) < length (pending (source st)) \<and>
         (delivered st1 = delivered st \<and> eager_call env ms c' st1 \<or>
          (\<exists>m ms'. ms = m # ms' \<and> delivered st1 = delivered st @ [the (CMact_on_data (host_big env) m)] \<and>
            eager_call env ms' c' st1))"
    using step_progress [OF less.prems] by blast
  show ?case
  proof (cases nxt)
    case None
    with s n show ?thesis by (simp add: read_loop.simps)
  next
    case (Some c')
    have shorter: "length (pending (source st1)) < length (pending (source st))" using n Some by simp
    have unfold: "read_loop env c st = read_loop env c' st1"
      by (subst read_loop.simps) (simp add: s Some)
    from n Some consider "delivered st1 = delivered st" "eager_call env ms c' st1"
      | m ms' where "ms = m # ms'" "delivered st1 = delivered st @ [the (CMact_on_data (host_big env) m)]"
          "eager_call env ms' c' st1"
      by auto
    then show ?thesis
    proof cases
      case 1
      show ?thesis
        using less.hyps [OF shorter less.prems(1-5) 1(2)] 1(1) unfold by simp
    next
      case 2
      have "\<forall>m \<in> set ms'. sent_ok (host_big env) m" using less.prems(2) 2(1) by simp
      from less.hyps [OF shorter less.prems(1) this less.prems(3-5) 2(3)] show ?thesis
        using 2(1,2) unfold by simp
    qed
  qed
qed

lemma data_available_progress:
  assumes rd: "read_to_buffer env = read" and ok: "\<forall>m \<in> set ms. sent_ok (host_big env) m"
    and mem: "memory_lasts (rd_mem env)" and rc: "receivers_ok env" and thr: "\<not> use_read_thread env"
    and some: "ms \<noteq> []" and at: "stream_at pending ms (read_bytes st) (buffer_full_point st) st"
    and alive: "\<not> conn_failed st" "\<not> abort_read_ahead st"
    and hold: "holds_buffer (if buffer_full_point st = 0 then None else message_buffer st) (rd_bufs st)"
    and limits: "length ms \<le> read_ahead_msg_limit env" "length (concat ms) \<le> read_ahead_byte_limit env"
  shows "\<exists>st'. CMDataAvailable env st = Some st' \<and> \<not> conn_failed st' \<and>
    delivered st' = delivered st @ map (\<lambda>m. the (CMact_on_data (host_big env) m)) ms"
proof (cases "buffer_full_point st = 0")
  case True
  then have "eager_call env ms fresh_call st"
    using at alive hold limits some
    by (auto simp: eager_call_def ready_def fresh_call_def stream_at_def at_stage_def split: list.splits)
  from loop_progress [OF rd ok mem rc thr this] True show ?thesis by (simp add: CMDataAvailable_def)
next
  case False
  let ?c = "fresh_call\<lparr>local_buffer := message_buffer st, full_point := buffer_full_point st,
                   local_bytes := read_bytes st\<rparr>"
  let ?st = "st\<lparr>message_buffer := None, buffer_full_point := 0, read_bytes := []\<rparr>"
  have "eager_call env ms ?c ?st"
    using at alive hold limits some False by (simp add: eager_call_def ready_def fresh_call_def stream_at_def)
  from loop_progress [OF rd ok mem rc thr this] False show ?thesis by (simp add: CMDataAvailable_def)
qed

end

end
