(* ===== verification/CM_Socket.thy ===== *)
theory CM_Socket
  imports CM_Stream
begin

text \<open>
  Reading from a socket (cmsockets.c): libcmsockets_LTX_read_to_buffer_func over the read of the
  operating system, which is a locale: what it gives is what has arrived, in order. The flags of the
  descriptor are kept by block_state; fcntl does not fail.
\<close>

datatype errno = No_error | Would_block | Interrupted | Serious_error

definition SOCKET_ERROR_IS_WOULDBLOCK :: "errno \<Rightarrow> bool" where
  "SOCKET_ERROR_IS_WOULDBLOCK e \<longleftrightarrow> e = Would_block"

definition SOCKET_ERROR_IS_TRANSIENT :: "errno \<Rightarrow> bool" where
  "SOCKET_ERROR_IS_TRANSIENT e \<longleftrightarrow> SOCKET_ERROR_IS_WOULDBLOCK e \<or> e = Interrupted"

datatype os_result = Got "byte list" errno | Os_error errno
  \<comment> \<open>bytes (none at the end of file) with what errno still holds, or -1 and errno\<close>

record 's socket =
  blocking :: bool            \<comment> \<open>block_state is Block\<close>
  kernel :: 's

definition MAX_RW_COUNT :: nat where
  "MAX_RW_COUNT = 0x7ffff000"

definition set_block_state :: "bool \<Rightarrow> 's socket \<Rightarrow> 's socket" where
  "set_block_state needed s = (if blocking s \<noteq> needed then s\<lparr>blocking := needed\<rparr> else s)"

type_synonym 's os_reader = "bool \<Rightarrow> nat \<Rightarrow> 's \<Rightarrow> (os_result \<times> 's) option"
  \<comment> \<open>None: it never returns\<close>

partial_function (option) read_rest ::
  "'s os_reader \<Rightarrow> nat \<Rightarrow> bool \<Rightarrow> byte list \<Rightarrow> 's socket \<Rightarrow> (byte list \<times> 's socket) option" where
  \<comment> \<open>while (left > 0): a transient error is tried again\<close>
  "read_rest os_read requested_len non_blocking bs s =
    (let left = requested_len - length bs
     in if left = 0 then Some (bs, s)
        else do {
          (r, k) \<leftarrow> os_read (blocking s) (min left MAX_RW_COUNT) (kernel s);
          let s = s\<lparr>kernel := k\<rparr>;
          case r of
            Os_error e \<Rightarrow>
              if \<not> SOCKET_ERROR_IS_TRANSIENT e then Some (bs, s)
              else read_rest os_read requested_len non_blocking bs
                (if \<not> non_blocking \<and> \<not> blocking s then set_block_state True s else s)
          | Got new _ \<Rightarrow>
              if new = [] then Some (bs, s)
              else read_rest os_read requested_len non_blocking (bs @ new) s })"

definition libcmsockets_LTX_read_to_buffer_func ::
  "'s os_reader \<Rightarrow> nat \<Rightarrow> bool \<Rightarrow> 's socket \<Rightarrow> (byte list option \<times> 's socket) option" where
  \<comment> \<open>None as the result: -1. After the end of file errno is that of an earlier call\<close>
  "libcmsockets_LTX_read_to_buffer_func os_read requested_len non_blocking s =
    (let s = (if non_blocking \<and> blocking s then set_block_state False s
              else if \<not> non_blocking \<and> \<not> blocking s then set_block_state True s
              else s);
         none = (\<lambda>e s. Some (if e \<noteq> No_error \<and> \<not> SOCKET_ERROR_IS_TRANSIENT e then (None, s)
                             else if non_blocking then (Some [], s)
                             else (None, s)))
     in do {
       (r, k) \<leftarrow> os_read (blocking s) (min requested_len MAX_RW_COUNT) (kernel s);
       let s = s\<lparr>kernel := k\<rparr>;
       case r of
         Os_error e \<Rightarrow> none e s
       | Got new e \<Rightarrow>
           if new = [] then none e s
           else do {
             (bs, s) \<leftarrow> read_rest os_read requested_len non_blocking new s;
             Some (Some bs, s) } })"

section \<open>A socket is a source of bytes\<close>

locale socket_os =
  fixes os_read :: "'s os_reader" and arrived :: "'s \<Rightarrow> byte list"
  assumes os_gives: "os_read b n k = Some (Got bs e, k') \<Longrightarrow> arrived k = bs @ arrived k' \<and> length bs \<le> n"
    and os_fails: "os_read b n k = Some (Os_error e, k') \<Longrightarrow> arrived k' = arrived k"
begin

lemma rest_takes:
  assumes "read_rest os_read n nb bs s = Some (bs', s')"
  shows "length bs \<le> n \<longrightarrow> (\<exists>new. bs' = bs @ new \<and> arrived (kernel s) = new @ arrived (kernel s') \<and> length bs' \<le> n)"
proof -
  have "os_read' = os_read \<longrightarrow> length bs \<le> n \<longrightarrow>
      (\<exists>new. fst y = bs @ new \<and> arrived (kernel s) = new @ arrived (kernel (snd y)) \<and> length (fst y) \<le> n)"
    if "read_rest os_read' n nb bs s = Some y" for os_read' y
  proof (rule read_rest.raw_induct [where P = "\<lambda>os_read' n nb bs s y. os_read' = os_read \<longrightarrow> length bs \<le> n \<longrightarrow>
      (\<exists>new. fst y = bs @ new \<and> arrived (kernel s) = new @ arrived (kernel (snd y)) \<and> length (fst y) \<le> n)",
      OF _ that], goal_cases)
    case (1 loop os n nb bs s y)
    note IH = 1(1) and body = 1(2)
    show ?case
    proof (intro impI)
      assume os: "os = os_read" and l: "length bs \<le> n"
      show "\<exists>new. fst y = bs @ new \<and> arrived (kernel s) = new @ arrived (kernel (snd y)) \<and> length (fst y) \<le> n"
      proof (cases "n - length bs = 0")
        case True
        then show ?thesis using body l by auto
      next
        case False
        then obtain r k where r: "os_read (blocking s) (min (n - length bs) MAX_RW_COUNT) (kernel s) = Some (r, k)"
          using body os by (auto simp: Let_def split: bind_splits)
        show ?thesis
        proof (cases r)
          case (Os_error e)
          then have k: "arrived k = arrived (kernel s)" using os_fails r by blast
          show ?thesis
          proof (cases "SOCKET_ERROR_IS_TRANSIENT e")
            case True
            let ?s = "s\<lparr>kernel := k\<rparr>"
            have "loop os n nb bs (if \<not> nb \<and> \<not> blocking ?s then set_block_state True ?s else ?s) = Some y"
              using body False os r Os_error True by (simp add: Let_def)
            from IH [OF this] os l k show ?thesis by (auto simp: set_block_state_def split: if_splits)
          next
            case False
            then show ?thesis using body \<open>n - length bs \<noteq> 0\<close> os r Os_error k l by (auto simp: Let_def)
          qed
        next
          case (Got new e)
          then have k: "arrived (kernel s) = new @ arrived k" "length new \<le> n - length bs"
            using os_gives r by (blast, fastforce)
          show ?thesis
          proof (cases "new = []")
            case True
            then show ?thesis using body False os r Got k l by (auto simp: Let_def)
          next
            case new: False
            have "loop os n nb (bs @ new) (s\<lparr>kernel := k\<rparr>) = Some y"
              using body False os r Got new by (simp add: Let_def)
            from IH [OF this] os l k show ?thesis by auto
          qed
        qed
      qed
    qed
  qed
  from this [OF assms] show ?thesis by simp
qed

end

sublocale socket_os \<subseteq> socket: byte_source "libcmsockets_LTX_read_to_buffer_func os_read" "\<lambda>s. arrived (kernel s)"
proof
  fix n nb s bs s'
  assume r: "libcmsockets_LTX_read_to_buffer_func os_read n nb s = Some (Some bs, s')"
  define s0 where "s0 = (if nb \<and> blocking s then set_block_state False s
              else if \<not> nb \<and> \<not> blocking s then set_block_state True s else s)"
  have k0: "kernel s0 = kernel s" by (simp add: s0_def set_block_state_def)
  from r obtain res k where o: "os_read (blocking s0) (min n MAX_RW_COUNT) (kernel s) = Some (res, k)"
    by (auto simp: libcmsockets_LTX_read_to_buffer_func_def Let_def k0 simp flip: s0_def split: bind_splits)
  show "arrived (kernel s) = bs @ arrived (kernel s') \<and> length bs \<le> n"
  proof (cases res)
    case (Os_error e)
    then have "arrived k = arrived (kernel s)" using os_fails o by blast
    then show ?thesis
      using r o Os_error
      by (auto simp: libcmsockets_LTX_read_to_buffer_func_def Let_def k0 simp flip: s0_def split: if_splits)
  next
    case (Got new e)
    then have k: "arrived (kernel s) = new @ arrived k" "length new \<le> n"
      using os_gives o by (blast, fastforce)
    show ?thesis
    proof (cases "new = []")
      case True
      then show ?thesis
        using r o Got k
        by (auto simp: libcmsockets_LTX_read_to_buffer_func_def Let_def k0 simp flip: s0_def split: if_splits)
    next
      case False
      then obtain x where "read_rest os_read n nb new (s0\<lparr>kernel := k\<rparr>) = Some (bs, s')"
        using r o Got
        by (auto simp: libcmsockets_LTX_read_to_buffer_func_def Let_def k0 simp flip: s0_def split: bind_splits)
      from rest_takes [OF this] k show ?thesis by auto
    qed
  qed
qed

section \<open>A socket whose data has arrived is read to the end\<close>

locale quiet_os = socket_os os_read arrived for os_read :: "'s os_reader" and arrived :: "'s \<Rightarrow> byte list" +
  assumes os_ready: "arrived k \<noteq> [] \<Longrightarrow> 0 < n \<Longrightarrow>
      \<exists>bs e k'. os_read b n k = Some (Got bs e, k') \<and> bs \<noteq> []"
    and os_empty: "arrived k = [] \<Longrightarrow> os_read False n k = Some (Os_error Would_block, k)"
begin

lemma rest_reads:
  assumes "length bs \<le> n" "n - length bs \<le> length (arrived (kernel s))"
  shows "\<exists>bs' s'. read_rest os_read n nb bs s = Some (bs', s') \<and> length bs' = n"
  using assms
proof (induction "n - length bs" arbitrary: bs s rule: less_induct)
  case less
  show ?case
  proof (cases "n - length bs = 0")
    case True
    then show ?thesis using less.prems by (subst read_rest.simps) simp
  next
    case False
    then have "arrived (kernel s) \<noteq> []" "0 < min (n - length bs) MAX_RW_COUNT"
      using less.prems by (auto simp: MAX_RW_COUNT_def)
    then obtain new e k where r: "os_read (blocking s) (min (n - length bs) MAX_RW_COUNT) (kernel s) =
        Some (Got new e, k)" "new \<noteq> []"
      using os_ready by blast
    then have k: "arrived (kernel s) = new @ arrived k" "length new \<le> n - length bs"
      using os_gives by (blast, fastforce)
    have "read_rest os_read n nb bs s = read_rest os_read n nb (bs @ new) (s\<lparr>kernel := k\<rparr>)"
      by (subst read_rest.simps) (use False r in simp)
    moreover have "n - length (bs @ new) < n - length bs" "length (bs @ new) \<le> n"
        "n - length (bs @ new) \<le> length (arrived (kernel (s\<lparr>kernel := k\<rparr>)))"
      using r(2) False k less.prems by (auto intro!: diff_less_mono2)
    ultimately show ?thesis using less.hyps by metis
  qed
qed

end

sublocale quiet_os \<subseteq> socket: eager_source "libcmsockets_LTX_read_to_buffer_func os_read" "\<lambda>s. arrived (kernel s)"
proof
  fix n :: nat and s :: "'s socket" and nb
  assume n: "0 < n"
  let ?s = "if nb \<and> blocking s then set_block_state False s
              else if \<not> nb \<and> \<not> blocking s then set_block_state True s else s"
  have k0: "kernel ?s = kernel s" by (simp add: set_block_state_def)
  {
    assume a: "n \<le> length (arrived (kernel s))"
    then have "arrived (kernel s) \<noteq> []" "0 < min n MAX_RW_COUNT" using n by (auto simp: MAX_RW_COUNT_def)
    then obtain new e k where r: "os_read (blocking ?s) (min n MAX_RW_COUNT) (kernel ?s) = Some (Got new e, k)"
        "new \<noteq> []"
      using os_ready unfolding k0 by blast
    then have "arrived (kernel s) = new @ arrived k" "length new \<le> n"
      using os_gives unfolding k0 by (blast, fastforce)
    then obtain bs s' where "read_rest os_read n nb new (?s\<lparr>kernel := k\<rparr>) = Some (bs, s')" "length bs = n"
      using rest_reads [of new n "?s\<lparr>kernel := k\<rparr>" nb] a by fastforce
    then show "\<exists>bs t'. libcmsockets_LTX_read_to_buffer_func os_read n nb s = Some (Some bs, t') \<and> length bs = n"
      using r unfolding libcmsockets_LTX_read_to_buffer_func_def Let_def by simp
  }
next
  fix n :: nat and s :: "'s socket"
  assume "0 < n" "arrived (kernel s) = []"
  then show "\<exists>t'. libcmsockets_LTX_read_to_buffer_func os_read n True s = Some (Some [], t')"
    using os_empty [of "kernel s"]
    by (auto simp: libcmsockets_LTX_read_to_buffer_func_def Let_def set_block_state_def
        SOCKET_ERROR_IS_TRANSIENT_def SOCKET_ERROR_IS_WOULDBLOCK_def)
qed

section \<open>A kernel\<close>

text \<open>A receive queue that is given out in pieces; a blocking read of an empty one does not return.\<close>

definition kernel_read :: "nat \<Rightarrow> byte list os_reader" where
  "kernel_read piece blocks n q =
    (if q = [] then if blocks then None else Some (Os_error Would_block, q)
     else let k = min n (Suc piece) in Some (Got (take k q) No_error, drop k q))"

interpretation receive_queue: quiet_os "kernel_read piece" "\<lambda>q. q" for piece
  by unfold_locales (auto simp: kernel_read_def Let_def split: if_splits)

text \<open>
  The rest of a message that has arrived in part is waited for even by a read that must not block:
  the loop asks again and again, and returns only if the operating system gives more.
\<close>

lemma rest_spins:
  assumes "read_rest (kernel_read piece) n True bs s = Some r"
  shows "\<not> blocking s \<longrightarrow> n \<le> length bs + length (kernel s)"
proof -
  have "os = kernel_read piece \<longrightarrow> nb \<longrightarrow> \<not> blocking s \<longrightarrow> n \<le> length bs + length (kernel s)"
    if "read_rest os n nb bs s = Some r" for os nb
  proof (rule read_rest.raw_induct [where P = "\<lambda>os n nb bs s y. os = kernel_read piece \<longrightarrow> nb \<longrightarrow>
      \<not> blocking s \<longrightarrow> n \<le> length bs + length (kernel s)", OF _ that], goal_cases)
    case (1 loop os n nb bs s y)
    note IH = 1(1) and body = 1(2)
    show ?case
    proof (intro impI)
      assume os: "os = kernel_read piece" and nb: nb and s: "\<not> blocking s"
      show "n \<le> length bs + length (kernel s)"
      proof (cases "n - length bs = 0")
        case False
        show ?thesis
        proof (cases "kernel s = []")
          case True
          then have same: "s\<lparr>kernel := []\<rparr> = s" by (cases s) simp
          from True have "loop os n nb bs (s\<lparr>kernel := []\<rparr>) = Some y"
            using body False os nb s
            by (simp add: kernel_read_def SOCKET_ERROR_IS_TRANSIENT_def SOCKET_ERROR_IS_WOULDBLOCK_def)
          then have "loop os n nb bs s = Some y" by (simp only: same)
          from IH [OF this] os nb s show ?thesis by simp
        next
          case queue: False
          define k where "k = min (min (n - length bs) MAX_RW_COUNT) (Suc piece)"
          have "k \<noteq> 0" using False by (simp add: k_def MAX_RW_COUNT_def)
          moreover have "kernel_read piece (blocking s) (min (n - length bs) MAX_RW_COUNT) (kernel s) =
              Some (Got (take k (kernel s)) No_error, drop k (kernel s))"
            using queue by (simp add: kernel_read_def k_def Let_def)
          ultimately have "loop os n nb (bs @ take k (kernel s)) (s\<lparr>kernel := drop k (kernel s)\<rparr>) = Some y"
            using body False queue unfolding os by simp
          from IH [OF this] os nb s show ?thesis by simp
        qed
      qed simp
    qed
  qed
  from this [OF assms] show ?thesis by simp
qed

lemma partial_read_spins:
  assumes "kernel s \<noteq> []" "length (kernel s) < n"
  shows "libcmsockets_LTX_read_to_buffer_func (kernel_read piece) n True s = None"
proof (rule ccontr)
  let ?s = "if blocking s then set_block_state False s else s" and ?k = "min (min n MAX_RW_COUNT) (Suc piece)"
  assume "\<not> ?thesis"
  moreover have "take ?k (kernel s) \<noteq> []" using assms by (simp add: MAX_RW_COUNT_def)
  ultimately obtain r where "read_rest (kernel_read piece) n True (take ?k (kernel s))
      (?s\<lparr>kernel := drop ?k (kernel s)\<rparr>) = Some r"
    using assms(1)
    by (auto simp: libcmsockets_LTX_read_to_buffer_func_def kernel_read_def Let_def set_block_state_def
        split: bind_splits if_splits)
  from rest_spins [OF this] assms(2) show False
    by (simp add: set_block_state_def split: if_splits)
qed

end
