(* ===== verification/CM_Write.thy ===== *)
theory CM_Write
  imports CM_Wire CM_Buffer
begin

text \<open>
  Writing to a connection (cm.c): INT_CMwrite_raw with the checksum, the transport's writev and
  non-blocking writev, what queue_remaining_write keeps of a message the transport took only a part
  of, CMWriteQueuedData, which sends more of it, and the callbacks of pending writes. The transport
  is a parameter. A message is a list of vectors of bytes; pointers into vectors are the bytes
  themselves. Completion notices of transports are not modelled.
\<close>

type_synonym callback = "addr ptr \<times> addr"     \<comment> \<open>func and client_data\<close>

record 't writer =
  sink :: 't                            \<comment> \<open>transport_data\<close>
  rem_header :: "byte list"
  rem_attr :: "byte list"
  vector_data :: "byte list list option"
  buffer_to_free :: "addr ptr"
  write_pending :: bool
  write_notify :: bool                  \<comment> \<open>set_write_notify\<close>
  w_closed :: bool
  w_failed :: bool
  w_bufs :: buffers
  write_callbacks :: "callback list option"
  callbacks_run :: "callback list"      \<comment> \<open>newest first\<close>

record 't write_env =
  w_host_big :: bool
  w_mem :: mem_env
  do_non_blocking_write :: bool
  NBwritev_func :: "(byte list list \<Rightarrow> 't \<Rightarrow> (nat option \<times> 't) option) option"
    \<comment> \<open>None: NULL; the number of bytes taken, or None for -1\<close>
  writev_func :: "byte list list \<Rightarrow> 't \<Rightarrow> (int \<times> 't) option"   \<comment> \<open>the number of vectors written\<close>

section \<open>Callbacks of pending writes\<close>

fun first_free :: "callback list \<Rightarrow> nat" where
  "first_free [] = 0"
| "first_free (c # cs) = (if fst c \<noteq> None then first_free cs + 1 else 0)"

definition add_pending_write_callback :: "addr ptr \<Rightarrow> addr \<Rightarrow> 't writer \<Rightarrow> nat \<times> 't writer" where
  \<comment> \<open>the first slot that is free, or a new one\<close>
  "add_pending_write_callback func data w =
    (let cs = (case write_callbacks w of None \<Rightarrow> [] | Some cs \<Rightarrow> cs);
         count = first_free cs;
         cs = (if count < length cs then cs[count := (func, data)] else cs @ [(func, data)])
     in (count, w\<lparr>write_callbacks := Some cs\<rparr>))"

definition remove_pending_write_callback_by_id :: "nat \<Rightarrow> 't writer \<Rightarrow> 't writer option" where
  "remove_pending_write_callback_by_id slot w =
    (case write_callbacks w of
       None \<Rightarrow> None
     | Some cs \<Rightarrow> if slot < length cs then Some (w\<lparr>write_callbacks := Some (cs[slot := (None, snd (cs ! slot))])\<rparr>)
                 else None)"

fun callback_index :: "addr ptr \<Rightarrow> addr \<Rightarrow> callback list \<Rightarrow> nat option" where
  \<comment> \<open>the loop goes on while both the function and the data differ; it does not stop at the end\<close>
  "callback_index func data [] = None"
| "callback_index func data (c # cs) =
    (if fst c \<noteq> func \<and> snd c \<noteq> data then map_option Suc (callback_index func data cs) else Some 0)"

definition remove_pending_write_callback :: "addr ptr \<Rightarrow> addr \<Rightarrow> 't writer \<Rightarrow> 't writer option" where
  "remove_pending_write_callback func data w =
    do {
      cs \<leftarrow> write_callbacks w;
      i \<leftarrow> callback_index func data cs;
      Some (w\<lparr>write_callbacks := Some (cs[i := (None, snd (cs ! i))])\<rparr>) }"

definition cm_wake_any_pending_write :: "'t writer \<Rightarrow> 't writer option" where
  \<comment> \<open>asserts that there are at most 16; runs those that are set\<close>
  "cm_wake_any_pending_write w =
    (case write_callbacks w of
       None \<Rightarrow> Some w
     | Some cs \<Rightarrow>
         if 16 < length cs then None
         else Some (w\<lparr>callbacks_run := rev (filter (\<lambda>c. fst c \<noteq> None) cs) @ callbacks_run w\<rparr>))"

definition transport_wake_any_pending_write :: "'t writer \<Rightarrow> 't writer option" where
  "transport_wake_any_pending_write w = cm_wake_any_pending_write (w\<lparr>write_pending := False\<rparr>)"

definition INT_CMregister_write_callback :: "addr ptr \<Rightarrow> addr \<Rightarrow> 't writer \<Rightarrow> nat \<times> 't writer" where
  "INT_CMregister_write_callback func data w = add_pending_write_callback func data w"

definition INT_CMunregister_write_callback :: "nat \<Rightarrow> 't writer \<Rightarrow> 't writer option" where
  "INT_CMunregister_write_callback slot w = remove_pending_write_callback_by_id slot w"

section \<open>A connection that fails while it is written\<close>

definition connection_failed :: "'t writer \<Rightarrow> 't writer option" where
  \<comment> \<open>INT_CMConnection_failed, as far as it concerns writing\<close>
  "connection_failed w =
    (if w_failed w then Some w
     else do {
       w \<leftarrow> transport_wake_any_pending_write (w\<lparr>w_failed := True\<rparr>);
       Some (w\<lparr>w_closed := True\<rparr>) })"

definition write_failed :: "'t writer \<Rightarrow> 't writer option" where
  "write_failed w =
    do {
      w \<leftarrow> connection_failed w;
      w \<leftarrow> (case buffer_to_free w of
              None \<Rightarrow> Some w
            | Some i \<Rightarrow> do {
                s \<leftarrow> cm_return_data_buf i (w_bufs w);
                Some (w\<lparr>w_bufs := s, buffer_to_free := None\<rparr>) });
      cm_wake_any_pending_write (w\<lparr>write_pending := False, write_notify := False\<rparr>)
    }"

section \<open>Keeping what has not been written\<close>

fun advance :: "nat \<Rightarrow> byte list list \<Rightarrow> (nat \<times> nat) option" where
  \<comment> \<open>the vector that a number of bytes ends in, and how many of them are in it\<close>
  "advance n [] = None"
| "advance n (v # vs) =
    (if n > length v then map_option (\<lambda>(i, k). (Suc i, k)) (advance (n - length v) vs) else Some (0, n))"

definition queue_remaining_write ::
  "mem_env \<Rightarrow> byte list list \<Rightarrow> byte list list option \<Rightarrow> nat \<Rightarrow> bool \<Rightarrow> 't writer \<Rightarrow> 't writer option" where
  \<comment> \<open>pbio_vec is the data part of tmp_vec, when the data is FFS data\<close>
  "queue_remaining_write me tmp_vec pbio_vec actual attrs_present w =
    do {
      (i, k) \<leftarrow> advance actual tmp_vec;
      let tmp_vec = tmp_vec[i := drop k (tmp_vec ! i)];
      let pi = int i - (if attrs_present then 2 else 1);
      let pbio_vec = map_option (\<lambda>v. if 0 \<le> pi then v[nat pi := tmp_vec ! i] else v) pbio_vec;
      hdr \<leftarrow> (if i = 0 then if length (tmp_vec ! 0) \<le> 32 then Some (tmp_vec ! 0) else None else Some []);
      let attr = (if attrs_present \<and> i \<le> 1 then tmp_vec ! 1 else []);
      let i = (if attrs_present \<and> i \<le> 1 then i + 1 else i);
      let j = nat (int i - 1 - (if attrs_present then 1 else 0));
      let data = (case pbio_vec of
                    None \<Rightarrow>
                      (let i = (if i = 0 then 1 else i); i = (if attrs_present \<and> i \<le> 1 then 2 else i)
                       in concat (drop i tmp_vec))
                  | Some v \<Rightarrow> concat (drop j v));
      (r, s) \<leftarrow> cm_get_data_buf me (length data + 32) (w_bufs w);
      b \<leftarrow> r;
      Some (w\<lparr>rem_header := hdr, rem_attr := attr, vector_data := Some [data], buffer_to_free := Some b,
             w_bufs := s\<rparr>)
    }"

section \<open>Sending what has been kept\<close>

definition send_vectors ::
  "byte list list \<Rightarrow> ('t writer \<Rightarrow> 't writer option) \<Rightarrow> (nat \<Rightarrow> 't writer \<Rightarrow> 't writer option) \<Rightarrow>
    't write_env \<Rightarrow> 't writer \<Rightarrow> 't writer option" where
  \<comment> \<open>the non-blocking writev of some vectors: the continuations take over when it took everything and
    when it took only some bytes; -1 fails the connection\<close>
  "send_vectors vec all some env w =
    do {
      f \<leftarrow> NBwritev_func env;
      (r, t) \<leftarrow> f vec (sink w);
      let w = w\<lparr>sink := t\<rparr>;
      case r of
        None \<Rightarrow> write_failed w
      | Some actual \<Rightarrow> if actual < length (concat vec) then some actual w else all w
    }"

definition write_done :: "'t writer \<Rightarrow> 't writer option" where
  \<comment> \<open>buffer_to_free is returned and not reset\<close>
  "write_done w =
    do {
      w \<leftarrow> (case buffer_to_free w of
              None \<Rightarrow> Some w
            | Some i \<Rightarrow> do { s \<leftarrow> cm_return_data_buf i (w_bufs w); Some (w\<lparr>w_bufs := s\<rparr>) });
      cm_wake_any_pending_write (w\<lparr>write_pending := False, write_notify := False\<rparr>)
    }"

definition write_vector :: "'t write_env \<Rightarrow> 't writer \<Rightarrow> 't writer option" where
  "write_vector env w =
    (case vector_data w of
       None \<Rightarrow> write_done w
     | Some vec \<Rightarrow>
         send_vectors vec write_done
           (\<lambda>actual w. do {
              (i, k) \<leftarrow> advance actual vec;
              Some (w\<lparr>vector_data := Some (drop k (vec ! i) # drop (Suc i) vec)\<rparr>) }) env w)"

definition write_attr :: "'t write_env \<Rightarrow> 't writer \<Rightarrow> 't writer option" where
  "write_attr env w =
    (if rem_attr w = [] then write_vector env w
     else send_vectors [rem_attr w] (write_vector env)
       (\<lambda>actual w. Some (w\<lparr>rem_attr := drop actual (rem_attr w)\<rparr>)) env w)"

definition CMWriteQueuedData :: "'t write_env \<Rightarrow> 't writer \<Rightarrow> 't writer option" where
  \<comment> \<open>the header, the attributes, the data; a part that has been sent is not reset\<close>
  "CMWriteQueuedData env w =
    (if rem_header w = [] then write_attr env w
     else send_vectors [rem_header w] (write_attr env)
       (\<lambda>actual w. Some (w\<lparr>rem_header := drop actual (rem_header w)\<rparr>)) env w)"

partial_function (option) wait_for_pending_write :: "'t write_env \<Rightarrow> 't writer \<Rightarrow> 't writer option" where
  \<comment> \<open>a single thread: polling the network calls CMWriteQueuedData\<close>
  "wait_for_pending_write env w =
    (if write_pending w \<and> \<not> w_closed w
     then do { w \<leftarrow> CMWriteQueuedData env w; wait_for_pending_write env w }
     else Some w)"

section \<open>Writing a message\<close>

definition INT_CMwrite_raw ::
  "'t write_env \<Rightarrow> byte list list \<Rightarrow> byte list list option \<Rightarrow> bool \<Rightarrow> 't writer \<Rightarrow> (int \<times> 't writer) option" where
  \<comment> \<open>actual is a size_t, so that a negative result of writev_func does not fail the connection\<close>
  "INT_CMwrite_raw env full_vec data_vec attrs_present w =
    (if w_closed w \<or> w_failed w then Some (0, w)
     else do {
       w \<leftarrow> (if write_pending w then wait_for_pending_write env w else Some w);
       let vec = stamp (w_host_big env) full_vec;
       let len = length (concat vec);
       if do_non_blocking_write env \<and> NBwritev_func env \<noteq> None then do {
         f \<leftarrow> NBwritev_func env;
         (r, t) \<leftarrow> f vec (sink w);
         let w = w\<lparr>sink := t\<rparr>;
         case r of
           None \<Rightarrow> do { w \<leftarrow> write_failed w; Some (0, w) }
         | Some actual \<Rightarrow>
             if actual < len then do {
               w \<leftarrow> queue_remaining_write (w_mem env) vec data_vec actual attrs_present w;
               Some (1, w\<lparr>write_notify := True, write_pending := True\<rparr>) }
             else Some (1, w) }
       else do {
         (actual, t) \<leftarrow> writev_func env vec (sink w);
         let w = w\<lparr>sink := t\<rparr>;
         w \<leftarrow> (if actual = 0 then connection_failed w else Some w);
         Some (if actual = int (length vec) then 1 else 0, w) } })"

definition static_vec_size :: nat where
  "static_vec_size = 100"

definition record_room :: "nat \<Rightarrow> nat" where
  \<comment> \<open>the entries of tmp_vec: the static vector, or one of vec_count + 1\<close>
  "record_room vec_count = (if static_vec_size \<le> vec_count then vec_count + 1 else static_vec_size)"

definition event_room :: "nat \<Rightarrow> nat" where
  "event_room vec_count = (if static_vec_size \<le> vec_count then vec_count + 3 else static_vec_size)"

definition INT_CMwrite_attr ::
  "'t write_env \<Rightarrow> bool \<Rightarrow> (byte list \<times> nat) option \<Rightarrow> byte list list \<Rightarrow> 't writer \<Rightarrow> (int \<times> 't writer) option" where
  \<comment> \<open>registered: the format has an fmformat; vec is what FFSencode_vector makes of the record. More
    vectors than tmp_vec has room for overrun it, which is None\<close>
  "INT_CMwrite_attr env registered attrs vec w =
    (if w_closed w \<or> w_failed w then Some (0, w)
     else do {
       w \<leftarrow> (if write_pending w then wait_for_pending_write env w else Some w);
       if w_closed w \<or> \<not> registered then Some (0, w)
       else do {
         let full = record_vectors (w_host_big env) attrs vec;
         _ \<leftarrow> (if length full \<le> record_room (length vec) then Some () else None);
         (actual, w) \<leftarrow> INT_CMwrite_raw env full (Some vec) (attrs \<noteq> None) w;
         Some (if actual = 0 then 0 else 1, w) } })"

definition INT_CMwrite ::
  "'t write_env \<Rightarrow> bool \<Rightarrow> byte list list \<Rightarrow> 't writer \<Rightarrow> (int \<times> 't writer) option" where
  "INT_CMwrite env registered vec w = INT_CMwrite_attr env registered None vec w"

definition internal_write_event ::
  "'t write_env \<Rightarrow> bool \<Rightarrow> int32 \<Rightarrow> (byte list \<times> nat) option \<Rightarrow> byte list list \<Rightarrow> 't writer \<Rightarrow>
    (int \<times> 't writer) option" where
  \<comment> \<open>vec is the encoded event as it is, or what FFSencode_vector makes of a decoded one\<close>
  "internal_write_event env registered stone attrs vec w =
    (if w_closed w \<or> w_failed w then Some (0, w)
     else do {
       w \<leftarrow> (if write_pending w then wait_for_pending_write env w else Some w);
       if \<not> registered then Some (0, w)
       else do {
         let full = event_vectors (w_host_big env) stone attrs vec;
         _ \<leftarrow> (if length full \<le> event_room (length vec) then Some () else None);
         (actual, w) \<leftarrow> INT_CMwrite_raw env full (Some vec) (attrs \<noteq> None) w;
         if actual = 0 then do { w \<leftarrow> connection_failed w; Some (0, w) }
         else Some (1, w) } })"

definition INT_CMwrite_evcontrol :: "'t write_env \<Rightarrow> byte \<Rightarrow> int32 \<Rightarrow> 't writer \<Rightarrow> (int \<times> 't writer) option" where
  "INT_CMwrite_evcontrol env type argument w =
    (let full = evcontrol_vectors (w_host_big env) type argument
     in do {
       (r, w) \<leftarrow> INT_CMwrite_raw env full (Some (tl full)) False w;
       Some (if r \<noteq> 0 then 1 else 0, w) })"

end
