(* ===== verification/CM_Sink.thy ===== *)
theory CM_Sink
  imports CM_Write
begin

text \<open>
  What a writer puts on a connection: the bytes of the message, once and in order, between what the
  transport has taken and what is kept for it. The transport is a locale, interpreted by the sockets.
\<close>


section \<open>Nothing is lost between the message and the transport\<close>

lemma advance_splits:
  "n \<le> length (concat vs) \<Longrightarrow> vs \<noteq> [] \<Longrightarrow>
    \<exists>i k. advance n vs = Some (i, k) \<and> i < length vs \<and> k \<le> length (vs ! i) \<and>
      drop n (concat vs) = drop k (vs ! i) @ concat (drop (Suc i) vs)"
proof (induction vs arbitrary: n)
  case (Cons v vs)
  show ?case
  proof (cases "n > length v")
    case True
    then have "vs \<noteq> []" "n - length v \<le> length (concat vs)" using Cons.prems by auto
    from Cons.IH [OF this(2,1)] True show ?thesis by auto
  qed simp
qed simp

definition unsent :: "'t writer \<Rightarrow> byte list" where
  "unsent w = (if write_pending w
     then rem_header w @ rem_attr w @ (case vector_data w of None \<Rightarrow> [] | Some vec \<Rightarrow> concat vec) else [])"

definition message_vectors :: "byte list \<Rightarrow> byte list option \<Rightarrow> byte list list \<Rightarrow> byte list list" where
  "message_vectors hdr attr data = hdr # (case attr of None \<Rightarrow> data | Some a \<Rightarrow> a # data)"

lemma concat_update:
  assumes "i < length vs"
  shows "concat (drop i (vs[i := x])) = x @ concat (drop (Suc i) vs)"
  using assms by (simp add: Cons_nth_drop_Suc [symmetric])

lemma queue_remaining:
  assumes q: "queue_remaining_write me (message_vectors hdr attr data) pbio n (attr \<noteq> None) w = Some w'"
    and n: "n < length (concat (message_vectors hdr attr data))" and p: "pbio = None \<or> pbio = Some data"
  shows "rem_header w' @ rem_attr w' @ concat (the (vector_data w')) =
      drop n (concat (message_vectors hdr attr data)) \<and> vector_data w' \<noteq> None \<and> sink w' = sink w"
proof -
  let ?vs = "message_vectors hdr attr data"
  have "?vs \<noteq> []" by (simp add: message_vectors_def)
  then obtain i k where a: "advance n ?vs = Some (i, k)" "i < length ?vs" "k \<le> length (?vs ! i)"
      and d: "drop n (concat ?vs) = drop k (?vs ! i) @ concat (drop (Suc i) ?vs)"
    using advance_splits [of n ?vs] n by auto
  show ?thesis
  proof (cases attr)
    case None
    then have vs: "?vs = hdr # data" by (simp add: message_vectors_def)
    show ?thesis
      using q a d None p unfolding vs
      by (cases i) (auto simp: queue_remaining_write_def Let_def drop_Cons' Cons_nth_drop_Suc [symmetric] list_update_append
          split: bind_splits option.splits if_splits)
  next
    case (Some at)
    have vs: "message_vectors hdr (Some at) data = hdr # at # data" by (simp add: message_vectors_def)
    consider "i = 0" | "i = 1" | i' where "i = Suc (Suc i')" by (metis One_nat_def not0_implies_Suc)
    then show ?thesis
      by cases (use q a d Some p in \<open>auto simp: vs queue_remaining_write_def Let_def drop_Cons'
          Cons_nth_drop_Suc [symmetric] nat_diff_distrib split: bind_splits option.splits if_splits\<close>)
  qed
qed

lemma frames:
  "cm_wake_any_pending_write w = Some w1 \<Longrightarrow> sink w1 = sink w \<and> unsent w1 = unsent w \<and>
    write_pending w1 = write_pending w \<and> w_failed w1 = w_failed w"
  by (auto simp: cm_wake_any_pending_write_def unsent_def split: option.splits if_splits)

lemma write_done_sink:
  assumes "write_done w = Some w'"
  shows "sink w' = sink w \<and> unsent w' = [] \<and> \<not> write_pending w' \<and> w_failed w' = w_failed w"
proof -
  obtain w1 where "cm_wake_any_pending_write (w1\<lparr>write_pending := False, write_notify := False\<rparr>) = Some w'"
      "sink w1 = sink w" "w_failed w1 = w_failed w"
    using assms by (auto simp: write_done_def split: bind_splits option.splits)
  with frames [OF this(1)] show ?thesis by (simp add: unsent_def)
qed

lemma connection_failed_fails: "connection_failed w = Some w' \<Longrightarrow> w_failed w'"
  by (auto simp: connection_failed_def transport_wake_any_pending_write_def dest!: frames
      split: if_splits bind_splits)

lemma write_failed_fails:
  assumes "write_failed w = Some w'"
  shows "w_failed w'"
proof -
  obtain w1 where c: "connection_failed w = Some w1"
    using assms by (auto simp: write_failed_def split: bind_splits)
  note f = connection_failed_fails [OF c]
  show ?thesis
    using assms c f
    by (auto simp: write_failed_def dest!: frames split: bind_splits option.splits)
qed

locale byte_sink =
  fixes nbwritev :: "byte list list \<Rightarrow> 't \<Rightarrow> (nat option \<times> 't) option"
    and writev :: "byte list list \<Rightarrow> 't \<Rightarrow> (int \<times> 't) option"
    and fits :: "byte list list \<Rightarrow> bool"     \<comment> \<open>what one call can take\<close>
    and sent :: "'t \<Rightarrow> byte list"
  assumes takes: "fits vec \<Longrightarrow> nbwritev vec t = Some (Some n, t') \<Longrightarrow>
      n \<le> length (concat vec) \<and> sent t' = sent t @ take n (concat vec)"
    and takes_all: "fits vec \<Longrightarrow> writev vec t = Some (int (length vec), t') \<Longrightarrow> sent t' = sent t @ concat vec"
    and fits_less: "fits vec \<Longrightarrow> length vs \<le> length vec \<Longrightarrow> length (concat vs) \<le> length (concat vec) \<Longrightarrow> fits vs"
begin

lemma vector_sent:
  assumes "NBwritev_func env = Some nbwritev" "write_vector env w = Some w'" "write_pending w"
    and "rem_header w = []" "rem_attr w = []" "\<not> w_failed w'" "\<And>vec. vector_data w = Some vec \<Longrightarrow> fits vec"
  shows "sent (sink w') @ unsent w' = sent (sink w) @ unsent w"
proof (cases "vector_data w")
  case None
  then have "write_done w = Some w'" "unsent w = []"
    using assms by (simp_all add: write_vector_def unsent_def)
  with write_done_sink show ?thesis by metis
next
  case (Some vec)
  obtain r t where r: "nbwritev vec (sink w) = Some (r, t)"
    using assms(1,2) Some by (auto simp: write_vector_def send_vectors_def split: bind_splits)
  show ?thesis
  proof (cases r)
    case None
    with r assms Some write_failed_fails show ?thesis by (auto simp: write_vector_def send_vectors_def)
  next
    case (Some n)
    with r have s: "n \<le> length (concat vec)" "sent t = sent (sink w) @ take n (concat vec)"
      using takes [OF assms(7)] \<open>vector_data w = Some vec\<close> by blast+
    show ?thesis
    proof (cases "n < length (concat vec)")
      case True
      then obtain i k where a: "advance n vec = Some (i, k)" "i < length vec" "k \<le> length (vec ! i)"
          "drop n (concat vec) = drop k (vec ! i) @ concat (drop (Suc i) vec)"
        using advance_splits [of n vec] by fastforce
      then show ?thesis
        using assms \<open>vector_data w = Some vec\<close> r Some True s append_take_drop_id [of n "concat vec"]
        by (auto simp: write_vector_def send_vectors_def unsent_def)
    next
      case False
      then show ?thesis
        using assms \<open>vector_data w = Some vec\<close> r Some s write_done_sink
        by (fastforce simp: write_vector_def send_vectors_def unsent_def)
    qed
  qed
qed

lemma part_sent:
  assumes s: "send_vectors [p] all some env w = Some w'" "NBwritev_func env = Some nbwritev" "\<not> w_failed w'"
    and f: "fits [p]"
  obtains n t where "n < length p" "sent t = sent (sink w) @ take n p" "some n (w\<lparr>sink := t\<rparr>) = Some w'"
    | t where "sent t = sent (sink w) @ p" "all (w\<lparr>sink := t\<rparr>) = Some w'"
proof -
  obtain r t where r: "nbwritev [p] (sink w) = Some (r, t)"
    using s(1,2) by (auto simp: send_vectors_def split: bind_splits)
  show ?thesis
  proof (cases r)
    case None
    with r s write_failed_fails show ?thesis by (auto simp: send_vectors_def)
  next
    case (Some n)
    with r takes [OF f] have n: "n \<le> length p" "sent t = sent (sink w) @ take n p" by fastforce+
    show ?thesis
    proof (cases "n < length p")
      case True
      with that(1) [OF True n(2)] r s Some show ?thesis by (simp add: send_vectors_def)
    next
      case False
      with that(2) [of t] n r s Some show ?thesis by (simp add: send_vectors_def)
    qed
  qed
qed

definition parts_fit :: "'t writer \<Rightarrow> bool" where
  "parts_fit w \<longleftrightarrow> fits [rem_header w] \<and> fits [rem_attr w] \<and> (\<forall>vec. vector_data w = Some vec \<longrightarrow> fits vec)"

lemma vector_finishes:
  assumes nb: "NBwritev_func env = Some nbwritev" and w: "write_vector env w = Some w'"
    and fin: "\<not> write_pending w'" "\<not> w_failed w'" and p: "write_pending w" and f: "parts_fit w"
  shows "sent (sink w') = sent (sink w) @ (case vector_data w of None \<Rightarrow> [] | Some vec \<Rightarrow> concat vec)"
proof (cases "vector_data w")
  case None
  then have "write_done w = Some w'" using w by (simp add: write_vector_def)
  from write_done_sink [OF this] None show ?thesis by simp
next
  case (Some vec)
  obtain r t where r: "nbwritev vec (sink w) = Some (r, t)"
    using nb w Some by (auto simp: write_vector_def send_vectors_def split: bind_splits)
  show ?thesis
  proof (cases r)
    case None
    with r assms Some write_failed_fails show ?thesis by (auto simp: write_vector_def send_vectors_def)
  next
    case (Some n)
    have fv: "fits vec" using f \<open>vector_data w = Some vec\<close> by (simp add: parts_fit_def)
    have s: "n \<le> length (concat vec)" "sent t = sent (sink w) @ take n (concat vec)"
      using takes [OF fv] r Some by blast+
    show ?thesis
    proof (cases "n < length (concat vec)")
      case True
      then have "write_pending w'"
        using w nb p \<open>vector_data w = Some vec\<close> r Some
        by (auto simp: write_vector_def send_vectors_def split: bind_splits)
      with fin show ?thesis by simp
    next
      case False
      then have "write_done (w\<lparr>sink := t\<rparr>) = Some w'"
        using w nb \<open>vector_data w = Some vec\<close> r Some by (simp add: write_vector_def send_vectors_def)
      with write_done_sink False s \<open>vector_data w = Some vec\<close> show ?thesis by fastforce
    qed
  qed
qed

lemma attr_finishes:
  assumes nb: "NBwritev_func env = Some nbwritev" and w: "write_attr env w = Some w'"
    and fin: "\<not> write_pending w'" "\<not> w_failed w'" and p: "write_pending w" and f: "parts_fit w"
  shows "sent (sink w') = sent (sink w) @ rem_attr w @ (case vector_data w of None \<Rightarrow> [] | Some vec \<Rightarrow> concat vec)"
proof (cases "rem_attr w = []")
  case True
  with w vector_finishes [OF nb _ fin p f] show ?thesis by (simp add: write_attr_def)
next
  case False
  have "fits [rem_attr w]" using f by (simp add: parts_fit_def)
  from w False have s: "send_vectors [rem_attr w] (write_vector env)
       (\<lambda>actual w. Some (w\<lparr>rem_attr := drop actual (rem_attr w)\<rparr>)) env w = Some w'"
    by (simp add: write_attr_def)
  from part_sent [OF s nb fin(2) \<open>fits [rem_attr w]\<close>] show ?thesis
  proof cases
    case (1 n t)
    with fin p show ?thesis by auto
  next
    case (2 t)
    have "parts_fit (w\<lparr>sink := t\<rparr>)" using f by (simp add: parts_fit_def)
    from vector_finishes [OF nb 2(2) fin _ this] p 2(1) show ?thesis by simp
  qed
qed

text \<open>A message that has been accepted is with the transport or kept, whole.\<close>

lemma raw_write_sends:
  assumes r: "INT_CMwrite_raw env (message_vectors hdr attr data) pbio (attr \<noteq> None) w = Some (1, w')"
    and idle: "\<not> w_closed w" "\<not> w_failed w" "\<not> write_pending w"
    and p: "pbio = None \<or> pbio = Some data"
    and nb: "NBwritev_func env = None \<or> NBwritev_func env = Some nbwritev" and wr: "writev_func env = writev"
    and f: "fits (stamp (w_host_big env) (message_vectors hdr attr data))"
  shows "sent (sink w') @ unsent w' =
    sent (sink w) @ concat (stamp (w_host_big env) (message_vectors hdr attr data))"
proof -
  obtain hdr' where st: "stamp (w_host_big env) (message_vectors hdr attr data) = message_vectors hdr' attr data"
    by (simp add: stamp_def message_vectors_def Let_def)
  let ?vec = "message_vectors hdr' attr data"
  note r = r [unfolded INT_CMwrite_raw_def Let_def st] and f = f [unfolded st]
  show ?thesis
  proof (cases "do_non_blocking_write env \<and> NBwritev_func env \<noteq> None")
    case True
    then have nb: "NBwritev_func env = Some nbwritev" using nb by auto
    obtain res t where res: "nbwritev ?vec (sink w) = Some (res, t)"
      using r idle True nb by (auto split: bind_splits)
    show ?thesis
    proof (cases res)
      case None
      with r idle True nb res show ?thesis by (auto split: bind_splits)
    next
      case (Some n)
      have s: "n \<le> length (concat ?vec)" "sent t = sent (sink w) @ take n (concat ?vec)"
        using takes [OF f] res Some by blast+
      show ?thesis
      proof (cases "n < length (concat ?vec)")
        case False
        then have "w' = w\<lparr>sink := t\<rparr>" using r idle True nb res Some by simp
        with False s idle show ?thesis unfolding st by (simp add: unsent_def)
      next
        case less: True
        then obtain w1 where q: "queue_remaining_write (w_mem env) ?vec pbio n (attr \<noteq> None) (w\<lparr>sink := t\<rparr>) = Some w1"
            and w': "w' = w1\<lparr>write_notify := True, write_pending := True\<rparr>"
          using r idle True nb res Some by (auto split: bind_splits)
        note kept = queue_remaining [OF q less p]
        have "unsent w' = drop n (concat ?vec)" using kept w' by (auto simp: unsent_def)
        moreover have "sent (sink w') = sent (sink w) @ take n (concat ?vec)" using kept w' s(2) by simp
        ultimately show ?thesis unfolding st by simp
      qed
    qed
  next
    case False
    then obtain a t where a: "writev ?vec (sink w) = Some (a, t)" "a = int (length ?vec)" "w' = w\<lparr>sink := t\<rparr>"
      using r idle wr by (auto simp: message_vectors_def split: bind_splits if_splits)
    with takes_all [OF f, of "sink w" t] idle show ?thesis unfolding st by (simp add: unsent_def)
  qed
qed

lemma event_vectors_shape:
  obtains hdr where "event_vectors big stone attrs vec =
    message_vectors hdr (map_option (\<lambda>(enc, n). take (round8 n) enc) attrs) vec"
  by (cases attrs) (auto simp: event_vectors_def message_vectors_def Let_def split: prod.splits)

lemma record_vectors_shape:
  obtains hdr where "record_vectors big attrs vec =
    message_vectors hdr (map_option (\<lambda>(enc, n). take (round8 n) enc) attrs) vec"
  by (cases attrs) (auto simp: record_vectors_def message_vectors_def Let_def split: prod.splits)

lemma write_event_sends:
  assumes r: "internal_write_event env True stone attrs vec w = Some (1, w')"
    and idle: "\<not> w_closed w" "\<not> w_failed w" "\<not> write_pending w"
    and nb: "NBwritev_func env = None \<or> NBwritev_func env = Some nbwritev" and wr: "writev_func env = writev"
    and f: "fits (stamp (w_host_big env) (event_vectors (w_host_big env) stone attrs vec))"
  shows "sent (sink w') @ unsent w' =
    sent (sink w) @ concat (stamp (w_host_big env) (event_vectors (w_host_big env) stone attrs vec))"
proof -
  obtain a w1 where raw: "INT_CMwrite_raw env (event_vectors (w_host_big env) stone attrs vec) (Some vec)
      (attrs \<noteq> None) w = Some (a, w1)" and a: "a \<noteq> 0" "w' = w1"
    using r idle by (auto simp: internal_write_event_def Let_def split: bind_splits if_splits)
  have "a = 1"
    using raw a(1) idle by (auto simp: INT_CMwrite_raw_def Let_def split: bind_splits if_splits option.splits)
  with raw a(2) have raw: "INT_CMwrite_raw env (event_vectors (w_host_big env) stone attrs vec) (Some vec)
      (map_option (\<lambda>(enc, n). take (round8 n) enc) attrs \<noteq> None) w = Some (1, w')" by simp
  obtain hdr where v: "event_vectors (w_host_big env) stone attrs vec =
      message_vectors hdr (map_option (\<lambda>(enc, n). take (round8 n) enc) attrs) vec"
    by (rule event_vectors_shape)
  show ?thesis
    using raw_write_sends [OF raw [unfolded v] idle _ nb wr f [unfolded v]] unfolding v by simp
qed

text \<open>A call that finishes a pending write has sent all that was kept of it.\<close>

lemma queued_finishes:
  assumes nb: "NBwritev_func env = Some nbwritev" and w: "CMWriteQueuedData env w = Some w'"
    and fin: "\<not> write_pending w'" "\<not> w_failed w'" and p: "write_pending w" and f: "parts_fit w"
  shows "sent (sink w') = sent (sink w) @ unsent w"
proof (cases "rem_header w = []")
  case True
  with w attr_finishes [OF nb _ fin p f] p show ?thesis by (simp add: CMWriteQueuedData_def unsent_def)
next
  case False
  have "fits [rem_header w]" using f by (simp add: parts_fit_def)
  from w False have s: "send_vectors [rem_header w] (write_attr env)
       (\<lambda>actual w. Some (w\<lparr>rem_header := drop actual (rem_header w)\<rparr>)) env w = Some w'"
    by (simp add: CMWriteQueuedData_def)
  from part_sent [OF s nb fin(2) \<open>fits [rem_header w]\<close>] show ?thesis
  proof cases
    case (1 n t)
    with fin p show ?thesis by auto
  next
    case (2 t)
    have "parts_fit (w\<lparr>sink := t\<rparr>)" using f by (simp add: parts_fit_def)
    from attr_finishes [OF nb 2(2) fin _ this] p 2(1) show ?thesis by (simp add: unsent_def)
  qed
qed

text \<open>A call that finds only data left keeps what it does not send.\<close>

lemma queued_data_sent:
  assumes "NBwritev_func env = Some nbwritev" "CMWriteQueuedData env w = Some w'" "write_pending w"
    and "rem_header w = []" "rem_attr w = []" "\<not> w_failed w'" "parts_fit w"
  shows "sent (sink w') @ unsent w' = sent (sink w) @ unsent w"
  using assms vector_sent [of env w w'] by (simp add: CMWriteQueuedData_def write_attr_def parts_fit_def)

end

text \<open>A header that has been sent is sent again, when the attributes after it were not taken whole.\<close>

lemma header_sent_again:
  assumes "NBwritev_func env = Some nb" "rem_header w \<noteq> []" "n < length (rem_attr w)"
    and "nb [rem_header w] (sink w) = Some (Some (length (rem_header w)), t)"
    and "nb [rem_attr w] t = Some (Some n, t')"
  shows "CMWriteQueuedData env w = Some (w\<lparr>sink := t', rem_attr := drop n (rem_attr w)\<rparr>)"
  using assms by (auto simp: CMWriteQueuedData_def write_attr_def send_vectors_def Let_def)

end
