(* ===== verification/CM_Socket_Write.thy ===== *)
theory CM_Socket_Write
  imports CM_Socket CM_Sink
begin

text \<open>
  Writing to a socket (cmsockets.c): the blocking and the non-blocking writev of the socket
  transport over the writev of the operating system, which is a locale: what it takes is sent.
  Messages above MAX_RW_COUNT bytes go to long_writev, which is a parameter.
\<close>

datatype os_written = Wrote nat | Write_error errno

type_synonym 's os_writer = "bool \<Rightarrow> byte list list \<Rightarrow> 's \<Rightarrow> (os_written \<times> 's) option"

fun consume :: "nat \<Rightarrow> byte list list \<Rightarrow> byte list list option" where
  \<comment> \<open>the loop over iget, and what is restored of a vector that was written in part\<close>
  "consume n vs =
    (if n = 0 then Some vs
     else case vs of [] \<Rightarrow> None
          | v # vs \<Rightarrow> if length v \<le> n then consume (n - length v) vs else Some (drop n v # vs))"

declare consume.simps [simp del]

partial_function (option) writev_loop ::
  "nat \<Rightarrow> 's os_writer \<Rightarrow> int \<Rightarrow> byte list list \<Rightarrow> 's socket \<Rightarrow> (int \<times> 's socket) option" where
  \<comment> \<open>while (left > 0): the vectors that are left, iovleft of them\<close>
  "writev_loop iov_max os_writev iovcnt iov s =
    (let left = length (concat iov)
     in if left = 0 then Some (iovcnt, s)
        else do {
          (r, k) \<leftarrow> os_writev (blocking s) (take iov_max iov) (kernel s);
          let s = s\<lparr>kernel := k\<rparr>;
          case r of
            Write_error e \<Rightarrow>
              if \<not> SOCKET_ERROR_IS_WOULDBLOCK e then Some (iovcnt - int (length iov), s)
              else writev_loop iov_max os_writev iovcnt iov (set_block_state True s)
          | Wrote n \<Rightarrow>
              if n = left then Some (iovcnt, s)
              else do { iov \<leftarrow> consume n iov; writev_loop iov_max os_writev iovcnt iov s } })"

definition libcmsockets_LTX_writev_func ::
  "nat \<Rightarrow> 's os_writer \<Rightarrow> (byte list list \<Rightarrow> 's socket \<Rightarrow> (int \<times> 's socket) option) \<Rightarrow>
    byte list list \<Rightarrow> 's socket \<Rightarrow> (int \<times> 's socket) option" where
  "libcmsockets_LTX_writev_func iov_max os_writev long_writev iov s =
    (if length (concat iov) > MAX_RW_COUNT then long_writev iov s
     else writev_loop iov_max os_writev (int (length iov)) iov s)"

partial_function (option) NBwritev_loop ::
  "nat \<Rightarrow> 's os_writer \<Rightarrow> byte list list \<Rightarrow> nat \<Rightarrow> nat \<Rightarrow> 's socket \<Rightarrow> (nat option \<times> 's socket) option" where
  \<comment> \<open>iovleft and what has been written. this_write_bytes adds up the first vectors of the message, not
    those that are written now\<close>
  "NBwritev_loop iov_max os_writev iov iovleft written s =
    (if written = length (concat iov) then Some (Some written, s)
     else do {
       let write_count = min iovleft iov_max;
       let this_write_bytes = length (concat (take write_count iov));
       (r, k) \<leftarrow> os_writev (blocking s) (take write_count (drop (length iov - iovleft) iov)) (kernel s);
       let s = s\<lparr>kernel := k\<rparr>;
       case r of
         Write_error e \<Rightarrow> Some (if \<not> SOCKET_ERROR_IS_WOULDBLOCK e then None else Some written, s)
       | Wrote n \<Rightarrow>
           if n \<noteq> this_write_bytes then Some (Some (written + n), s)
           else NBwritev_loop iov_max os_writev iov (iovleft - write_count) (written + n) s })"

definition libcmsockets_LTX_NBwritev_func ::
  "nat \<Rightarrow> 's os_writer \<Rightarrow> byte list list \<Rightarrow> 's socket \<Rightarrow> (nat option \<times> 's socket) option" where
  "libcmsockets_LTX_NBwritev_func iov_max os_writev iov s =
    NBwritev_loop iov_max os_writev iov (length iov) 0 (set_block_state False s)"

definition libcmsockets_LTX_set_write_notify :: "bool \<Rightarrow> 't writer \<Rightarrow> 't writer" where
  \<comment> \<open>the connection is in the write set of select\<close>
  "libcmsockets_LTX_set_write_notify enable w = w\<lparr>write_notify := enable\<rparr>"

section \<open>A socket is a sink of bytes\<close>

lemma consume_drops:
  "n \<le> length (concat vs) \<Longrightarrow> \<exists>vs'. consume n vs = Some vs' \<and> concat vs' = drop n (concat vs)"
proof (induction vs arbitrary: n)
  case Nil
  then show ?case by (simp add: consume.simps)
next
  case (Cons v vs)
  then show ?case by (auto simp: consume.simps [of n "v # vs"])
qed

locale socket_out =
  fixes os_writev :: "'s os_writer" and out :: "'s \<Rightarrow> byte list" and iov_max :: nat
  assumes os_takes: "os_writev b vec k = Some (Wrote n, k') \<Longrightarrow>
      n \<le> length (concat vec) \<and> out k' = out k @ take n (concat vec)"
    and os_refuses: "os_writev b vec k = Some (Write_error e, k') \<Longrightarrow> out k' = out k"
    and iov_max: "0 < iov_max"
begin

lemma take_prefix: "n \<le> length (concat (take m vs)) \<Longrightarrow>
    n \<le> length (concat vs) \<and> take n (concat (take m vs)) = take n (concat vs)"
proof -
  have "concat vs = concat (take m vs) @ concat (drop m vs)" by (metis append_take_drop_id concat_append)
  then show "n \<le> length (concat (take m vs)) \<Longrightarrow> ?thesis" by simp
qed

lemma writev_sends:
  assumes "writev_loop iov_max os_writev cnt iov s = Some (r, s')"
  shows "r = cnt \<longrightarrow> int (length iov) \<le> cnt \<longrightarrow> out (kernel s') = out (kernel s) @ concat iov"
proof -
  have "m = iov_max \<longrightarrow> os = os_writev \<longrightarrow> fst y = cnt \<longrightarrow> out (kernel (snd y)) = out (kernel s) @ concat iov"
    if "writev_loop m os cnt iov s = Some y" for m os y
  proof (rule writev_loop.raw_induct [where P = "\<lambda>m os cnt iov s y. m = iov_max \<longrightarrow> os = os_writev \<longrightarrow>
      fst y = cnt \<longrightarrow> out (kernel (snd y)) = out (kernel s) @ concat iov", OF _ that], goal_cases)
    case (1 loop m os cnt iov s y)
    note IH = 1(1) and body = 1(2)
    show ?case
    proof (intro impI)
      assume m: "m = iov_max" and os: "os = os_writev" and y: "fst y = cnt"
      show "out (kernel (snd y)) = out (kernel s) @ concat iov"
      proof (cases "concat iov = []")
        case True
        with body show ?thesis by auto
      next
        case False
        then obtain r k where r: "os_writev (blocking s) (take iov_max iov) (kernel s) = Some (r, k)"
          using body os m by (auto simp: Let_def simp del: concat_eq_Nil_conv split: bind_splits)
        show ?thesis
        proof (cases r)
          case (Write_error e)
          show ?thesis
          proof (cases "SOCKET_ERROR_IS_WOULDBLOCK e")
            case True
            then have "loop m os cnt iov (set_block_state True (s\<lparr>kernel := k\<rparr>)) = Some y"
              using body False r Write_error os m by (simp add: Let_def del: concat_eq_Nil_conv)
            from IH [OF this] m os y os_refuses r Write_error show ?thesis
              by (auto simp: set_block_state_def split: if_splits)
          next
            case serious: False
            then have "y = (cnt - int (length iov), s\<lparr>kernel := k\<rparr>)"
              using body False r Write_error os m by (simp add: Let_def del: concat_eq_Nil_conv)
            with y False show ?thesis by (cases iov) auto
          qed
        next
          case (Wrote n)
          have n: "n \<le> length (concat iov)" "out k = out (kernel s) @ take n (concat iov)"
            using os_takes r Wrote take_prefix by metis+
          show ?thesis
          proof (cases "n = length (concat iov)")
            case True
            then have "y = (cnt, s\<lparr>kernel := k\<rparr>)" using body False r Wrote os m by (simp add: Let_def del: concat_eq_Nil_conv)
            with n True show ?thesis by simp
          next
            case part: False
            obtain iov' where c: "consume n iov = Some iov'" "concat iov' = drop n (concat iov)"
              using consume_drops [OF n(1)] by blast
            then have "loop m os cnt iov' (s\<lparr>kernel := k\<rparr>) = Some y"
              using body False part r Wrote os m by (simp add: Let_def del: concat_eq_Nil_conv)
            from IH [OF this] m os y n c show ?thesis by simp
          qed
        qed
      qed
    qed
  qed
  from this [OF assms] show ?thesis by simp
qed

lemma NBwritev_first:
  assumes "concat iov \<noteq> []" "length iov \<le> iov_max"
  shows "NBwritev_loop iov_max os_writev iov (length iov) 0 s = do {
       (r, k) \<leftarrow> os_writev (blocking s) iov (kernel s);
       let s = s\<lparr>kernel := k\<rparr>;
       case r of
         Write_error e \<Rightarrow> Some (if \<not> SOCKET_ERROR_IS_WOULDBLOCK e then None else Some 0, s)
       | Wrote n \<Rightarrow>
           if n \<noteq> length (concat iov) then Some (Some n, s)
           else NBwritev_loop iov_max os_writev iov 0 n s }"
proof -
  have "min (length iov) iov_max = length iov" using assms(2) by simp
  then show ?thesis
    using assms(1) by (subst NBwritev_loop.simps) (simp add: Let_def del: concat_eq_Nil_conv cong: os_written.case_cong if_cong)
qed

lemma NBwritev_sends:
  assumes "libcmsockets_LTX_NBwritev_func iov_max os_writev iov s = Some (Some n, s')" "length iov \<le> iov_max"
  shows "n \<le> length (concat iov) \<and> out (kernel s') = out (kernel s) @ take n (concat iov)"
proof -
  let ?s = "set_block_state False s"
  have k: "kernel ?s = kernel s" by (simp add: set_block_state_def)
  have n: "NBwritev_loop iov_max os_writev iov (length iov) 0 ?s = Some (Some n, s')"
    using assms(1) by (simp add: libcmsockets_LTX_NBwritev_func_def)
  show ?thesis
  proof (cases "concat iov = []")
    case True
    with n k show ?thesis by (subst (asm) NBwritev_loop.simps) auto
  next
    case False
    note n = n [unfolded NBwritev_first [OF False assms(2)]]
    then obtain r q where r: "os_writev (blocking ?s) iov (kernel s) = Some (r, q)"
      using k by (auto split: bind_splits)
    show ?thesis
    proof (cases r)
      case (Write_error e)
      with r n k os_refuses show ?thesis by (fastforce simp: Let_def split: if_splits)
    next
      case (Wrote m)
      then have m: "m \<le> length (concat iov)" "out q = out (kernel s) @ take m (concat iov)"
        using os_takes r by blast+
      show ?thesis
      proof (cases "m = length (concat iov)")
        case True
        with r n k Wrote have "NBwritev_loop iov_max os_writev iov 0 m (?s\<lparr>kernel := q\<rparr>) = Some (Some n, s')"
          by (simp add: Let_def)
        with m True show ?thesis by (subst (asm) NBwritev_loop.simps) auto
      next
        case less: False
        with r n k Wrote m show ?thesis by (auto simp: Let_def)
      qed
    qed
  qed
qed

end

definition one_writev :: "nat \<Rightarrow> byte list list \<Rightarrow> bool" where
  \<comment> \<open>what a single writev of the operating system can be given\<close>
  "one_writev iov_max vec \<longleftrightarrow> length vec \<le> iov_max \<and> length (concat vec) \<le> MAX_RW_COUNT"

sublocale socket_out \<subseteq> socket: byte_sink
  "libcmsockets_LTX_NBwritev_func iov_max os_writev" "libcmsockets_LTX_writev_func iov_max os_writev lw"
  "one_writev iov_max" "\<lambda>s. out (kernel s)" for lw
proof
  fix vec s n s'
  assume "one_writev iov_max vec" "libcmsockets_LTX_NBwritev_func iov_max os_writev vec s = Some (Some n, s')"
  then show "n \<le> length (concat vec) \<and> out (kernel s') = out (kernel s) @ take n (concat vec)"
    using NBwritev_sends by (simp add: one_writev_def)
next
  fix vec s s'
  assume "one_writev iov_max vec"
    "libcmsockets_LTX_writev_func iov_max os_writev lw vec s = Some (int (length vec), s')"
  then show "out (kernel s') = out (kernel s) @ concat vec"
    using writev_sends by (simp add: one_writev_def libcmsockets_LTX_writev_func_def)
next
  fix vec vs :: "byte list list"
  assume "one_writev iov_max vec" "length vs \<le> length vec" "length (concat vs) \<le> length (concat vec)"
  then show "one_writev iov_max vs" by (simp add: one_writev_def)
qed

section \<open>A kernel\<close>

text \<open>A send buffer that takes some bytes at each call.\<close>

definition kernel_write :: "nat \<Rightarrow> byte list os_writer" where
  "kernel_write piece blocks vec q = Some (Wrote (min (Suc piece) (length (concat vec))), q @ take (Suc piece) (concat vec))"

interpretation send_buffer: socket_out "kernel_write piece" "\<lambda>q. q" "Suc m" for piece m
  by unfold_locales (auto simp: kernel_write_def min_def)

end
