(* ===== verification/CM_Transfer.thy ===== *)
theory CM_Transfer
  imports CM_Socket_Write
begin

text \<open>
  Both ends of a socket: events written on one host and delivered on the other, whatever the byte
  orders of the two are.
\<close>

text \<open>An event: the stone it is for, its attributes and the vectors of its data.\<close>

type_synonym sent_event = "int32 \<times> (byte list \<times> nat) option \<times> byte list list"

definition event_fits :: "sent_event \<Rightarrow> bool" where
  "event_fits = (\<lambda>(stone, attrs, vec). length (concat vec) \<le> 0x7fffffff \<and> attrs_fit attrs)"

definition event_bytes :: "bool \<Rightarrow> sent_event \<Rightarrow> byte list" where
  "event_bytes big = (\<lambda>(stone, attrs, vec). concat (stamp big (event_vectors big stone attrs vec)))"

definition received_event :: "sent_event \<Rightarrow> message" where
  "received_event = (\<lambda>(stone, attrs, vec). Event (attr_bytes attrs) (concat vec) stone)"

lemma event_arrives:
  assumes "event_fits ev"
  shows "sent_ok big (event_bytes big' ev) \<and> CMact_on_data big (event_bytes big' ev) = Some (received_event ev)"
  using assms event_roundtrip
  by (auto simp: event_fits_def event_bytes_def received_event_def sent_ok_def split: prod.splits)

lemma events_arrive:
  assumes "\<forall>ev \<in> set evs. event_fits ev"
  shows "(\<forall>m \<in> set (map (event_bytes big') evs). sent_ok big m) \<and>
    map (\<lambda>m. the (CMact_on_data big m)) (map (event_bytes big') evs) = map received_event evs"
  using assms event_arrives by auto

lemma event_not_empty: "event_fits ev \<Longrightarrow> event_bytes big ev \<noteq> []"
  using event_arrives [of ev False big] by (auto simp: sent_ok_def whole_message_def get_int_def)

section \<open>Reading a stream of events\<close>

context quiet_os begin

lemma stream_read:
  assumes rd: "read_to_buffer env = libcmsockets_LTX_read_to_buffer_func os_read"
    and env: "memory_lasts (rd_mem env)" "receivers_ok env" "\<not> use_read_thread env"
    and evs: "evs \<noteq> []" "\<forall>ev \<in> set evs. event_fits ev"
    and st: "buffer_full_point st = 0" "read_bytes st = []" "\<not> conn_failed st" "\<not> abort_read_ahead st"
      "bufs_ok (rd_bufs st)"
    and arrived: "arrived (kernel (source st)) = concat (map (event_bytes big') evs)"
    and limits: "length evs \<le> read_ahead_msg_limit env"
      "length (concat (map (event_bytes big') evs)) \<le> read_ahead_byte_limit env"
  shows "\<exists>st'. CMDataAvailable env st = Some st' \<and> \<not> conn_failed st' \<and>
    delivered st' = delivered st @ map received_event evs"
proof -
  let ?ms = "map (event_bytes big') evs"
  have at: "stream_at (\<lambda>s. arrived (kernel s)) ?ms (read_bytes st) (buffer_full_point st) st"
    using st arrived by (simp add: stream_at_def at_stage_def)
  have hold: "holds_buffer (if buffer_full_point st = 0 then None else message_buffer st) (rd_bufs st)"
    using st by (simp add: holds_buffer_def)
  note ok = events_arrive [OF evs(2), where big = "host_big env" and big' = big']
  show ?thesis
    using socket.data_available_progress [OF rd conjunct1 [OF ok] env _ at st(3,4) hold] evs(1) limits
    unfolding conjunct2 [OF ok] by simp
qed

end

context socket_os begin

lemma stream_prefix:
  assumes "read_to_buffer env = libcmsockets_LTX_read_to_buffer_func os_read"
    and "data_available_calls env n st = Some st'"
    and evs: "\<forall>ev \<in> set evs. event_fits ev"
    and st: "buffer_full_point st = 0" "read_bytes st = []"
    and arrived: "arrived (kernel (source st)) = concat (map (event_bytes big') evs)"
  shows "\<exists>k \<le> length evs. delivered st' = delivered st @ map received_event (take k evs)"
proof -
  let ?ms = "map (event_bytes big') evs"
  have at: "stream_at (\<lambda>s. arrived (kernel s)) ?ms (read_bytes st) (buffer_full_point st) st"
    using st arrived by (simp add: stream_at_def at_stage_def)
  obtain k where "k \<le> length evs"
      "delivered st' = delivered st @ map (\<lambda>m. the (CMact_on_data (host_big env) m)) (map (event_bytes big') (take k evs))"
    using socket.calls_deliver [OF assms(2,1) _ at] events_arrive [OF evs, where big = "host_big env" and big' = big']
    by (auto simp: reads_to_def take_map)
  moreover have "\<forall>ev \<in> set (take k evs). event_fits ev" using evs by (auto dest: in_set_takeD)
  ultimately show ?thesis
    using events_arrive [of "take k evs" big' "host_big env"] by (intro exI [of _ k]) simp
qed

end

section \<open>Writing a stream of events\<close>

fun write_events :: "'t write_env \<Rightarrow> sent_event list \<Rightarrow> 't writer \<Rightarrow> 't writer option" where
  \<comment> \<open>one internal_write_event after another, as long as they succeed\<close>
  "write_events env [] w = Some w"
| "write_events env ((stone, attrs, vec) # evs) w =
    do {
      (r, w) \<leftarrow> internal_write_event env True stone attrs vec w;
      if r = 1 then write_events env evs w else None }"

definition idle_writer :: "'t writer \<Rightarrow> bool" where
  "idle_writer w \<longleftrightarrow> \<not> w_closed w \<and> \<not> w_failed w \<and> \<not> write_pending w"

lemma blocking_stays_idle:
  assumes "\<not> do_non_blocking_write env" "idle_writer w" "internal_write_event env True stone attrs vec w = Some (1, w')"
  shows "idle_writer w'"
proof -
  have "INT_CMwrite_raw env full pb b w = Some (a, w1) \<Longrightarrow> a \<noteq> 0 \<Longrightarrow> full \<noteq> [] \<Longrightarrow> idle_writer w1"
    for full pb b a w1
    using assms(1,2)
    by (auto simp: INT_CMwrite_raw_def idle_writer_def Let_def stamp_def split: bind_splits if_splits)
  moreover have "event_vectors (w_host_big env) stone attrs vec \<noteq> []"
    by (auto simp: event_vectors_def Let_def split: option.splits)
  ultimately show ?thesis
    using assms(2,3) by (auto simp: internal_write_event_def idle_writer_def Let_def split: bind_splits if_splits)
qed

context byte_sink begin

lemma events_sent:
  assumes "write_events env evs w = Some w'" "idle_writer w" "\<not> do_non_blocking_write env"
    and "NBwritev_func env = None \<or> NBwritev_func env = Some nbwritev" "writev_func env = writev"
    and "\<forall>(stone, attrs, vec) \<in> set evs. fits (stamp (w_host_big env) (event_vectors (w_host_big env) stone attrs vec))"
  shows "sent (sink w') = sent (sink w) @ concat (map (event_bytes (w_host_big env)) evs) \<and> idle_writer w'"
  using assms
proof (induction evs arbitrary: w)
  case (Cons ev evs)
  obtain stone attrs vec where ev: "ev = (stone, attrs, vec)" by (cases ev)
  obtain w1 where w1: "internal_write_event env True stone attrs vec w = Some (1, w1)"
      "write_events env evs w1 = Some w'"
    using Cons.prems(1) ev by (auto split: bind_splits if_splits)
  have idle: "idle_writer w1" by (rule blocking_stays_idle [OF Cons.prems(3,2) w1(1)])
  have "sent (sink w1) @ unsent w1 = sent (sink w) @ event_bytes (w_host_big env) ev"
    using write_event_sends [OF w1(1)] Cons.prems ev by (simp add: idle_writer_def event_bytes_def)
  moreover have "unsent w1 = []" using idle by (simp add: idle_writer_def unsent_def)
  ultimately show ?case using Cons.IH [OF w1(2) idle Cons.prems(3-5)] Cons.prems(6) by simp
qed simp

end

context socket_out begin

lemma socket_write_event:
  assumes "internal_write_event env True stone attrs vec w = Some (1, w')" "idle_writer w"
    and "NBwritev_func env = None \<or> NBwritev_func env = Some (libcmsockets_LTX_NBwritev_func iov_max os_writev)"
    and "writev_func env = libcmsockets_LTX_writev_func iov_max os_writev lw"
    and "one_writev iov_max (stamp (w_host_big env) (event_vectors (w_host_big env) stone attrs vec))"
  shows "out (kernel (sink w')) @ unsent w' = out (kernel (sink w)) @ event_bytes (w_host_big env) (stone, attrs, vec)"
  using socket.write_event_sends [OF assms(1) _ _ _ assms(3-5)] assms(2)
  by (simp add: idle_writer_def event_bytes_def)

lemma socket_is_sink: "byte_sink (libcmsockets_LTX_NBwritev_func iov_max os_writev)
    (libcmsockets_LTX_writev_func iov_max os_writev lw) (one_writev iov_max) (\<lambda>s. out (kernel s))"
  by (rule socket.byte_sink_axioms)

lemmas socket_events_sent = socket.events_sent

lemmas socket_queued_finishes = socket.queued_finishes

lemmas socket_queued_data_sent = socket.queued_data_sent

end

section \<open>A host at each end\<close>

definition ex_mem :: mem_env where
  "ex_mem = \<lparr>CMmalloc = (\<lambda>n s. 100), CMrealloc = (\<lambda>a n s. Some a)\<rparr>"

definition ex_bufs :: buffers where
  "ex_bufs = \<lparr>buf_heap = (\<lambda>_. None), cm_buffer_list = [], next_buf = 0, callbacks = []\<rparr>"

definition ex_socket :: "byte list \<Rightarrow> byte list socket" where
  "ex_socket q = \<lparr>blocking = True, kernel = q\<rparr>"

definition ex_write_env :: "bool \<Rightarrow> bool \<Rightarrow> nat \<Rightarrow> byte list socket write_env" where
  "ex_write_env big nb piece = \<lparr>w_host_big = big, w_mem = ex_mem, do_non_blocking_write = nb,
     NBwritev_func = Some (libcmsockets_LTX_NBwritev_func (Suc 15) (kernel_write piece)),
     writev_func = libcmsockets_LTX_writev_func (Suc 15) (kernel_write piece) (\<lambda>iov s. None)\<rparr>"

definition ex_writer :: "byte list socket writer" where
  "ex_writer = \<lparr>sink = ex_socket [], rem_header = [], rem_attr = [], vector_data = None, buffer_to_free = None,
     write_pending = False, write_notify = False, w_closed = False, w_failed = False, w_bufs = ex_bufs,
     write_callbacks = None, callbacks_run = []\<rparr>"

definition ex_read_env :: "bool \<Rightarrow> nat \<Rightarrow> byte list socket read_env" where
  "ex_read_env big piece = \<lparr>host_big = big, rd_mem = ex_mem,
     read_to_buffer = libcmsockets_LTX_read_to_buffer_func (kernel_read piece), use_blocking_reads = True,
     use_read_thread = False, read_ahead_msg_limit = 10, read_ahead_byte_limit = 1000,
     receive = (\<lambda>msg mb s. (s, False)), non_cm = (\<lambda>first bs. None)\<rparr>"

definition ex_reader :: "byte list \<Rightarrow> byte list socket reader" where
  "ex_reader q = \<lparr>source = ex_socket q, message_buffer = None, buffer_full_point = 0, read_bytes = [],
     conn_failed = False, conn_closed = False, abort_read_ahead = False, rd_bufs = ex_bufs, delivered = []\<rparr>"

lemmas ex_cm_simps = ex_mem_def ex_bufs_def ex_socket_def ex_write_env_def ex_writer_def ex_read_env_def
  ex_reader_def idle_writer_def memory_lasts_def receivers_ok_def bufs_ok_def one_writev_def

end
