(* ===== verification/CM_Conn.thy ===== *)
theory CM_Conn
  imports CM_Control CM_Wire
begin

text \<open>
  Connections of a CManager (cm.c): creation, reference counts, failure with its close handlers,
  closing, and the end of the CManager. Connections live in a heap; one that has been freed is
  gone from it. The transport is the socket transport, whose shutdown gives back the reference the
  transport holds. Close handlers, shutdown functions and the network while a write is awaited are
  parameters on the whole state.
\<close>

record connection =
  conn_ref_count :: int
  is_closed :: bool
  is_failed :: bool
  close_list :: "(addr \<times> addr) list"          \<comment> \<open>close_handler and close_client_data\<close>
  is_write_pending :: bool
  non_blocking_write :: bool                  \<comment> \<open>do_non_blocking_write\<close>
  read_thread :: bool                         \<comment> \<open>use_read_thread\<close>
  bw_measure_task :: "addr ptr"               \<comment> \<open>CM_BW_MEASURE_TASK of the characteristics\<close>
  conn_attrs :: "addr ptr"
  conn_trans :: string
  remote_format_server_ID :: int32
  remote_CManager_ID :: int32
  handshake_condition :: int

datatype task_type = NO_TASK | SHUTDOWN_TASK | FREE_TASK

datatype conn_effect =
    Shutdown_conn conn                        \<comment> \<open>descriptor removed from select and closed\<close>
  | Wake_writers conn
  | Remove_task addr
  | Close_handler addr conn addr
  | Forget_connection conn
  | Free_conn conn
  | Handshake_sent conn "byte list"
  | Handshake_failed conn
  | Second_handshake conn
  | Not_found conn                            \<comment> \<open>the internal error of remove_conn_from_CM\<close>
  | Run_shutdown_function addr addr
  | Stop_select
  | Free_control_list
  | Free_CManager

record cmanager =
  conn_heap :: "conn \<Rightarrow> connection ptr"
  conn_list :: "conn list"                    \<comment> \<open>connections, connection_count of them\<close>
  next_conn :: conn
  cm_control :: control_list
  cm_reference_count :: int
  FFSserver_identifier :: int32
  CManager_ID :: int32
  shutdown_functions :: "(addr \<times> task_type \<times> addr) list ptr"
  conn_effects :: "conn_effect list"          \<comment> \<open>newest first\<close>

record conn_env =
  run_close_handler :: "addr \<Rightarrow> conn \<Rightarrow> addr \<Rightarrow> cmanager \<Rightarrow> cmanager option"
  wait_written :: "conn \<Rightarrow> cmanager \<Rightarrow> cmanager option"
  run_shutdown_function :: "addr \<Rightarrow> addr \<Rightarrow> cmanager \<Rightarrow> cmanager option"
  non_block_default :: bool                   \<comment> \<open>CMNonBlockWrite\<close>
  read_thread_default :: bool                 \<comment> \<open>CMReadThread\<close>
  conn_blocking :: "addr ptr \<Rightarrow> bool option"  \<comment> \<open>CM_CONN_BLOCKING of the attributes\<close>

definition mod_conn :: "conn \<Rightarrow> (connection \<Rightarrow> connection) \<Rightarrow> cmanager \<Rightarrow> cmanager option" where
  "mod_conn c f s = do { k \<leftarrow> conn_heap s c; Some (s\<lparr>conn_heap := (conn_heap s)(c := Some (f k))\<rparr>) }"

definition conn_emit :: "conn_effect \<Rightarrow> cmanager \<Rightarrow> cmanager" where
  "conn_emit x s = s\<lparr>conn_effects := x # conn_effects s\<rparr>"

section \<open>References\<close>

definition INT_CMConnection_add_reference :: "conn \<Rightarrow> cmanager \<Rightarrow> cmanager option" where
  "INT_CMConnection_add_reference c s = mod_conn c (\<lambda>k. k\<lparr>conn_ref_count := conn_ref_count k + 1\<rparr>) s"

definition conn_wait_for_write :: "conn_env \<Rightarrow> conn \<Rightarrow> cmanager \<Rightarrow> cmanager option" where
  \<comment> \<open>wait_for_pending_write: while (conn->write_pending && !conn->closed)\<close>
  "conn_wait_for_write env c s =
    do { k \<leftarrow> conn_heap s c;
         if is_write_pending k \<and> \<not> is_closed k then wait_written env c s else Some s }"

definition free_connection :: "conn \<Rightarrow> cmanager \<Rightarrow> cmanager option" where
  "free_connection c s =
    do { _ \<leftarrow> conn_heap s c;
         let s = conn_emit (Forget_connection c) s;
         Some (conn_emit (Free_conn c) (s\<lparr>conn_heap := (conn_heap s)(c := None)\<rparr>)) }"

definition dereference_with ::
  "(conn \<Rightarrow> cmanager \<Rightarrow> cmanager option) \<Rightarrow> conn_env \<Rightarrow> conn \<Rightarrow> cmanager \<Rightarrow> cmanager option" where
  \<comment> \<open>the first argument is INT_CMConnection_failed\<close>
  "dereference_with fail env c s =
    do {
      s \<leftarrow> mod_conn c (\<lambda>k. k\<lparr>conn_ref_count := conn_ref_count k - 1\<rparr>) s;
      k \<leftarrow> conn_heap s c;
      if conn_ref_count k > 0 then Some s
      else if conn_ref_count k < 0 then Some s
      else do {
        s \<leftarrow> conn_wait_for_write env c s;
        s \<leftarrow> mod_conn c (\<lambda>k. k\<lparr>is_closed := True\<rparr>) s;
        k \<leftarrow> conn_heap s c;
        s \<leftarrow> (if \<not> is_failed k then fail c s else Some s);
        free_connection c s } }"

definition dereference_failed :: "conn_env \<Rightarrow> conn \<Rightarrow> cmanager \<Rightarrow> cmanager option" where
  \<comment> \<open>INT_CMConnection_dereference of a connection that has failed: no second failure\<close>
  "dereference_failed = dereference_with (\<lambda>c s. None)"

fun remove_loop :: "conn_env \<Rightarrow> conn \<Rightarrow> nat \<Rightarrow> nat \<Rightarrow> nat \<Rightarrow> cmanager \<Rightarrow> (nat \<times> cmanager) option" where
  \<comment> \<open>from position i over n connections\<close>
  "remove_loop env c i 0 found s = Some (found, s)"
| "remove_loop env c i (Suc n) found s =
    (if i \<ge> length (conn_list s) then None
     else if conn_list s ! i = c
     then do { s \<leftarrow> dereference_failed env c s; remove_loop env c (Suc i) n (found + 1) s }
     else remove_loop env c (Suc i) n found
       (if found > 0 then s\<lparr>conn_list := (conn_list s)[i - 1 := conn_list s ! i]\<rparr> else s))"

definition remove_conn_from_CM :: "conn_env \<Rightarrow> conn \<Rightarrow> cmanager \<Rightarrow> cmanager option" where
  "remove_conn_from_CM env c s =
    do {
      (found, s) \<leftarrow> remove_loop env c 0 (length (conn_list s)) 0 s;
      Some (if found = 0 then conn_emit (Not_found c) s
            else s\<lparr>conn_list := butlast (conn_list s),
                   cm_control := (cm_control s)\<lparr>abort_read_ahead := True\<rparr>\<rparr>) }"

definition conn_shutdown :: "conn_env \<Rightarrow> conn \<Rightarrow> cmanager \<Rightarrow> cmanager option" where
  \<comment> \<open>libcmsockets_LTX_shutdown_conn\<close>
  "conn_shutdown env c s =
    do { s \<leftarrow> dereference_failed env c s; Some (conn_emit (Shutdown_conn c) s) }"

fun close_handlers :: "conn_env \<Rightarrow> conn \<Rightarrow> (addr \<times> addr) list \<Rightarrow> cmanager \<Rightarrow> cmanager option" where
  \<comment> \<open>none is called once the connection is closed\<close>
  "close_handlers env c [] s = Some s"
| "close_handlers env c ((f, data) # hs) s =
    do {
      k \<leftarrow> conn_heap s c;
      s \<leftarrow> (if \<not> is_closed k then run_close_handler env f c data (conn_emit (Close_handler f c data) s)
            else Some s);
      close_handlers env c hs s }"

definition INT_CMConnection_failed :: "conn_env \<Rightarrow> conn \<Rightarrow> cmanager \<Rightarrow> cmanager option" where
  "INT_CMConnection_failed env c s =
    do {
      k \<leftarrow> conn_heap s c;
      if is_failed k then Some s
      else do {
        s \<leftarrow> mod_conn c (\<lambda>k. k\<lparr>is_failed := True, is_write_pending := False\<rparr>) s;
        let s = conn_emit (Wake_writers c) s;
        let s = s\<lparr>cm_control := CMconn_fail_conditions c (cm_control s)\<rparr>;
        s \<leftarrow> conn_shutdown env c s;
        k \<leftarrow> conn_heap s c;
        s \<leftarrow> (case bw_measure_task k of
                None \<Rightarrow> Some s
              | Some t \<Rightarrow> mod_conn c (\<lambda>k. k\<lparr>bw_measure_task := None\<rparr>) (conn_emit (Remove_task t) s));
        k \<leftarrow> conn_heap s c;
        s \<leftarrow> mod_conn c (\<lambda>k. k\<lparr>close_list := []\<rparr>) s;
        s \<leftarrow> close_handlers env c (close_list k) s;
        s \<leftarrow> mod_conn c (\<lambda>k. k\<lparr>is_closed := True\<rparr>) s;
        remove_conn_from_CM env c s } }"

definition INT_CMConnection_dereference :: "conn_env \<Rightarrow> conn \<Rightarrow> cmanager \<Rightarrow> cmanager option" where
  "INT_CMConnection_dereference env = dereference_with (INT_CMConnection_failed env) env"

section \<open>Opening and closing\<close>

definition add_conn_to_CM :: "conn \<Rightarrow> cmanager \<Rightarrow> cmanager option" where
  "add_conn_to_CM c s = INT_CMConnection_add_reference c (s\<lparr>conn_list := conn_list s @ [c]\<rparr>)"

definition CMConnection_create :: "conn_env \<Rightarrow> string \<Rightarrow> addr ptr \<Rightarrow> cmanager \<Rightarrow> (conn \<times> cmanager) option" where
  "CMConnection_create env tr attrs s =
    (let c = next_conn s;
         k = \<lparr>conn_ref_count = 1, is_closed = False, is_failed = False, close_list = [],
              is_write_pending = False,
              non_blocking_write = (case conn_blocking env attrs of None \<Rightarrow> non_block_default env | Some b \<Rightarrow> \<not> b),
              read_thread = read_thread_default env, bw_measure_task = None, conn_attrs = attrs,
              conn_trans = tr, remote_format_server_ID = 0, remote_CManager_ID = 0,
              handshake_condition = -1\<rparr>
     in do {
       s \<leftarrow> add_conn_to_CM c (s\<lparr>conn_heap := (conn_heap s)(c := Some k), next_conn := c + 1\<rparr>);
       Some (c, s) })"

definition internal_connection_close :: "conn \<Rightarrow> cmanager \<Rightarrow> cmanager option" where
  "internal_connection_close c s = mod_conn c (\<lambda>k. k\<lparr>is_closed := True\<rparr>) s"

definition INT_CMConnection_close :: "conn_env \<Rightarrow> conn \<Rightarrow> cmanager \<Rightarrow> cmanager option" where
  "INT_CMConnection_close env c s =
    do { s \<leftarrow> internal_connection_close c s; INT_CMConnection_dereference env c s }"

definition INT_CMconn_register_close_handler :: "conn \<Rightarrow> addr \<Rightarrow> addr \<Rightarrow> cmanager \<Rightarrow> cmanager option" where
  "INT_CMconn_register_close_handler c func data s =
    mod_conn c (\<lambda>k. k\<lparr>close_list := close_list k @ [(func, data)]\<rparr>) s"

definition INT_CMget_indexed_conn :: "int \<Rightarrow> cmanager \<Rightarrow> conn ptr" where
  "INT_CMget_indexed_conn i s =
    (if 0 \<le> i \<and> i < int (length (conn_list s)) then Some (conn_list s ! nat i) else None)"

section \<open>The end of a CManager\<close>

partial_function (option) close_connections :: "conn_env \<Rightarrow> cmanager \<Rightarrow> cmanager option" where
  \<comment> \<open>while (cm->connection_count != 0)\<close>
  "close_connections env s =
    (case conn_list s of
       [] \<Rightarrow> Some s
     | c # _ \<Rightarrow> do {
         s \<leftarrow> internal_connection_close c s;
         s \<leftarrow> (case conn_list s of [] \<Rightarrow> None | c # _ \<Rightarrow> INT_CMConnection_failed env c s);
         close_connections env s })"

definition internal_add_shutdown_task :: "addr \<Rightarrow> addr \<Rightarrow> task_type \<Rightarrow> cmanager \<Rightarrow> cmanager" where
  "internal_add_shutdown_task func data t s =
    s\<lparr>shutdown_functions := Some ((case shutdown_functions s of None \<Rightarrow> [] | Some fs \<Rightarrow> fs) @ [(func, t, data)])\<rparr>"

fun run_shutdown_tasks :: "conn_env \<Rightarrow> nat \<Rightarrow> nat \<Rightarrow> cmanager \<Rightarrow> cmanager option" where
  \<comment> \<open>from position i over n functions; the array is the one that was there at first, which is gone
    when a function has added another one\<close>
  "run_shutdown_tasks env i 0 s = Some s"
| "run_shutdown_tasks env i (Suc n) s =
    do {
      fs \<leftarrow> shutdown_functions s;
      if length fs \<noteq> i + Suc n then None
      else (case fs ! i of (func, t, data) \<Rightarrow>
        if t = SHUTDOWN_TASK then do {
          s \<leftarrow> run_shutdown_function env func data (conn_emit (Run_shutdown_function func data) s);
          fs' \<leftarrow> shutdown_functions s;
          if length fs' \<noteq> length fs then None
          else run_shutdown_tasks env (Suc i) n
            (s\<lparr>shutdown_functions := Some (fs'[i := (func, NO_TASK, data)])\<rparr>) }
        else run_shutdown_tasks env (Suc i) n s) }"

fun run_free_tasks :: "conn_env \<Rightarrow> (addr \<times> task_type \<times> addr) list \<Rightarrow> cmanager \<Rightarrow> cmanager option" where
  \<comment> \<open>the functions in the order in which they are run, the newest first\<close>
  "run_free_tasks env [] s = Some s"
| "run_free_tasks env ((func, t, data) # fs) s =
    do {
      s \<leftarrow> (if t = FREE_TASK
            then run_shutdown_function env func data (conn_emit (Run_shutdown_function func data) s)
            else Some s);
      run_free_tasks env fs s }"

definition INT_CManager_close :: "conn_env \<Rightarrow> cmanager \<Rightarrow> cmanager option" where
  \<comment> \<open>without a server thread\<close>
  "INT_CManager_close env s =
    do {
      let s = conn_emit Stop_select (s\<lparr>cm_control := (cm_control s)\<lparr>cl_closed := True\<rparr>\<rparr>);
      s \<leftarrow> close_connections env s;
      s \<leftarrow> (case shutdown_functions s of None \<Rightarrow> Some s | Some fs \<Rightarrow> run_shutdown_tasks env 0 (length fs) s);
      let s = s\<lparr>cm_reference_count := cm_reference_count s - 1\<rparr>;
      if cm_reference_count s = 0 then do {
        s \<leftarrow> (case shutdown_functions s of None \<Rightarrow> Some s
               | Some fs \<Rightarrow> run_free_tasks env (rev fs) (s\<lparr>shutdown_functions := None\<rparr>));
        let s = conn_emit Free_control_list (s\<lparr>cm_control := internal_condition_free (cm_control s)\<rparr>);
        Some (conn_emit Free_CManager s) }
      else Some s }"

end
