(* ===== verification/CM_Conn_Refs.thy ===== *)
theory CM_Conn_Refs
  imports CM_Conn
begin

text \<open>
  The references of connections: the list of the CManager holds one, the transport holds one until
  the connection fails, and every other holder has its own. Under this invariant no operation
  touches a freed connection, and a connection is freed with its last reference.
\<close>

definition owners :: "conn \<Rightarrow> connection \<Rightarrow> cmanager \<Rightarrow> int" where
  "owners c k s = of_bool (c \<in> set (conn_list s)) + of_bool (\<not> is_failed k)"

definition conn_ok :: "conn set \<Rightarrow> nat \<Rightarrow> cmanager \<Rightarrow> conn \<Rightarrow> connection \<Rightarrow> bool" where
  "conn_ok F n s c k \<longleftrightarrow>
    conn_ref_count k = owners c k s + int n \<and> 0 < conn_ref_count k \<and>
    (\<not> is_failed k \<longrightarrow> c \<in> set (conn_list s)) \<and>
    (c \<in> F \<longleftrightarrow> c \<in> set (conn_list s) \<and> is_failed k) \<and>
    (is_failed k \<longrightarrow> \<not> is_write_pending k \<and> (c \<in> F \<or> is_closed k))"

definition conns_ok :: "conn set \<Rightarrow> (conn \<Rightarrow> nat) \<Rightarrow> cmanager \<Rightarrow> bool" where
  \<comment> \<open>F: the connections that are failing right now\<close>
  "conns_ok F held s \<longleftrightarrow>
    distinct (conn_list s) \<and> F \<subseteq> set (conn_list s) \<and>
    (\<forall>c \<in> set (conn_list s). conn_heap s c \<noteq> None) \<and>
    (\<forall>c. case conn_heap s c of None \<Rightarrow> held c = 0 | Some k \<Rightarrow> conn_ok F (held c) s c k) \<and>
    (\<forall>c \<ge> next_conn s. conn_heap s c = None)"

lemma conns_okD:
  assumes "conns_ok F held s" "conn_heap s c = Some k"
  shows "conn_ok F (held c) s c k"
  using assms by (auto simp: conns_ok_def split: option.splits)

lemma conns_ok_at:
  "conns_ok F held s \<Longrightarrow> case conn_heap s c of None \<Rightarrow> held c = 0 | Some k \<Rightarrow> conn_ok F (held c) s c k"
  by (simp add: conns_ok_def)

lemma conns_okI:
  assumes "distinct (conn_list s)" "F \<subseteq> set (conn_list s)" "\<forall>c \<in> set (conn_list s). conn_heap s c \<noteq> None"
    and "\<And>c. case conn_heap s c of None \<Rightarrow> held c = 0 | Some k \<Rightarrow> conn_ok F (held c) s c k"
    and "\<forall>c \<ge> next_conn s. conn_heap s c = None"
  shows "conns_ok F held s"
  using assms by (simp add: conns_ok_def)

lemma failing_listed: "conns_ok F held s \<Longrightarrow> c \<in> F \<Longrightarrow> c \<in> set (conn_list s)"
  by (auto simp: conns_ok_def)

lemma held_live: "conns_ok F held s \<Longrightarrow> 0 < held c \<Longrightarrow> \<exists>k. conn_heap s c = Some k"
  by (auto simp: conns_ok_def split: option.splits)

lemma listed_live: "conns_ok F held s \<Longrightarrow> c \<in> set (conn_list s) \<Longrightarrow> \<exists>k. conn_heap s c = Some k"
  by (auto simp: conns_ok_def)

lemma conns_ok_control [simp]: "conns_ok F held (s\<lparr>cm_control := cl\<rparr>) = conns_ok F held s"
  "conns_ok F held (conn_emit x s) = conns_ok F held s"
  by (simp_all add: conns_ok_def conn_ok_def owners_def conn_emit_def cong: option.case_cong)

lemma conn_emit_simps [simp]:
  "conn_heap (conn_emit x s) = conn_heap s" "conn_list (conn_emit x s) = conn_list s"
  "next_conn (conn_emit x s) = next_conn s" "conn_effects (conn_emit x s) = x # conn_effects s"
  "cm_control (conn_emit x s) = cm_control s" "shutdown_functions (conn_emit x s) = shutdown_functions s"
  "cm_reference_count (conn_emit x s) = cm_reference_count s"
  by (simp_all add: conn_emit_def)

text \<open>Changing one connection.\<close>

definition put_conn :: "conn \<Rightarrow> connection \<Rightarrow> cmanager \<Rightarrow> cmanager" where
  "put_conn c k s = s\<lparr>conn_heap := (conn_heap s)(c := Some k)\<rparr>"

lemma put_conn_simps [simp]:
  "conn_heap (put_conn c k s) = (conn_heap s)(c := Some k)" "conn_list (put_conn c k s) = conn_list s"
  "next_conn (put_conn c k s) = next_conn s" "conn_effects (put_conn c k s) = conn_effects s"
  "cm_control (put_conn c k s) = cm_control s"
  by (simp_all add: put_conn_def)

lemma mod_conn_put: "conn_heap s c = Some k \<Longrightarrow> mod_conn c f s = Some (put_conn c (f k) s)"
  by (simp add: mod_conn_def put_conn_def)

lemma put_conn_ok:
  assumes ok: "conns_ok F held s" and c: "conn_heap s c = Some k0"
    and F: "F' - {c} = F - {c}" "F' \<subseteq> set (conn_list s)" and k: "conn_ok F' n s c k"
    and held: "\<And>x. x \<noteq> c \<Longrightarrow> held' x = held x" "held' c = n"
  shows "conns_ok F' held' (put_conn c k s)"
proof -
  have slot: "case conn_heap (put_conn c k s) x of None \<Rightarrow> held' x = 0
      | Some k' \<Rightarrow> conn_ok F' (held' x) (put_conn c k s) x k'" for x
  proof (cases "x = c")
    case True
    then show ?thesis using k held by (auto simp: conn_ok_def owners_def)
  next
    case False
    then have "x \<in> F' \<longleftrightarrow> x \<in> F" using F(1) by blast
    with False show ?thesis
      using conns_ok_at [OF ok, of x] held(1) [OF False]
      by (auto simp: conn_ok_def owners_def split: option.splits)
  qed
  have "c < next_conn s" using ok c by (auto simp: conns_ok_def not_le [symmetric])
  then show ?thesis
    by (intro conns_okI [OF _ _ _ slot]) (use ok F(2) in \<open>auto simp: conns_ok_def\<close>)
qed

text \<open>Freeing the connection whose last reference goes.\<close>

definition drop_conn :: "conn \<Rightarrow> cmanager \<Rightarrow> cmanager" where
  "drop_conn c s = conn_emit (Free_conn c) (conn_emit (Forget_connection c) (s\<lparr>conn_heap := (conn_heap s)(c := None)\<rparr>))"

lemma drop_conn_simps [simp]:
  "conn_heap (drop_conn c s) = (conn_heap s)(c := None)" "conn_list (drop_conn c s) = conn_list s"
  "next_conn (drop_conn c s) = next_conn s"
  "conn_effects (drop_conn c s) = Free_conn c # Forget_connection c # conn_effects s"
  "drop_conn c (put_conn c k s) = drop_conn c s"
  by (simp_all add: drop_conn_def put_conn_def conn_emit_def)

lemma deref_many:
  assumes "conn_heap s c = Some k" "1 < conn_ref_count k"
  shows "dereference_with fail env c s = Some (put_conn c (k\<lparr>conn_ref_count := conn_ref_count k - 1\<rparr>) s)"
  using assms by (simp add: dereference_with_def mod_conn_put)

lemma deref_last:
  assumes "conn_heap s c = Some k" "conn_ref_count k = 1" "is_failed k" "\<not> is_write_pending k"
  shows "dereference_with fail env c s = Some (drop_conn c s)"
  using assms
  by (simp add: dereference_with_def mod_conn_put conn_wait_for_write_def free_connection_def Let_def drop_conn_def)
    (simp add: conn_emit_def put_conn_def)

section \<open>Removing a connection from the list\<close>

lemma remove_before:
  "i + n = length (conn_list s) \<Longrightarrow> c \<notin> set (take m (drop i (conn_list s))) \<Longrightarrow> m \<le> n \<Longrightarrow>
    remove_loop env c i n 0 s = remove_loop env c (i + m) (n - m) 0 s"
proof (induction m arbitrary: i n)
  case (Suc m)
  then obtain n' where n: "n = Suc n'" by (cases n) auto
  then have i: "i < length (conn_list s)" using Suc.prems by simp
  then have "take (Suc m) (drop i (conn_list s)) = conn_list s ! i # take m (drop (Suc i) (conn_list s))"
    by (simp add: Cons_nth_drop_Suc [symmetric])
  then have "conn_list s ! i \<noteq> c" "c \<notin> set (take m (drop (Suc i) (conn_list s)))" using Suc.prems(2) by auto
  then show ?case using Suc.IH [of "Suc i" n'] Suc.prems n i by simp
qed simp

lemma remove_after:
  "i + n = length (conn_list s) \<Longrightarrow> 0 < i \<Longrightarrow> c \<notin> set (drop i (conn_list s)) \<Longrightarrow>
    remove_loop env c i n 1 s =
      Some (1, s\<lparr>conn_list := take (i - 1) (conn_list s) @ drop i (conn_list s) @ [last (conn_list s)]\<rparr>)"
proof (induction n arbitrary: i s)
  case 0
  then have "take (i - 1) (conn_list s) @ [last (conn_list s)] = conn_list s"
    by (metis append_butlast_last_id butlast_conv_take length_greater_0_conv add_0_right)
  with 0 show ?case by (cases s) simp
next
  case (Suc n)
  let ?l = "conn_list s"
  have i: "i < length ?l" using Suc.prems by simp
  then have d: "drop i ?l = ?l ! i # drop (Suc i) ?l" by (simp add: Cons_nth_drop_Suc)
  let ?l' = "?l[i - 1 := ?l ! i]"
  have "last ?l' = last ?l"
    using i Suc.prems(2) by (subst last_list_update) auto
  moreover have "take i ?l' = take (i - 1) ?l @ [?l ! i]"
    using i Suc.prems(2) by (cases i) (auto simp: take_Suc_conv_app_nth)
  moreover have "drop (Suc i) ?l' = drop (Suc i) ?l" using Suc.prems(2) by simp
  ultimately show ?case
    using Suc.IH [of "Suc i" "s\<lparr>conn_list := ?l'\<rparr>"] Suc.prems i d by simp
qed

lemma remove_conn_removes:
  assumes "distinct (conn_list s)" "c \<in> set (conn_list s)"
    and d: "dereference_failed env c s = Some s1" "conn_list s1 = conn_list s"
  shows "remove_conn_from_CM env c s =
    Some (s1\<lparr>conn_list := remove1 c (conn_list s), cm_control := (cm_control s1)\<lparr>abort_read_ahead := True\<rparr>\<rparr>)"
proof -
  obtain xs ys where l: "conn_list s = xs @ c # ys" "c \<notin> set xs" "c \<notin> set ys"
    using assms(1,2) by (metis distinct.simps(2) distinct_append split_list not_distinct_conv_prefix in_set_conv_decomp_first)
  have "remove_loop env c 0 (length (conn_list s)) 0 s = remove_loop env c (length xs) (Suc (length ys)) 0 s"
    using remove_before [of 0 "length (conn_list s)" s c "length xs"] l by simp
  also have "\<dots> = remove_loop env c (Suc (length xs)) (length ys) 1 s1"
    using l d by (simp add: nth_append)
  also have "\<dots> = Some (1, s1\<lparr>conn_list := xs @ ys @ [last (conn_list s)]\<rparr>)"
    using remove_after [of "Suc (length xs)" "length ys" s1 c] l d(2) by simp
  finally show ?thesis
    using l by (simp add: remove_conn_from_CM_def remove1_append butlast_append)
qed

section \<open>Giving back a reference\<close>

definition lose :: "conn \<Rightarrow> (conn \<Rightarrow> nat) \<Rightarrow> conn \<Rightarrow> nat" where
  "lose c held = held(c := held c - 1)"

lemma drop_conn_ok:
  assumes ok: "conns_ok F held s" and c: "c \<notin> set (conn_list s)"
  shows "conns_ok F (held(c := 0)) (drop_conn c s)"
proof -
  have "c \<notin> F" using ok c by (auto simp: conns_ok_def)
  have "case conn_heap (drop_conn c s) x of None \<Rightarrow> (held(c := 0)) x = 0
      | Some k \<Rightarrow> conn_ok F ((held(c := 0)) x) (drop_conn c s) x k" for x
    using conns_ok_at [OF ok, of x]
    by (cases "x = c") (auto simp: conn_ok_def owners_def split: option.splits)
  then show ?thesis using ok c by (auto simp: conns_ok_def)
qed

text \<open>A holder gives its reference back: the connection stays, as it is, or was only waiting for that.\<close>

lemma dereference_held:
  assumes ok: "conns_ok F held s" and h: "0 < held c" and c: "conn_heap s c = Some k"
  shows "\<exists>s'. dereference_with fail env c s = Some s' \<and> conns_ok F (lose c held) s' \<and>
    (s' = put_conn c (k\<lparr>conn_ref_count := conn_ref_count k - 1\<rparr>) s \<or>
      s' = drop_conn c s \<and> is_failed k \<and> c \<notin> set (conn_list s) \<and> held c = 1)"
proof -
  note k = conns_okD [OF ok c]
  show ?thesis
  proof (cases "1 < conn_ref_count k")
    case True
    have F: "F \<subseteq> set (conn_list s)" using ok by (simp add: conns_ok_def)
    have "conn_ok F (held c - 1) s c (k\<lparr>conn_ref_count := conn_ref_count k - 1\<rparr>)"
      using k True h by (auto simp: conn_ok_def owners_def)
    from put_conn_ok [OF ok c refl F this, of "lose c held"] show ?thesis
      using deref_many [OF c True] by (simp add: lose_def)
  next
    case False
    then have r: "conn_ref_count k = 1" "owners c k s = 0" "held c = 1"
      using k h by (auto simp: conn_ok_def owners_def of_bool_def split: if_splits)
    then have f: "is_failed k" "c \<notin> set (conn_list s)" by (auto simp: owners_def of_bool_def split: if_splits)
    have "dereference_with fail env c s = Some (drop_conn c s)"
      by (rule deref_last [OF c r(1) f(1)]) (use k f in \<open>simp add: conn_ok_def\<close>)
    moreover have "lose c held = held(c := 0)" using r(3) by (simp add: lose_def)
    ultimately show ?thesis using drop_conn_ok [OF ok f(2)] f r by simp
  qed
qed

lemma close_held:
  assumes ok: "conns_ok F held s" and h: "0 < held c"
  shows "\<exists>s'. INT_CMConnection_close env c s = Some s' \<and> conns_ok F (lose c held) s' \<and>
    conn_list s' = conn_list s \<and>
    (c \<in> set (conn_list s) \<longrightarrow> conn_effects s' = conn_effects s \<and>
      (\<exists>k k'. conn_heap s c = Some k \<and> conn_heap s' c = Some k' \<and> is_closed k' \<and> is_failed k' = is_failed k))"
proof -
  obtain k where c: "conn_heap s c = Some k" using held_live [OF assms] by blast
  let ?s = "put_conn c (k\<lparr>is_closed := True\<rparr>) s"
  have F: "F \<subseteq> set (conn_list s)" using ok by (simp add: conns_ok_def)
  have "conn_ok F (held c) s c (k\<lparr>is_closed := True\<rparr>)"
    using conns_okD [OF ok c] by (auto simp: conn_ok_def owners_def)
  from put_conn_ok [OF ok c refl F this] have ok': "conns_ok F held ?s" by simp
  have c': "conn_heap ?s c = Some (k\<lparr>is_closed := True\<rparr>)" by simp
  have i: "internal_connection_close c s = Some ?s"
    using c by (simp add: internal_connection_close_def mod_conn_put)
  obtain s' where d: "dereference_with (INT_CMConnection_failed env) env c ?s = Some s'" "conns_ok F (lose c held) s'"
    and s': "s' = put_conn c (k\<lparr>is_closed := True, conn_ref_count := conn_ref_count k - 1\<rparr>) ?s \<or>
      s' = drop_conn c ?s \<and> c \<notin> set (conn_list s)"
    using dereference_held [OF ok' h c', of "INT_CMConnection_failed env" env] by auto
  show ?thesis
    using i d s' c
    by (intro exI [of _ s']) (auto simp: INT_CMConnection_close_def INT_CMConnection_dereference_def)
qed

lemma add_reference_held:
  assumes ok: "conns_ok F held s" and c: "conn_heap s c = Some k"
  shows "\<exists>s'. INT_CMConnection_add_reference c s = Some s' \<and> conns_ok F (held(c := held c + 1)) s'"
proof -
  have F: "F \<subseteq> set (conn_list s)" using ok by (simp add: conns_ok_def)
  have "conn_ok F (held c + 1) s c (k\<lparr>conn_ref_count := conn_ref_count k + 1\<rparr>)"
    using conns_okD [OF ok c] by (auto simp: conn_ok_def owners_def)
  from put_conn_ok [OF ok c refl F this, of "held(c := held c + 1)"] show ?thesis
    using c by (simp add: INT_CMConnection_add_reference_def mod_conn_put)
qed

lemma create_ok:
  assumes ok: "conns_ok F held s"
  shows "\<exists>s'. CMConnection_create env tr attrs s = Some (next_conn s, s') \<and> conns_ok F held s' \<and>
    conn_list s' = conn_list s @ [next_conn s] \<and> held (next_conn s) = 0 \<and> next_conn s \<notin> set (conn_list s)"
proof -
  let ?c = "next_conn s"
  have new: "conn_heap s ?c = None" using ok by (simp add: conns_ok_def)
  then have c: "?c \<notin> set (conn_list s)" "held ?c = 0" "?c \<notin> F"
    using listed_live [OF ok, of ?c] failing_listed [OF ok, of ?c] conns_ok_at [OF ok, of ?c] by auto
  obtain s' where s': "CMConnection_create env tr attrs s = Some (?c, s')" by
    (simp add: CMConnection_create_def add_conn_to_CM_def INT_CMConnection_add_reference_def mod_conn_def Let_def)
  then have l: "conn_list s' = conn_list s @ [?c]" "next_conn s' = Suc ?c"
    and h: "\<And>x. x \<noteq> ?c \<Longrightarrow> conn_heap s' x = conn_heap s x"
    and k: "\<exists>k. conn_heap s' ?c = Some k \<and> conn_ref_count k = 2 \<and> \<not> is_failed k"
    by (auto simp: CMConnection_create_def add_conn_to_CM_def INT_CMConnection_add_reference_def mod_conn_def Let_def)
  have "case conn_heap s' x of None \<Rightarrow> held x = 0 | Some k \<Rightarrow> conn_ok F (held x) s' x k" for x
  proof (cases "x = ?c")
    case True
    with k c l show ?thesis by (auto simp: conn_ok_def owners_def)
  next
    case False
    with h [OF False] conns_ok_at [OF ok, of x] l show ?thesis
      by (auto simp: conn_ok_def owners_def split: option.splits)
  qed
  moreover have "conn_heap s' x \<noteq> None" if "x \<in> set (conn_list s')" for x
    using that l h [of x] k listed_live [OF ok, of x] by (cases "x = ?c") auto
  ultimately have "conns_ok F held s'"
    by (intro conns_okI) (use ok c(1) l h in \<open>auto simp: conns_ok_def\<close>)
  with s' l c show ?thesis by blast
qed

section \<open>Failure\<close>

definition later :: "cmanager \<Rightarrow> cmanager \<Rightarrow> bool" where
  \<comment> \<open>no new connection, and those that have gone from the list have been shut down\<close>
  "later s s' \<longleftrightarrow> set (conn_list s') \<subseteq> set (conn_list s) \<and>
    (\<exists>es. conn_effects s' = es @ conn_effects s \<and>
      (\<forall>c \<in> set (conn_list s) - set (conn_list s'). Shutdown_conn c \<in> set es))"

lemma later_refl: "conn_list s' = conn_list s \<Longrightarrow> conn_effects s' = es @ conn_effects s \<Longrightarrow> later s s'"
  by (auto simp: later_def)

lemma later_trans: "later s t \<Longrightarrow> later t u \<Longrightarrow> later s u"
proof -
  assume a: "later s t" "later t u"
  then obtain es fs where "conn_effects t = es @ conn_effects s" "conn_effects u = fs @ conn_effects t"
      "\<forall>c \<in> set (conn_list s) - set (conn_list t). Shutdown_conn c \<in> set es"
      "\<forall>c \<in> set (conn_list t) - set (conn_list u). Shutdown_conn c \<in> set fs"
    by (auto simp: later_def)
  with a show ?thesis unfolding later_def by (intro conjI exI [of _ "fs @ es"]) auto
qed

definition fewer :: "(conn \<Rightarrow> nat) \<Rightarrow> (conn \<Rightarrow> nat) \<Rightarrow> bool" where
  "fewer held' held \<longleftrightarrow> (\<forall>c. held' c \<le> held c)"

lemma fewer_trans: "fewer a b \<Longrightarrow> fewer b c \<Longrightarrow> fewer a c"
  by (meson fewer_def le_trans)

lemma fewer_refl [simp]: "fewer held held"
  by (simp add: fewer_def)

definition handlers_ok :: "conn_env \<Rightarrow> bool" where
  \<comment> \<open>close handlers return; they may give back references, close connections and make them fail\<close>
  "handlers_ok env \<longleftrightarrow> (\<forall>f c data F held s. conns_ok F held s \<and> c \<in> F \<longrightarrow>
    (\<exists>s' held'. run_close_handler env f c data s = Some s' \<and> conns_ok F held' s' \<and> fewer held' held \<and> later s s'))"

lemma handlers_run:
  assumes h: "handlers_ok env" and ok: "conns_ok F held s" and c: "c \<in> F"
  shows "\<exists>s' held'. close_handlers env c hs s = Some s' \<and> conns_ok F held' s' \<and> fewer held' held \<and> later s s'"
  using ok
proof (induction hs arbitrary: s held)
  case Nil
  then show ?case by (auto intro: later_refl)
next
  case (Cons hd hs)
  obtain f data where hd: "hd = (f, data)" by (cases hd)
  obtain k where k: "conn_heap s c = Some k"
    using listed_live [OF Cons.prems] failing_listed [OF Cons.prems c] by blast
  show ?case
  proof (cases "is_closed k")
    case True
    with Cons k hd show ?thesis by simp
  next
    case False
    let ?s = "conn_emit (Close_handler f c data) s"
    have "conns_ok F held ?s" using Cons.prems by simp
    then obtain t held1 where t: "run_close_handler env f c data ?s = Some t" "conns_ok F held1 t"
        "fewer held1 held" "later ?s t"
      using h c unfolding handlers_ok_def by blast
    obtain s' held' where s': "close_handlers env c hs t = Some s'" "conns_ok F held' s'" "fewer held' held1" "later t s'"
      using Cons.IH [OF t(2)] by blast
    have "later s ?s" by (rule later_refl [where es = "[Close_handler f c data]"]) simp_all
    then have "later s s'" using t(4) s'(4) later_trans by blast
    then show ?thesis using s' t k False hd fewer_trans by auto
  qed
qed

lemma unlist_ok:
  assumes ok: "conns_ok (insert c F) held s" and F: "c \<notin> F" and k: "conn_heap s c = Some k" "is_closed k"
  shows "\<exists>s'. remove_conn_from_CM env c s = Some s' \<and> conns_ok F held s' \<and>
    conn_list s' = remove1 c (conn_list s) \<and> (\<exists>es. conn_effects s' = es @ conn_effects s)"
proof -
  have kc: "conn_ok (insert c F) (held c) s c k" by (rule conns_okD [OF ok k(1)])
  have l: "distinct (conn_list s)" "c \<in> set (conn_list s)" using ok by (auto simp: conns_ok_def)
  then have set: "set (remove1 c (conn_list s)) = set (conn_list s) - {c}" by simp
  have r: "conn_ref_count k = 1 + int (held c)" "is_failed k" "\<not> is_write_pending k"
    using kc l by (auto simp: conn_ok_def owners_def)
  define s1 where "s1 = (if held c = 0 then drop_conn c s
    else put_conn c (k\<lparr>conn_ref_count := conn_ref_count k - 1\<rparr>) s)"
  have d: "dereference_failed env c s = Some s1"
    unfolding s1_def dereference_failed_def
    using deref_last [OF k(1) _ r(2,3)] deref_many [OF k(1)] r(1) by auto
  have l1: "conn_list s1 = conn_list s" by (simp add: s1_def)
  define t where "t = s1\<lparr>conn_list := remove1 c (conn_list s), cm_control := (cm_control s1)\<lparr>abort_read_ahead := True\<rparr>\<rparr>"
  have t: "conn_list t = remove1 c (conn_list s)" "next_conn t = next_conn s"
      "\<And>x. x \<noteq> c \<Longrightarrow> conn_heap t x = conn_heap s x"
      "conn_heap t c = (if held c = 0 then None else Some (k\<lparr>conn_ref_count := conn_ref_count k - 1\<rparr>))"
    by (auto simp: t_def s1_def)
  have slot: "case conn_heap t x of None \<Rightarrow> held x = 0 | Some k \<Rightarrow> conn_ok F (held x) t x k" for x
  proof (cases "x = c")
    case True
    then show ?thesis using k(2) r set F t by (auto simp: conn_ok_def owners_def)
  next
    case False
    then show ?thesis
      using conns_ok_at [OF ok, of x] set t by (auto simp: conn_ok_def owners_def split: option.splits)
  qed
  have "conns_ok F held t"
  proof (rule conns_okI [OF _ _ _ slot])
    show "distinct (conn_list t)" using l t by simp
    show "F \<subseteq> set (conn_list t)" using ok F set t by (auto simp: conns_ok_def)
    show "\<forall>x \<in> set (conn_list t). conn_heap t x \<noteq> None" using ok set t by (auto simp: conns_ok_def)
    have "c < next_conn s" using ok k(1) by (auto simp: conns_ok_def not_le [symmetric])
    then show "\<forall>x \<ge> next_conn t. conn_heap t x = None" using ok t by (auto simp: conns_ok_def)
  qed
  moreover have "\<exists>es. conn_effects t = es @ conn_effects s"
    by (auto simp: t_def s1_def intro: exI [of _ "[]"] exI [of _ "[_, _]"])
  ultimately show ?thesis using remove_conn_removes [OF l d l1] t(1) unfolding t_def by auto
qed

lemma mod_conn_ok:
  assumes ok: "conns_ok F held s" and c: "conn_heap s c = Some k"
    and k': "conn_ref_count k' = conn_ref_count k" "is_failed k' = is_failed k"
      "is_write_pending k' = is_write_pending k" "is_closed k \<longrightarrow> is_closed k'"
  shows "conns_ok F held (put_conn c k' s)"
proof -
  have F: "F \<subseteq> set (conn_list s)" using ok by (simp add: conns_ok_def)
  have "conn_ok F (held c) s c k'" using conns_okD [OF ok c] k' by (auto simp: conn_ok_def owners_def)
  from put_conn_ok [OF ok c refl F this] show ?thesis by simp
qed

text \<open>A failing connection: its transport is shut down, its handlers run, and it leaves the list.\<close>

lemma failed_ok:
  assumes h: "handlers_ok env" and ok: "conns_ok F held s" and c: "conn_heap s c = Some k" "\<not> is_failed k"
  shows "\<exists>s' held'. INT_CMConnection_failed env c s = Some s' \<and> conns_ok F held' s' \<and> fewer held' held \<and>
    c \<notin> set (conn_list s') \<and> later s s'"
proof -
  have kc: "conn_ok F (held c) s c k" by (rule conns_okD [OF ok c(1)])
  have l: "c \<in> set (conn_list s)" "c \<notin> F" "distinct (conn_list s)"
    using kc c ok by (auto simp: conn_ok_def conns_ok_def)
  have F: "insert c F \<subseteq> set (conn_list s)" using ok l by (auto simp: conns_ok_def)
  let ?k1 = "k\<lparr>is_failed := True, is_write_pending := False\<rparr>"
  let ?k3 = "?k1\<lparr>conn_ref_count := conn_ref_count k - 1\<rparr>"
  let ?s2 = "(conn_emit (Wake_writers c) (put_conn c ?k1 s))\<lparr>cm_control := CMconn_fail_conditions c (cm_control s)\<rparr>"
  let ?s3 = "conn_emit (Shutdown_conn c) (put_conn c ?k3 ?s2)"
  have r: "1 < conn_ref_count k" using kc l(1) c(2) by (simp add: conn_ok_def owners_def)
  have shut: "conn_shutdown env c ?s2 = Some ?s3"
    using deref_many [of ?s2 c ?k1 _ env] r by (simp add: conn_shutdown_def dereference_failed_def)
  have k3: "conn_ok (insert c F) (held c) s c ?k3" using kc l c(2) r by (auto simp: conn_ok_def owners_def)
  have "conns_ok (insert c F) held (put_conn c ?k3 s)"
    by (rule put_conn_ok [OF ok c(1) _ F k3]) auto
  moreover have "?s3 = conn_emit (Shutdown_conn c) ((conn_emit (Wake_writers c) (put_conn c ?k3 s))
      \<lparr>cm_control := CMconn_fail_conditions c (cm_control s)\<rparr>)"
    by (simp add: put_conn_def conn_emit_def)
  ultimately have ok3: "conns_ok (insert c F) held ?s3" by simp
  define s4 where "s4 = (case bw_measure_task k of None \<Rightarrow> ?s3
    | Some t \<Rightarrow> put_conn c (?k3\<lparr>bw_measure_task := None\<rparr>) (conn_emit (Remove_task t) ?s3))"
  define k5 where "k5 = ?k3\<lparr>bw_measure_task := None, close_list := []\<rparr>"
  have k4: "\<exists>k4. conn_heap s4 c = Some k4 \<and> k4\<lparr>close_list := []\<rparr> = k5 \<and> close_list k4 = close_list k"
    by (cases "bw_measure_task k") (auto simp: s4_def k5_def)
  have ok4: "conns_ok (insert c F) held s4"
    using ok3 mod_conn_ok [of "insert c F" held "conn_emit (Remove_task _) ?s3" c ?k3]
    by (cases "bw_measure_task k") (simp_all add: s4_def)
  have e4: "conn_list s4 = conn_list s" "\<exists>es. conn_effects s4 = es @ [Shutdown_conn c, Wake_writers c] @ conn_effects s"
    by (auto simp: s4_def split: option.splits)
  let ?s5 = "put_conn c k5 s4"
  have ok5: "conns_ok (insert c F) held ?s5"
    using k4 mod_conn_ok [OF ok4, of c _ k5] by auto
  obtain s6 held' where s6: "close_handlers env c (close_list k) ?s5 = Some s6"
      "conns_ok (insert c F) held' s6" "fewer held' held" "later ?s5 s6"
    using handlers_run [OF h ok5, of c "close_list k"] by auto
  obtain k6 where k6: "conn_heap s6 c = Some k6"
    using s6(2) listed_live [OF s6(2), of c] by (auto simp: conns_ok_def)
  let ?s7 = "put_conn c (k6\<lparr>is_closed := True\<rparr>) s6"
  have ok7: "conns_ok (insert c F) held' ?s7" by (rule mod_conn_ok [OF s6(2) k6]) simp_all
  obtain s' where s': "remove_conn_from_CM env c ?s7 = Some s'" "conns_ok F held' s'"
      "conn_list s' = remove1 c (conn_list s6)" "\<exists>es. conn_effects s' = es @ conn_effects s6"
    using unlist_ok [OF ok7 l(2), of _ env] by auto
  have "INT_CMConnection_failed env c s = Some s'"
    using c shut k4 s6(1) k6 s'(1)
    by (auto simp: INT_CMConnection_failed_def mod_conn_put Let_def s4_def split: option.splits)
  moreover have "c \<notin> set (conn_list s')" using s'(3) s6(2) by (simp add: conns_ok_def)
  moreover have "later s s'"
  proof -
    obtain es where es: "conn_effects s6 = es @ conn_effects s4" "set (conn_list s6) \<subseteq> set (conn_list s)"
        "\<forall>x \<in> set (conn_list s) - set (conn_list s6). Shutdown_conn x \<in> set es"
      using s6(4) e4(1) by (auto simp: later_def)
    obtain fs gs where "conn_effects s' = fs @ conn_effects s6"
        "conn_effects s4 = gs @ [Shutdown_conn c, Wake_writers c] @ conn_effects s"
      using s'(4) e4(2) by blast
    moreover have "set (conn_list s') = set (conn_list s6) - {c}" using s'(3) s6(2) by (simp add: conns_ok_def)
    ultimately show ?thesis using es unfolding later_def
      by (intro conjI exI [of _ "fs @ es @ gs @ [Shutdown_conn c, Wake_writers c]"]) auto
  qed
  ultimately show ?thesis using s' s6(3) by blast
qed

section \<open>Closing the CManager\<close>

lemma internal_close_ok:
  assumes "conns_ok F held s" "conn_heap s c = Some k"
  shows "internal_connection_close c s = Some (put_conn c (k\<lparr>is_closed := True\<rparr>) s) \<and>
    conns_ok F held (put_conn c (k\<lparr>is_closed := True\<rparr>) s)"
  using mod_conn_ok [OF assms, of "k\<lparr>is_closed := True\<rparr>"] assms(2)
  by (simp add: internal_connection_close_def mod_conn_put)

lemma close_connections_ends:
  assumes h: "handlers_ok env" and ok: "conns_ok {} held s"
  shows "\<exists>s' held'. close_connections env s = Some s' \<and> conn_list s' = [] \<and> conns_ok {} held' s' \<and>
    fewer held' held \<and> later s s'"
  using ok
proof (induction "card (set (conn_list s))" arbitrary: s held rule: less_induct)
  case less
  show ?case
  proof (cases "conn_list s")
    case Nil
    then have "close_connections env s = Some s" by (subst close_connections.simps) simp
    with Nil less.prems show ?thesis by (auto intro: later_refl)
  next
    case (Cons c cs)
    then obtain k where k: "conn_heap s c = Some k" using listed_live [OF less.prems, of c] by auto
    have f: "\<not> is_failed k" using conns_okD [OF less.prems k] Cons by (simp add: conn_ok_def)
    let ?s = "put_conn c (k\<lparr>is_closed := True\<rparr>) s"
    note i = internal_close_ok [OF less.prems k]
    obtain s1 held1 where s1: "INT_CMConnection_failed env c ?s = Some s1" "conns_ok {} held1 s1"
        "fewer held1 held" "c \<notin> set (conn_list s1)" "later ?s s1"
      using failed_ok [OF h conjunct2 [OF i], of c "k\<lparr>is_closed := True\<rparr>"] f by auto
    have "set (conn_list s1) \<subset> set (conn_list s)" using s1(4,5) Cons by (auto simp: later_def)
    then have "card (set (conn_list s1)) < card (set (conn_list s))" by (simp add: psubset_card_mono)
    from less.hyps [OF this s1(2)] obtain s' held' where s': "close_connections env s1 = Some s'"
        "conn_list s' = []" "conns_ok {} held' s'" "fewer held' held1" "later s1 s'"
      by blast
    have "later s s1" using s1(5) later_trans later_refl [of ?s s "[]"] by simp
    then have "later s s'" using s'(5) later_trans by blast
    moreover have "close_connections env s = Some s'"
      by (subst close_connections.simps) (use Cons i s1(1) s'(1) in simp)
    ultimately show ?thesis using s' s1(3) fewer_trans by blast
  qed
qed

text \<open>A connection that nobody holds is freed when its transport is gone.\<close>

lemma empty_list_held:
  assumes "conns_ok {} held s" "conn_list s = []"
  shows "conn_heap s c \<noteq> None \<longleftrightarrow> 0 < held c"
  using assms by (fastforce simp: conns_ok_def conn_ok_def owners_def split: option.splits)

end
