(* ===== verification/CM_Handshake.thy ===== *)
theory CM_Handshake
  imports CM_Conn_Refs
begin

text \<open>
  The handshake of two CManagers (cm.c): each tells the other its format server and its id, and
  the one that starts waits on a condition until it has heard the other. The high bit of an id in a
  message says that the sender has the receiver's ids already. The transport is a parameter.
\<close>

section \<open>Ids\<close>

definition mix64 :: "64 word \<Rightarrow> 64 word" where
  "mix64 x =
    (let x = x XOR drop_bit 30 x;
         x = x * 0xbf58476d1ce4e5b9;
         x = x XOR drop_bit 27 x;
         x = x * 0x94d049bb133111eb;
         x = x XOR drop_bit 31 x
     in x)"

definition generate_CManager_ID :: "64 word \<Rightarrow> 64 word \<Rightarrow> 64 word \<Rightarrow> 64 word \<Rightarrow> 64 word \<Rightarrow> int32" where
  \<comment> \<open>the process id, the two clocks and two addresses\<close>
  "generate_CManager_ID pid time clock cm stack_var =
    (let x = mix64 pid;
         x = mix64 (x XOR time);
         x = mix64 (x XOR clock);
         x = mix64 (x XOR cm);
         x = mix64 (x XOR stack_var);
         i = ucast (x AND 0x7fffffff)
     in if i \<noteq> 0 then i else 1)"

section \<open>Sending and receiving\<close>

record handshake_env =
  h_host_big :: bool
  transport_is_reliable :: "conn \<Rightarrow> bool"
  writev_handshake :: "conn \<Rightarrow> byte list \<Rightarrow> cmanager \<Rightarrow> (int \<times> cmanager) option"   \<comment> \<open>writev_func\<close>
  h_conn_env :: conn_env
  h_wait :: "cmanager wait_env"

definition known :: "connection \<Rightarrow> bool" where
  "known k \<longleftrightarrow> remote_format_server_ID k \<noteq> 0"

definition closed_conn :: "cmanager \<Rightarrow> conn \<Rightarrow> bool" where
  "closed_conn s c \<longleftrightarrow> (case conn_heap s c of None \<Rightarrow> False | Some k \<Rightarrow> is_closed k)"

definition get_handshake_condition :: "conn \<Rightarrow> cmanager \<Rightarrow> cmanager option" where
  "get_handshake_condition c s =
    (let (n, cl) = INT_CMCondition_get (closed_conn s) (Some c) (cm_control s)
     in mod_conn c (\<lambda>k. k\<lparr>handshake_condition := n\<rparr>) (s\<lparr>cm_control := cl\<rparr>))"

definition send_and_maybe_wait_for_handshake :: "handshake_env \<Rightarrow> conn \<Rightarrow> cmanager \<Rightarrow> cmanager option" where
  "send_and_maybe_wait_for_handshake env c s =
    do {
      let s = (if FFSserver_identifier s = 0 then s\<lparr>FFSserver_identifier := - 1\<rparr> else s);
      k \<leftarrow> conn_heap s c;
      let msg = handshake_bytes (h_host_big env) (known k) (FFSserver_identifier s) (CManager_ID s);
      s \<leftarrow> (if \<not> known k \<and> transport_is_reliable env c then get_handshake_condition c s else Some s);
      (actual, s) \<leftarrow> writev_handshake env c msg (conn_emit (Handshake_sent c msg) s);
      k \<leftarrow> conn_heap s c;
      s \<leftarrow> (if is_write_pending k then conn_wait_for_write (h_conn_env env) c s else Some s);
      let s = (if actual \<noteq> 1 then conn_emit (Handshake_failed c) s else s);
      k \<leftarrow> conn_heap s c;
      if \<not> known k \<and> transport_is_reliable env c then do {
        (r, s) \<leftarrow> INT_CMCondition_wait (h_wait env) (handshake_condition k) s;
        Some s }
      else Some s }"

definition learn :: "conn \<Rightarrow> int32 \<Rightarrow> int32 \<Rightarrow> cmanager \<Rightarrow> cmanager option" where
  \<comment> \<open>the ids of the other end, and the condition that waits for them\<close>
  "learn c server manager s =
    do {
      s \<leftarrow> mod_conn c (\<lambda>k. k\<lparr>remote_format_server_ID := server, remote_CManager_ID := manager\<rparr>) s;
      k \<leftarrow> conn_heap s c;
      if handshake_condition k \<noteq> -1
      then mod_conn c (\<lambda>k. k\<lparr>handshake_condition := -1\<rparr>)
             (s\<lparr>cm_control := INT_CMCondition_signal (handshake_condition k) (cm_control s)\<rparr>)
      else Some s }"

definition CMdo_handshake :: "handshake_env \<Rightarrow> conn \<Rightarrow> int32 \<Rightarrow> int32 \<Rightarrow> cmanager \<Rightarrow> cmanager option" where
  \<comment> \<open>the two integers as the receiver reads them\<close>
  "CMdo_handshake env c server manager s =
    do {
      let has_ours = (manager AND 0x80000000 = 0x80000000);
      let manager = (if has_ours then manager XOR 0x80000000 else manager);
      k \<leftarrow> conn_heap s c;
      s \<leftarrow> (if known k then Some (conn_emit (Second_handshake c) s) else learn c server manager s);
      if \<not> has_ours then send_and_maybe_wait_for_handshake env c s else Some s }"

definition receive_handshake :: "handshake_env \<Rightarrow> conn \<Rightarrow> byte list \<Rightarrow> cmanager \<Rightarrow> cmanager option" where
  \<comment> \<open>CMact_on_data for a handshake\<close>
  "receive_handshake env c bs s =
    (case CMact_on_data (h_host_big env) bs of
       Some (Handshake version server manager) \<Rightarrow> CMdo_handshake env c server manager s
     | _ \<Rightarrow> None)"

section \<open>Facts about ids\<close>

lemma bit_high: "bit (0x80000000 :: int32) n \<longleftrightarrow> n = 31"
proof -
  have "(0x80000000 :: int32) = 2 ^ 31" by simp
  then show ?thesis by (simp only: bit_exp_iff possible_bit_word) auto
qed

lemma high_bit_and: "(w AND 0x80000000 = (0x80000000 :: int32)) = bit w 31"
proof
  assume "w AND 0x80000000 = (0x80000000 :: int32)"
  then show "bit w 31" using bit_high [of 31] by (metis bit_and_iff)
next
  assume "bit w 31"
  then have "bit (w AND 0x80000000) n = bit (0x80000000 :: int32) n" for n
    using bit_high [of n] by (cases "n = 31") (auto simp: bit_and_iff)
  then show "w AND 0x80000000 = 0x80000000" by (rule bit_word_eqI)
qed

lemma high_bit_set: "bit ((w :: int32) OR 0x80000000) 31"
  by (simp add: bit_or_iff bit_high)

lemma high_bit_flip:
  assumes "\<not> bit (w :: int32) 31"
  shows "(w OR 0x80000000) XOR 0x80000000 = w"
proof (rule bit_word_eqI)
  fix n
  show "bit ((w OR 0x80000000) XOR 0x80000000) n = bit w n"
    using assms bit_high [of n] by (cases "n = 31") (auto simp: bit_or_iff bit_xor_iff)
qed

text \<open>An id is positive, so that its high bit is free.\<close>

lemma generated_id: "generate_CManager_ID a b c d e \<noteq> 0 \<and> \<not> bit (generate_CManager_ID a b c d e) 31"
proof -
  have m: "(0x7fffffff :: 64 word) = mask 31" by (simp add: mask_eq_exp_minus_1)
  have "\<not> bit (ucast (x AND 0x7fffffff) :: int32) 31" for x :: "64 word"
    unfolding m by (simp add: bit_simps)
  then show ?thesis by (simp add: generate_CManager_ID_def Let_def)
qed

section \<open>One message each way\<close>

definition server_id :: "cmanager \<Rightarrow> int32" where
  "server_id s = (if FFSserver_identifier s = 0 then - 1 else FFSserver_identifier s)"

definition quiet_send :: "handshake_env \<Rightarrow> conn \<Rightarrow> bool" where
  \<comment> \<open>the transport takes the message\<close>
  "quiet_send env c \<longleftrightarrow> (\<forall>msg s. writev_handshake env c msg s = Some (1, s))"

lemma server_id_set [simp]:
  "server_id s \<noteq> 0" "server_id (s\<lparr>FFSserver_identifier := server_id s\<rparr>) = server_id s"
  by (simp_all add: server_id_def)

lemma set_server: "(if FFSserver_identifier s = 0 then s\<lparr>FFSserver_identifier := - 1\<rparr> else s) =
    s\<lparr>FFSserver_identifier := server_id s\<rparr>"
  by (simp add: server_id_def)

lemma handshake_read:
  "CMact_on_data big (handshake_bytes big' kn (server_id s) i) =
    Some (Handshake 1 (server_id s) (if kn then i OR 0x80000000 else i))"
  using handshake_roundtrip [of big big' kn "server_id s" i] by simp

lemma handshake_replied:
  assumes k: "conn_heap s c = Some k" "\<not> known k" "\<not> is_write_pending k" "handshake_condition k = -1"
    and send: "quiet_send env c" and i: "\<not> bit i 31"
  shows "receive_handshake env c (handshake_bytes big' False (server_id s0) i) s =
    Some (conn_emit (Handshake_sent c (handshake_bytes (h_host_big env) True (server_id s) (CManager_ID s)))
      ((put_conn c (k\<lparr>remote_format_server_ID := server_id s0, remote_CManager_ID := i\<rparr>) s)
        \<lparr>FFSserver_identifier := server_id s\<rparr>))"
proof -
  let ?k = "k\<lparr>remote_format_server_ID := server_id s0, remote_CManager_ID := i\<rparr>"
  have l: "learn c (server_id s0) i s = Some (put_conn c ?k s)"
    using k(1,4) by (simp add: learn_def mod_conn_put)
  have kn: "known ?k" by (simp add: known_def)
  have id: "server_id (put_conn c ?k s) = server_id s" "CManager_ID (put_conn c ?k s) = CManager_ID s"
    by (simp_all add: server_id_def put_conn_def)
  have "send_and_maybe_wait_for_handshake env c (put_conn c ?k s) =
      Some (conn_emit (Handshake_sent c (handshake_bytes (h_host_big env) True (server_id s) (CManager_ID s)))
      ((put_conn c ?k s)\<lparr>FFSserver_identifier := server_id s\<rparr>))"
    using kn send k(3) id
    by (simp add: send_and_maybe_wait_for_handshake_def set_server quiet_send_def)
  then show ?thesis
    using k(1,2) i l by (simp add: receive_handshake_def handshake_read CMdo_handshake_def high_bit_and)
qed

lemma reply_received:
  assumes "conn_heap s c = Some k" "\<not> known k" "\<not> bit i 31"
  shows "receive_handshake env c (handshake_bytes big' True (server_id s0) i) s = learn c (server_id s0) i s"
proof -
  have "(i OR 0x80000000) AND 0x80000000 = (0x80000000 :: int32)" using high_bit_and high_bit_set by blast
  then show ?thesis
    using assms high_bit_flip [OF assms(3)]
    by (auto simp: receive_handshake_def handshake_read CMdo_handshake_def)
qed

text \<open>The state in which the starter waits, and the wait that the reply ends.\<close>

definition manager_wait :: "(cmanager \<Rightarrow> cmanager option) \<Rightarrow> cmanager wait_env \<Rightarrow> bool" where
  \<comment> \<open>a single thread: waiting polls the network\<close>
  "manager_wait step we \<longleftrightarrow> get_cl we = cm_control \<and> put_cl we = (\<lambda>cl s. s\<lparr>cm_control := cl\<rparr>) \<and>
    CMcontrol_list_wait we = step \<and> (\<forall>s. cm_locked we s)"

lemma learn_signals:
  assumes "conn_heap s c = Some k" "handshake_condition k = n" "n \<noteq> -1"
  shows "learn c srv i s = Some ((put_conn c (k\<lparr>remote_format_server_ID := srv, remote_CManager_ID := i,
      handshake_condition := -1\<rparr>) s)\<lparr>cm_control := INT_CMCondition_signal n (cm_control s)\<rparr>)"
  using assms by (simp add: learn_def mod_conn_put) (simp add: put_conn_def)

lemma cond_at_front: "cond_at (cl\<lparr>condition_list := c # cs\<rparr>) (condition_num c) = Some c"
  by (simp add: cond_at_def CMCondition_find_def)

lemma starter_learns:
  assumes k: "conn_heap s c = Some k" "\<not> known k" "\<not> is_write_pending k" "\<not> is_closed k"
    and send: "quiet_send env c" and rel: "transport_is_reliable env c"
    and we: "manager_wait (\<lambda>s. receive_handshake env c (handshake_bytes big' True (server_id s0) i) s) (h_wait env)"
    and i: "\<not> bit i 31"
    and cl: "\<not> has_thread (cm_control s)" "server_thread (cm_control s) = 0" "0 \<le> next_condition_num (cm_control s)"
  shows "\<exists>s' k'. send_and_maybe_wait_for_handshake env c s = Some s' \<and> conn_heap s' c = Some k' \<and>
    remote_format_server_ID k' = server_id s0 \<and> remote_CManager_ID k' = i \<and>
    conn_effects s' =
      Handshake_sent c (handshake_bytes (h_host_big env) False (server_id s) (CManager_ID s)) # conn_effects s"
proof -
  let ?msg = "handshake_bytes (h_host_big env) False (server_id s) (CManager_ID s)"
  let ?n = "next_condition_num (cm_control s)"
  obtain cl1 where g: "INT_CMCondition_get (closed_conn (s\<lparr>FFSserver_identifier := server_id s\<rparr>)) (Some c) (cm_control s) = (?n, cl1)"
      and cl1: "\<exists>cd. condition_list cl1 = cd # condition_list (cm_control s) \<and> condition_num cd = ?n \<and>
        \<not> signaled cd \<and> \<not> failed cd"
      "has_thread cl1 = has_thread (cm_control s)" "server_thread cl1 = server_thread (cm_control s)"
    using k by (auto simp: INT_CMCondition_get_def Let_def closed_conn_def)
  let ?k1 = "k\<lparr>handshake_condition := ?n\<rparr>"
  let ?s1 = "conn_emit (Handshake_sent c ?msg)
    (put_conn c ?k1 (s\<lparr>FFSserver_identifier := server_id s, cm_control := cl1\<rparr>))"
  have s1: "get_handshake_condition c (s\<lparr>FFSserver_identifier := server_id s\<rparr>) =
      Some (put_conn c ?k1 (s\<lparr>FFSserver_identifier := server_id s, cm_control := cl1\<rparr>))"
    using g k(1) by (simp add: get_handshake_condition_def mod_conn_put)
  have kn: "\<not> known ?k1" using k(2) by (simp add: known_def)
  obtain cd where cd: "condition_list cl1 = cd # condition_list (cm_control s)" "condition_num cd = ?n"
      "\<not> signaled cd" "\<not> failed cd" using cl1(1) by blast
  have find: "CMCondition_find cl1 ?n = Some 0" using cd by (simp add: CMCondition_find_def)
  let ?cl2 = "(mod_cond 0 (\<lambda>c. c\<lparr>waiting := waiting c + 1\<rparr>) cl1)\<lparr>cond_polling := True\<rparr>"
  let ?w = "?s1\<lparr>cm_control := ?cl2\<rparr>"
  let ?k2 = "?k1\<lparr>remote_format_server_ID := server_id s0, remote_CManager_ID := i, handshake_condition := -1\<rparr>"
  let ?w2 = "(put_conn c ?k2 ?w)\<lparr>cm_control := INT_CMCondition_signal ?n ?cl2\<rparr>"
  have n: "?n \<noteq> -1" using cl(3) by simp
  have k1w: "conn_heap ?w c = Some ?k1" by simp
  have l: "learn c (server_id s0) i ?w = Some ?w2"
    using learn_signals [OF k1w _ n, of "server_id s0" i] by simp
  have step: "CMcontrol_list_wait (h_wait env) ?w = Some ?w2"
    using we reply_received [OF k1w kn i] l by (simp add: manager_wait_def)
  have cl2: "condition_list ?cl2 = cd\<lparr>waiting := waiting cd + 1\<rparr> # condition_list (cm_control s)"
    using cd(1) by (simp add: mod_cond_def)
  have c0: "cond_at ?cl2 ?n = Some (cd\<lparr>waiting := waiting cd + 1\<rparr>)"
    using cl2 cd(2) by (simp add: cond_at_def CMCondition_find_def mod_cond_def)
  obtain cl3 where cl3: "INT_CMCondition_signal ?n ?cl2 = cl3" by simp
  have "cond_at cl3 ?n = Some (cd\<lparr>waiting := waiting cd + 1, signaled := True\<rparr>)"
    using cond_at_signal [where cl = ?cl2] c0 unfolding cl3 [symmetric] by simp
  then have c3: "\<exists>c3. cond_at cl3 ?n = Some c3 \<and> signaled c3" by simp
  let ?ws = "\<lambda>j :: nat. if j = 0 then ?w else ?w2"
  have "poll_loop (h_wait env) False ?n (?ws 0) = Some (?ws 1)"
  proof (rule poll_loop_reaches)
    show "\<forall>j<1. undecided (h_wait env) ?n (?ws j) \<and> CMcontrol_list_wait (h_wait env) (?ws j) = Some (?ws (Suc j))"
      using step c0 cd we by (simp add: undecided_def manager_wait_def)
    show "cond_at (get_cl (h_wait env) (?ws 1)) ?n = Some (the (cond_at cl3 ?n))"
      using c3 we cl3 by (auto simp: manager_wait_def)
    show "signaled (the (cond_at cl3 ?n)) \<or> failed (the (cond_at cl3 ?n))" using c3 by auto
  qed
  then have p: "poll_loop (h_wait env) False ?n ?w = Some ?w2" by simp
  have up: "upd_cl (h_wait env) f x = x\<lparr>cm_control := f (cm_control x)\<rparr>" for f x
    using we by (simp add: upd_cl_def manager_wait_def)
  let ?w3 = "upd_cl (h_wait env) (\<lambda>cl. cl\<lparr>cond_polling := False, server_thread := 0\<rparr>) ?w2"
  have "\<exists>r. INT_CMCondition_wait (h_wait env) ?n ?s1 =
      Some (r, upd_cl (h_wait env) (CMCondition_destroy ?n) ?w3)"
  proof -
    have w: "put_cl (h_wait env) (mod_cond 0 (\<lambda>c. c\<lparr>waiting := waiting c + 1\<rparr>) (cm_control ?s1)) ?s1 =
        ?s1\<lparr>cm_control := mod_cond 0 (\<lambda>c. c\<lparr>waiting := waiting c + 1\<rparr>) cl1\<rparr>"
      using we by (simp add: manager_wait_def put_conn_def conn_emit_def)
    have "cond_at (cm_control ?w3) ?n \<noteq> None"
      using c3 cl3 fun_cong [OF cond_at_list [of "cl3\<lparr>cond_polling := False, server_thread := 0\<rparr>" cl3], of ?n]
      by (auto simp: up)
    then show ?thesis
      using find cd cl cl1 we w p
      by (auto simp: INT_CMCondition_wait_def manager_wait_def upd_cl_def Let_def)
  qed
  then obtain r where wait: "INT_CMCondition_wait (h_wait env) ?n ?s1 =
      Some (r, upd_cl (h_wait env) (CMCondition_destroy ?n) ?w3)" ..
  have "send_and_maybe_wait_for_handshake env c s = Some (upd_cl (h_wait env) (CMCondition_destroy ?n) ?w3)"
    using k s1 kn send rel wait
    by (simp add: send_and_maybe_wait_for_handshake_def set_server quiet_send_def server_id_def known_def)
  then show ?thesis by (simp add: up)
qed

text \<open>What a reply does does not depend on how one waits.\<close>

lemma reply_env:
  assumes "h_host_big e = h_host_big e'"
  shows "receive_handshake e c (handshake_bytes big' True (server_id s0) i) =
    receive_handshake e' c (handshake_bytes big' True (server_id s0) i)"
proof -
  have "(i OR 0x80000000) AND 0x80000000 = (0x80000000 :: int32)" using high_bit_and high_bit_set by blast
  then show ?thesis
    using assms by (auto simp: receive_handshake_def handshake_read CMdo_handshake_def fun_eq_iff)
qed

section \<open>A CManager with a connection\<close>

definition ex_shake_cl :: control_list where
  "ex_shake_cl = \<lparr>condition_list = [], next_condition_num = 1, cond_polling = False, has_thread = False,
     server_thread = 0, cl_closed = False, abort_read_ahead = False, control_effects = []\<rparr>"

definition ex_connection :: connection where
  "ex_connection = \<lparr>conn_ref_count = 3, is_closed = False, is_failed = False, close_list = [(40, 41)],
     is_write_pending = False, non_blocking_write = False, read_thread = False, bw_measure_task = None,
     conn_attrs = None, conn_trans = ''sockets'', remote_format_server_ID = 0, remote_CManager_ID = 0,
     handshake_condition = -1\<rparr>"

definition ex_manager :: "int32 \<Rightarrow> cmanager" where
  \<comment> \<open>connection 4 is in the list, and held once\<close>
  "ex_manager i = \<lparr>conn_heap = [4 \<mapsto> ex_connection], conn_list = [4], next_conn = 5, cm_control = ex_shake_cl,
     cm_reference_count = 1, FFSserver_identifier = 0, CManager_ID = i, shutdown_functions = None,
     conn_effects = []\<rparr>"

definition ex_conn_env :: conn_env where
  "ex_conn_env = \<lparr>run_close_handler = (\<lambda>f c data s. Some s), wait_written = (\<lambda>c s. Some s),
     run_shutdown_function = (\<lambda>f data s. Some s), non_block_default = False, read_thread_default = False,
     conn_blocking = (\<lambda>attrs. None)\<rparr>"

definition ex_shake :: "bool \<Rightarrow> bool \<Rightarrow> (cmanager \<Rightarrow> cmanager option) \<Rightarrow> handshake_env" where
  "ex_shake big reliable step = \<lparr>h_host_big = big, transport_is_reliable = (\<lambda>c. reliable),
     writev_handshake = (\<lambda>c msg s. Some (1, s)), h_conn_env = ex_conn_env,
     h_wait = \<lparr>get_cl = cm_control, put_cl = (\<lambda>cl s. s\<lparr>cm_control := cl\<rparr>), CMcontrol_list_wait = step,
       cond_block = (\<lambda>n s. None), thr_self = 0, cm_locked = (\<lambda>s. True)\<rparr>\<rparr>"

definition ex_shake_held :: "conn \<Rightarrow> nat" where
  "ex_shake_held c = (if c = 4 then 1 else 0)"

lemmas ex_conn_simps = ex_shake_cl_def ex_connection_def ex_manager_def ex_conn_env_def ex_shake_def

lemma ex_manager_ok: "conns_ok {} ex_shake_held (ex_manager i)"
  by (auto simp: conns_ok_def conn_ok_def owners_def ex_conn_simps ex_shake_held_def)

lemma ex_handlers_ok: "handlers_ok ex_conn_env"
proof -
  have "later s s" for s by (rule later_refl [of _ _ "[]"]) simp_all
  then show ?thesis by (auto simp: handlers_ok_def ex_conn_env_def)
qed

end
