(* ===== verification/CM_Contact.thy ===== *)
theory CM_Contact
  imports CM_Handshake C_String
begin

text \<open>
  Contact information and the opening of connections (cm.c, cm_transport.c): parameters in
  the name of a transport, loading of transports, listening, contact lists, and connections that
  are reused or initiated. Attribute lists belong to the ATL library: attr_lib has its operations.
  The functions of a transport are parameters, by its name.
\<close>

section \<open>Transport parameters\<close>

datatype param_value = Int_param int | Long_param int | String_param string

definition cut :: "char \<Rightarrow> string \<Rightarrow> string \<times> string option" where
  \<comment> \<open>strchr, and the character replaced by NUL\<close>
  "cut c s = (takeWhile (\<lambda>x. x \<noteq> c) s, if c \<in> set s then Some (tl (dropWhile (\<lambda>x. x \<noteq> c) s)) else None)"

definition trim :: "string \<Rightarrow> string" where
  "trim s = rev (dropWhile isspace (rev (dropWhile isspace s)))"

definition strtol :: "string \<Rightarrow> int \<times> string" where
  \<comment> \<open>base 10, long of 64 bits; the tail is the whole string when there is no number\<close>
  "strtol s =
    (let t = dropWhile isspace s;
         neg = (t \<noteq> [] \<and> hd t = CHR ''-'');
         t = (if t \<noteq> [] \<and> (hd t = CHR ''-'' \<or> hd t = CHR ''+'') then tl t else t);
         ds = takeWhile isdigit t;
         n = (if neg then - int (digits_val ds) else int (digits_val ds))
     in if ds = [] then (0, s) else (max (- (2 ^ 63)) (min n (2 ^ 63 - 1)), dropWhile isdigit t))"

definition param_of :: "string \<Rightarrow> param_value" where
  "param_of value =
    (let value = trim value; (n, tail) = strtol value
     in if tail = [] then if n < 2147483647 \<and> n > - 2147483648 then Int_param n else Long_param n
        else String_param value)"

lemma cut_shorter: "cut c s = (p, Some r) \<Longrightarrow> length r < length s"
  using length_dropWhile_le [of "\<lambda>x. x \<noteq> c" s]
  by (cases s) (auto simp: cut_def split: if_splits)

function transport_params :: "string \<Rightarrow> (string \<times> param_value) list" where
  "transport_params s =
    (let (p, next_param) = cut CHR '','' s; (name, equal) = cut CHR ''='' p
     in (trim name, case equal of None \<Rightarrow> Int_param 1 | Some value \<Rightarrow> param_of value) #
        (case next_param of None \<Rightarrow> [] | Some r \<Rightarrow> transport_params r))"
  by pat_completeness auto

termination
  by (relation "measure length") (auto dest: cut_shorter [OF sym])

declare transport_params.simps [simp del]

record 'a attr_lib =
  get_string_attr :: "'a \<Rightarrow> string \<Rightarrow> string option"
  get_int_attr :: "'a \<Rightarrow> string \<Rightarrow> int32 option"
  set_int_attr :: "string \<Rightarrow> int \<Rightarrow> 'a \<Rightarrow> 'a"
  set_long_attr :: "string \<Rightarrow> int \<Rightarrow> 'a \<Rightarrow> 'a"
  set_string_attr :: "string \<Rightarrow> string \<Rightarrow> 'a \<Rightarrow> 'a"
  merge_attrs :: "'a \<Rightarrow> 'a \<Rightarrow> 'a"
  set_manager_id :: "int32 \<Rightarrow> 'a \<Rightarrow> 'a"

definition set_param :: "'a attr_lib \<Rightarrow> string \<times> param_value \<Rightarrow> 'a \<Rightarrow> 'a" where
  "set_param lib = (\<lambda>(name, v) l. case v of
     Int_param n \<Rightarrow> set_int_attr lib name n l
   | Long_param n \<Rightarrow> set_long_attr lib name n l
   | String_param t \<Rightarrow> set_string_attr lib name t l)"

definition split_transport_attributes :: "'a attr_lib \<Rightarrow> 'a \<Rightarrow> 'a" where
  "split_transport_attributes lib l =
    (case get_string_attr lib l ''CM_TRANSPORT'' of
       None \<Rightarrow> l
     | Some t \<Rightarrow> (case cut CHR '':'' t of
         (old_transport, None) \<Rightarrow> l
       | (old_transport, Some params) \<Rightarrow>
           fold (set_param lib) (transport_params params)
             (set_string_attr lib ''CM_TRANSPORT'' old_transport l)))"

section \<open>Transports and contact lists\<close>

record 'a cm_net =
  mgr :: cmanager
  contact_lists :: "'a list"              \<comment> \<open>NULL is the empty list\<close>
  transports :: "string list"             \<comment> \<open>by name\<close>
  global_transports :: "string list"
  cm_initialized :: bool

record 'a net_env =
  atl :: "'a attr_lib"
  dlopen_transport :: "string \<Rightarrow> bool"    \<comment> \<open>the library of a transport can be loaded\<close>
  default_transport :: "string option"
  listen_func :: "string \<Rightarrow> 'a option \<Rightarrow> 'a cm_net \<Rightarrow> ('a \<times> 'a cm_net) option"
  initiate_conn :: "string \<Rightarrow> 'a option \<Rightarrow> 'a cm_net \<Rightarrow> (conn ptr \<times> 'a cm_net) option"
  connection_eq :: "string \<Rightarrow> 'a option \<Rightarrow> conn \<Rightarrow> 'a cm_net \<Rightarrow> bool"
  self_check :: "string \<Rightarrow> 'a option \<Rightarrow> 'a cm_net \<Rightarrow> int"
  start_read_thread :: "conn \<Rightarrow> cmanager \<Rightarrow> cmanager"
  shake :: handshake_env

definition find_transport_in_cm :: "string \<Rightarrow> 'a cm_net \<Rightarrow> bool" where
  "find_transport_in_cm name s \<longleftrightarrow> name \<in> set (transports s)"

definition add_transport_to_cm :: "string \<Rightarrow> 'a cm_net \<Rightarrow> 'a cm_net" where
  "add_transport_to_cm name s = s\<lparr>transports := transports s @ [name]\<rparr>"

definition load_transport :: "'a net_env \<Rightarrow> string \<Rightarrow> 'a cm_net \<Rightarrow> bool \<times> 'a cm_net" where
  "load_transport env name s =
    (if find_transport_in_cm name s then (True, s)
     else if name \<in> set (global_transports s) then (True, add_transport_to_cm name s)
     else if \<not> dlopen_transport env name then (False, s)
     else (True, (add_transport_to_cm name s)\<lparr>global_transports := global_transports s @ [name]\<rparr>))"

definition CMinitialize :: "'a net_env \<Rightarrow> 'a cm_net \<Rightarrow> 'a cm_net option" where
  \<comment> \<open>None: exit(1). There are no alternate transports\<close>
  "CMinitialize env s =
    do {
      s \<leftarrow> (case default_transport env of
              None \<Rightarrow> Some s
            | Some t \<Rightarrow> (case load_transport env t s of (ok, s) \<Rightarrow> if ok then Some s else None));
      Some (s\<lparr>cm_initialized := True\<rparr>) }"

definition add_contact_list :: "'a \<Rightarrow> 'a cm_net \<Rightarrow> 'a cm_net" where
  "add_contact_list attrs s = s\<lparr>contact_lists := contact_lists s @ [attrs]\<rparr>"

definition INT_CM_insert_contact_info :: "'a net_env \<Rightarrow> 'a \<Rightarrow> 'a cm_net \<Rightarrow> 'a cm_net option" where
  "INT_CM_insert_contact_info env attrs s =
    (case contact_lists s of [] \<Rightarrow> None
     | l # ls \<Rightarrow> Some (s\<lparr>contact_lists := merge_attrs (atl env) l attrs # ls\<rparr>))"

definition INT_CMget_contact_list :: "'a cm_net \<Rightarrow> 'a option" where
  "INT_CMget_contact_list s = (case contact_lists s of [] \<Rightarrow> None | l # _ \<Rightarrow> Some l)"

section \<open>Listening\<close>

definition chosen_transport :: "'a net_env \<Rightarrow> 'a option \<Rightarrow> string option" where
  "chosen_transport env attrs = Option.bind attrs (\<lambda>a. get_string_attr (atl env) a ''CM_TRANSPORT'')"

definition split_attrs :: "'a net_env \<Rightarrow> 'a option \<Rightarrow> 'a option" where
  "split_attrs env = map_option (split_transport_attributes (atl env))"

fun listen_on :: "'a net_env \<Rightarrow> string option \<Rightarrow> 'a option \<Rightarrow> string list \<Rightarrow> nat \<Rightarrow> 'a cm_net \<Rightarrow> (nat \<times> 'a cm_net) option" where
  "listen_on env chosen info [] n s = Some (n, s)"
| "listen_on env chosen info (t # ts) n s =
    (if chosen = None \<or> chosen = Some t then do {
       (attrs, s) \<leftarrow> listen_func env t info s;
       let attrs = set_manager_id (atl env) (CManager_ID (mgr s)) attrs;
       let attrs = (case Option.bind info (\<lambda>a. get_string_attr (atl env) a ''IP_INTERFACE'') of
                      None \<Rightarrow> attrs
                    | Some i \<Rightarrow> set_string_attr (atl env) ''IP_INTERFACE'' i attrs);
       listen_on env chosen info ts (n + 1) (add_contact_list attrs s) }
     else listen_on env chosen info ts n s)"

definition CMinternal_listen :: "'a net_env \<Rightarrow> 'a option \<Rightarrow> bool \<Rightarrow> 'a cm_net \<Rightarrow> (nat \<times> 'a cm_net) option" where
  "CMinternal_listen env info try_others s =
    (let info = split_attrs env info;
         chosen = chosen_transport env info
     in case chosen of
          None \<Rightarrow> listen_on env None info (transports s) 0 s
        | Some t \<Rightarrow> (case load_transport env t s of (ok, s) \<Rightarrow>
            if ok then listen_on env chosen info (transports s) 0 s
            else if \<not> try_others then Some (0, s)
            else listen_on env None info (transports s) 0 s))"

definition INT_CMlisten_specific :: "'a net_env \<Rightarrow> 'a option \<Rightarrow> 'a cm_net \<Rightarrow> (bool \<times> 'a cm_net) option" where
  "INT_CMlisten_specific env info s =
    do {
      s \<leftarrow> (if cm_initialized s then Some s else CMinitialize env s);
      (n, s) \<leftarrow> CMinternal_listen env info True s;
      Some (n \<noteq> 0, s) }"

definition contact_matches :: "'a attr_lib \<Rightarrow> string \<Rightarrow> string option \<Rightarrow> string option \<Rightarrow> 'a \<Rightarrow> bool" where
  "contact_matches lib chosen net iface l \<longleftrightarrow>
    (case get_string_attr lib l ''CM_TRANSPORT'' of None \<Rightarrow> ''sockets'' | Some t \<Rightarrow> t) = chosen \<and>
    get_string_attr lib l ''CM_NETWORK_POSTFIX'' = net \<and> get_string_attr lib l ''IP_INTERFACE'' = iface"

definition INT_CMget_specific_contact_list ::
  "'a net_env \<Rightarrow> 'a option \<Rightarrow> 'a cm_net \<Rightarrow> ('a option \<times> 'a cm_net) option" where
  "INT_CMget_specific_contact_list env attrs s =
    (let lib = atl env;
         chosen = map_option (\<lambda>t. fst (cut CHR '':'' t)) (chosen_transport env attrs);
         net = Option.bind attrs (\<lambda>a. get_string_attr lib a ''CM_NETWORK_POSTFIX'');
         iface = Option.bind attrs (\<lambda>a. get_string_attr lib a ''IP_INTERFACE'')
     in if chosen = None \<and> net = None \<and> iface = None
        then (case contact_lists s of [] \<Rightarrow> None | l # _ \<Rightarrow> Some (Some l, s))
        else
          let match = contact_matches lib (case chosen of None \<Rightarrow> ''sockets'' | Some t \<Rightarrow> t) net iface
          in case find match (contact_lists s) of
               Some l \<Rightarrow> Some (Some l, s)
             | None \<Rightarrow> do {
                 (_, s) \<leftarrow> CMinternal_listen env attrs False s;
                 Some (find match (contact_lists s), s) })"

section \<open>Opening connections\<close>

definition try_conn_init :: "'a net_env \<Rightarrow> string \<Rightarrow> 'a option \<Rightarrow> 'a cm_net \<Rightarrow> (conn ptr \<times> 'a cm_net) option" where
  \<comment> \<open>a transport with initiate_conn\<close>
  "try_conn_init env t attrs s =
    do {
      (r, s) \<leftarrow> initiate_conn env t attrs s;
      case r of
        None \<Rightarrow> Some (None, s)
      | Some c \<Rightarrow> do {
          k \<leftarrow> conn_heap (mgr s) c;
          let m = (if read_thread k then start_read_thread env c (mgr s) else mgr s);
          m \<leftarrow> send_and_maybe_wait_for_handshake (shake env) c m;
          Some (Some c, s\<lparr>mgr := m\<rparr>) } }"

fun try_transports :: "'a net_env \<Rightarrow> 'a option \<Rightarrow> string list \<Rightarrow> 'a cm_net \<Rightarrow> (conn ptr \<times> 'a cm_net) option" where
  "try_transports env attrs [] s = Some (None, s)"
| "try_transports env attrs (t # ts) s =
    do {
      (r, s) \<leftarrow> try_conn_init env t attrs s;
      if r \<noteq> None then Some (r, s) else try_transports env attrs ts s }"

definition CMinternal_initiate_conn :: "'a net_env \<Rightarrow> 'a option \<Rightarrow> 'a cm_net \<Rightarrow> (conn ptr \<times> 'a cm_net) option" where
  "CMinternal_initiate_conn env attrs s =
    (let attrs = split_attrs env attrs
     in case chosen_transport env attrs of
          None \<Rightarrow> try_transports env attrs (transports s) s
        | Some t \<Rightarrow> (case load_transport env t s of (ok, s) \<Rightarrow>
            if \<not> ok then try_transports env attrs (transports s) s
            else if t \<in> set (transports s) then try_conn_init env t attrs s
            else Some (None, s)))"

fun find_open :: "'a net_env \<Rightarrow> int32 \<Rightarrow> 'a option \<Rightarrow> 'a cm_net \<Rightarrow> conn list \<Rightarrow> conn ptr option" where
  \<comment> \<open>the first connection that is open and leads to the CManager with the id, or is to the same address\<close>
  "find_open env target attrs s [] = Some None"
| "find_open env target attrs s (c # cs) =
    do {
      k \<leftarrow> conn_heap (mgr s) c;
      if is_closed k \<or> is_failed k then find_open env target attrs s cs
      else if remote_CManager_ID k = target \<or> connection_eq env (conn_trans k) attrs c s then Some (Some c)
      else find_open env target attrs s cs }"

definition target_id :: "'a net_env \<Rightarrow> 'a option \<Rightarrow> int32" where
  "target_id env attrs =
    (case Option.bind attrs (\<lambda>a. get_int_attr (atl env) a ''CM_CMANAGER_ID'') of None \<Rightarrow> - 1 | Some i \<Rightarrow> i)"

definition CMinternal_get_conn :: "'a net_env \<Rightarrow> 'a option \<Rightarrow> 'a cm_net \<Rightarrow> (conn ptr \<times> 'a cm_net) option" where
  "CMinternal_get_conn env attrs s =
    do {
      r \<leftarrow> find_open env (target_id env attrs) attrs s (conn_list (mgr s));
      case r of
        Some c \<Rightarrow> do { m \<leftarrow> INT_CMConnection_add_reference c (mgr s); Some (Some c, s\<lparr>mgr := m\<rparr>) }
      | None \<Rightarrow> CMinternal_initiate_conn env attrs s }"

definition INT_CMget_conn :: "'a net_env \<Rightarrow> 'a option \<Rightarrow> 'a cm_net \<Rightarrow> (conn ptr \<times> 'a cm_net) option" where
  "INT_CMget_conn env attrs s =
    do { s \<leftarrow> (if cm_initialized s then Some s else CMinitialize env s); CMinternal_get_conn env attrs s }"

definition INT_CMinitiate_conn :: "'a net_env \<Rightarrow> 'a option \<Rightarrow> 'a cm_net \<Rightarrow> (conn ptr \<times> 'a cm_net) option" where
  "INT_CMinitiate_conn env attrs s =
    do { s \<leftarrow> (if cm_initialized s then Some s else CMinitialize env s); CMinternal_initiate_conn env attrs s }"

definition INT_CMcontact_self_check :: "'a net_env \<Rightarrow> 'a option \<Rightarrow> 'a cm_net \<Rightarrow> (int \<times> 'a cm_net) option" where
  "INT_CMcontact_self_check env attrs s =
    do {
      s \<leftarrow> (if cm_initialized s then Some s else CMinitialize env s);
      Some (case find (\<lambda>t. self_check env t attrs s \<noteq> 0) (transports s) of
              None \<Rightarrow> 0 | Some t \<Rightarrow> self_check env t attrs s, s) }"

section \<open>Socket connections\<close>

definition libcmsockets_LTX_initiate_conn ::
  "conn_env \<Rightarrow> ('a option \<Rightarrow> addr ptr) \<Rightarrow> ('a option \<Rightarrow> 'a cm_net \<Rightarrow> bool) \<Rightarrow> string \<Rightarrow> 'a option \<Rightarrow> 'a cm_net \<Rightarrow>
    (conn ptr \<times> 'a cm_net) option" where
  \<comment> \<open>connects: whether the operating system makes the connection. One reference is for select, one
    for the caller\<close>
  "libcmsockets_LTX_initiate_conn cenv addr_of connects t attrs s =
    (if \<not> connects attrs s then Some (None, s)
     else do {
       (c, m) \<leftarrow> CMConnection_create cenv t (addr_of attrs) (mgr s);
       m \<leftarrow> INT_CMConnection_add_reference c m;
       Some (Some c, s\<lparr>mgr := m\<rparr>) })"

definition socket_accept_conn :: "conn_env \<Rightarrow> addr ptr \<Rightarrow> bool \<Rightarrow> cmanager \<Rightarrow> (conn ptr \<times> cmanager) option" where
  \<comment> \<open>the last argument: accept and the socket options succeed; the reference is for select\<close>
  "socket_accept_conn cenv attrs accepted s =
    (if \<not> accepted then Some (None, s)
     else do { (c, s) \<leftarrow> CMConnection_create cenv ''sockets'' attrs s; Some (Some c, s) })"

section \<open>Who holds what is opened\<close>

definition gain :: "conn ptr \<Rightarrow> (conn \<Rightarrow> nat) \<Rightarrow> conn \<Rightarrow> nat" where
  "gain r held = (case r of None \<Rightarrow> held | Some c \<Rightarrow> held(c := held c + 1))"

lemma gain_simps [simp]: "gain None held = held" "gain (Some c) held = held(c := held c + 1)"
  by (simp_all add: gain_def)

definition initiates_ok :: "'a net_env \<Rightarrow> bool" where
  \<comment> \<open>what a transport owes its caller: a connection the caller holds, or none\<close>
  "initiates_ok env \<longleftrightarrow> (\<forall>t a s held. conns_ok {} held (mgr s) \<longrightarrow>
    (\<exists>r s'. initiate_conn env t a s = Some (r, s') \<and> conns_ok {} (gain r held) (mgr s')))"

definition shakes_ok :: "'a net_env \<Rightarrow> bool" where
  \<comment> \<open>the start of reading and the handshake end, and leave the references as they are\<close>
  "shakes_ok env \<longleftrightarrow> (\<forall>c held s. conns_ok {} held s \<and> 0 < held c \<longrightarrow>
    conns_ok {} held (start_read_thread env c s) \<and>
    (\<exists>s'. send_and_maybe_wait_for_handshake (shake env) c s = Some s' \<and> conns_ok {} held s'))"

lemma create_add_ok:
  assumes "conns_ok {} held s"
  shows "\<exists>c s1 s2. CMConnection_create cenv t a s = Some (c, s1) \<and> INT_CMConnection_add_reference c s1 = Some s2 \<and>
    conns_ok {} (held(c := held c + 1)) s2"
proof -
  let ?c = "next_conn s"
  obtain s1 where s1: "CMConnection_create cenv t a s = Some (?c, s1)" "conns_ok {} held s1" "?c \<in> set (conn_list s1)"
    using create_ok [OF assms, of cenv t a] by auto
  obtain k where k: "conn_heap s1 ?c = Some k" using listed_live [OF s1(2,3)] by blast
  from s1(1) add_reference_held [OF s1(2) k] show ?thesis by blast
qed

lemma sockets_initiate_ok:
  assumes "\<And>t. initiate_conn env t = libcmsockets_LTX_initiate_conn cenv addr_of connects t"
  shows "initiates_ok env"
proof -
  have "\<exists>r s'. libcmsockets_LTX_initiate_conn cenv addr_of connects t a s = Some (r, s') \<and>
      conns_ok {} (gain r held) (mgr s')" if "conns_ok {} held (mgr s)" for t a s held
    using create_add_ok [OF that, of cenv t "addr_of a"] that
    by (auto simp: libcmsockets_LTX_initiate_conn_def)
  then show ?thesis by (simp add: initiates_ok_def assms)
qed

lemma try_conn_ok:
  assumes env: "initiates_ok env" "shakes_ok env" and ok: "conns_ok {} held (mgr s)"
  shows "\<exists>r s'. try_conn_init env t attrs s = Some (r, s') \<and> conns_ok {} (gain r held) (mgr s')"
proof -
  obtain r s1 where s1: "initiate_conn env t attrs s = Some (r, s1)" "conns_ok {} (gain r held) (mgr s1)"
    using env(1) ok unfolding initiates_ok_def by blast
  show ?thesis
  proof (cases r)
    case None
    with s1 show ?thesis by (simp add: try_conn_init_def)
  next
    case (Some c)
    let ?held = "held(c := held c + 1)"
    have ok1: "conns_ok {} ?held (mgr s1)" using s1(2) Some by simp
    obtain k where k: "conn_heap (mgr s1) c = Some k" using held_live [OF ok1, of c] by auto
    let ?m = "if read_thread k then start_read_thread env c (mgr s1) else mgr s1"
    have "conns_ok {} ?held ?m" using env(2) ok1 by (simp add: shakes_ok_def)
    then obtain m where "send_and_maybe_wait_for_handshake (shake env) c ?m = Some m" "conns_ok {} ?held m"
      using env(2) by (fastforce simp: shakes_ok_def)
    with s1(1) Some k show ?thesis by (simp add: try_conn_init_def)
  qed
qed

lemma try_transports_ok:
  assumes env: "initiates_ok env" "shakes_ok env" and ok: "conns_ok {} held (mgr s)"
  shows "\<exists>r s'. try_transports env attrs ts s = Some (r, s') \<and> conns_ok {} (gain r held) (mgr s')"
  using ok
proof (induction ts arbitrary: s)
  case (Cons t ts)
  obtain r s1 where s1: "try_conn_init env t attrs s = Some (r, s1)" "conns_ok {} (gain r held) (mgr s1)"
    using try_conn_ok [OF env Cons.prems] by blast
  show ?case
  proof (cases r)
    case None
    with s1 Cons.IH [of s1] show ?thesis by simp
  next
    case (Some c)
    with s1 show ?thesis by auto
  qed
qed simp

lemma load_transport_mgr: "load_transport env t s = (ok, s') \<Longrightarrow> mgr s' = mgr s \<and> (ok \<longrightarrow> t \<in> set (transports s'))"
  by (auto simp: load_transport_def add_transport_to_cm_def find_transport_in_cm_def split: if_splits)

lemma initiate_ok:
  assumes env: "initiates_ok env" "shakes_ok env" and ok: "conns_ok {} held (mgr s)"
  shows "\<exists>r s'. CMinternal_initiate_conn env attrs s = Some (r, s') \<and> conns_ok {} (gain r held) (mgr s')"
proof (cases "chosen_transport env (split_attrs env attrs)")
  case None
  then show ?thesis using try_transports_ok [OF env ok] by (simp add: CMinternal_initiate_conn_def Let_def)
next
  case (Some t)
  obtain loaded s1 where l: "load_transport env t s = (loaded, s1)" by (cases "load_transport env t s")
  then have "mgr s1 = mgr s" "loaded \<longrightarrow> t \<in> set (transports s1)" using load_transport_mgr by blast+
  then show ?thesis
    using Some l try_transports_ok [OF env, of held s1] try_conn_ok [OF env, of held s1] ok
    by (simp add: CMinternal_initiate_conn_def Let_def)
qed

text \<open>Which connection is reused.\<close>

definition leads_to :: "'a net_env \<Rightarrow> 'a option \<Rightarrow> 'a cm_net \<Rightarrow> conn \<Rightarrow> bool" where
  "leads_to env attrs s c \<longleftrightarrow> (case conn_heap (mgr s) c of None \<Rightarrow> False | Some k \<Rightarrow>
    \<not> is_closed k \<and> \<not> is_failed k \<and>
    (remote_CManager_ID k = target_id env attrs \<or> connection_eq env (conn_trans k) attrs c s))"

lemma find_open_find:
  "\<forall>c \<in> set cs. conn_heap (mgr s) c \<noteq> None \<Longrightarrow>
    find_open env (target_id env attrs) attrs s cs = Some (find (leads_to env attrs s) cs)"
  by (induction cs) (auto simp: leads_to_def)

lemma get_conn_reuses:
  assumes ok: "conns_ok {} held (mgr s)" and f: "find (leads_to env attrs s) (conn_list (mgr s)) = Some c"
  shows "\<exists>s'. CMinternal_get_conn env attrs s = Some (Some c, s') \<and> conns_ok {} (held(c := held c + 1)) (mgr s') \<and>
    conn_list (mgr s') = conn_list (mgr s)"
proof -
  have "find_open env (target_id env attrs) attrs s (conn_list (mgr s)) = Some (Some c)"
    using find_open_find [of "conn_list (mgr s)" s env attrs] f ok by (auto simp: conns_ok_def)
  moreover have "c \<in> set (conn_list (mgr s))" using f by (metis find_Some_iff nth_mem)
  then obtain k where k: "conn_heap (mgr s) c = Some k" using listed_live [OF ok] by blast
  moreover obtain m where "INT_CMConnection_add_reference c (mgr s) = Some m" "conns_ok {} (held(c := held c + 1)) m"
    using add_reference_held [OF ok k] by blast
  ultimately show ?thesis
    by (auto simp: CMinternal_get_conn_def INT_CMConnection_add_reference_def mod_conn_put)
qed

lemma get_conn_ok:
  assumes env: "initiates_ok env" "shakes_ok env" and ok: "conns_ok {} held (mgr s)"
  shows "\<exists>r s'. CMinternal_get_conn env attrs s = Some (r, s') \<and> conns_ok {} (gain r held) (mgr s')"
proof (cases "find (leads_to env attrs s) (conn_list (mgr s))")
  case None
  have "find_open env (target_id env attrs) attrs s (conn_list (mgr s)) = Some None"
    using find_open_find [of "conn_list (mgr s)" s env attrs] None ok by (auto simp: conns_ok_def)
  then show ?thesis using initiate_ok [OF env ok] by (simp add: CMinternal_get_conn_def)
next
  case (Some c)
  from get_conn_reuses [OF ok this] show ?thesis by (metis gain_simps(2))
qed

section \<open>Parameters are read as they are written\<close>

definition show_param :: "string \<times> param_value \<Rightarrow> string" where
  "show_param = (\<lambda>(name, v). name @ ''='' @ (case v of
     Int_param n \<Rightarrow> show_int n | Long_param n \<Rightarrow> show_int n | String_param t \<Rightarrow> t))"

fun show_params :: "(string \<times> param_value) list \<Rightarrow> string" where
  "show_params [] = ''''"
| "show_params [p] = show_param p"
| "show_params (p # ps) = show_param p @ '','' @ show_params ps"

definition trimmed :: "string \<Rightarrow> bool" where
  "trimmed s \<longleftrightarrow> trim s = s"

definition plain_param :: "string \<times> param_value \<Rightarrow> bool" where
  \<comment> \<open>no separators and no white space at the ends; a number that fits; a text that is not a number\<close>
  "plain_param = (\<lambda>(name, v). CHR ''='' \<notin> set name \<and> CHR '','' \<notin> set name \<and> trimmed name \<and>
    (case v of
       Int_param n \<Rightarrow> - 2147483648 < n \<and> n < 2147483647
     | Long_param n \<Rightarrow> - (2 ^ 63) \<le> n \<and> n < 2 ^ 63 \<and> \<not> (- 2147483648 < n \<and> n < 2147483647)
     | String_param t \<Rightarrow> CHR '','' \<notin> set t \<and> trimmed t \<and> snd (strtol t) \<noteq> []))"

lemma cut_here: "c \<notin> set a \<Longrightarrow> cut c (a @ c # b) = (a, Some b)"
  by (simp add: cut_def dropWhile_append takeWhile_append takeWhile_eq_all_conv)

lemma cut_none: "c \<notin> set a \<Longrightarrow> cut c a = (a, None)"
  by (auto simp: cut_def takeWhile_eq_all_conv)

lemma show_nat_chars: "c \<in> set (show_nat n) \<Longrightarrow> isdigit c" by simp

lemma show_int_chars: "c \<in> set (show_int i) \<Longrightarrow> isdigit c \<or> c = CHR ''-''"
  by (auto simp: show_int_def split: if_splits)

lemma trim_show_int: "trim (show_int i) = show_int i"
proof -
  have n: "\<not> isspace c" if "c \<in> set (show_int i)" for c
    using show_int_chars [OF that] isdigit_not_isspace by auto
  have d: "dropWhile isspace xs = xs" if "\<And>c. c \<in> set xs \<Longrightarrow> \<not> isspace c" for xs
    using that by (cases xs) auto
  show ?thesis using d [of "show_int i"] d [of "rev (show_int i)"] n by (simp add: trim_def)
qed

lemma strtol_show_int:
  assumes "- (2 ^ 63) \<le> i" "i < 2 ^ 63"
  shows "strtol (show_int i) = (i, [])"
proof -
  obtain c t where c: "show_nat (nat \<bar>i\<bar>) = c # t" "isdigit c" using show_nat_Cons by blast
  have all: "takeWhile isdigit (show_nat n) = show_nat n" "dropWhile isdigit (show_nat n) = []" for n
    by (simp_all add: takeWhile_eq_all_conv dropWhile_eq_Nil_conv)
  have sp: "dropWhile isspace (show_int i) = show_int i"
    using c isdigit_not_isspace by (auto simp: show_int_def)
  show ?thesis
  proof (cases "i < 0")
    case True
    then show ?thesis using sp assms by (simp add: strtol_def show_int_def Let_def all)
  next
    case False
    then have "hd (show_nat (nat i)) \<noteq> CHR ''-''" "hd (show_nat (nat i)) \<noteq> CHR ''+''"
      using hd_show_nat [of "nat i"] isdigit_neq by blast+
    then show ?thesis using False sp assms by (simp add: strtol_def show_int_def Let_def all)
  qed
qed

lemma show_int_no: "CHR ''='' \<notin> set (show_int i)" "CHR '','' \<notin> set (show_int i)"
  using show_int_chars isdigit_def by fastforce+

lemma param_read:
  assumes "plain_param (name, v)"
  shows "CHR '','' \<notin> set (show_param (name, v)) \<and>
    (\<exists>text. cut CHR ''='' (show_param (name, v)) = (name, Some text) \<and> param_of text = v) \<and> trim name = name"
proof (cases v)
  case (Int_param n)
  have r: "- (2 ^ 63) \<le> n" "n < 2 ^ 63" using assms Int_param by (auto simp: plain_param_def)
  show ?thesis
    using assms Int_param strtol_show_int [OF r] show_int_no [of n] cut_here [of "CHR ''=''" name]
    by (auto simp: plain_param_def show_param_def param_of_def trim_show_int trimmed_def)
next
  case (Long_param n)
  have r: "- (2 ^ 63) \<le> n" "n < 2 ^ 63" using assms Long_param by (auto simp: plain_param_def)
  show ?thesis
    using assms Long_param strtol_show_int [OF r] show_int_no [of n] cut_here [of "CHR ''=''" name]
    by (auto simp: plain_param_def show_param_def param_of_def trim_show_int trimmed_def)
next
  case (String_param t)
  then show ?thesis
    using assms cut_here [of "CHR ''=''" name]
    by (auto simp: plain_param_def show_param_def param_of_def trimmed_def split: prod.splits)
qed

lemma params_read:
  assumes "\<forall>p \<in> set ps. plain_param p" "ps \<noteq> []"
  shows "transport_params (show_params ps) = ps"
  using assms
proof (induction ps rule: show_params.induct)
  case (2 p)
  obtain name v where p: "p = (name, v)" by (cases p)
  then have "plain_param (name, v)" using 2 by simp
  from param_read [OF this] show ?case
    using p by (auto simp: transport_params.simps [of "show_param _"] cut_none)
next
  case (3 p q ps)
  obtain name v where p: "p = (name, v)" by (cases p)
  then have "plain_param (name, v)" using 3 by simp
  from param_read [OF this] 3 show ?case
    using p by (auto simp: transport_params.simps [of "show_param _ @ _"] cut_here)
qed simp

lemma conns_ok_server [simp]: "conns_ok F held (s\<lparr>FFSserver_identifier := i\<rparr>) = conns_ok F held s"
  by (simp add: conns_ok_def conn_ok_def owners_def cong: option.case_cong)

text \<open>Where nobody waits, because the transport is not reliable, the handshake is one message.\<close>

lemma unreliable_shakes_ok:
  assumes "\<And>c. quiet_send (shake env) c" "\<And>c. \<not> transport_is_reliable (shake env) c"
    and "\<And>c s. wait_written (h_conn_env (shake env)) c s = Some s" "\<And>c s. start_read_thread env c s = s"
  shows "shakes_ok env"
proof -
  have "\<exists>s'. send_and_maybe_wait_for_handshake (shake env) c s = Some s' \<and> conns_ok {} held s'"
    if ok: "conns_ok {} held s" and h: "0 < held c" for c held s
  proof -
    obtain k where "conn_heap s c = Some k" using held_live [OF ok h] by blast
    then show ?thesis
      using assms ok
      by (auto simp: send_and_maybe_wait_for_handshake_def set_server quiet_send_def conn_wait_for_write_def Let_def)
  qed
  then show ?thesis using assms(4) by (auto simp: shakes_ok_def)
qed

definition ex_net_env :: "nat net_env" where
  "ex_net_env = \<lparr>atl = \<lparr>get_string_attr = (\<lambda>a n. None), get_int_attr = (\<lambda>a n. None), set_int_attr = (\<lambda>n i a. a),
       set_long_attr = (\<lambda>n i a. a), set_string_attr = (\<lambda>n t a. a), merge_attrs = (\<lambda>a b. a),
       set_manager_id = (\<lambda>i a. a)\<rparr>,
     dlopen_transport = (\<lambda>t. False), default_transport = Some ''sockets'',
     listen_func = (\<lambda>t info s. Some (0, s)),
     initiate_conn = libcmsockets_LTX_initiate_conn ex_conn_env (\<lambda>_. None) (\<lambda>_ _. True),
     connection_eq = (\<lambda>t a c s. False), self_check = (\<lambda>t a s. 0), start_read_thread = (\<lambda>c s. s),
     shake = ex_shake False False (\<lambda>s. None)\<rparr>"

definition ex_net :: "cmanager \<Rightarrow> nat cm_net" where
  "ex_net m = \<lparr>mgr = m, contact_lists = [], transports = [''sockets''], global_transports = [''sockets''],
     cm_initialized = True\<rparr>"

end
