(* ===== verification/CM_Formats.thy ===== *)
theory CM_Formats
  imports CM_Conn "HOL-Library.Char_ord" "HOL-Library.List_Lexorder"
begin

text \<open>
  Message formats of a CManager (cm_formats.c, cm_evol.c, and the dispatch of records in
  CMact_on_data): registered formats in the order of their names, the formats of incoming
  messages with their handlers, and formats sent ahead to the other end. Formats live in a heap.
  What FFS does with format descriptions is a parameter. strcmp orders strings by their bytes.
\<close>

datatype FMformat_order = Format_Less | Format_Greater | Format_Equal | Format_Incompatible

record cm_format =                             \<comment> \<open>struct _CMFormat\<close>
  cm_format_name :: string
  fmformat :: "FMFormat ptr"
  ffsformat :: "addr ptr option"               \<comment> \<open>None: not set yet\<close>
  fmt_handler :: "addr ptr"
  fmt_client_data :: addr
  fmt_list :: addr                             \<comment> \<open>format_list\<close>
  registration_pending :: bool

record incoming_format =                       \<comment> \<open>struct _CMincoming_format\<close>
  in_format :: "addr ptr"
  in_handler :: "addr ptr"
  in_client_data :: addr
  f2_format :: "addr option"                   \<comment> \<open>None: not initialised\<close>

record format_state =
  fmt_heap :: "addr \<Rightarrow> cm_format ptr"
  reg_formats :: "addr list"
  in_formats :: "incoming_format list"
  next_fmt :: addr
  self_server_ID :: int32                      \<comment> \<open>FFSserver_identifier\<close>

record ffs_env =
  list_name :: "addr \<Rightarrow> string"                \<comment> \<open>the name of the first structure of a list\<close>
  register_data_format :: "addr \<Rightarrow> FMFormat ptr"
  FFSset_fixed_target :: "addr \<Rightarrow> addr"
  FMformat_cmp :: "FMFormat ptr \<Rightarrow> FMFormat ptr \<Rightarrow> FMformat_order"
  FMFormat_of_original :: "addr ptr \<Rightarrow> FMFormat ptr"
  name_of_original :: "addr ptr \<Rightarrow> string"

section \<open>Registration\<close>

definition mod_fmt :: "addr \<Rightarrow> (cm_format \<Rightarrow> cm_format) \<Rightarrow> format_state \<Rightarrow> format_state option" where
  "mod_fmt f g s = do { k \<leftarrow> fmt_heap s f; Some (s\<lparr>fmt_heap := (fmt_heap s)(f := Some (g k))\<rparr>) }"

definition free_fmt :: "addr \<Rightarrow> format_state \<Rightarrow> format_state" where
  \<comment> \<open>free_CMFormat\<close>
  "free_fmt f s = s\<lparr>fmt_heap := (fmt_heap s)(f := None)\<rparr>"

definition CMcomplete_format_registration :: "ffs_env \<Rightarrow> addr \<Rightarrow> format_state \<Rightarrow> format_state option" where
  \<comment> \<open>a format that could not be registered is freed, though the lists still refer to it\<close>
  "CMcomplete_format_registration env f s =
    do {
      k \<leftarrow> fmt_heap s f;
      let target = FFSset_fixed_target env (fmt_list k);
      s \<leftarrow> mod_fmt f (\<lambda>k. k\<lparr>fmformat := register_data_format env (fmt_list k), ffsformat := Some (Some target)\<rparr>) s;
      if \<exists>r \<in> set (in_formats s). in_format r = Some target then mod_fmt f (\<lambda>k. k\<lparr>fmformat := None\<rparr>) s
      else do {
        let r = \<lparr>in_format = Some target, in_handler = fmt_handler k, in_client_data = fmt_client_data k,
                 f2_format = Some f\<rparr>;
        let s = s\<lparr>in_formats := in_formats s @ [r]\<rparr>;
        if register_data_format env (fmt_list k) = None then Some (free_fmt f s)
        else mod_fmt f (\<lambda>k. k\<lparr>registration_pending := False\<rparr>) s } }"

definition INT_CMlookup_format :: "addr \<Rightarrow> format_state \<Rightarrow> addr ptr option" where
  \<comment> \<open>the first registered format with this format list\<close>
  "INT_CMlookup_format l s =
    (if \<exists>f \<in> set (takeWhile (\<lambda>f. \<exists>k. fmt_heap s f = Some k \<and> fmt_list k \<noteq> l) (reg_formats s)). fmt_heap s f = None
     then None
     else case dropWhile (\<lambda>f. \<exists>k. fmt_heap s f = Some k \<and> fmt_list k \<noteq> l) (reg_formats s) of
       [] \<Rightarrow> Some None
     | f # _ \<Rightarrow> (case fmt_heap s f of None \<Rightarrow> None | Some _ \<Rightarrow> Some (Some f)))"

datatype insert_result = Insert_at nat | Duplicate "addr ptr option"
  \<comment> \<open>Duplicate: the format was freed, and what is returned for it; None is not initialised\<close>

definition complete_if_pending :: "ffs_env \<Rightarrow> addr \<Rightarrow> format_state \<Rightarrow> format_state option" where
  "complete_if_pending env f s =
    do { k \<leftarrow> fmt_heap s f;
         if registration_pending k then CMcomplete_format_registration env f s else Some s }"

fun find_place :: "ffs_env \<Rightarrow> addr \<Rightarrow> nat \<Rightarrow> addr list \<Rightarrow> format_state \<Rightarrow> (insert_result \<times> format_state) option" where
  \<comment> \<open>the loop of add_format_to_cm at position i, the formats from there on\<close>
  "find_place env f i [] s = Some (Insert_at i, s)"
| "find_place env f i (g # gs) s =
    do {
      kf \<leftarrow> fmt_heap s f;
      kg \<leftarrow> fmt_heap s g;
      if cm_format_name kf < cm_format_name kg then Some (Insert_at i, s)
      else if cm_format_name kf = cm_format_name kg then do {
        s \<leftarrow> complete_if_pending env g s;
        s \<leftarrow> complete_if_pending env f s;
        kf \<leftarrow> fmt_heap s f;
        kg \<leftarrow> fmt_heap s g;
        if registration_pending kf then
          (case find (\<lambda>r. ffsformat kf = Some (in_format r)) (in_formats s) of
             Some r \<Rightarrow> Some (Duplicate (map_option Some (f2_format r)), free_fmt f s)
           | None \<Rightarrow> Some (Duplicate (Some None), s))
        else
          (let suborder = FMformat_cmp env (fmformat kf) (fmformat kg)
           in if suborder = Format_Greater \<or> suborder = Format_Incompatible then Some (Insert_at i, s)
              else find_place env f (i + 1) gs s) }
      else find_place env f (i + 1) gs s }"

definition add_format_to_cm :: "ffs_env \<Rightarrow> addr \<Rightarrow> format_state \<Rightarrow> (addr ptr \<times> format_state) option" where
  "add_format_to_cm env f s =
    do {
      (r, s) \<leftarrow> find_place env f 0 (reg_formats s) s;
      case r of
        Insert_at i \<Rightarrow> Some (Some f, s\<lparr>reg_formats := take i (reg_formats s) @ f # drop i (reg_formats s)\<rparr>)
      | Duplicate d \<Rightarrow> map_option (\<lambda>d. (d, s)) d }"

definition new_format :: "ffs_env \<Rightarrow> addr \<Rightarrow> cm_format" where
  "new_format env l = \<lparr>cm_format_name = list_name env l, fmformat = None, ffsformat = None, fmt_handler = None,
     fmt_client_data = 0, fmt_list = l, registration_pending = True\<rparr>"

definition INT_CMregister_format :: "ffs_env \<Rightarrow> addr ptr \<Rightarrow> format_state \<Rightarrow> (addr ptr \<times> format_state) option" where
  "INT_CMregister_format env format_list s =
    (case format_list of
       None \<Rightarrow> Some (None, s)
     | Some l \<Rightarrow>
         (let f = next_fmt s
          in add_format_to_cm env f
               (s\<lparr>fmt_heap := (fmt_heap s)(f := Some (new_format env l)), next_fmt := f + 1\<rparr>)))"

section \<open>Handlers\<close>

fun set_handlers :: "ffs_env \<Rightarrow> addr \<Rightarrow> addr ptr \<Rightarrow> addr \<Rightarrow> nat \<Rightarrow> nat \<Rightarrow> format_state \<Rightarrow> format_state option" where
  \<comment> \<open>from position i, with n turns at most; the count is read at every turn, as completing a
    registration adds an entry\<close>
  "set_handlers env f h d i 0 s = (if i < length (in_formats s) then None else Some s)"
| "set_handlers env f h d i (Suc n) s =
    (if i \<ge> length (in_formats s) then Some s
     else do {
       k \<leftarrow> fmt_heap s f;
       if name_of_original env (in_format (in_formats s ! i)) = cm_format_name k then do {
         s \<leftarrow> complete_if_pending env f s;
         k \<leftarrow> fmt_heap s f;
         let r = in_formats s ! i;
         set_handlers env f h d (i + 1) n
           (if ffsformat k = Some (in_format r) \<and> in_handler r = None
            then s\<lparr>in_formats := (in_formats s)[i := r\<lparr>in_handler := h, in_client_data := d\<rparr>]\<rparr> else s) }
       else set_handlers env f h d (i + 1) n s })"

definition INT_CMregister_handler :: "ffs_env \<Rightarrow> addr \<Rightarrow> addr ptr \<Rightarrow> addr \<Rightarrow> format_state \<Rightarrow> format_state option" where
  \<comment> \<open>a registration is completed at most once more with a new entry: one turn more than there are entries\<close>
  "INT_CMregister_handler env f h d s =
    do {
      s \<leftarrow> mod_fmt f (\<lambda>k. k\<lparr>fmt_handler := h, fmt_client_data := d\<rparr>) s;
      set_handlers env f h d 0 (length (in_formats s) + 1) s }"

fun identify :: "ffs_env \<Rightarrow> addr ptr \<Rightarrow> addr list \<Rightarrow> format_state \<Rightarrow> (addr ptr \<times> format_state) option" where
  \<comment> \<open>the loop of CMidentify_CMformat: a registered format of the same name that needs no field the
    incoming one does not have\<close>
  "identify env t [] s = Some (None, s)"
| "identify env t (g # gs) s =
    do {
      kg \<leftarrow> fmt_heap s g;
      if name_of_original env t < cm_format_name kg then Some (None, s)
      else if name_of_original env t = cm_format_name kg then do {
        s \<leftarrow> complete_if_pending env g s;
        kg \<leftarrow> fmt_heap s g;
        if fmformat kg = None then identify env t gs s
        else (case FMformat_cmp env (FMFormat_of_original env t) (fmformat kg) of
                Format_Equal \<Rightarrow> Some (Some g, s)
              | Format_Greater \<Rightarrow> Some (Some g, s)
              | _ \<Rightarrow> identify env t gs s) }
      else identify env t gs s }"

definition CMidentify_CMformat :: "ffs_env \<Rightarrow> addr ptr \<Rightarrow> format_state \<Rightarrow> (nat ptr \<times> format_state) option" where
  \<comment> \<open>the position of the new entry; its f2_format is not set\<close>
  "CMidentify_CMformat env t s =
    do {
      (r, s) \<leftarrow> identify env t (reg_formats s) s;
      case r of
        None \<Rightarrow> Some (None, s)
      | Some g \<Rightarrow> do {
          k \<leftarrow> fmt_heap s g;
          Some (Some (length (in_formats s)),
                s\<lparr>in_formats := in_formats s @ [\<lparr>in_format = t, in_handler = fmt_handler k,
                    in_client_data = fmt_client_data k, f2_format = None\<rparr>]\<rparr>) } }"

fun complete_all :: "ffs_env \<Rightarrow> (cm_format \<Rightarrow> bool) \<Rightarrow> addr list \<Rightarrow> format_state \<Rightarrow> format_state option" where
  "complete_all env p [] s = Some s"
| "complete_all env p (f # fs) s =
    do {
      k \<leftarrow> fmt_heap s f;
      s \<leftarrow> (if registration_pending k \<and> p k then CMcomplete_format_registration env f s else Some s);
      complete_all env p fs s }"

definition CMidentify_rollbackCMformat :: "ffs_env \<Rightarrow> format_state \<Rightarrow> (nat \<times> format_state) option" where
  \<comment> \<open>nearest_format is -1: the element before the first registered format is read\<close>
  "CMidentify_rollbackCMformat env s = do { s \<leftarrow> complete_all env (\<lambda>_. True) (reg_formats s) s; None }"

section \<open>Dispatch of records\<close>

record decode_env =
  record_name :: "byte list \<Rightarrow> string option"        \<comment> \<open>FMformat_from_ID and its name\<close>
  target_from_encode :: "byte list \<Rightarrow> format_state \<Rightarrow> addr ptr"   \<comment> \<open>FFS_target_from_encode\<close>

datatype dispatch = Bad_data | No_conversion | No_handler | Handled addr addr
  \<comment> \<open>Handled: the handler is called with its client data\<close>

fun last_matching :: "addr ptr \<Rightarrow> incoming_format list \<Rightarrow> incoming_format option" where
  "last_matching t [] = None"
| "last_matching t (r # rs) =
    (case last_matching t rs of Some r' \<Rightarrow> Some r' | None \<Rightarrow> if in_format r = t then Some r else None)"

definition dispatch_record :: "ffs_env \<Rightarrow> decode_env \<Rightarrow> byte list \<Rightarrow> format_state \<Rightarrow> (dispatch \<times> format_state) option" where
  \<comment> \<open>CMact_on_data for the data of a record, up to the handler\<close>
  "dispatch_record env denv data s =
    (case record_name denv data of
       None \<Rightarrow> Some (Bad_data, s)
     | Some name \<Rightarrow> do {
         s \<leftarrow> complete_all env (\<lambda>k. cm_format_name k = name) (reg_formats s) s;
         case target_from_encode denv data s of
           None \<Rightarrow> Some (No_conversion, s)
         | Some t \<Rightarrow> (case last_matching (Some t) (in_formats s) of
             None \<Rightarrow> do { (i, s) \<leftarrow> CMidentify_rollbackCMformat env s; Some (No_handler, s) }
           | Some r \<Rightarrow> (case in_handler r of
               None \<Rightarrow> Some (No_handler, s)
             | Some h \<Rightarrow> Some (Handled h (in_client_data r), s))) })"

section \<open>Formats sent ahead\<close>

definition CMformat_preload ::
  "(FMFormat ptr \<Rightarrow> bool) \<Rightarrow> int32 \<Rightarrow> int32 \<Rightarrow> bool \<Rightarrow> FMFormat ptr \<Rightarrow> FMFormat ptr list \<Rightarrow> FMFormat ptr list \<times> FMFormat ptr list" where
  \<comment> \<open>send: CMpbio_send_format_preload; the list of the connection, and what is sent now. A format that
    could not be sent counts as sent\<close>
  "CMformat_preload send my_server remote_server closed format loaded =
    (if \<not> (my_server = - 1 \<or> remote_server = - 1 \<or> remote_server = 0 \<or> remote_server \<noteq> my_server) then (loaded, [])
     else if closed then (loaded, [])
     else if format \<in> set loaded then (loaded, [])
     else (loaded @ [format], if send format then [format] else []))"

end
