(* ===== verification/CM_Formats_Ok.thy ===== *)
theory CM_Formats_Ok
  imports CM_Formats
begin

text \<open>
  What registration keeps: the registered formats are in the order of their names, every format
  that is not pending has one entry among the incoming formats, and a record gets to the
  handler that was registered for its format.
\<close>

definition ffs_ok :: "ffs_env \<Rightarrow> bool" where
  \<comment> \<open>FFS registers every format, and knows the name of what it registered\<close>
  "ffs_ok env \<longleftrightarrow> (\<forall>l. register_data_format env l \<noteq> None) \<and>
    (\<forall>l. name_of_original env (Some (FFSset_fixed_target env l)) = list_name env l)"

definition target_of :: "ffs_env \<Rightarrow> cm_format \<Rightarrow> addr ptr" where
  "target_of env k = Some (FFSset_fixed_target env (fmt_list k))"

definition fmt_ok :: "ffs_env \<Rightarrow> format_state \<Rightarrow> addr \<Rightarrow> cm_format \<Rightarrow> bool" where
  "fmt_ok env s f k \<longleftrightarrow> cm_format_name k = list_name env (fmt_list k) \<and>
    (\<not> registration_pending k \<longrightarrow> ffsformat k = Some (target_of env k) \<and>
      (\<exists>r \<in> set (in_formats s). f2_format r = Some f \<and> in_format r = target_of env k))"

definition in_ok :: "ffs_env \<Rightarrow> format_state \<Rightarrow> incoming_format \<Rightarrow> bool" where
  "in_ok env s r \<longleftrightarrow> (\<exists>g k. f2_format r = Some g \<and> fmt_heap s g = Some k \<and> \<not> registration_pending k \<and>
    in_format r = target_of env k)"

definition formats_ok :: "ffs_env \<Rightarrow> format_state \<Rightarrow> bool" where
  "formats_ok env s \<longleftrightarrow>
    distinct (reg_formats s) \<and> (\<forall>f \<in> set (reg_formats s). fmt_heap s f \<noteq> None) \<and>
    (\<forall>f k. fmt_heap s f = Some k \<longrightarrow> fmt_ok env s f k) \<and> (\<forall>f \<ge> next_fmt s. fmt_heap s f = None) \<and>
    (\<forall>r \<in> set (in_formats s). in_ok env s r) \<and> distinct (map in_format (in_formats s))"

definition fmt_name :: "format_state \<Rightarrow> addr \<Rightarrow> string" where
  "fmt_name s f = cm_format_name (the (fmt_heap s f))"

definition by_name :: "format_state \<Rightarrow> bool" where
  "by_name s \<longleftrightarrow> sorted (map (fmt_name s) (reg_formats s))"

lemma fmt_okD: "formats_ok env s \<Longrightarrow> fmt_heap s f = Some k \<Longrightarrow> fmt_ok env s f k"
  by (simp add: formats_ok_def)

lemma in_okD: "formats_ok env s \<Longrightarrow> r \<in> set (in_formats s) \<Longrightarrow> in_ok env s r"
  by (simp add: formats_ok_def)

text \<open>What completing registrations changes.\<close>

definition same_fmt :: "cm_format ptr \<Rightarrow> cm_format ptr \<Rightarrow> bool" where
  "same_fmt a b \<longleftrightarrow> (case (a, b) of
     (None, None) \<Rightarrow> True
   | (Some k, Some k') \<Rightarrow> cm_format_name k' = cm_format_name k \<and> fmt_list k' = fmt_list k \<and>
       fmt_handler k' = fmt_handler k \<and> fmt_client_data k' = fmt_client_data k \<and>
       (registration_pending k' \<longrightarrow> registration_pending k)
   | _ \<Rightarrow> False)"

definition entry_of :: "format_state \<Rightarrow> incoming_format \<Rightarrow> bool" where
  "entry_of s r \<longleftrightarrow> (\<exists>g k. f2_format r = Some g \<and> fmt_heap s g = Some k \<and>
    in_handler r = fmt_handler k \<and> in_client_data r = fmt_client_data k)"

definition completes :: "format_state \<Rightarrow> format_state \<Rightarrow> bool" where
  "completes s s' \<longleftrightarrow> reg_formats s' = reg_formats s \<and> next_fmt s' = next_fmt s \<and>
    (\<forall>f. same_fmt (fmt_heap s f) (fmt_heap s' f)) \<and>
    (\<exists>rs. in_formats s' = in_formats s @ rs \<and> (\<forall>r \<in> set rs. entry_of s r))"

lemma same_fmt_refl [simp]: "same_fmt a a"
  by (simp add: same_fmt_def split: option.splits)

lemma same_fmt_trans: "same_fmt a b \<Longrightarrow> same_fmt b c \<Longrightarrow> same_fmt a c"
  by (auto simp: same_fmt_def split: option.splits)

lemma completes_refl [simp]: "completes s s"
  by (simp add: completes_def)

lemma entry_of_same:
  assumes "\<forall>f. same_fmt (fmt_heap s f) (fmt_heap t f)" "entry_of t r"
  shows "entry_of s r"
proof -
  obtain g k where g: "f2_format r = Some g" "fmt_heap t g = Some k" "in_handler r = fmt_handler k"
    "in_client_data r = fmt_client_data k" using assms(2) by (auto simp: entry_of_def)
  have "same_fmt (fmt_heap s g) (fmt_heap t g)" using assms(1) by blast
  with g show ?thesis by (auto simp: entry_of_def same_fmt_def split: option.splits)
qed

lemma completes_trans:
  assumes st: "completes s t" and tu: "completes t u"
  shows "completes s u"
proof -
  obtain rs rs' where rs: "in_formats t = in_formats s @ rs" "\<forall>r \<in> set rs. entry_of s r"
    and rs': "in_formats u = in_formats t @ rs'" "\<forall>r \<in> set rs'. entry_of t r"
    using st tu by (auto simp: completes_def)
  have same: "\<forall>f. same_fmt (fmt_heap s f) (fmt_heap t f)" "\<forall>f. same_fmt (fmt_heap t f) (fmt_heap u f)"
    using st tu by (simp_all add: completes_def)
  have "in_formats u = in_formats s @ (rs @ rs')" "\<forall>r \<in> set (rs @ rs'). entry_of s r"
    using rs rs' entry_of_same [OF same(1)] by auto
  moreover have "\<forall>f. same_fmt (fmt_heap s f) (fmt_heap u f)" using same same_fmt_trans by blast
  ultimately show ?thesis using st tu unfolding completes_def by metis
qed

lemma completes_heap:
  assumes "completes s s'" "fmt_heap s f = Some k"
  obtains k' where "fmt_heap s' f = Some k'" "cm_format_name k' = cm_format_name k" "fmt_list k' = fmt_list k"
    "fmt_handler k' = fmt_handler k" "fmt_client_data k' = fmt_client_data k"
    "registration_pending k' \<longrightarrow> registration_pending k"
proof -
  have "same_fmt (fmt_heap s f) (fmt_heap s' f)" using assms(1) by (simp add: completes_def)
  with that assms(2) show ?thesis by (auto simp: same_fmt_def split: option.splits)
qed

lemma completes_name: "completes s s' \<Longrightarrow> fmt_name s' f = fmt_name s f"
proof -
  assume "completes s s'"
  then have "same_fmt (fmt_heap s f) (fmt_heap s' f)" by (simp add: completes_def)
  then show ?thesis by (auto simp: same_fmt_def fmt_name_def split: option.splits)
qed

lemma completes_by_name:
  assumes "completes s s'"
  shows "by_name s' = by_name s"
proof -
  have "fmt_name s' = fmt_name s" using completes_name [OF assms] by blast
  then show ?thesis using assms by (simp add: by_name_def completes_def)
qed

lemma in_ok_step:
  assumes "in_ok env s r"
    and "\<And>g k. fmt_heap s g = Some k \<Longrightarrow> \<not> registration_pending k \<Longrightarrow> fmt_heap s' g = Some k"
  shows "in_ok env s' r"
  using assms unfolding in_ok_def by blast

lemma completesI:
  assumes "reg_formats s' = reg_formats s" "next_fmt s' = next_fmt s" "in_formats s' = in_formats s @ rs"
    and "\<And>g. g \<noteq> f \<Longrightarrow> fmt_heap s' g = fmt_heap s g" "same_fmt (fmt_heap s f) (fmt_heap s' f)"
    and "\<forall>r \<in> set rs. entry_of s r"
  shows "completes s s'"
proof -
  have "same_fmt (fmt_heap s g) (fmt_heap s' g)" for g
    using assms(4) [of g] assms(5) by (cases "g = f") simp_all
  then show ?thesis using assms(1-3,6) by (simp add: completes_def)
qed

lemma complete_ok:
  assumes ffs: "ffs_ok env" and ok: "formats_ok env s" and k: "fmt_heap s f = Some k" "registration_pending k"
  shows "\<exists>s' k'. CMcomplete_format_registration env f s = Some s' \<and> formats_ok env s' \<and> completes s s' \<and>
    fmt_heap s' f = Some k' \<and> ffsformat k' = Some (target_of env k) \<and>
    (if \<exists>r \<in> set (in_formats s). in_format r = target_of env k
     then registration_pending k' \<and> in_formats s' = in_formats s
     else \<not> registration_pending k' \<and> in_formats s' = in_formats s @
       [\<lparr>in_format = target_of env k, in_handler = fmt_handler k, in_client_data = fmt_client_data k,
         f2_format = Some f\<rparr>])"
proof -
  let ?t = "target_of env k"
  obtain m where m: "register_data_format env (fmt_list k) = Some m" using ffs by (auto simp: ffs_ok_def)
  show ?thesis
  proof (cases "\<exists>r \<in> set (in_formats s). in_format r = ?t")
    case True
    let ?k = "k\<lparr>ffsformat := Some ?t, fmformat := None\<rparr>"
    let ?s = "s\<lparr>fmt_heap := (fmt_heap s)(f := Some ?k)\<rparr>"
    have c: "CMcomplete_format_registration env f s = Some ?s"
      using True k m by (simp add: CMcomplete_format_registration_def mod_fmt_def target_of_def Let_def)
    have "fmt_ok env ?s g kg" if g: "fmt_heap ?s g = Some kg" for g kg
    proof (cases "g = f")
      case True
      then show ?thesis using g fmt_okD [OF ok k(1)] k(2) by (auto simp: fmt_ok_def)
    next
      case False
      then show ?thesis using g fmt_okD [OF ok, of g kg] by (simp add: fmt_ok_def)
    qed
    moreover have "in_ok env ?s r" if "r \<in> set (in_formats ?s)" for r
      by (rule in_ok_step [OF in_okD [OF ok]]) (use that k in \<open>auto split: if_splits\<close>)
    ultimately have "formats_ok env ?s" using ok k by (auto simp: formats_ok_def)
    moreover have "completes s ?s" by (rule completesI [where f = f]) (use k in \<open>auto simp: same_fmt_def entry_of_def\<close>)
    ultimately show ?thesis using c True k(2) by auto
  next
    case False
    let ?k = "k\<lparr>fmformat := Some m, ffsformat := Some ?t, registration_pending := False\<rparr>"
    let ?r = "\<lparr>in_format = ?t, in_handler = fmt_handler k, in_client_data = fmt_client_data k, f2_format = Some f\<rparr>"
    let ?s = "s\<lparr>fmt_heap := (fmt_heap s)(f := Some ?k), in_formats := in_formats s @ [?r]\<rparr>"
    have c: "CMcomplete_format_registration env f s = Some ?s"
      using False k m by (simp add: CMcomplete_format_registration_def mod_fmt_def target_of_def Let_def)
    have "fmt_ok env ?s g kg" if g: "fmt_heap ?s g = Some kg" for g kg
    proof (cases "g = f")
      case True
      then show ?thesis using g fmt_okD [OF ok k(1)] by (auto simp: fmt_ok_def target_of_def)
    next
      case False
      then show ?thesis using g fmt_okD [OF ok, of g kg] by (auto simp: fmt_ok_def)
    qed
    moreover have "in_ok env ?s r" if r: "r \<in> set (in_formats ?s)" for r
    proof (cases "r = ?r")
      case True
      then show ?thesis by (auto simp: in_ok_def target_of_def)
    next
      case False
      then have "in_ok env s r" using r in_okD [OF ok] by simp
      then show ?thesis by (rule in_ok_step) (use k in \<open>auto split: if_splits\<close>)
    qed
    moreover have "distinct (map in_format (in_formats ?s))" using ok False by (auto simp: formats_ok_def)
    ultimately have "formats_ok env ?s" using ok k by (auto simp: formats_ok_def)
    moreover have "completes s ?s" by (rule completesI [where f = f]) (use k in \<open>auto simp: same_fmt_def entry_of_def\<close>)
    ultimately show ?thesis using c False by auto
  qed
qed

lemma complete_if_pending_ok:
  assumes ffs: "ffs_ok env" and ok: "formats_ok env s" and k: "fmt_heap s f = Some k"
  shows "\<exists>s' k'. complete_if_pending env f s = Some s' \<and> formats_ok env s' \<and> completes s s' \<and>
    fmt_heap s' f = Some k' \<and> ffsformat k' = Some (target_of env k) \<and>
    (\<exists>r \<in> set (in_formats s'). in_format r = target_of env k) \<and>
    (registration_pending k' \<longleftrightarrow>
      registration_pending k \<and> (\<exists>r \<in> set (in_formats s). in_format r = target_of env k)) \<and>
    length (in_formats s') \<le> length (in_formats s) + (if registration_pending k \<and> \<not> registration_pending k' then 1 else 0) \<and>
    (\<forall>r \<in> set (in_formats s'). r \<in> set (in_formats s) \<or>
      r = \<lparr>in_format = target_of env k, in_handler = fmt_handler k, in_client_data = fmt_client_data k, f2_format = Some f\<rparr>)"
proof (cases "registration_pending k")
  case True
  obtain s' k' where c: "CMcomplete_format_registration env f s = Some s'" "formats_ok env s'" "completes s s'"
      "fmt_heap s' f = Some k'" "ffsformat k' = Some (target_of env k)"
    and i: "if \<exists>r \<in> set (in_formats s). in_format r = target_of env k
     then registration_pending k' \<and> in_formats s' = in_formats s
     else \<not> registration_pending k' \<and> in_formats s' = in_formats s @
       [\<lparr>in_format = target_of env k, in_handler = fmt_handler k, in_client_data = fmt_client_data k,
         f2_format = Some f\<rparr>]"
    using complete_ok [OF ffs ok k True] by blast
  have "complete_if_pending env f s = Some s'" using c(1) k True by (simp add: complete_if_pending_def)
  then show ?thesis
    using c(2-5) i True
    by (intro exI [of _ s'] exI [of _ k']) (cases "\<exists>r \<in> set (in_formats s). in_format r = target_of env k"; auto)
next
  case False
  then have "ffsformat k = Some (target_of env k)" "\<exists>r \<in> set (in_formats s). in_format r = target_of env k"
    using fmt_okD [OF ok k] by (auto simp: fmt_ok_def)
  then show ?thesis using k False ok by (auto simp: complete_if_pending_def)
qed

section \<open>Registration\<close>

definition settled :: "format_state \<Rightarrow> addr \<Rightarrow> bool" where
  "settled s f \<longleftrightarrow> (\<exists>k. fmt_heap s f = Some k \<and> \<not> registration_pending k)"

definition lone :: "format_state \<Rightarrow> bool" where
  \<comment> \<open>a pending format is the only one of its name\<close>
  "lone s \<longleftrightarrow> (\<forall>f \<in> set (reg_formats s). \<forall>g \<in> set (reg_formats s).
    fmt_name s f = fmt_name s g \<longrightarrow> f \<noteq> g \<longrightarrow> settled s f)"

lemma completes_settled:
  assumes "completes s s'" "settled s f"
  shows "settled s' f"
proof -
  obtain k where k: "fmt_heap s f = Some k" "\<not> registration_pending k" using assms(2) by (auto simp: settled_def)
  from completes_heap [OF assms(1) k(1)] k(2) show ?thesis by (metis settled_def)
qed

lemma completes_lone: "completes s s' \<Longrightarrow> lone s \<Longrightarrow> lone s'"
  using completes_settled [of s s'] completes_name [of s s'] by (simp add: lone_def completes_def)

lemma free_ok:
  assumes ok: "formats_ok env s" and f: "f \<notin> set (reg_formats s)" "\<not> settled s f"
  shows "formats_ok env (free_fmt f s)"
proof -
  have "in_ok env (free_fmt f s) r" if "r \<in> set (in_formats s)" for r
    by (rule in_ok_step [OF in_okD [OF ok that]]) (use f(2) in \<open>auto simp: free_fmt_def settled_def\<close>)
  then show ?thesis using ok f(1) by (auto simp: formats_ok_def free_fmt_def fmt_ok_def)
qed

definition found_ok :: "ffs_env \<Rightarrow> addr \<Rightarrow> format_state \<Rightarrow> insert_result \<Rightarrow> format_state \<Rightarrow> bool" where
  "found_ok env f s r s' \<longleftrightarrow> formats_ok env s' \<and> reg_formats s' = reg_formats s \<and> next_fmt s' = next_fmt s \<and> (case r of
     Insert_at i \<Rightarrow> completes s s' \<and>
       (\<forall>g \<in> set (take i (reg_formats s)). fmt_name s g \<le> fmt_name s f) \<and>
       (\<forall>g \<in> set (drop i (reg_formats s)). fmt_name s f \<le> fmt_name s g) \<and>
       (\<forall>g \<in> set (reg_formats s). fmt_name s g = fmt_name s f \<longrightarrow> settled s' g \<and> settled s' f)
   | Duplicate d \<Rightarrow> (\<exists>t. completes s t \<and> formats_ok env t \<and> s' = free_fmt f t) \<and>
       (\<exists>g k kf. d = Some (Some g) \<and> g \<noteq> f \<and> fmt_heap s' g = Some k \<and> fmt_heap s f = Some kf \<and>
         \<not> registration_pending k \<and> target_of env k = target_of env kf))"

lemma target_same_name:
  assumes "formats_ok env s" "fmt_heap s f = Some k" "fmt_heap s g = Some k'" "target_of env k = target_of env k'" "ffs_ok env"
  shows "fmt_name s f = fmt_name s g"
proof -
  have "list_name env (fmt_list k) = list_name env (fmt_list k')"
    using assms(4,5) unfolding target_of_def ffs_ok_def by (metis option.inject)
  then show ?thesis
    using fmt_okD [OF assms(1,2)] fmt_okD [OF assms(1,3)] assms(2,3) by (simp add: fmt_ok_def fmt_name_def)
qed

lemma found_ok_completes:
  assumes "found_ok env f t r u" "completes s t" "fmt_heap s f = Some kf"
  shows "found_ok env f s r u"
proof -
  have n: "fmt_name t = fmt_name s" and l: "reg_formats t = reg_formats s" "next_fmt t = next_fmt s"
    using assms(2) completes_name by (auto simp: completes_def)
  obtain k' where k': "fmt_heap t f = Some k'" "fmt_list k' = fmt_list kf"
    using completes_heap [OF assms(2,3)] by metis
  show ?thesis
  proof (cases r)
    case (Insert_at i)
    then show ?thesis
      using assms(1) n l completes_trans [OF assms(2)] by (simp add: found_ok_def)
  next
    case (Duplicate d)
    have "\<exists>v. completes s v \<and> formats_ok env v \<and> u = free_fmt f v"
      using assms(1) Duplicate completes_trans [OF assms(2)] by (auto simp: found_ok_def)
    then show ?thesis
      using assms(1,3) k' Duplicate l by (auto simp: found_ok_def target_of_def)
  qed
qed

definition met :: "addr \<Rightarrow> addr list \<Rightarrow> format_state \<Rightarrow> bool" where
  \<comment> \<open>what holds when f was compared with the formats pre: f is completed, or no one of its name was met\<close>
  "met f pre s \<longleftrightarrow>
    (\<not> settled s f \<and> (\<forall>x \<in> set pre. fmt_name s x \<noteq> fmt_name s f)) \<or>
    (settled s f \<and> (\<forall>x \<in> set (reg_formats s). fmt_name s x = fmt_name s f \<longrightarrow> settled s x))"

definition only :: "addr \<Rightarrow> format_state \<Rightarrow> bool" where
  "only f s \<longleftrightarrow> f \<notin> set (reg_formats s) \<and> (\<forall>x. fmt_heap s x \<noteq> None \<longrightarrow> x \<in> set (reg_formats s) \<or> x = f)"

lemma completes_only:
  assumes "completes s s'" "only f s"
  shows "only f s'"
proof -
  have "fmt_heap s x \<noteq> None" if "fmt_heap s' x \<noteq> None" for x
  proof -
    have "same_fmt (fmt_heap s x) (fmt_heap s' x)" using assms(1) by (simp add: completes_def)
    then show ?thesis using that by (auto simp: same_fmt_def split: option.splits)
  qed
  then show ?thesis using assms by (auto simp: only_def completes_def)
qed

text \<open>Two formats of one name, met for the first time.\<close>

lemma both_completed:
  assumes ffs: "ffs_ok env" and ok: "formats_ok env s" and lone: "lone s" and only: "only f s"
    and kf: "fmt_heap s f = Some kf" and g: "g \<in> set (reg_formats s)" "fmt_name s g = fmt_name s f"
    and met: "met f pre s"
  shows "\<exists>s1 s2. complete_if_pending env g s = Some s1 \<and> complete_if_pending env f s1 = Some s2 \<and>
    formats_ok env s2 \<and> completes s s2 \<and> settled s2 g \<and>
    (\<forall>x \<in> set (reg_formats s). fmt_name s x = fmt_name s f \<longrightarrow> settled s2 x) \<and>
    (\<exists>k2. fmt_heap s2 f = Some k2 \<and> fmt_list k2 = fmt_list kf \<and> ffsformat k2 = Some (target_of env k2) \<and>
      (\<exists>r \<in> set (in_formats s2). in_format r = target_of env k2))"
proof -
  obtain kg where kg: "fmt_heap s g = Some kg" using ok g(1) by (auto simp: formats_ok_def)
  obtain s1 kg1 where s1: "complete_if_pending env g s = Some s1" "formats_ok env s1" "completes s s1"
      "fmt_heap s1 g = Some kg1"
      "registration_pending kg1 \<longleftrightarrow> registration_pending kg \<and> (\<exists>r \<in> set (in_formats s). in_format r = target_of env kg)"
    using complete_if_pending_ok [OF ffs ok kg] by blast
  obtain kf1 where kf1: "fmt_heap s1 f = Some kf1" "fmt_list kf1 = fmt_list kf"
    using completes_heap [OF s1(3) kf] by metis
  obtain s2 k2 where s2: "complete_if_pending env f s1 = Some s2" "formats_ok env s2" "completes s1 s2"
      "fmt_heap s2 f = Some k2" "ffsformat k2 = Some (target_of env kf1)"
      "\<exists>r \<in> set (in_formats s2). in_format r = target_of env kf1"
    using complete_if_pending_ok [OF ffs s1(2) kf1(1)] by blast
  have k2: "fmt_list k2 = fmt_list kf" using completes_heap [OF s2(3) kf1(1)] s2(4) kf1(2) by (metis option.inject)
  have t: "target_of env kf1 = target_of env k2" using k2 kf1(2) by (simp add: target_of_def)
  have "\<not> registration_pending kg1"
  proof
    assume "registration_pending kg1"
    then obtain r where r: "r \<in> set (in_formats s)" "in_format r = target_of env kg" "registration_pending kg"
      using s1(5) by blast
    from in_okD [OF ok r(1)] r(2) obtain g0 k0 where g0: "fmt_heap s g0 = Some k0" "\<not> registration_pending k0"
      "target_of env kg = target_of env k0" by (auto simp: in_ok_def)
    have "fmt_name s g = fmt_name s g0" by (rule target_same_name [OF ok kg g0(1,3) ffs])
    moreover have "g \<noteq> g0" using r(3) g0(1,2) kg by auto
    moreover have pg: "\<not> settled s g" using r(3) kg by (simp add: settled_def)
    ultimately have "g0 \<notin> set (reg_formats s)" using lone g(1) by (auto simp: lone_def)
    then have "g0 = f" using only g0(1) by (auto simp: only_def)
    then have "settled s f" using g0 by (simp add: settled_def)
    then show False using met pg g by (auto simp: met_def)
  qed
  then have g2: "settled s2 g" using s1(4) completes_settled [OF s2(3)] by (simp add: settled_def)
  have c: "completes s s2" by (rule completes_trans [OF s1(3) s2(3)])
  have "settled s2 x" if "x \<in> set (reg_formats s)" "fmt_name s x = fmt_name s f" for x
  proof (cases "x = g")
    case False
    then have "settled s x" using lone that g by (auto simp: lone_def)
    then show ?thesis by (rule completes_settled [OF c])
  qed (use g2 in simp)
  then show ?thesis using s1(1) s2 k2 t c g2 by auto
qed

lemma find_place_ok:
  assumes ffs: "ffs_ok env"
  shows "formats_ok env s \<Longrightarrow> lone s \<Longrightarrow> by_name s \<Longrightarrow> only f s \<Longrightarrow> fmt_heap s f = Some kf \<Longrightarrow>
    reg_formats s = pre @ gs \<Longrightarrow> (\<And>x. x \<in> set pre \<Longrightarrow> fmt_name s x \<le> fmt_name s f) \<Longrightarrow> met f pre s \<Longrightarrow>
    \<exists>r s'. find_place env f (length pre) gs s = Some (r, s') \<and> found_ok env f s r s'"
proof (induction gs arbitrary: s pre kf)
  case Nil
  have "\<forall>g \<in> set (reg_formats s). fmt_name s g = fmt_name s f \<longrightarrow> settled s g \<and> settled s f"
    using Nil.prems(6,8) by (auto simp: met_def)
  then show ?case using Nil.prems by (simp add: found_ok_def)
next
  case (Cons g gs)
  note ok = Cons.prems(1) and lone = Cons.prems(2) and srt = Cons.prems(3) and only = Cons.prems(4)
    and kf = Cons.prems(5) and reg = Cons.prems(6) and le = Cons.prems(7) and met = Cons.prems(8)
  have gin: "g \<in> set (reg_formats s)" using reg by simp
  then obtain kg where kg: "fmt_heap s g = Some kg" using ok by (auto simp: formats_ok_def)
  have gs: "\<forall>x \<in> set gs. fmt_name s g \<le> fmt_name s x" using srt reg by (simp add: by_name_def sorted_append)
  have nf: "cm_format_name kf = fmt_name s f" and ng: "cm_format_name kg = fmt_name s g" using kf kg by (simp_all add: fmt_name_def)
  consider (less) "fmt_name s f < fmt_name s g" | (eq) "fmt_name s f = fmt_name s g" | (greater) "fmt_name s g < fmt_name s f"
    by fastforce
  then show ?case
  proof cases
    case less
    have "\<forall>x \<in> set (reg_formats s). fmt_name s x = fmt_name s f \<longrightarrow> settled s x \<and> settled s f"
      using met less gs reg by (auto simp: met_def dest: bspec)
    moreover have "\<forall>x \<in> set (g # gs). fmt_name s f \<le> fmt_name s x"
      using less gs by (auto simp: order.strict_implies_order dest!: bspec [of "set gs"])
    ultimately show ?thesis using Cons.prems less kg nf ng by (simp add: found_ok_def)
  next
    case greater
    have "met f (pre @ [g]) s" using met greater by (auto simp: met_def)
    moreover have "fmt_name s x \<le> fmt_name s f" if "x \<in> set (pre @ [g])" for x
      using that le greater by auto
    ultimately obtain r s' where "find_place env f (length (pre @ [g])) gs s = Some (r, s')" "found_ok env f s r s'"
      using Cons.IH [OF ok lone srt only kf, of "pre @ [g]"] reg by auto
    moreover have "\<not> cm_format_name kf < cm_format_name kg" "cm_format_name kf \<noteq> cm_format_name kg" using greater nf ng by auto
    ultimately show ?thesis using kf kg by simp
  next
    case eq
    obtain s1 s2 k2 where s12: "complete_if_pending env g s = Some s1" "complete_if_pending env f s1 = Some s2"
      and ok2: "formats_ok env s2" and c: "completes s s2" and g2: "settled s2 g"
      and all: "\<forall>x \<in> set (reg_formats s). fmt_name s x = fmt_name s f \<longrightarrow> settled s2 x"
      and k2: "fmt_heap s2 f = Some k2" "fmt_list k2 = fmt_list kf" "ffsformat k2 = Some (target_of env k2)"
      and ent: "\<exists>r \<in> set (in_formats s2). in_format r = target_of env k2"
      using both_completed [OF ffs ok lone only kf gin eq [symmetric] met] by blast
    obtain kg2 where kg2: "fmt_heap s2 g = Some kg2" using g2 by (auto simp: settled_def)
    have n2: "fmt_name s2 = fmt_name s" and r2: "reg_formats s2 = reg_formats s" "next_fmt s2 = next_fmt s"
      using c completes_name by (auto simp: completes_def)
    show ?thesis
    proof (cases "registration_pending k2")
      case True
      obtain r where r: "find (\<lambda>r. ffsformat k2 = Some (in_format r)) (in_formats s2) = Some r"
        using ent k2(3) by (cases "find (\<lambda>r. ffsformat k2 = Some (in_format r)) (in_formats s2)")
          (auto simp: find_None_iff)
      then have rin: "r \<in> set (in_formats s2)" "in_format r = target_of env k2"
        using k2(3) by (auto simp: find_Some_iff in_set_conv_nth)
      from in_okD [OF ok2 rin(1)] rin(2) obtain g0 k0 where g0: "f2_format r = Some g0" "fmt_heap s2 g0 = Some k0"
        "\<not> registration_pending k0" "target_of env k2 = target_of env k0" by (auto simp: in_ok_def)
      have ne: "g0 \<noteq> f" using g0 k2(1) True by auto
      have "formats_ok env (free_fmt f s2)"
        by (rule free_ok [OF ok2]) (use only r2 True k2(1) in \<open>auto simp: only_def settled_def\<close>)
      moreover have "\<exists>t. completes s t \<and> formats_ok env t \<and> free_fmt f s2 = free_fmt f t" using c ok2 by blast
      moreover have "fmt_heap (free_fmt f s2) f = None" "fmt_heap (free_fmt f s2) g0 = Some k0"
        "reg_formats (free_fmt f s2) = reg_formats s" "next_fmt (free_fmt f s2) = next_fmt s"
        using ne g0(2) r2 by (simp_all add: free_fmt_def)
      moreover have "target_of env k0 = target_of env kf" using g0(4) k2(2) by (simp add: target_of_def)
      ultimately have "found_ok env f s (Duplicate (Some (Some g0))) (free_fmt f s2)"
        using ne g0(3) kf unfolding found_ok_def by auto
      moreover have "find_place env f (length pre) (g # gs) s = Some (Duplicate (Some (Some g0)), free_fmt f s2)"
        using kf kg eq nf ng s12 k2(1) kg2 True r g0(1) by simp
      ultimately show ?thesis by blast
    next
      case False
      then have f2: "settled s2 f" using k2(1) by (simp add: settled_def)
      let ?o = "FMformat_cmp env (fmformat k2) (fmformat kg2)"
      show ?thesis
      proof (cases "?o = Format_Greater \<or> ?o = Format_Incompatible")
        case True
        have "find_place env f (length pre) (g # gs) s = Some (Insert_at (length pre), s2)"
          using kf kg eq nf ng s12 k2(1) kg2 True False by (auto simp: Let_def)
        moreover have "found_ok env f s (Insert_at (length pre)) s2"
          using ok2 c all f2 le gs eq reg r2 by (simp add: found_ok_def)
        ultimately show ?thesis by blast
      next
        case no: False
        have "met f (pre @ [g]) s2" using f2 all n2 r2 by (auto simp: met_def)
        moreover have "fmt_name s2 x \<le> fmt_name s2 f" if "x \<in> set (pre @ [g])" for x
          using that le eq n2 by auto
        ultimately obtain r s' where rs: "find_place env f (length (pre @ [g])) gs s2 = Some (r, s')" "found_ok env f s2 r s'"
          using Cons.IH [OF ok2 completes_lone [OF c lone] _ completes_only [OF c only] k2(1), of "pre @ [g]"]
            srt completes_by_name [OF c] r2 reg by auto
        have "find_place env f (length pre) (g # gs) s = Some (r, s')"
          using kf kg eq nf ng s12 k2(1) kg2 no False rs(1) by (auto simp: Let_def)
        then show ?thesis using found_ok_completes [OF rs(2) c kf] by blast
      qed
    qed
  qed
qed

definition registry_ok :: "ffs_env \<Rightarrow> format_state \<Rightarrow> bool" where
  "registry_ok env s \<longleftrightarrow> formats_ok env s \<and> lone s \<and> by_name s \<and>
    (\<forall>f. fmt_heap s f \<noteq> None \<longrightarrow> f \<in> set (reg_formats s))"

definition with_new :: "ffs_env \<Rightarrow> addr \<Rightarrow> format_state \<Rightarrow> format_state" where
  "with_new env l s = s\<lparr>fmt_heap := (fmt_heap s)(next_fmt s := Some (new_format env l)), next_fmt := next_fmt s + 1\<rparr>"

lemma with_new_ok:
  assumes "registry_ok env s"
  shows "formats_ok env (with_new env l s)" "lone (with_new env l s)" "by_name (with_new env l s)"
    "only (next_fmt s) (with_new env l s)" "fmt_heap (with_new env l s) (next_fmt s) = Some (new_format env l)"
    "met (next_fmt s) [] (with_new env l s)"
proof -
  let ?s = "with_new env l s" and ?f = "next_fmt s"
  have ok: "formats_ok env s" using assms by (simp add: registry_ok_def)
  then have free: "fmt_heap s ?f = None" and out: "?f \<notin> set (reg_formats s)" by (auto simp: formats_ok_def)
  have "fmt_ok env ?s g k" if "fmt_heap ?s g = Some k" for g k
    using that fmt_okD [OF ok, of g k] by (auto simp: with_new_def fmt_ok_def new_format_def split: if_splits)
  moreover have "in_ok env ?s r" if "r \<in> set (in_formats s)" for r
    by (rule in_ok_step [OF in_okD [OF ok that]]) (use free in \<open>auto simp: with_new_def\<close>)
  ultimately show "formats_ok env ?s" using ok out by (auto simp: formats_ok_def with_new_def)
  have same: "fmt_heap ?s x = fmt_heap s x" if "x \<in> set (reg_formats s)" for x
    using that out by (auto simp: with_new_def)
  have reg: "reg_formats ?s = reg_formats s" by (simp add: with_new_def)
  show "lone ?s" using assms same by (simp add: registry_ok_def lone_def reg fmt_name_def settled_def)
  have "map (fmt_name ?s) (reg_formats s) = map (fmt_name s) (reg_formats s)"
    using same by (simp add: fmt_name_def)
  then show "by_name ?s" using assms unfolding registry_ok_def by_name_def reg by metis
  show "only ?f ?s" using assms out by (auto simp: registry_ok_def only_def with_new_def)
  show h: "fmt_heap ?s ?f = Some (new_format env l)" by (simp add: with_new_def)
  show "met ?f [] ?s" using h by (simp add: met_def settled_def new_format_def)
qed

lemma lone_insert:
  assumes "lone s" "set rs = insert f (set (reg_formats s))"
    and "\<forall>g \<in> set (reg_formats s). fmt_name s g = fmt_name s f \<longrightarrow> settled s g \<and> settled s f"
  shows "lone (s\<lparr>reg_formats := rs\<rparr>)"
proof -
  have "fmt_name (s\<lparr>reg_formats := rs\<rparr>) x = fmt_name s x" "settled (s\<lparr>reg_formats := rs\<rparr>) x = settled s x" for x
    by (simp_all add: fmt_name_def settled_def)
  then show ?thesis using assms by (auto simp: lone_def)
qed

lemma insert_at_ok:
  assumes f: "found_ok env f s (Insert_at i) s'" and k: "fmt_heap s f = Some kf"
    and s: "lone s" "by_name s" "only f s"
  shows "registry_ok env (s'\<lparr>reg_formats := take i (reg_formats s') @ f # drop i (reg_formats s')\<rparr>)"
proof -
  let ?u = "s'\<lparr>reg_formats := take i (reg_formats s') @ f # drop i (reg_formats s')\<rparr>"
  have ok: "formats_ok env s'" and c: "completes s s'" and reg: "reg_formats s' = reg_formats s"
    and below: "\<forall>g \<in> set (take i (reg_formats s)). fmt_name s g \<le> fmt_name s f"
    and above: "\<forall>g \<in> set (drop i (reg_formats s)). fmt_name s f \<le> fmt_name s g"
    and sett: "\<forall>g \<in> set (reg_formats s). fmt_name s g = fmt_name s f \<longrightarrow> settled s' g \<and> settled s' f"
    using f by (auto simp: found_ok_def)
  have n: "fmt_name s' = fmt_name s" using completes_name [OF c] by blast
  have nu: "fmt_name ?u = fmt_name s'" by (simp add: fmt_name_def fun_eq_iff)
  have out: "f \<notin> set (reg_formats s)" using s(3) by (simp add: only_def)
  have set_u: "set (reg_formats ?u) = insert f (set (reg_formats s))"
    by (simp add: reg) (metis append_take_drop_id set_append)
  obtain k' where k': "fmt_heap s' f = Some k'" using completes_heap [OF c k] by metis
  have dist: "distinct (reg_formats ?u)"
    using ok out reg distinct_append [of "take i (reg_formats s)" "drop i (reg_formats s)"]
    by (auto simp: formats_ok_def dest: in_set_takeD in_set_dropD)
  have "fmt_ok env ?u = fmt_ok env s'" "in_ok env ?u = in_ok env s'"
    by (simp_all add: fmt_ok_def in_ok_def fun_eq_iff)
  then have "formats_ok env ?u" using ok dist k' set_u reg by (auto simp: formats_ok_def)
  moreover have "lone ?u"
    by (rule lone_insert [OF completes_lone [OF c s(1)], where f = f]) (use set_u sett n reg in auto)
  moreover have "by_name ?u"
  proof -
    have "sorted (map (fmt_name s) (reg_formats s))" using s(2) by (simp add: by_name_def)
    then have "sorted (map (fmt_name s) (take i (reg_formats s)))" "sorted (map (fmt_name s) (drop i (reg_formats s)))"
      and "\<forall>x \<in> set (take i (reg_formats s)). \<forall>y \<in> set (drop i (reg_formats s)). fmt_name s x \<le> fmt_name s y"
      using sorted_append [of "map (fmt_name s) (take i (reg_formats s))" "map (fmt_name s) (drop i (reg_formats s))"]
      by (simp_all flip: map_append)
    then show ?thesis using below above unfolding by_name_def nu n by (auto simp: reg sorted_append)
  qed
  moreover have "\<forall>x. fmt_heap ?u x \<noteq> None \<longrightarrow> x \<in> set (reg_formats ?u)"
    unfolding set_u using completes_only [OF c s(3)] by (auto simp: only_def reg)
  ultimately show ?thesis by (simp add: registry_ok_def)
qed

lemma freed_ok:
  assumes ok: "formats_ok env (free_fmt f t)" and s: "lone t" "by_name t" "only f t"
  shows "registry_ok env (free_fmt f t)"
proof -
  have same: "fmt_name (free_fmt f t) x = fmt_name t x" "settled (free_fmt f t) x = settled t x"
    if "x \<in> set (reg_formats t)" for x
    using that s(3) by (auto simp: only_def fmt_name_def settled_def free_fmt_def)
  have reg: "reg_formats (free_fmt f t) = reg_formats t" by (simp add: free_fmt_def)
  have "map (fmt_name (free_fmt f t)) (reg_formats t) = map (fmt_name t) (reg_formats t)"
    using same(1) by (rule map_cong [OF refl])
  then have "by_name (free_fmt f t)" using s(2) unfolding by_name_def reg by metis
  moreover have "lone (free_fmt f t)" using s(1) same by (simp add: lone_def reg)
  moreover have "\<forall>x. fmt_heap (free_fmt f t) x \<noteq> None \<longrightarrow> x \<in> set (reg_formats (free_fmt f t))"
    using s(3) by (auto simp: only_def free_fmt_def)
  ultimately show ?thesis using ok by (simp add: registry_ok_def)
qed

text \<open>Handlers of the formats of one target.\<close>

definition handled_by :: "ffs_env \<Rightarrow> (addr ptr \<Rightarrow> addr \<Rightarrow> bool) \<Rightarrow> addr ptr \<Rightarrow> format_state \<Rightarrow> bool" where
  "handled_by env Q t s \<longleftrightarrow>
    (\<forall>f k. fmt_heap s f = Some k \<longrightarrow> target_of env k = t \<longrightarrow> Q (fmt_handler k) (fmt_client_data k)) \<and>
    (\<forall>r \<in> set (in_formats s). in_format r = t \<longrightarrow> Q (in_handler r) (in_client_data r))"

lemma completes_handled:
  assumes c: "completes s s'" and ok: "formats_ok env s'" and h: "handled_by env Q t s"
  shows "handled_by env Q t s'"
proof -
  have heap: "\<exists>k. fmt_heap s f = Some k \<and> fmt_list k = fmt_list k' \<and> fmt_handler k = fmt_handler k' \<and>
      fmt_client_data k = fmt_client_data k'" if "fmt_heap s' f = Some k'" for f k'
  proof -
    have "same_fmt (fmt_heap s f) (fmt_heap s' f)" using c by (simp add: completes_def)
    then show ?thesis using that by (auto simp: same_fmt_def split: option.splits)
  qed
  have "Q (in_handler r) (in_client_data r)" if r: "r \<in> set (in_formats s')" "in_format r = t" for r
  proof (cases "r \<in> set (in_formats s)")
    case True
    then show ?thesis using h r(2) by (simp add: handled_by_def)
  next
    case False
    then have "entry_of s r" using c r(1) by (auto simp: completes_def)
    then obtain g k where g: "f2_format r = Some g" "fmt_heap s g = Some k" "in_handler r = fmt_handler k"
      "in_client_data r = fmt_client_data k" by (auto simp: entry_of_def)
    obtain k' where k': "fmt_heap s' g = Some k'" "in_format r = target_of env k'"
      using in_okD [OF ok r(1)] g(1) by (auto simp: in_ok_def)
    with heap [OF k'(1)] g(2) r(2) have "target_of env k = t" by (auto simp: target_of_def)
    then show ?thesis using h g by (simp add: handled_by_def)
  qed
  moreover have "Q (fmt_handler k') (fmt_client_data k')" if hk: "fmt_heap s' f = Some k'" "target_of env k' = t" for f k'
  proof -
    obtain k where k: "fmt_heap s f = Some k" "fmt_list k = fmt_list k'" "fmt_handler k = fmt_handler k'"
      "fmt_client_data k = fmt_client_data k'" using heap [OF hk(1)] by blast
    have "target_of env k = t" using k(2) hk(2) by (simp add: target_of_def)
    then have "Q (fmt_handler k) (fmt_client_data k)" using h k(1) by (simp add: handled_by_def)
    then show ?thesis using k by simp
  qed
  ultimately show ?thesis by (simp add: handled_by_def)
qed

lemma register_new: "INT_CMregister_format env (Some l) s = add_format_to_cm env (next_fmt s) (with_new env l s)"
  by (simp add: INT_CMregister_format_def with_new_def Let_def)

lemma register_ok:
  assumes ffs: "ffs_ok env" and ok: "registry_ok env s"
  shows "\<exists>f s' k. INT_CMregister_format env (Some l) s = Some (Some f, s') \<and> registry_ok env s' \<and>
    fmt_heap s' f = Some k \<and> target_of env k = Some (FFSset_fixed_target env l) \<and>
    (\<forall>Q t. Q None 0 \<longrightarrow> handled_by env Q t s \<longrightarrow> handled_by env Q t s') \<and>
    (fmt_heap s f = None \<longrightarrow> fmt_handler k = None) \<and>
    (fmt_heap s f \<noteq> None \<longrightarrow> reg_formats s' = reg_formats s) \<and>
    set (reg_formats s') = insert f (set (reg_formats s))"
proof -
  let ?s = "with_new env l s" and ?f = "next_fmt s"
  note w = with_new_ok [OF ok, of l]
  have reg: "reg_formats ?s = reg_formats s" by (simp add: with_new_def)
  obtain r s' where r: "find_place env ?f 0 (reg_formats s) ?s = Some (r, s')" and f: "found_ok env ?f ?s r s'"
    using find_place_ok [OF ffs w(1-5), of "[]" "reg_formats s"] w(6) reg by auto
  have hand: "handled_by env Q t ?s" if "handled_by env Q t s" "Q None 0" for Q t
    using that by (auto simp: handled_by_def with_new_def new_format_def)
  have free: "fmt_heap s ?f = None" using ok by (simp add: registry_ok_def formats_ok_def)
  show ?thesis
  proof (cases r)
    case (Insert_at i)
    let ?u = "s'\<lparr>reg_formats := take i (reg_formats s') @ ?f # drop i (reg_formats s')\<rparr>"
    have c: "completes ?s s'" and r': "reg_formats s' = reg_formats s" using f Insert_at reg by (auto simp: found_ok_def)
    have "registry_ok env ?u" by (rule insert_at_ok [OF f [unfolded Insert_at] w(5,2,3,4)])
    moreover obtain k where "fmt_heap s' ?f = Some k" "fmt_list k = l" "fmt_handler k = None"
      using completes_heap [OF c w(5)] by (metis new_format_def cm_format.simps(4,6))
    moreover have "handled_by env Q t ?u" if "handled_by env Q t s" "Q None 0" for Q t
      using completes_handled [OF c _ hand [OF that]] f by (simp add: handled_by_def found_ok_def)
    moreover have "INT_CMregister_format env (Some l) s = Some (Some ?f, ?u)"
      using r Insert_at reg
      by (simp add: register_new add_format_to_cm_def)
    moreover have "set (reg_formats ?u) = insert ?f (set (reg_formats s))"
      by (simp add: r') (metis append_take_drop_id set_append)
    ultimately show ?thesis
      using free by (intro exI [of _ ?f] exI [of _ ?u] exI [of _ k]) (auto simp: target_of_def)
  next
    case (Duplicate d)
    then obtain t g k where t: "completes ?s t" "s' = free_fmt ?f t" "formats_ok env t" and d: "d = Some (Some g)" "g \<noteq> ?f"
      "fmt_heap s' g = Some k" "target_of env k = target_of env (new_format env l)"
      using f w(5) by (auto simp: found_ok_def)
    have reg_t: "reg_formats t = reg_formats s" using t(1) reg by (simp add: completes_def)
    have "formats_ok env (free_fmt ?f t)" using f t(2) by (simp add: found_ok_def)
    moreover have "by_name t" using completes_by_name [OF t(1)] w(3) by blast
    ultimately have reg_ok: "registry_ok env s'"
      using freed_ok completes_lone [OF t(1) w(2)] completes_only [OF t(1) w(4)] t(2) by metis
    moreover have "handled_by env Q t' s'" if "handled_by env Q t' s" "Q None 0" for Q t'
      using completes_handled [OF t(1,3) hand [OF that]] t(2) by (simp add: handled_by_def free_fmt_def)
    moreover have "INT_CMregister_format env (Some l) s = Some (Some g, s')"
      using r Duplicate reg d(1)
      by (simp add: register_new add_format_to_cm_def)
    moreover have g: "g \<in> set (reg_formats s)" "reg_formats s' = reg_formats s"
      using reg_ok d(3) reg_t t(2) by (auto simp: registry_ok_def free_fmt_def)
    moreover have "fmt_heap s g \<noteq> None" using ok g(1) unfolding registry_ok_def formats_ok_def by blast
    moreover have "target_of env k = Some (FFSset_fixed_target env l)" using d(4) by (simp add: target_of_def new_format_def)
    ultimately show ?thesis using d(3) by (intro exI [of _ g] exI [of _ s'] exI [of _ k]) (auto simp: insert_absorb)
  qed
qed

section \<open>Handlers\<close>

lemma completes_registry:
  assumes "registry_ok env s" "completes s s'" "formats_ok env s'"
  shows "registry_ok env s'"
proof -
  have "fmt_heap s x \<noteq> None" if "fmt_heap s' x \<noteq> None" for x
  proof -
    have "same_fmt (fmt_heap s x) (fmt_heap s' x)" using assms(2) by (simp add: completes_def)
    then show ?thesis using that by (auto simp: same_fmt_def split: option.splits)
  qed
  then show ?thesis
    using assms completes_lone [OF assms(2)] completes_by_name [OF assms(2)]
    by (simp add: registry_ok_def completes_def)
qed

text \<open>A target has one format.\<close>

lemma one_format:
  assumes ffs: "ffs_ok env" and ok: "registry_ok env s"
    and f: "fmt_heap s f = Some k" and g: "fmt_heap s g = Some k'" and t: "target_of env k = target_of env k'"
  shows "f = g"
proof (rule ccontr)
  assume ne: "f \<noteq> g"
  have fo: "formats_ok env s" using ok by (simp add: registry_ok_def)
  have "fmt_name s f = fmt_name s g" by (rule target_same_name [OF fo f g t ffs])
  moreover have "f \<in> set (reg_formats s)" "g \<in> set (reg_formats s)" using ok f g by (auto simp: registry_ok_def)
  ultimately have "settled s f" "settled s g" using ok ne by (auto simp: registry_ok_def lone_def)
  then obtain r r' where r: "r \<in> set (in_formats s)" "f2_format r = Some f" "in_format r = target_of env k"
    and r': "r' \<in> set (in_formats s)" "f2_format r' = Some g" "in_format r' = target_of env k'"
    using fmt_okD [OF fo f] fmt_okD [OF fo g] f g by (auto simp: settled_def fmt_ok_def)
  have "inj_on in_format (set (in_formats s))" using fo by (simp add: formats_ok_def distinct_map)
  then have "r = r'" by (rule inj_onD) (use r r' t in simp_all)
  then show False using r(2) r'(2) ne by simp
qed

lemma handler_set_ok:
  assumes "registry_ok env s" "i < length (in_formats s)"
  shows "registry_ok env (s\<lparr>in_formats := (in_formats s)[i := (in_formats s ! i)\<lparr>in_handler := h, in_client_data := d\<rparr>]\<rparr>)"
proof -
  let ?r = "(in_formats s ! i)\<lparr>in_handler := h, in_client_data := d\<rparr>"
  let ?s = "s\<lparr>in_formats := (in_formats s)[i := ?r]\<rparr>"
  have ok: "formats_ok env s" using assms(1) by (simp add: registry_ok_def)
  have m: "map in_format ((in_formats s)[i := ?r]) = map in_format (in_formats s)"
    by (simp add: map_update list_update_same_conv assms(2))
  have "fmt_ok env ?s f k" if "fmt_heap s f = Some k" for f k
  proof -
    have "\<exists>r \<in> set ((in_formats s)[i := ?r]). f2_format r = Some f \<and> in_format r = target_of env k"
      if r: "r \<in> set (in_formats s)" "f2_format r = Some f" "in_format r = target_of env k" for r
    proof (cases "r = in_formats s ! i")
      case True
      then show ?thesis using r assms(2) by (intro bexI [of _ ?r]) (auto simp: set_update_memI)
    next
      case False
      then obtain j where "j < length (in_formats s)" "in_formats s ! j = r" "j \<noteq> i"
        using r(1) by (auto simp: in_set_conv_nth)
      then have "r \<in> set ((in_formats s)[i := ?r])" by (auto simp: in_set_conv_nth nth_list_update)
      then show ?thesis using r by blast
    qed
    then show ?thesis using fmt_okD [OF ok that] by (auto simp: fmt_ok_def)
  qed
  moreover have "in_ok env ?s r" if "r \<in> set ((in_formats s)[i := ?r])" for r
  proof -
    have "in_ok env s (in_formats s ! i)" "\<And>r. r \<in> set (in_formats s) \<Longrightarrow> in_ok env s r"
      using in_okD [OF ok] assms(2) by auto
    then have "in_ok env s ?r" by (simp add: in_ok_def)
    moreover have "r = ?r \<or> r \<in> set (in_formats s)" using that set_update_subset_insert by fastforce
    ultimately have "in_ok env s r" using in_okD [OF ok] by blast
    then show ?thesis by (simp add: in_ok_def)
  qed
  ultimately have "formats_ok env ?s" using ok m by (simp add: formats_ok_def)
  moreover have "fmt_name ?s = fmt_name s" "settled ?s = settled s"
    by (simp_all add: fmt_name_def settled_def fun_eq_iff)
  then have "lone ?s" "by_name ?s" using assms(1) by (simp_all add: registry_ok_def lone_def by_name_def)
  ultimately show ?thesis using assms(1) by (simp add: registry_ok_def)
qed

definition entries_ok :: "(addr ptr \<Rightarrow> addr \<Rightarrow> bool) \<Rightarrow> addr ptr \<Rightarrow> incoming_format list \<Rightarrow> bool" where
  \<comment> \<open>no other handler is in the way\<close>
  "entries_ok Q t rs \<longleftrightarrow> (\<forall>r \<in> set rs. in_format r = t \<longrightarrow> in_handler r = None \<or> Q (in_handler r) (in_client_data r))"

lemma completes_entries:
  assumes c: "completes s s'" and ok: "formats_ok env s'" and e: "entries_ok Q t (in_formats s)"
    and h: "\<And>g k. fmt_heap s g = Some k \<Longrightarrow> target_of env k = t \<Longrightarrow> Q (fmt_handler k) (fmt_client_data k)"
  shows "entries_ok Q t (in_formats s')"
proof -
  have "handled_by env (\<lambda>h d. h = None \<or> Q h d) t s" using e h by (auto simp: handled_by_def entries_ok_def)
  from completes_handled [OF c ok this] show ?thesis by (simp add: handled_by_def entries_ok_def)
qed

definition handled_from ::
  "ffs_env \<Rightarrow> (addr ptr \<Rightarrow> addr \<Rightarrow> bool) \<Rightarrow> addr \<Rightarrow> addr ptr \<Rightarrow> addr \<Rightarrow> addr ptr \<Rightarrow> nat \<Rightarrow> format_state \<Rightarrow> format_state \<Rightarrow> bool" where
  "handled_from env Q f h d t i s s' \<longleftrightarrow> registry_ok env s' \<and>
    (\<exists>k. fmt_heap s' f = Some k \<and> target_of env k = t \<and> fmt_handler k = h \<and> fmt_client_data k = d) \<and>
    take i (in_formats s') = take i (in_formats s) \<and>
    (\<forall>j. i \<le> j \<longrightarrow> j < length (in_formats s') \<longrightarrow> in_format (in_formats s' ! j) = t \<longrightarrow>
      Q (in_handler (in_formats s' ! j)) (in_client_data (in_formats s' ! j)))"

lemma handled_from_Suc:
  assumes "handled_from env Q f h d t (Suc i) s1 s'" "take i (in_formats s1) = take i (in_formats s)"
    and "in_format (in_formats s1 ! i) = t \<Longrightarrow> Q (in_handler (in_formats s1 ! i)) (in_client_data (in_formats s1 ! i))"
  shows "handled_from env Q f h d t i s s'"
proof -
  have tk: "take (Suc i) (in_formats s') = take (Suc i) (in_formats s1)"
    and rest: "\<And>j. Suc i \<le> j \<Longrightarrow> j < length (in_formats s') \<Longrightarrow> in_format (in_formats s' ! j) = t \<Longrightarrow>
      Q (in_handler (in_formats s' ! j)) (in_client_data (in_formats s' ! j))"
    using assms(1) by (auto simp: handled_from_def)
  have at: "in_formats s' ! i = in_formats s1 ! i"
    using tk nth_take [of i "Suc i" "in_formats s'"] nth_take [of i "Suc i" "in_formats s1"] by simp
  have "take i (in_formats s') = take i (in_formats s)"
    using arg_cong [OF tk, of "take i"] assms(2) by simp
  moreover have "Q (in_handler (in_formats s' ! j)) (in_client_data (in_formats s' ! j))"
    if "i \<le> j" "j < length (in_formats s')" "in_format (in_formats s' ! j) = t" for j
    using rest [of j] assms(3) that at by (cases "j = i") auto
  ultimately show ?thesis using assms(1) by (auto simp: handled_from_def)
qed

lemma set_handlers_ok:
  assumes ffs: "ffs_ok env" and Q: "Q h d"
  shows "registry_ok env s \<Longrightarrow> fmt_heap s f = Some k \<Longrightarrow> fmt_handler k = h \<Longrightarrow> fmt_client_data k = d \<Longrightarrow>
    entries_ok Q (target_of env k) (in_formats s) \<Longrightarrow>
    length (in_formats s) + (if registration_pending k then 1 else 0) \<le> i + n \<Longrightarrow>
    \<exists>s'. set_handlers env f h d i n s = Some s' \<and> handled_from env Q f h d (target_of env k) i s s'"
proof (induction n arbitrary: i s k)
  case 0
  then show ?case by (auto simp: handled_from_def)
next
  case (Suc n)
  note ok = Suc.prems(1) and k = Suc.prems(2,3,4) and e = Suc.prems(5) and len = Suc.prems(6)
  have fo: "formats_ok env s" using ok by (simp add: registry_ok_def)
  show ?case
  proof (cases "i < length (in_formats s)")
    case False
    then show ?thesis using ok k by (auto simp: handled_from_def)
  next
    case i: True
    let ?r = "in_formats s ! i"
    show ?thesis
    proof (cases "name_of_original env (in_format ?r) = cm_format_name k")
      case False
      obtain s' where s': "set_handlers env f h d (Suc i) n s = Some s'"
        "handled_from env Q f h d (target_of env k) (Suc i) s s'"
        using Suc.IH [OF ok k e, of "Suc i"] len by auto
      have "in_format ?r \<noteq> target_of env k"
        using False fmt_okD [OF fo k(1)] ffs by (auto simp: fmt_ok_def ffs_ok_def target_of_def)
      then have "handled_from env Q f h d (target_of env k) i s s'"
        using handled_from_Suc [OF s'(2)] by simp
      then show ?thesis using s'(1) i k(1) False by simp
    next
      case True
      obtain s1 k1 where s1: "complete_if_pending env f s = Some s1" "formats_ok env s1" "completes s s1"
          "fmt_heap s1 f = Some k1" "ffsformat k1 = Some (target_of env k)"
        and len1: "length (in_formats s1) \<le> length (in_formats s) + (if registration_pending k \<and> \<not> registration_pending k1 then 1 else 0)"
        using complete_if_pending_ok [OF ffs fo k(1)] by blast
      have k1: "fmt_list k1 = fmt_list k" "fmt_handler k1 = h" "fmt_client_data k1 = d"
        "registration_pending k1 \<longrightarrow> registration_pending k"
        using completes_heap [OF s1(3) k(1)] s1(4) k(2,3) by (metis option.inject)+
      have t: "target_of env k1 = target_of env k" using k1(1) by (simp add: target_of_def)
      have ok1: "registry_ok env s1" by (rule completes_registry [OF ok s1(3,2)])
      have Qk: "Q (fmt_handler k') (fmt_client_data k')" if "fmt_heap s g = Some k'" "target_of env k' = target_of env k" for g k'
        using one_format [OF ffs ok that(1) k(1) that(2)] that(1) k Q by simp
      have e1: "entries_ok Q (target_of env k) (in_formats s1)" by (rule completes_entries [OF s1(3,2) e Qk])
      obtain rs where rs: "in_formats s1 = in_formats s @ rs" using s1(3) by (auto simp: completes_def)
      have i1: "i < length (in_formats s1)" "in_formats s1 ! i = ?r" using i rs by (auto simp: nth_append)
      have er: "in_format ?r = target_of env k \<Longrightarrow> in_handler ?r = None \<or> Q (in_handler ?r) (in_client_data ?r)"
        using e nth_mem [OF i] unfolding entries_ok_def by blast
      let ?b = "ffsformat k1 = Some (in_format ?r) \<and> in_handler ?r = None"
      let ?s2 = "if ?b then s1\<lparr>in_formats := (in_formats s1)[i := ?r\<lparr>in_handler := h, in_client_data := d\<rparr>]\<rparr> else s1"
      have ok2: "registry_ok env ?s2" using ok1 handler_set_ok [OF ok1 i1(1), where h = h and d = d] i1(2) by simp
      have h2: "fmt_heap ?s2 f = Some k1" using s1(4) by simp
      have e2: "entries_ok Q (target_of env k1) (in_formats ?s2)"
        using e1 Q t set_update_subset_insert [of "in_formats s1" i "?r\<lparr>in_handler := h, in_client_data := d\<rparr>"]
        by (auto simp: entries_ok_def)
      have "length (in_formats ?s2) + (if registration_pending k1 then 1 else 0) \<le> Suc i + n"
        using len len1 k1(4) by (auto split: if_splits)
      then obtain s' where s': "set_handlers env f h d (Suc i) n ?s2 = Some s'"
        "handled_from env Q f h d (target_of env k) (Suc i) ?s2 s'"
        using Suc.IH [OF ok2 h2 k1(2,3) e2, of "Suc i"] t by auto
      have "take i (in_formats ?s2) = take i (in_formats s)" using rs i by simp
      moreover have "Q (in_handler (in_formats ?s2 ! i)) (in_client_data (in_formats ?s2 ! i))"
        if "in_format (in_formats ?s2 ! i) = target_of env k"
        using that Q er i1 s1(5) by (auto split: if_splits)
      ultimately have "handled_from env Q f h d (target_of env k) i s s'"
        by (rule handled_from_Suc [OF s'(2)])
      moreover have "set_handlers env f h d i (Suc n) s = Some s'"
        using i k(1) True s1(1,4) s'(1) i1(2) by (cases ?b) (auto simp: Let_def)
      ultimately show ?thesis by blast
    qed
  qed
qed

lemma register_handler_ok:
  assumes ffs: "ffs_ok env" and Q: "Q h d" and ok: "registry_ok env s" and k: "fmt_heap s f = Some k"
    and e: "entries_ok Q (target_of env k) (in_formats s)"
  shows "\<exists>s' k'. INT_CMregister_handler env f h d s = Some s' \<and> registry_ok env s' \<and>
    fmt_heap s' f = Some k' \<and> target_of env k' = target_of env k \<and> handled_by env Q (target_of env k) s'"
proof -
  let ?k = "k\<lparr>fmt_handler := h, fmt_client_data := d\<rparr>"
  let ?s = "s\<lparr>fmt_heap := (fmt_heap s)(f := Some ?k)\<rparr>"
  have t: "target_of env ?k = target_of env k" by (simp add: target_of_def)
  have fo: "formats_ok env s" using ok by (simp add: registry_ok_def)
  have "fmt_ok env ?s g kg" if "fmt_heap ?s g = Some kg" for g kg
    using that fmt_okD [OF fo k] fmt_okD [OF fo, of g kg] t by (cases "g = f") (auto simp: fmt_ok_def)
  moreover have "in_ok env ?s r" if r: "r \<in> set (in_formats s)" for r
  proof -
    obtain g k0 where "f2_format r = Some g" "fmt_heap s g = Some k0" "\<not> registration_pending k0"
      "in_format r = target_of env k0" using in_okD [OF fo r] by (auto simp: in_ok_def)
    then show ?thesis using k t by (cases "g = f") (auto simp: in_ok_def)
  qed
  ultimately have "formats_ok env ?s" using fo k by (auto simp: formats_ok_def)
  moreover have "fmt_name ?s = fmt_name s" "settled ?s = settled s"
    using k by (auto simp: fmt_name_def settled_def fun_eq_iff)
  ultimately have ok1: "registry_ok env ?s" using ok k by (auto simp: registry_ok_def lone_def by_name_def)
  have "\<exists>s'. set_handlers env f h d 0 (length (in_formats s) + 1) ?s = Some s' \<and>
      handled_from env Q f h d (target_of env ?k) 0 ?s s'"
    by (rule set_handlers_ok [where Q = Q, OF ffs _ ok1]) (use Q e t in simp_all)
  then obtain s' where s': "set_handlers env f h d 0 (length (in_formats s) + 1) ?s = Some s'"
    "handled_from env Q f h d (target_of env k) 0 ?s s'"
    using t by auto
  then obtain k' where k': "fmt_heap s' f = Some k'" "target_of env k' = target_of env k" "fmt_handler k' = h"
    "fmt_client_data k' = d" and ok': "registry_ok env s'" by (auto simp: handled_from_def)
  have "Q (fmt_handler kg) (fmt_client_data kg)" if "fmt_heap s' g = Some kg" "target_of env kg = target_of env k" for g kg
    using one_format [OF ffs ok' that(1) k'(1)] that k' Q by simp
  moreover have "Q (in_handler r) (in_client_data r)" if "r \<in> set (in_formats s')" "in_format r = target_of env k" for r
    using s'(2) that by (auto simp: handled_from_def in_set_conv_nth)
  ultimately have "handled_by env Q (target_of env k) s'" by (simp add: handled_by_def)
  moreover have "INT_CMregister_handler env f h d s = Some s'"
    using k s'(1) by (simp add: INT_CMregister_handler_def mod_fmt_def del: set_handlers.simps)
  ultimately show ?thesis using k' ok' by blast
qed

section \<open>Dispatch\<close>

lemma complete_all_ok:
  assumes ffs: "ffs_ok env"
  shows "registry_ok env s \<Longrightarrow> set fs \<subseteq> set (reg_formats s) \<Longrightarrow>
    \<exists>s'. complete_all env (\<lambda>k. cm_format_name k = nm) fs s = Some s' \<and> registry_ok env s' \<and> completes s s' \<and>
      (\<forall>f \<in> set fs. \<forall>k. fmt_heap s f = Some k \<longrightarrow> cm_format_name k = nm \<longrightarrow>
        (\<exists>r \<in> set (in_formats s'). in_format r = target_of env k))"
proof (induction fs arbitrary: s)
  case Nil
  then show ?case by auto
next
  case (Cons f fs)
  have ok: "formats_ok env s" and reg: "registry_ok env s" using Cons.prems by (simp_all add: registry_ok_def)
  then obtain k where k: "fmt_heap s f = Some k" using Cons.prems(2) by (auto simp: formats_ok_def)
  let ?step = "if registration_pending k \<and> cm_format_name k = nm then CMcomplete_format_registration env f s else Some s"
  have "\<exists>s1. ?step = Some s1 \<and> formats_ok env s1 \<and> completes s s1 \<and>
    (cm_format_name k = nm \<longrightarrow> (\<exists>r \<in> set (in_formats s1). in_format r = target_of env k))"
    using complete_if_pending_ok [OF ffs ok k] k ok by (auto simp: complete_if_pending_def split: if_splits)
  then obtain s1 where s1: "?step = Some s1" "formats_ok env s1" "completes s s1"
    and e1: "cm_format_name k = nm \<longrightarrow> (\<exists>r \<in> set (in_formats s1). in_format r = target_of env k)" by blast
  have ok1: "registry_ok env s1" by (rule completes_registry [OF reg s1(3,2)])
  have "set fs \<subseteq> set (reg_formats s1)" using Cons.prems(2) s1(3) by (simp add: completes_def)
  then obtain s' where s': "complete_all env (\<lambda>k. cm_format_name k = nm) fs s1 = Some s'" "registry_ok env s'" "completes s1 s'"
    "\<forall>f \<in> set fs. \<forall>k. fmt_heap s1 f = Some k \<longrightarrow> cm_format_name k = nm \<longrightarrow>
        (\<exists>r \<in> set (in_formats s'). in_format r = target_of env k)"
    using Cons.IH [OF ok1] by blast
  have "\<exists>r \<in> set (in_formats s'). in_format r = target_of env k'"
    if g: "g \<in> set (f # fs)" "fmt_heap s g = Some k'" "cm_format_name k' = nm" for g k'
  proof (cases "g \<in> set fs")
    case True
    obtain k1 where "fmt_heap s1 g = Some k1" "cm_format_name k1 = nm" "fmt_list k1 = fmt_list k'"
      using completes_heap [OF s1(3) g(2)] g(3) by metis
    then show ?thesis using s'(4) True by (auto simp: target_of_def)
  next
    case False
    then show ?thesis using g k e1 s'(3) by (auto simp: completes_def)
  qed
  moreover have "complete_all env (\<lambda>k. cm_format_name k = nm) (f # fs) s = Some s'" using k s1(1) s'(1) by simp
  ultimately show ?case using s'(2) completes_trans [OF s1(3) s'(3)] by blast
qed

lemma last_matching_in: "last_matching t rs = Some r \<Longrightarrow> r \<in> set rs \<and> in_format r = t"
  by (induction rs) (auto split: option.splits if_splits)

lemma last_matching_None: "last_matching t rs = None \<longleftrightarrow> (\<forall>r \<in> set rs. in_format r \<noteq> t)"
  by (induction rs) (auto split: option.splits)

lemma dispatch_ok:
  assumes ffs: "ffs_ok env" and ok: "registry_ok env s" and k: "fmt_heap s f = Some k" "target_of env k = Some t"
    and h: "handled_by env Q (Some t) s" and Q: "\<And>h d. Q h d \<Longrightarrow> h \<noteq> None"
    and denv: "record_name denv data = Some (cm_format_name k)" "\<And>s. target_from_encode denv data s = Some t"
  shows "\<exists>h d s'. dispatch_record env denv data s = Some (Handled h d, s') \<and> Q (Some h) d \<and> registry_ok env s'"
proof -
  have f: "f \<in> set (reg_formats s)" using ok k by (simp add: registry_ok_def)
  obtain s' where s': "complete_all env (\<lambda>k'. cm_format_name k' = cm_format_name k) (reg_formats s) s = Some s'"
    "registry_ok env s'" "completes s s'" "\<exists>r \<in> set (in_formats s'). in_format r = Some t"
    using complete_all_ok [OF ffs ok subset_refl, of "cm_format_name k"] f k by metis
  have "handled_by env Q (Some t) s'"
    by (rule completes_handled [OF s'(3) _ h]) (use s'(2) in \<open>simp add: registry_ok_def\<close>)
  moreover obtain r where r: "last_matching (Some t) (in_formats s') = Some r"
    using s'(4) last_matching_None [of "Some t" "in_formats s'"] by (cases "last_matching (Some t) (in_formats s')") auto
  ultimately have q: "Q (in_handler r) (in_client_data r)" using last_matching_in [OF r] by (auto simp: handled_by_def)
  then obtain h' where "in_handler r = Some h'" using Q by blast
  then show ?thesis using q s' r denv by (simp add: dispatch_record_def)
qed

lemma name_of_target:
  assumes "ffs_ok env" "registry_ok env s" "fmt_heap s f = Some k" "target_of env k = Some (FFSset_fixed_target env l)"
  shows "cm_format_name k = list_name env l"
proof -
  have "fmt_ok env s f k" using assms(2,3) fmt_okD by (auto simp: registry_ok_def)
  then show ?thesis using assms(1,4) unfolding fmt_ok_def ffs_ok_def target_of_def by (metis option.inject)
qed

text \<open>A registry with one pending format, and an FFS that calls a format by the number of its list.\<close>

definition ex_ffs :: ffs_env where
  "ex_ffs = \<lparr>list_name = \<lambda>l. if l = 7 then ''point'' else ''event'', register_data_format = \<lambda>l. Some l,
     FFSset_fixed_target = \<lambda>l. l, FMformat_cmp = \<lambda>a b. if a = b then Format_Equal else Format_Incompatible,
     FMFormat_of_original = \<lambda>t. t, name_of_original = \<lambda>t. if t = Some 7 then ''point'' else ''event''\<rparr>"

definition ex_formats :: format_state where
  "ex_formats = \<lparr>fmt_heap = [0 \<mapsto> new_format ex_ffs 5], reg_formats = [0], in_formats = [], next_fmt = 1,
     self_server_ID = 0\<rparr>"

definition ex_decode :: decode_env where
  "ex_decode = \<lparr>record_name = \<lambda>_. Some ''point'', target_from_encode = \<lambda>_ _. Some 7\<rparr>"

lemma ex_ffs_ok: "ffs_ok ex_ffs"
  by (simp add: ffs_ok_def ex_ffs_def)

lemma ex_formats_ok: "registry_ok ex_ffs ex_formats"
  by (simp add: registry_ok_def formats_ok_def lone_def by_name_def fmt_ok_def new_format_def ex_formats_def)

end
