(* ===== verification/CM_Select.thy ===== *)
theory CM_Select
  imports Chr_Time Ev_Types
begin

text \<open>
  The select loop of a CManager (cmselect.c): the tables of descriptors with their functions, the
  list of periodic and delayed tasks, and socket_select, which waits for descriptors and runs what
  is due. Functions run by the loop, the operating system and the clock are parameters on the
  whole state. A descriptor of FD_SETSIZE or above is outside the bit maps.
\<close>

definition FD_SETSIZE :: nat where
  "FD_SETSIZE = 1024"

record fd_item =                               \<comment> \<open>FunctionListElement\<close>
  item_func :: "addr ptr"
  item_arg1 :: "addr ptr"
  item_arg2 :: "addr ptr"

record periodic_task =
  period_sec :: int
  period_usec :: int
  executing :: "nat option"                    \<comment> \<open>the thread; None is -1\<close>
  next_time :: timeval
  task_func :: addr
  task_arg1 :: "addr ptr"
  task_arg2 :: "addr ptr"

datatype select_effect =
    Run_item nat addr "addr ptr" "addr ptr"    \<comment> \<open>the descriptor, its function and arguments\<close>
  | Run_task addr "addr ptr" "addr ptr"
  | Wake_byte nat
  | Selected "timeval option"
  | Bad_fd nat
  | Close_fd nat
  | Task_not_found
  | Wrong_thread

record select_data =
  sel_thread :: nat                            \<comment> \<open>server_thread, 0 is NULL\<close>
  fdset :: "nat set"
  write_set :: "nat set"
  sel_item_max :: nat
  select_items :: "fd_item list"
  write_items :: "fd_item list"
  periodic_task_list :: "(addr \<times> periodic_task) list"   \<comment> \<open>with the addresses of the tasks\<close>
  sel_closed :: bool
  sel_cm :: "addr ptr option"                  \<comment> \<open>None: not initialised\<close>
  select_consistency_number :: int
  wake_read_fd :: "nat ptr"                    \<comment> \<open>None is INVALID_SOCKET\<close>
  wake_write_fd :: "nat ptr"
  sel_locked :: bool                           \<comment> \<open>the lock of the CManager\<close>
  next_task :: addr
  sel_clock :: timeval                         \<comment> \<open>what gettimeofday reads\<close>
  sel_effects :: "select_effect list"          \<comment> \<open>newest first\<close>

datatype select_errno = E_INTR | E_ZERO | E_BADF | E_AGAIN | E_OTHER

datatype select_result = Ready int "nat set" "nat set" | Select_failed select_errno

record select_env =
  self_thread :: nat
  os_select :: "nat \<Rightarrow> nat set \<Rightarrow> nat set \<Rightarrow> timeval option \<Rightarrow> select_data \<Rightarrow> (select_result \<times> select_data) option"
  is_bad_fd :: "nat \<Rightarrow> select_data \<Rightarrow> bool"    \<comment> \<open>select on this descriptor alone gives EBADF\<close>
  make_pipe :: "(nat \<times> nat) ptr"
  run_func :: "addr \<Rightarrow> addr ptr \<Rightarrow> addr ptr \<Rightarrow> select_data \<Rightarrow> select_data option"
  wait_task :: "addr \<Rightarrow> select_data \<Rightarrow> select_data option"   \<comment> \<open>until another thread is done with it\<close>

definition sel_emit :: "select_effect \<Rightarrow> select_data \<Rightarrow> select_data" where
  "sel_emit x s = s\<lparr>sel_effects := x # sel_effects s\<rparr>"

definition no_item :: fd_item where
  "no_item = \<lparr>item_func = None, item_arg1 = None, item_arg2 = None\<rparr>"

definition assert_locked :: "select_data \<Rightarrow> unit option" where
  \<comment> \<open>if (sd->cm) assert(CM_LOCKED(svc, sd->cm)); sd->cm may not be initialised\<close>
  "assert_locked s = do { cm \<leftarrow> sel_cm s; assert_c (cm = None \<or> sel_locked s) }"

definition wake_server_thread :: "select_data \<Rightarrow> select_data" where
  "wake_server_thread s = (case wake_write_fd s of None \<Rightarrow> s | Some fd \<Rightarrow> sel_emit (Wake_byte fd) s)"

section \<open>Descriptors\<close>

definition grow_items :: "nat \<Rightarrow> select_data \<Rightarrow> select_data" where
  "grow_items fd s =
    (if fd > sel_item_max s then
       s\<lparr>select_items := take (sel_item_max s + 1) (select_items s) @ replicate (fd - sel_item_max s) no_item,
         write_items := take (sel_item_max s + 1) (write_items s) @ replicate (fd - sel_item_max s) no_item,
         sel_item_max := fd\<rparr>
     else s)"

definition add_item :: "nat \<Rightarrow> addr ptr \<Rightarrow> addr ptr \<Rightarrow> addr ptr \<Rightarrow> select_data \<Rightarrow> select_data option" where
  \<comment> \<open>the body of add_select, once there is a struct\<close>
  "add_item fd f a b s =
    do {
      let s = grow_items fd (s\<lparr>select_consistency_number := select_consistency_number s + 1\<rparr>);
      assert_c (fd < FD_SETSIZE);
      items \<leftarrow> upd_c (select_items s) (int fd) \<lparr>item_func = f, item_arg1 = a, item_arg2 = b\<rparr>;
      Some (wake_server_thread (s\<lparr>fdset := insert fd (fdset s), select_items := items\<rparr>)) }"

definition add_select :: "nat \<Rightarrow> addr ptr \<Rightarrow> addr ptr \<Rightarrow> addr ptr \<Rightarrow> select_data ptr \<Rightarrow> select_data option" where
  \<comment> \<open>libcmselect_LTX_add_select; the struct is used before it is tested for NULL\<close>
  "add_select fd f a b sd = do { s \<leftarrow> sd; assert_locked s; add_item fd f a b s }"

definition read_wake_fd :: addr where
  \<comment> \<open>the function of the reading end of the wake pipe\<close>
  "read_wake_fd = 1"

definition setup_wake_mechanism :: "select_env \<Rightarrow> select_data \<Rightarrow> select_data option" where
  "setup_wake_mechanism env s =
    do {
      assert_locked s;
      if wake_read_fd s \<noteq> None then Some s
      else (case make_pipe env of
        None \<Rightarrow> Some s
      | Some (r, w) \<Rightarrow>
          add_select r (Some read_wake_fd) (Some r) None (Some (s\<lparr>wake_read_fd := Some r, wake_write_fd := Some w\<rparr>))) }"

definition init_select_data :: "select_env \<Rightarrow> addr ptr \<Rightarrow> bool \<times> timeval \<Rightarrow> select_data option" where
  \<comment> \<open>the last argument: whether the lock is held, and the clock\<close>
  "init_select_data env cm lk =
    setup_wake_mechanism env
      \<lparr>sel_thread = 0, fdset = {}, write_set = {}, sel_item_max = 0, select_items = [no_item], write_items = [no_item],
       periodic_task_list = [], sel_closed = False, sel_cm = map_option Some cm, select_consistency_number = 0,
       wake_read_fd = None, wake_write_fd = None, sel_locked = fst lk, next_task = 1, sel_clock = snd lk, sel_effects = []\<rparr>"

definition with_data :: "select_env \<Rightarrow> bool \<times> timeval \<Rightarrow> select_data ptr \<Rightarrow> select_data option" where
  \<comment> \<open>if (sd == NULL) init_select_data(svc, sdp, NULL)\<close>
  "with_data env lk sd = (case sd of None \<Rightarrow> init_select_data env None lk | Some s \<Rightarrow> Some s)"

definition write_select ::
  "select_env \<Rightarrow> bool \<times> timeval \<Rightarrow> nat \<Rightarrow> addr ptr \<Rightarrow> addr ptr \<Rightarrow> addr ptr \<Rightarrow> select_data ptr \<Rightarrow> select_data option" where
  \<comment> \<open>libcmselect_LTX_write_select\<close>
  "write_select env lk fd f a b sd =
    do {
      s \<leftarrow> with_data env lk sd;
      assert_locked s;
      let s = grow_items fd (s\<lparr>select_consistency_number := select_consistency_number s + 1\<rparr>);
      assert_c (fd < FD_SETSIZE);
      items \<leftarrow> upd_c (write_items s) (int fd) \<lparr>item_func = f, item_arg1 = a, item_arg2 = b\<rparr>;
      Some (wake_server_thread
        (s\<lparr>write_set := (if f \<noteq> None then insert fd (write_set s) else write_set s - {fd}), write_items := items\<rparr>)) }"

definition remove_select :: "select_env \<Rightarrow> bool \<times> timeval \<Rightarrow> nat \<Rightarrow> select_data ptr \<Rightarrow> select_data option" where
  \<comment> \<open>libcmselect_LTX_remove_select; fd is not compared with the size of the table\<close>
  "remove_select env lk fd sd =
    do {
      s \<leftarrow> with_data env lk sd;
      assert_c (fd < FD_SETSIZE);
      items \<leftarrow> upd_c (select_items s) (int fd) no_item;
      Some (wake_server_thread (s\<lparr>select_consistency_number := select_consistency_number s + 1,
        fdset := fdset s - {fd}, select_items := items\<rparr>)) }"

definition shutdown_wake_mechanism :: "select_data \<Rightarrow> select_data" where
  "shutdown_wake_mechanism s =
    (case wake_read_fd s of
       None \<Rightarrow> s
     | Some r \<Rightarrow>
         (let s = sel_emit (Close_fd r) s;
              s = (case wake_write_fd s of None \<Rightarrow> s | Some w \<Rightarrow> sel_emit (Close_fd w) s)
          in s\<lparr>wake_read_fd := None, wake_write_fd := None\<rparr>))"

section \<open>Tasks\<close>

definition time_less :: "timeval \<Rightarrow> timeval \<Rightarrow> bool" where
  \<comment> \<open>timercmp(a, b, <)\<close>
  "time_less a b \<longleftrightarrow> tv_sec a < tv_sec b \<or> (tv_sec a = tv_sec b \<and> tv_usec a < tv_usec b)"

fun set_soonest_timeout :: "timeval \<Rightarrow> (addr \<times> periodic_task) list \<Rightarrow> timeval \<Rightarrow> timeval" where
  "set_soonest_timeout timeout [] now = timeout"
| "set_soonest_timeout timeout ((h, k) # ts) now =
    (let sec = tv_sec (next_time k) - tv_sec now;
         usec = tv_usec (next_time k) - tv_usec now;
         timeout = (if executing k = None then
           let d = (if usec < 0 then \<lparr>tv_sec = sec - 1, tv_usec = usec + 1000000\<rparr> else \<lparr>tv_sec = sec, tv_usec = usec\<rparr>);
               d = (if tv_sec d < 0 then \<lparr>tv_sec = 0, tv_usec = 0\<rparr> else d)
           in if tv_sec timeout = - 1 \<or> time_less d timeout then d else timeout
           else timeout)
     in set_soonest_timeout timeout ts now)"

definition increment_time :: "timeval \<Rightarrow> int \<Rightarrow> int \<Rightarrow> timeval" where
  "increment_time t s u =
    (let usec = tv_usec t + u; sec = tv_sec t + s
     in if usec \<ge> 1000000 then \<lparr>tv_sec = sec + usec div 1000000, tv_usec = usec mod 1000000\<rparr>
        else \<lparr>tv_sec = sec, tv_usec = usec\<rparr>)"

definition add_task ::
  "select_env \<Rightarrow> bool \<times> timeval \<Rightarrow> int \<Rightarrow> int \<Rightarrow> int \<Rightarrow> int \<Rightarrow> addr \<Rightarrow> addr ptr \<Rightarrow> addr ptr \<Rightarrow> select_data ptr \<Rightarrow>
    (addr \<times> select_data) option" where
  \<comment> \<open>what adding a periodic and a delayed task have in common: the period, the time until it is due\<close>
  "add_task env lk psec pusec sec usec f a b sd =
    do {
      s \<leftarrow> with_data env lk sd;
      assert_locked s;
      let h = next_task s;
      let k = \<lparr>period_sec = psec, period_usec = pusec, executing = None,
        next_time = increment_time (sel_clock s) sec usec, task_func = f, task_arg1 = a, task_arg2 = b\<rparr>;
      Some (h, wake_server_thread (s\<lparr>periodic_task_list := (h, k) # periodic_task_list s, next_task := h + 1\<rparr>)) }"

definition add_periodic ::
  "select_env \<Rightarrow> bool \<times> timeval \<Rightarrow> int \<Rightarrow> int \<Rightarrow> addr \<Rightarrow> addr ptr \<Rightarrow> addr ptr \<Rightarrow> select_data ptr \<Rightarrow> (addr \<times> select_data) option" where
  \<comment> \<open>libcmselect_LTX_add_periodic\<close>
  "add_periodic env lk sec usec f a b sd = add_task env lk sec usec sec usec f a b sd"

definition add_delayed_task ::
  "select_env \<Rightarrow> bool \<times> timeval \<Rightarrow> int \<Rightarrow> int \<Rightarrow> addr \<Rightarrow> addr ptr \<Rightarrow> addr ptr \<Rightarrow> select_data ptr \<Rightarrow> (addr \<times> select_data) option" where
  \<comment> \<open>libcmselect_LTX_add_delayed_task\<close>
  "add_delayed_task env lk sec usec f a b sd = add_task env lk 0 0 sec usec f a b sd"

definition task_at :: "addr \<Rightarrow> select_data \<Rightarrow> periodic_task option" where
  "task_at h s = map_of (periodic_task_list s) h"

definition mod_task :: "addr \<Rightarrow> (periodic_task \<Rightarrow> periodic_task) \<Rightarrow> select_data \<Rightarrow> select_data option" where
  "mod_task h f s =
    do { k \<leftarrow> task_at h s;
         Some (s\<lparr>periodic_task_list := map (\<lambda>(g, k). (g, if g = h then f k else k)) (periodic_task_list s)\<rparr>) }"

fun task_after :: "addr \<Rightarrow> (addr \<times> periodic_task) list \<Rightarrow> addr ptr" where
  "task_after h [] = None"
| "task_after h ((g, k) # ts) = (if g = h then (case ts of [] \<Rightarrow> None | (g, _) # _ \<Rightarrow> Some g) else task_after h ts)"

definition remove_periodic_task :: "select_env \<Rightarrow> addr \<Rightarrow> select_data \<Rightarrow> (bool \<times> select_data) option" where
  \<comment> \<open>the empty list is not expected; a task another thread executes is waited for\<close>
  "remove_periodic_task env h s =
    (if periodic_task_list s = [] then None
     else case task_at h s of
       None \<Rightarrow> Some (False, s)
     | Some k \<Rightarrow> do {
         let s = s\<lparr>periodic_task_list := filter (\<lambda>(g, _). g \<noteq> h) (periodic_task_list s)\<rparr>;
         s \<leftarrow> (if executing k = Some (self_thread env) \<or> executing k = None then Some s else wait_task env h s);
         Some (True, s\<lparr>select_consistency_number := select_consistency_number s + 1\<rparr>) })"

definition remove_periodic :: "select_env \<Rightarrow> addr \<Rightarrow> select_data ptr \<Rightarrow> select_data ptr option" where
  \<comment> \<open>libcmselect_LTX_remove_periodic\<close>
  "remove_periodic env h sd =
    (case sd of
       None \<Rightarrow> Some None
     | Some s \<Rightarrow> do { (found, s) \<leftarrow> remove_periodic_task env h s;
                      Some (Some (if found then s else sel_emit Task_not_found s)) })"

section \<open>The loop\<close>

definition return_closed :: "select_data \<Rightarrow> select_data" where
  "return_closed s = s\<lparr>sel_thread := 0\<rparr>"

definition run_item :: "select_env \<Rightarrow> nat \<Rightarrow> fd_item list \<Rightarrow> nat set \<Rightarrow> select_data \<Rightarrow> select_data option" where
  \<comment> \<open>a descriptor that is ready without a function must not be in the set\<close>
  "run_item env i items in_set s =
    do {
      it \<leftarrow> nth_c items (int i);
      case item_func it of
        Some f \<Rightarrow> run_func env f (item_arg1 it) (item_arg2 it) (sel_emit (Run_item i f (item_arg1 it) (item_arg2 it)) s)
      | None \<Rightarrow> do { assert_c (i \<notin> in_set); Some s } }"

fun fd_loop :: "select_env \<Rightarrow> int \<Rightarrow> nat set \<Rightarrow> nat set \<Rightarrow> nat \<Rightarrow> nat \<Rightarrow> select_data \<Rightarrow> (bool \<times> select_data) option" where
  \<comment> \<open>from descriptor i, n more fit into a bit map; the result tells whether socket_select goes on\<close>
  "fd_loop env t rd wr 0 i s = (if i \<le> sel_item_max s then None else Some (True, s))"
| "fd_loop env t rd wr (Suc n) i s =
    (if i > sel_item_max s then Some (True, s)
     else if sel_closed s then Some (False, return_closed s)
     else do {
       s \<leftarrow> (if i \<in> wr then run_item env i (write_items s) (write_set s) s else Some s);
       if i \<in> wr \<and> select_consistency_number s \<noteq> t then Some (False, s)
       else do {
         s \<leftarrow> (if i \<in> rd then run_item env i (select_items s) (fdset s) s else Some s);
         if i \<in> rd \<and> select_consistency_number s \<noteq> t then Some (False, s)
         else fd_loop env t rd wr n (i + 1) s } })"

definition next_due :: "periodic_task \<Rightarrow> timeval \<Rightarrow> timeval" where
  \<comment> \<open>missed periods are skipped\<close>
  "next_due k now =
    (let t = increment_time (next_time k) (period_sec k) (period_usec k)
     in if time_less now t then t else increment_time now (period_sec k) (period_usec k))"

definition run_task :: "select_env \<Rightarrow> addr \<Rightarrow> select_data \<Rightarrow> (addr ptr \<times> select_data) option" where
  \<comment> \<open>the task is not executing: run it without the lock; what follows it is read afterwards\<close>
  "run_task env h s =
    do {
      s \<leftarrow> mod_task h (\<lambda>k. k\<lparr>executing := Some (self_thread env)\<rparr>) s;
      k \<leftarrow> task_at h s;
      s \<leftarrow> run_func env (task_func k) (task_arg1 k) (task_arg2 k)
             (sel_emit (Run_task (task_func k) (task_arg1 k) (task_arg2 k)) (s\<lparr>sel_locked := False\<rparr>));
      let s = s\<lparr>sel_locked := True\<rparr>;
      s \<leftarrow> mod_task h (\<lambda>k. k\<lparr>executing := None\<rparr>) s;
      k \<leftarrow> task_at h s;
      let after = task_after h (periodic_task_list s);
      if period_sec k = 0 \<and> period_usec k = 0
      then do { (found, s) \<leftarrow> remove_periodic_task env h s; Some (after, s) }
      else Some (after, s) }"

partial_function (option) task_loop :: "select_env \<Rightarrow> int \<Rightarrow> timeval \<Rightarrow> addr ptr \<Rightarrow> select_data \<Rightarrow> (bool \<times> select_data) option" where
  "task_loop env t now this s =
    (case this of
       None \<Rightarrow> Some (True, s)
     | Some h \<Rightarrow> do {
         k \<leftarrow> task_at h s;
         let after = task_after h (periodic_task_list s);
         if time_less (next_time k) now then do {
           s \<leftarrow> mod_task h (\<lambda>k. k\<lparr>next_time := next_due k now\<rparr>) s;
           (after, s) \<leftarrow> (if executing k = None then run_task env h s else Some (after, s));
           if sel_closed s then Some (False, shutdown_wake_mechanism s)
           else if select_consistency_number s \<noteq> t then Some (False, s)
           else task_loop env t now after s }
         else if select_consistency_number s \<noteq> t then Some (False, s)
         else task_loop env t now after s })"

definition first_task :: "select_data \<Rightarrow> addr ptr" where
  "first_task s = (case periodic_task_list s of [] \<Rightarrow> None | (h, _) # _ \<Rightarrow> Some h)"

definition run_tasks :: "select_env \<Rightarrow> int \<Rightarrow> select_data \<Rightarrow> (bool \<times> select_data) option" where
  "run_tasks env t s =
    (if periodic_task_list s = [] then Some (True, s)
     else task_loop env t (sel_clock s) (first_task s) s)"

definition drop_bad :: "select_env \<Rightarrow> nat set \<Rightarrow> select_data \<Rightarrow> nat set \<times> select_data" where
  \<comment> \<open>after EBADF: every descriptor of the read set is tried alone\<close>
  "drop_bad env rd s =
    (let bad = {i \<in> rd. i < FD_SETSIZE \<and> is_bad_fd env i s}
     in (rd - bad, s\<lparr>fdset := fdset s - bad, write_set := write_set s - bad\<rparr>))"

definition wait_time :: "select_env \<Rightarrow> int \<Rightarrow> int \<Rightarrow> select_data \<Rightarrow> timeval option" where
  \<comment> \<open>the timeout given to select; None blocks\<close>
  "wait_time env sec usec s =
    (if sec \<ge> 0 \<or> periodic_task_list s \<noteq> [] then
       (let t = (if usec \<ge> 1000000 then \<lparr>tv_sec = sec + usec div 1000000, tv_usec = usec mod 1000000\<rparr>
                 else \<lparr>tv_sec = sec, tv_usec = usec\<rparr>);
            t = set_soonest_timeout t (periodic_task_list s) (sel_clock s)
        in Some (if tv_sec t = - 1 then \<lparr>tv_sec = 0, tv_usec = 1\<rparr> else t))
     else None)"

definition after_select :: "select_env \<Rightarrow> int \<Rightarrow> int \<Rightarrow> nat set \<Rightarrow> nat set \<Rightarrow> select_data \<Rightarrow> select_data option" where
  \<comment> \<open>from the test of the consistency number on; res is the result of select\<close>
  "after_select env t res rd wr s =
    (if select_consistency_number s \<noteq> t then Some s
     else do {
       (go, s) \<leftarrow> (if res \<noteq> 0 then fd_loop env t rd wr FD_SETSIZE 0 s else Some (True, s));
       if \<not> go then Some s
       else do {
         (go, s) \<leftarrow> run_tasks env t s;
         Some (if go then s\<lparr>select_consistency_number := select_consistency_number s + 1\<rparr> else s) } })"

definition claim_loop :: "select_env \<Rightarrow> select_data \<Rightarrow> select_data" where
  \<comment> \<open>this thread is the server thread from now on\<close>
  "claim_loop env s =
    (let s = (if sel_thread s = 0 then s\<lparr>sel_thread := self_thread env\<rparr> else s)
     in if sel_thread s \<noteq> self_thread env then sel_emit Wrong_thread (s\<lparr>sel_thread := self_thread env\<rparr>) else s)"

definition socket_select :: "select_env \<Rightarrow> int \<Rightarrow> int \<Rightarrow> select_data \<Rightarrow> select_data option" where
  \<comment> \<open>an unknown error of select exits. After EBADF and EAGAIN the sets are those given to select\<close>
  "socket_select env sec usec s =
    (let t = select_consistency_number s in
     if sel_closed s then Some (return_closed s)
     else do {
       assert_locked s;
       let s = claim_loop env s;
       let timeout = wait_time env sec usec s;
       let rd = fdset s;
       let wr = write_set s;
       (res, s) \<leftarrow> os_select env (sel_item_max s + 1) rd wr timeout (sel_emit (Selected timeout) (s\<lparr>sel_locked := False\<rparr>));
       let s = s\<lparr>sel_locked := True\<rparr>;
       if sel_closed s then Some (return_closed s)
       else case res of
         Ready n rd wr \<Rightarrow> after_select env t n rd wr s
       | Select_failed e \<Rightarrow>
           (if e = E_INTR then Some s
            else if select_consistency_number s \<noteq> t then Some s
            else if e = E_ZERO then Some s
            else if e = E_BADF then (let (rd, s) = drop_bad env rd s in after_select env t (- 1) rd wr s)
            else if e = E_AGAIN then after_select env t (- 1) rd wr s
            else None) })"

definition blocking_function :: "select_env \<Rightarrow> bool \<times> timeval \<Rightarrow> select_data ptr \<Rightarrow> select_data option" where
  "blocking_function env lk sd =
    do { s \<leftarrow> with_data env lk sd; assert_locked s; socket_select env (- 1) 0 s }"

definition polling_function :: "select_env \<Rightarrow> bool \<times> timeval \<Rightarrow> select_data ptr \<Rightarrow> select_data option" where
  "polling_function env lk sd =
    do { s \<leftarrow> with_data env lk sd; assert_locked s; socket_select env 0 0 s }"

section \<open>Start and end\<close>

definition select_initialize :: "select_env \<Rightarrow> addr ptr \<Rightarrow> bool \<times> timeval \<Rightarrow> select_data ptr \<Rightarrow> select_data option" where
  "select_initialize env cm lk sd = (case sd of None \<Rightarrow> init_select_data env cm lk | Some s \<Rightarrow> Some s)"

definition wake_function :: "select_data ptr \<Rightarrow> select_data ptr" where
  "wake_function sd = map_option wake_server_thread sd"

definition select_shutdown :: "select_env \<Rightarrow> select_data ptr \<Rightarrow> select_data option" where
  "select_shutdown env sd =
    do { s \<leftarrow> sd;
         Some (if sel_thread s \<noteq> self_thread env then wake_server_thread (s\<lparr>sel_closed := True\<rparr>) else s) }"

definition select_stop :: "select_data ptr \<Rightarrow> select_data ptr" where
  "select_stop sd = map_option (\<lambda>s. s\<lparr>sel_closed := True\<rparr>) sd"

definition select_free :: "select_data ptr \<Rightarrow> (select_effect list \<times> select_data ptr) option" where
  \<comment> \<open>the struct is read before it is tested for NULL; what is closed, and NULL\<close>
  "select_free sd =
    do { s \<leftarrow> sd;
         Some (map Close_fd (case (wake_read_fd s, wake_write_fd s) of
            (Some r, Some w) \<Rightarrow> [r, w] | (Some r, None) \<Rightarrow> [r] | (None, Some w) \<Rightarrow> [w] | _ \<Rightarrow> []), None) }"

end
