(* ===== verification/CM_Select_Ok.thy ===== *)
theory CM_Select_Ok
  imports CM_Select
begin

text \<open>
  What the select loop promises: how long it waits, when tasks run, and that it touches neither a
  freed task nor a descriptor outside its tables, whatever the functions it calls do through the
  interface.
\<close>

section \<open>How long to wait\<close>

lemma time_less_microsecs:
  "normal_time a \<Longrightarrow> normal_time b \<Longrightarrow> time_less a b \<longleftrightarrow> microsecs a < microsecs b"
  by (auto simp: time_less_def normal_time_def microsecs_def)

lemma microsecs_increment [simp]: "microsecs (increment_time t s u) = microsecs t + s * 1000000 + u"
  by (simp add: increment_time_def microsecs_def Let_def algebra_simps)

lemma normal_increment:
  "normal_time t \<Longrightarrow> 0 \<le> u \<Longrightarrow> normal_time (increment_time t s u)"
  by (auto simp: increment_time_def normal_time_def Let_def)

definition delay_until :: "timeval \<Rightarrow> periodic_task \<Rightarrow> int" where
  "delay_until now k = max 0 (microsecs (next_time k) - microsecs now)"

definition waiting_of :: "timeval \<Rightarrow> int option" where
  \<comment> \<open>-1 seconds: no timeout yet\<close>
  "waiting_of t = (if tv_sec t = - 1 then None else Some (microsecs t))"

fun shorter :: "int option \<Rightarrow> int \<Rightarrow> int option" where
  "shorter None d = Some d"
| "shorter (Some m) d = Some (min m d)"

definition idle :: "addr \<times> periodic_task \<Rightarrow> bool" where
  "idle = (\<lambda>(h, k). executing k = None)"

definition time_ok :: "timeval \<Rightarrow> bool" where
  "time_ok t \<longleftrightarrow> tv_sec t = - 1 \<or> (normal_time t \<and> 0 \<le> tv_sec t)"

lemma soonest_fold:
  assumes now: "normal_time now"
  shows "time_ok t \<Longrightarrow> \<forall>(h, k) \<in> set ts. normal_time (next_time k) \<Longrightarrow>
    time_ok (set_soonest_timeout t ts now) \<and>
    waiting_of (set_soonest_timeout t ts now) =
      foldl shorter (waiting_of t) (map (\<lambda>(h, k). delay_until now k) (filter idle ts))"
proof (induction ts arbitrary: t)
  case Nil
  then show ?case by simp
next
  case (Cons x ts)
  obtain h k where x: "x = (h, k)" by (cases x)
  have k: "normal_time (next_time k)" using Cons.prems(2) x by simp
  let ?sec = "tv_sec (next_time k) - tv_sec now" and ?usec = "tv_usec (next_time k) - tv_usec now"
  let ?d = "if ?usec < 0 then \<lparr>tv_sec = ?sec - 1, tv_usec = ?usec + 1000000\<rparr> else \<lparr>tv_sec = ?sec, tv_usec = ?usec\<rparr>"
  let ?e = "if tv_sec ?d < 0 then \<lparr>tv_sec = 0, tv_usec = 0\<rparr> else ?d"
  have e: "normal_time ?e" "0 \<le> tv_sec ?e" "microsecs ?e = delay_until now k"
    using k now by (auto simp: normal_time_def microsecs_def delay_until_def max_def)
  let ?t = "if executing k = None then if tv_sec t = - 1 \<or> time_less ?e t then ?e else t else t"
  have "time_ok ?t" using Cons.prems(1) e by (auto simp: time_ok_def)
  moreover have "waiting_of ?t = (if executing k = None then shorter (waiting_of t) (delay_until now k) else waiting_of t)"
  proof (cases "tv_sec t = - 1")
    case True
    then show ?thesis using e by (simp add: waiting_of_def)
  next
    case False
    then have "normal_time t" using Cons.prems(1) by (simp add: time_ok_def)
    then have "time_less ?e t \<longleftrightarrow> delay_until now k < microsecs t" using time_less_microsecs [OF e(1)] e(3) by simp
    then show ?thesis using False e by (simp add: waiting_of_def min_def)
  qed
  moreover have "set_soonest_timeout t (x # ts) now = set_soonest_timeout ?t ts now" by (simp add: x Let_def)
  moreover have "\<forall>(h, k) \<in> set ts. normal_time (next_time k)" using Cons.prems(2) by simp
  ultimately show ?case using Cons.IH [of ?t] by (simp add: x idle_def)
qed

lemma foldl_shorter:
  "foldl shorter m ds = (if m = None \<and> ds = [] then None else Some (Min (set_option m \<union> set ds)))"
proof (induction ds arbitrary: m)
  case Nil
  then show ?case by (cases m) simp_all
next
  case (Cons d ds)
  have "foldl shorter (shorter m d) ds = Some (Min (set_option (shorter m d) \<union> set ds))"
    using Cons [of "shorter m d"] by (cases m) simp_all
  moreover have "Min (set_option (shorter m d) \<union> set ds) = Min (set_option m \<union> set (d # ds))"
    by (cases m; cases "ds = []") (simp_all add: min.assoc min.commute min.left_commute)
  ultimately show ?case by simp
qed

section \<open>The tables\<close>

definition table_ok :: "nat \<Rightarrow> nat set \<Rightarrow> fd_item list \<Rightarrow> bool" where
  "table_ok m fds items \<longleftrightarrow> length items = m + 1 \<and> (\<forall>fd \<in> fds. fd \<le> m \<and> item_func (items ! fd) \<noteq> None)"

definition select_ok :: "select_data \<Rightarrow> bool" where
  \<comment> \<open>every descriptor in a set has a function, every task its own address\<close>
  "select_ok s \<longleftrightarrow> sel_item_max s < FD_SETSIZE \<and> table_ok (sel_item_max s) (fdset s) (select_items s) \<and>
    table_ok (sel_item_max s) (write_set s) (write_items s) \<and>
    distinct (map fst (periodic_task_list s)) \<and> (\<forall>h \<in> fst ` set (periodic_task_list s). h < next_task s)"

definition keeps_select :: "select_data \<Rightarrow> select_data \<Rightarrow> bool" where
  \<comment> \<open>a task that executes is not removed, and tables do not shrink, and while the number
    stays the same tasks are only added, in front\<close>
  "keeps_select s s' \<longleftrightarrow>
    (\<forall>h k. task_at h s = Some k \<longrightarrow> executing k \<noteq> None \<longrightarrow>
      (\<exists>k'. task_at h s' = Some k' \<and> executing k' = executing k)) \<and>
    select_consistency_number s \<le> select_consistency_number s' \<and> sel_item_max s \<le> sel_item_max s' \<and>
    (select_consistency_number s' = select_consistency_number s \<longrightarrow>
      (\<exists>new. map fst (periodic_task_list s') = new @ map fst (periodic_task_list s)))"

lemma keeps_select_refl [simp]: "keeps_select s s"
  by (simp add: keeps_select_def)

lemma keeps_select_trans:
  assumes "keeps_select s t" "keeps_select t u"
  shows "keeps_select s u"
proof -
  have "\<exists>new. map fst (periodic_task_list u) = new @ map fst (periodic_task_list s)"
    if "select_consistency_number u = select_consistency_number s"
  proof -
    have "select_consistency_number t = select_consistency_number s" "select_consistency_number u = select_consistency_number t"
      using assms that by (auto simp: keeps_select_def)
    then show ?thesis using assms unfolding keeps_select_def by (metis append_assoc)
  qed
  moreover have "\<exists>k'. task_at h u = Some k' \<and> executing k' = executing k"
    if "task_at h s = Some k" "executing k \<noteq> None" for h k
    using assms that unfolding keeps_select_def by metis
  ultimately show ?thesis using assms by (auto simp: keeps_select_def)
qed

lemma select_ok_simps [simp]:
  "select_ok (sel_emit x s) = select_ok s" "select_ok (s\<lparr>sel_thread := t\<rparr>) = select_ok s"
  "select_ok (s\<lparr>sel_locked := b\<rparr>) = select_ok s" "select_ok (s\<lparr>sel_closed := b\<rparr>) = select_ok s"
  "select_ok (s\<lparr>select_consistency_number := n\<rparr>) = select_ok s"
  "select_ok (wake_server_thread s) = select_ok s" "select_ok (shutdown_wake_mechanism s) = select_ok s"
  by (simp_all add: select_ok_def sel_emit_def wake_server_thread_def shutdown_wake_mechanism_def Let_def
      split: option.splits)

lemma sel_emit_simps [simp]:
  "fdset (sel_emit x s) = fdset s" "write_set (sel_emit x s) = write_set s"
  "sel_item_max (sel_emit x s) = sel_item_max s" "select_items (sel_emit x s) = select_items s"
  "write_items (sel_emit x s) = write_items s" "periodic_task_list (sel_emit x s) = periodic_task_list s"
  "sel_closed (sel_emit x s) = sel_closed s" "sel_cm (sel_emit x s) = sel_cm s"
  "select_consistency_number (sel_emit x s) = select_consistency_number s"
  "sel_locked (sel_emit x s) = sel_locked s" "next_task (sel_emit x s) = next_task s"
  "sel_clock (sel_emit x s) = sel_clock s" "sel_effects (sel_emit x s) = x # sel_effects s"
  "sel_thread (sel_emit x s) = sel_thread s"
  by (simp_all add: sel_emit_def)

lemma wake_simps [simp]:
  "fdset (wake_server_thread s) = fdset s" "write_set (wake_server_thread s) = write_set s"
  "sel_item_max (wake_server_thread s) = sel_item_max s" "select_items (wake_server_thread s) = select_items s"
  "write_items (wake_server_thread s) = write_items s"
  "periodic_task_list (wake_server_thread s) = periodic_task_list s"
  "select_consistency_number (wake_server_thread s) = select_consistency_number s"
  "sel_locked (wake_server_thread s) = sel_locked s" "next_task (wake_server_thread s) = next_task s"
  "sel_clock (wake_server_thread s) = sel_clock s" "sel_cm (wake_server_thread s) = sel_cm s"
  "sel_closed (wake_server_thread s) = sel_closed s"
  by (simp_all add: wake_server_thread_def split: option.splits)

lemma task_at_simps [simp]:
  "task_at h (sel_emit x s) = task_at h s" "task_at h (s\<lparr>sel_locked := b\<rparr>) = task_at h s"
  "task_at h (wake_server_thread s) = task_at h s"
  by (simp_all add: task_at_def)

lemma task_at_iff: "select_ok s \<Longrightarrow> task_at h s = Some k \<longleftrightarrow> (h, k) \<in> set (periodic_task_list s)"
  by (simp add: task_at_def select_ok_def)

lemma task_at_None: "task_at h s = None \<longleftrightarrow> h \<notin> fst ` set (periodic_task_list s)"
  by (simp add: task_at_def map_of_eq_None_iff)

text \<open>The interface keeps the tables.\<close>

lemma table_grow:
  assumes "table_ok m fds items" "m < fd"
  shows "table_ok fd fds (take (m + 1) items @ replicate (fd - m) no_item)"
  using assms by (auto simp: table_ok_def nth_append)

lemma select_ok_grow: "select_ok s \<Longrightarrow> fd < FD_SETSIZE \<Longrightarrow> select_ok (grow_items fd s)"
  using table_grow [of "sel_item_max s" "fdset s" "select_items s" fd]
    table_grow [of "sel_item_max s" "write_set s" "write_items s" fd]
  by (simp add: grow_items_def select_ok_def)

lemma grow_max: "fd \<le> sel_item_max (grow_items fd s)"
  by (simp add: grow_items_def)

lemma grow_simps [simp]:
  "periodic_task_list (grow_items fd s) = periodic_task_list s" "fdset (grow_items fd s) = fdset s"
  "write_set (grow_items fd s) = write_set s" "next_task (grow_items fd s) = next_task s"
  "select_consistency_number (grow_items fd s) = select_consistency_number s"
  "sel_item_max (grow_items fd s) = max fd (sel_item_max s)"
  by (simp_all add: grow_items_def)

lemma keeps_select_number:
  assumes "periodic_task_list s' = periodic_task_list s"
    "select_consistency_number s \<le> select_consistency_number s'" "sel_item_max s \<le> sel_item_max s'"
  shows "keeps_select s s'"
  using assms by (simp add: keeps_select_def task_at_def)

lemma table_set:
  assumes "table_ok m fds items" "fd \<le> m" "item_func it \<noteq> None \<or> fd \<notin> fds'" "fds' \<subseteq> insert fd fds"
  shows "table_ok m fds' (items[fd := it])"
  using assms by (auto simp: table_ok_def nth_list_update)

lemma select_ok_tables:
  assumes "select_ok s" "table_ok (sel_item_max s) rs ris" "table_ok (sel_item_max s) ws wis"
  shows "select_ok (s\<lparr>fdset := rs, select_items := ris, write_set := ws, write_items := wis\<rparr>)"
  using assms by (simp add: select_ok_def)

lemma add_select_ok:
  assumes "select_ok s" "sel_cm s \<noteq> None" "sel_locked s" "f \<noteq> None" "fd < FD_SETSIZE"
  shows "\<exists>s'. add_select fd f a b (Some s) = Some s' \<and> select_ok s' \<and> keeps_select s s' \<and> fd \<in> fdset s'"
proof -
  let ?s = "grow_items fd (s\<lparr>select_consistency_number := select_consistency_number s + 1\<rparr>)"
  let ?it = "\<lparr>item_func = f, item_arg1 = a, item_arg2 = b\<rparr>"
  have g: "select_ok ?s" using select_ok_grow assms(1,5) by simp
  have m: "fd \<le> sel_item_max ?s" by (rule grow_max)
  have t: "table_ok (sel_item_max ?s) (insert fd (fdset ?s)) ((select_items ?s)[fd := ?it])"
    by (rule table_set [OF _ m]) (use g assms(4) in \<open>auto simp: select_ok_def\<close>)
  have "select_ok (?s\<lparr>fdset := insert fd (fdset ?s), select_items := (select_items ?s)[fd := ?it]\<rparr>)"
    using g t by (simp add: select_ok_def)
  moreover have "upd_c (select_items ?s) (int fd) ?it = Some ((select_items ?s)[fd := ?it])"
    using g m by (auto simp: upd_c_def select_ok_def table_ok_def)
  ultimately show ?thesis
    using assms(2,3,5) by (auto simp: add_select_def assert_locked_def add_item_def Let_def intro!: keeps_select_number)
qed

lemma write_select_ok:
  assumes "select_ok s" "sel_cm s \<noteq> None" "sel_locked s" "fd < FD_SETSIZE"
  shows "\<exists>s'. write_select env lk fd f a b (Some s) = Some s' \<and> select_ok s' \<and> keeps_select s s'"
proof -
  let ?s = "grow_items fd (s\<lparr>select_consistency_number := select_consistency_number s + 1\<rparr>)"
  let ?it = "\<lparr>item_func = f, item_arg1 = a, item_arg2 = b\<rparr>"
  let ?w = "if f \<noteq> None then insert fd (write_set ?s) else write_set ?s - {fd}"
  have g: "select_ok ?s" using select_ok_grow assms(1,4) by simp
  have m: "fd \<le> sel_item_max ?s" by (rule grow_max)
  have t: "table_ok (sel_item_max ?s) ?w ((write_items ?s)[fd := ?it])"
    by (rule table_set [OF _ m, of "write_set ?s"]) (use g in \<open>auto simp: select_ok_def\<close>)
  have "select_ok (?s\<lparr>write_set := ?w, write_items := (write_items ?s)[fd := ?it]\<rparr>)"
    using g t by (simp add: select_ok_def)
  moreover have "upd_c (write_items ?s) (int fd) ?it = Some ((write_items ?s)[fd := ?it])"
    using g m by (auto simp: upd_c_def select_ok_def table_ok_def)
  ultimately show ?thesis
    using assms(2-4)
    by (auto simp: write_select_def with_data_def assert_locked_def Let_def intro!: keeps_select_number)
qed

lemma remove_select_ok:
  assumes "select_ok s" "fd \<le> sel_item_max s"
  shows "\<exists>s'. remove_select env lk fd (Some s) = Some s' \<and> select_ok s' \<and> keeps_select s s' \<and> fd \<notin> fdset s'"
proof -
  have t: "table_ok (sel_item_max s) (fdset s - {fd}) ((select_items s)[fd := no_item])"
    by (rule table_set [OF _ assms(2)]) (use assms(1) in \<open>auto simp: select_ok_def\<close>)
  have "upd_c (select_items s) (int fd) no_item = Some ((select_items s)[fd := no_item])" "fd < FD_SETSIZE"
    using assms by (auto simp: upd_c_def select_ok_def table_ok_def)
  then show ?thesis
    using assms(1) t
    by (auto simp: remove_select_def with_data_def select_ok_def intro!: keeps_select_number)
qed

lemma add_task_ok:
  assumes "select_ok s" "sel_cm s \<noteq> None" "sel_locked s"
  shows "\<exists>s'. add_task env lk p q sec usec f a b (Some s) = Some (next_task s, s') \<and> select_ok s' \<and> keeps_select s s'"
proof -
  let ?k = "\<lparr>period_sec = p, period_usec = q, executing = None,
    next_time = increment_time (sel_clock s) sec usec, task_func = f, task_arg1 = a, task_arg2 = b\<rparr>"
  let ?s = "wake_server_thread (s\<lparr>periodic_task_list := (next_task s, ?k) # periodic_task_list s, next_task := next_task s + 1\<rparr>)"
  have fresh: "next_task s \<notin> fst ` set (periodic_task_list s)" using assms(1) by (auto simp: select_ok_def)
  then have "select_ok ?s" using assms(1) by (auto simp: select_ok_def)
  moreover have "keeps_select s ?s"
    using fresh by (auto simp: keeps_select_def task_at_def map_of_eq_None_iff [symmetric])
  ultimately show ?thesis
    using assms(2,3) by (auto simp: add_task_def with_data_def assert_locked_def Let_def)
qed

lemma remove_task_ok:
  assumes "select_ok s" "task_at h s = Some k" "executing k = None"
  shows "\<exists>s'. remove_periodic_task env h s = Some (True, s') \<and> select_ok s' \<and> keeps_select s s' \<and>
    select_consistency_number s' = select_consistency_number s + 1 \<and>
    periodic_task_list s' = filter (\<lambda>(g, _). g \<noteq> h) (periodic_task_list s)"
proof -
  let ?l = "filter (\<lambda>(g, _). g \<noteq> h) (periodic_task_list s)"
  have l: "map fst ?l = filter (\<lambda>g. g \<noteq> h) (map fst (periodic_task_list s))"
    by (simp add: filter_map comp_def case_prod_unfold)
  have "distinct (map fst ?l)" using assms(1) unfolding l by (simp add: select_ok_def)
  have "map_of (filter (\<lambda>(g, _). g \<noteq> h) xs) g = map_of xs g" if "g \<noteq> h"
    for g and xs :: "(addr \<times> periodic_task) list"
    using that by (induction xs) auto
  then have other: "map_of ?l g = task_at g s" if "g \<noteq> h" for g using that by (simp add: task_at_def)
  let ?s = "s\<lparr>periodic_task_list := ?l, select_consistency_number := select_consistency_number s + 1\<rparr>"
  have "task_at g ?s = Some k'" if g: "task_at g s = Some k'" "executing k' \<noteq> None" for g k'
  proof -
    have "g \<noteq> h" using g assms(2,3) by auto
    then have "map_of ?l g = Some k'" using other g(1) by simp
    then show ?thesis by (simp add: task_at_def)
  qed
  then have "keeps_select s ?s" by (simp add: keeps_select_def)
  moreover have "select_ok ?s" using assms(1) \<open>distinct (map fst ?l)\<close> by (auto simp: select_ok_def)
  moreover have "periodic_task_list s \<noteq> []" using assms(2) by (auto simp: task_at_def)
  ultimately show ?thesis using assms(2,3) by (simp add: remove_periodic_task_def)
qed

section \<open>The loop does not crash\<close>

definition funcs_ok :: "select_env \<Rightarrow> bool" where
  \<comment> \<open>functions and tasks use the interface: they leave the tables in order\<close>
  "funcs_ok env \<longleftrightarrow> (\<forall>f a b s. select_ok s \<longrightarrow>
    (\<exists>s'. run_func env f a b s = Some s' \<and> select_ok s' \<and> keeps_select s s'))"

definition select_works :: "select_env \<Rightarrow> bool" where
  \<comment> \<open>select returns, with errors that are not fatal; other threads use the interface meanwhile\<close>
  "select_works env \<longleftrightarrow> (\<forall>n rd wr t s. select_ok s \<longrightarrow>
    (\<exists>res s'. os_select env n rd wr t s = Some (res, s') \<and> res \<noteq> Select_failed E_OTHER \<and>
      select_ok s' \<and> keeps_select s s'))"

lemma keeps_select_same:
  "periodic_task_list s' = periodic_task_list t' \<Longrightarrow> select_consistency_number s' = select_consistency_number t' \<Longrightarrow>
    sel_item_max s' = sel_item_max t' \<Longrightarrow> keeps_select s s' = keeps_select s t'"
  by (simp add: keeps_select_def task_at_def)

lemma run_item_ok:
  assumes "funcs_ok env" "select_ok s" "i \<le> sel_item_max s" "table_ok (sel_item_max s) fds items"
  shows "\<exists>s'. run_item env i items fds s = Some s' \<and> select_ok s' \<and> keeps_select s s'"
proof (cases "item_func (items ! i)")
  case None
  then have "i \<notin> fds" using assms(4) by (auto simp: table_ok_def)
  then show ?thesis using None assms(2-4) by (auto simp: run_item_def nth_c_def table_ok_def)
next
  case (Some f)
  let ?s = "sel_emit (Run_item i f (item_arg1 (items ! i)) (item_arg2 (items ! i))) s"
  have "select_ok ?s" using assms(2) by simp
  then obtain s' where s': "run_func env f (item_arg1 (items ! i)) (item_arg2 (items ! i)) ?s = Some s'"
    "select_ok s'" "keeps_select ?s s'" using assms(1) unfolding funcs_ok_def by blast
  then have "keeps_select s s'" by (simp add: keeps_select_def)
  then show ?thesis using Some s' assms(3,4) by (simp add: run_item_def nth_c_def table_ok_def)
qed

definition safe_result :: "select_data \<Rightarrow> int \<Rightarrow> (bool \<times> select_data) option \<Rightarrow> bool" where
  \<comment> \<open>a result without a crash; the loop goes on only while the number is t\<close>
  "safe_result s t r \<longleftrightarrow> (\<exists>go s'. r = Some (go, s') \<and> select_ok s' \<and> keeps_select s s' \<and>
    (go \<longrightarrow> select_consistency_number s' = t))"

lemma safe_resultI:
  "select_ok s' \<Longrightarrow> keeps_select s s' \<Longrightarrow> (go \<Longrightarrow> select_consistency_number s' = t) \<Longrightarrow> safe_result s t (Some (go, s'))"
  by (simp add: safe_result_def)

lemma safe_result_here:
  "select_ok s \<Longrightarrow> select_consistency_number s = t \<Longrightarrow> safe_result s t (Some (True, s))"
  by (simp add: safe_resultI)

lemma safe_result_trans: "keeps_select s s1 \<Longrightarrow> safe_result s1 t r \<Longrightarrow> safe_result s t r"
  unfolding safe_result_def using keeps_select_trans by blast

lemma run_ready_ok:
  \<comment> \<open>one of the two parts of a turn\<close>
  assumes "funcs_ok env" "select_ok s" "i \<le> sel_item_max s" "table_ok (sel_item_max s) fds items"
    and "select_consistency_number s = t"
  shows "\<exists>s'. (if b then run_item env i items fds s else Some s) = Some s' \<and> select_ok s' \<and> keeps_select s s' \<and>
    (\<not> b \<longrightarrow> select_consistency_number s' = t)"
  using run_item_ok [OF assms(1-4)] assms(2,5) by auto

lemma fd_loop_ok:
  assumes env: "funcs_ok env"
  shows "select_ok s \<Longrightarrow> i + n = FD_SETSIZE \<Longrightarrow> select_consistency_number s = t \<Longrightarrow>
    safe_result s t (fd_loop env t rd wr n i s)"
proof (induction n arbitrary: i s)
  case 0
  then show ?case by (auto simp: select_ok_def safe_result_def)
next
  case (Suc n)
  note ok = Suc.prems(1) and t = Suc.prems(3)
  consider (past) "i > sel_item_max s" | (closed) "i \<le> sel_item_max s" "sel_closed s" | (turn) "i \<le> sel_item_max s" "\<not> sel_closed s"
    by linarith
  then show ?case
  proof cases
    case past
    then show ?thesis using ok t by (simp add: safe_result_here)
  next
    case closed
    then show ?thesis using ok t by (auto simp: return_closed_def intro!: safe_resultI keeps_select_number)
  next
    case turn
    have "table_ok (sel_item_max s) (write_set s) (write_items s)" using ok by (simp add: select_ok_def)
    then obtain s1 where s1: "(if i \<in> wr then run_item env i (write_items s) (write_set s) s else Some s) = Some s1"
      "select_ok s1" "keeps_select s s1" "i \<notin> wr \<longrightarrow> select_consistency_number s1 = t"
      using run_ready_ok [OF env ok turn(1) _ t] by blast
    show ?thesis
    proof (cases "i \<in> wr \<and> select_consistency_number s1 \<noteq> t")
      case True
      then have "fd_loop env t rd wr (Suc n) i s = Some (False, s1)" using turn s1(1) by simp
      then show ?thesis using s1(2,3) by (simp add: safe_resultI)
    next
      case go: False
      then have t1: "select_consistency_number s1 = t" using s1(4) by blast
      have "table_ok (sel_item_max s1) (fdset s1) (select_items s1)" "i \<le> sel_item_max s1"
        using s1(2,3) turn(1) by (auto simp: select_ok_def keeps_select_def)
      then obtain s2 where s2: "(if i \<in> rd then run_item env i (select_items s1) (fdset s1) s1 else Some s1) = Some s2"
        "select_ok s2" "keeps_select s1 s2" "i \<notin> rd \<longrightarrow> select_consistency_number s2 = t"
        using run_ready_ok [OF env s1(2) _ _ t1] by blast
      have k2: "keeps_select s s2" by (rule keeps_select_trans [OF s1(3) s2(3)])
      have step: "fd_loop env t rd wr (Suc n) i s =
          (if i \<in> rd \<and> select_consistency_number s2 \<noteq> t then Some (False, s2) else fd_loop env t rd wr n (i + 1) s2)"
        using turn s1(1) s2(1) t1 by (simp split del: if_split)
      show ?thesis
      proof (cases "i \<in> rd \<and> select_consistency_number s2 \<noteq> t")
        case True
        then show ?thesis unfolding step using s2(2) k2 by (simp add: safe_resultI)
      next
        case False
        then have "safe_result s2 t (fd_loop env t rd wr n (i + 1) s2)"
          using Suc.IH [OF s2(2)] Suc.prems(2) s2(4) by auto
        then show ?thesis unfolding step using False safe_result_trans [OF k2] by auto
      qed
    qed
  qed
qed

lemma task_after_split:
  assumes "map fst xs = pre @ h # hs" "distinct (map fst xs)"
  shows "task_after h xs = (case hs of [] \<Rightarrow> None | g # _ \<Rightarrow> Some g)"
  using assms
proof (induction xs arbitrary: pre)
  case Nil
  then show ?case by simp
next
  case (Cons x xs)
  obtain g k where x: "x = (g, k)" by (cases x)
  show ?case
  proof (cases pre)
    case Nil
    then show ?thesis using Cons.prems x by (auto split: list.splits)
  next
    case (Cons p ps)
    then have "g \<noteq> h" using Cons.prems x by auto
    then show ?thesis using Cons.IH [of ps] Cons.prems Cons x by simp
  qed
qed

lemma mod_task_ok:
  assumes "select_ok s" "task_at h s = Some k"
  shows "\<exists>s'. mod_task h f s = Some s' \<and> select_ok s' \<and> map fst (periodic_task_list s') = map fst (periodic_task_list s) \<and>
    task_at h s' = Some (f k) \<and> (\<forall>g. g \<noteq> h \<longrightarrow> task_at g s' = task_at g s) \<and>
    select_consistency_number s' = select_consistency_number s \<and> sel_item_max s' = sel_item_max s \<and>
    sel_closed s' = sel_closed s"
proof -
  let ?l = "map (\<lambda>(g, k). (g, if g = h then f k else k)) (periodic_task_list s)"
  have m: "map fst ?l = map fst (periodic_task_list s)" by (simp add: case_prod_unfold comp_def)
  have "map_of (map (\<lambda>(g, k). (g, if g = h then f k else k)) xs) g =
      map_option (\<lambda>k. if g = h then f k else k) (map_of xs g)" for g xs
    by (induction xs) auto
  then have "task_at g (s\<lparr>periodic_task_list := ?l\<rparr>) = map_option (\<lambda>k. if g = h then f k else k) (task_at g s)" for g
    by (simp add: task_at_def)
  moreover have "select_ok (s\<lparr>periodic_task_list := ?l\<rparr>)"
  proof -
    have "distinct (map fst ?l)" "\<forall>g \<in> set (map fst ?l). g < next_task s"
      using assms(1) unfolding m by (simp_all add: select_ok_def)
    then show ?thesis using assms(1) by (simp add: select_ok_def)
  qed
  ultimately show ?thesis using assms(2) m by (simp add: mod_task_def option.map_id0 [unfolded id_def])
qed

lemma keeps_mod_task:
  assumes "task_at h s = Some k" "executing k = None \<or> executing (f k) = executing k"
    and "map fst (periodic_task_list s') = map fst (periodic_task_list s)"
      "task_at h s' = Some (f k)" "\<forall>g. g \<noteq> h \<longrightarrow> task_at g s' = task_at g s"
      "select_consistency_number s' = select_consistency_number s" "sel_item_max s' = sel_item_max s"
  shows "keeps_select s s'"
proof -
  have "\<exists>k'. task_at g s' = Some k' \<and> executing k' = executing kg"
    if "task_at g s = Some kg" "executing kg \<noteq> None" for g kg
    using that assms by (cases "g = h") auto
  then show ?thesis using assms(3,6,7) by (simp add: keeps_select_def)
qed

lemma run_task_ok:
  assumes env: "funcs_ok env" and ok: "select_ok s" and k: "task_at h s = Some k" "executing k = None"
    and l: "map fst (periodic_task_list s) = pre @ h # hs"
  shows "\<exists>after s'. run_task env h s = Some (after, s') \<and> select_ok s' \<and> keeps_select s s' \<and>
    (select_consistency_number s' = select_consistency_number s \<longrightarrow>
      after = (case hs of [] \<Rightarrow> None | g # _ \<Rightarrow> Some g))"
proof -
  let ?start = "\<lambda>k. k\<lparr>executing := Some (self_thread env)\<rparr>" and ?stop = "\<lambda>k. k\<lparr>executing := None\<rparr>"
  obtain s1 where s1: "mod_task h ?start s = Some s1" "select_ok s1"
      "map fst (periodic_task_list s1) = map fst (periodic_task_list s)" "task_at h s1 = Some (?start k)"
    and o1: "\<forall>g. g \<noteq> h \<longrightarrow> task_at g s1 = task_at g s" "select_consistency_number s1 = select_consistency_number s"
      "sel_item_max s1 = sel_item_max s"
    using mod_task_ok [OF ok k(1)] by blast
  have k1: "keeps_select s s1" by (rule keeps_mod_task [where f = ?start, OF k(1) _ s1(3,4) o1]) (use k(2) in simp)
  let ?s1 = "sel_emit (Run_task (task_func k) (task_arg1 k) (task_arg2 k)) (s1\<lparr>sel_locked := False\<rparr>)"
  have "select_ok ?s1" using s1(2) by simp
  then obtain s2 where s2: "run_func env (task_func k) (task_arg1 k) (task_arg2 k) ?s1 = Some s2"
    "select_ok s2" "keeps_select ?s1 s2" using env unfolding funcs_ok_def by blast
  then have k2: "keeps_select s1 s2" by (simp add: keeps_select_def task_at_def)
  let ?s2 = "s2\<lparr>sel_locked := True\<rparr>"
  have ok2: "select_ok ?s2" using s2(2) by simp
  obtain kk where kk: "task_at h ?s2 = Some kk" "executing kk = Some (self_thread env)"
    using k2 s1(4) unfolding keeps_select_def by fastforce
  obtain s3 where s3: "mod_task h ?stop ?s2 = Some s3" "select_ok s3"
      "map fst (periodic_task_list s3) = map fst (periodic_task_list ?s2)" "task_at h s3 = Some (?stop kk)"
    and o3: "\<forall>g. g \<noteq> h \<longrightarrow> task_at g s3 = task_at g ?s2" "select_consistency_number s3 = select_consistency_number ?s2"
      "sel_item_max s3 = sel_item_max ?s2"
    using mod_task_ok [OF ok2 kk(1)] by blast
  have num: "select_consistency_number s \<le> select_consistency_number s3"
    using k1 k2 o3(2) by (auto simp: keeps_select_def)
  have k3: "keeps_select s s3"
  proof -
    have "\<exists>k'. task_at g s3 = Some k' \<and> executing k' = executing kg"
      if g: "task_at g s = Some kg" "executing kg \<noteq> None" for g kg
    proof -
      have ne: "g \<noteq> h" using g k by auto
      then have "task_at g s1 = Some kg" using o1(1) g(1) by simp
      then show ?thesis using k2 g(2) o3(1) ne unfolding keeps_select_def by auto
    qed
    moreover have "\<exists>new. map fst (periodic_task_list s3) = new @ map fst (periodic_task_list s)"
      if "select_consistency_number s3 = select_consistency_number s"
      using that k2 o1(2) o3(2) s1(3) s3(3) unfolding keeps_select_def by simp
    ultimately show ?thesis using num o1(3) o3(3) k2 by (auto simp: keeps_select_def)
  qed
  let ?after = "task_after h (periodic_task_list s3)"
  have after: "?after = (case hs of [] \<Rightarrow> None | g # _ \<Rightarrow> Some g)"
    if n: "select_consistency_number s3 = select_consistency_number s"
  proof -
    obtain new where "map fst (periodic_task_list s3) = (new @ pre) @ h # hs"
      using k3 n l unfolding keeps_select_def by auto
    then show ?thesis by (rule task_after_split) (use s3(2) in \<open>simp add: select_ok_def\<close>)
  qed
  have run: "run_task env h s = (if period_sec kk = 0 \<and> period_usec kk = 0
      then do { (found, s) \<leftarrow> remove_periodic_task env h s3; Some (?after, s) } else Some (?after, s3))"
    using s1(1,4) s2(1) s3(1,4) by (simp add: run_task_def Let_def)
  show ?thesis
  proof (cases "period_sec kk = 0 \<and> period_usec kk = 0")
    case True
    obtain s4 where s4: "remove_periodic_task env h s3 = Some (True, s4)" "select_ok s4" "keeps_select s3 s4"
      "select_consistency_number s4 = select_consistency_number s3 + 1"
      using remove_task_ok [OF s3(2,4)] by auto
    then show ?thesis using run True keeps_select_trans [OF k3 s4(3)] num by auto
  next
    case False
    then show ?thesis using run s3(2) k3 after by auto
  qed
qed

definition first_of :: "addr list \<Rightarrow> addr ptr" where
  "first_of hs = (case hs of [] \<Rightarrow> None | g # _ \<Rightarrow> Some g)"

lemma first_of_simps [simp]: "first_of [] = None" "first_of (h # hs) = Some h"
  by (simp_all add: first_of_def)

lemma task_loop_ok:
  assumes env: "funcs_ok env"
  shows "select_ok s \<Longrightarrow> map fst (periodic_task_list s) = pre @ hs \<Longrightarrow> t = select_consistency_number s \<Longrightarrow>
    safe_result s t (task_loop env t now (first_of hs) s)"
proof (induction hs arbitrary: s pre)
  case Nil
  then show ?case by (simp add: task_loop.simps safe_result_here)
next
  case (Cons h hs)
  note ok = Cons.prems(1) and l = Cons.prems(2) and t = Cons.prems(3)
  have "h \<in> set (map fst (periodic_task_list s))" unfolding l by simp
  then obtain k where k: "task_at h s = Some k" using task_at_None [of h s] by (cases "task_at h s") auto
  have after: "task_after h (periodic_task_list s) = first_of hs"
    unfolding first_of_def by (rule task_after_split [OF l]) (use ok in \<open>simp add: select_ok_def\<close>)
  have l': "map fst (periodic_task_list s) = (pre @ [h]) @ hs" using l by simp
  show ?case
  proof (cases "time_less (next_time k) now")
    case False
    have "safe_result s t (task_loop env t now (first_of hs) s)" by (rule Cons.IH [OF ok l' t])
    then show ?thesis using False k after t by (subst task_loop.simps) simp
  next
    case True
    let ?f = "\<lambda>k. k\<lparr>next_time := next_due k now\<rparr>"
    obtain s1 where s1: "mod_task h ?f s = Some s1" "select_ok s1"
        "map fst (periodic_task_list s1) = map fst (periodic_task_list s)" "task_at h s1 = Some (?f k)"
      and o1: "\<forall>g. g \<noteq> h \<longrightarrow> task_at g s1 = task_at g s" "select_consistency_number s1 = select_consistency_number s"
        "sel_item_max s1 = sel_item_max s"
      using mod_task_ok [OF ok k] by blast
    have k1: "keeps_select s s1" by (rule keeps_mod_task [where f = ?f, OF k _ s1(3,4) o1]) simp
    have l1: "map fst (periodic_task_list s1) = pre @ h # hs" using s1(3) l by simp
    have "\<exists>a s2. (if executing k = None then run_task env h s1 else Some (first_of hs, s1)) = Some (a, s2) \<and>
        select_ok s2 \<and> keeps_select s1 s2 \<and> (select_consistency_number s2 = t \<longrightarrow> a = first_of hs)"
      using run_task_ok [OF env s1(2,4) _ l1] s1(2) o1(2) t by (auto simp: first_of_def)
    then obtain a s2 where s2: "(if executing k = None then run_task env h s1 else Some (first_of hs, s1)) = Some (a, s2)"
      "select_ok s2" "keeps_select s1 s2" "select_consistency_number s2 = t \<longrightarrow> a = first_of hs" by blast
    have k2: "keeps_select s s2" by (rule keeps_select_trans [OF k1 s2(3)])
    have step: "task_loop env t now (Some h) s =
        (if sel_closed s2 then Some (False, shutdown_wake_mechanism s2)
         else if select_consistency_number s2 \<noteq> t then Some (False, s2) else task_loop env t now a s2)"
      using True k after s1(1) s2(1) by (simp add: task_loop.simps [of env t now "Some h"] split del: if_split)
    consider (closed) "sel_closed s2" | (changed) "\<not> sel_closed s2" "select_consistency_number s2 \<noteq> t"
      | (on) "\<not> sel_closed s2" "select_consistency_number s2 = t" by blast
    then show ?thesis
    proof cases
      case closed
      have "keeps_select s (shutdown_wake_mechanism s2)"
        using k2 by (simp add: keeps_select_def task_at_def shutdown_wake_mechanism_def Let_def split: option.splits)
      then show ?thesis using step closed s2(2) by (simp add: safe_resultI)
    next
      case changed
      then show ?thesis using step changed s2(2) k2 by (simp add: safe_resultI)
    next
      case on
      then obtain new where "map fst (periodic_task_list s2) = (new @ pre @ [h]) @ hs"
        using k2 l t unfolding keeps_select_def by auto
      then have "safe_result s2 t (task_loop env t now (first_of hs) s2)"
        using Cons.IH [OF s2(2)] on by blast
      then show ?thesis using step on s2(4) safe_result_trans [OF k2] by simp
    qed
  qed
qed

lemma run_tasks_ok:
  assumes "funcs_ok env" "select_ok s" "select_consistency_number s = t"
  shows "safe_result s t (run_tasks env t s)"
proof (cases "periodic_task_list s")
  case Nil
  then show ?thesis using assms(2,3) by (simp add: run_tasks_def safe_result_here)
next
  case (Cons x xs)
  then have "first_task s = first_of (map fst (periodic_task_list s))" by (simp add: first_task_def case_prod_unfold)
  then show ?thesis
    using task_loop_ok [OF assms(1,2), of "[]" "map fst (periodic_task_list s)"] Cons assms(3) by (simp add: run_tasks_def)
qed

definition safe :: "select_data \<Rightarrow> select_data option \<Rightarrow> bool" where
  "safe s r \<longleftrightarrow> (\<exists>s'. r = Some s' \<and> select_ok s' \<and> keeps_select s s')"

lemma after_select_ok:
  assumes "funcs_ok env" "select_ok s"
  shows "safe s (after_select env t res rd wr s)"
proof (cases "select_consistency_number s = t")
  case False
  then show ?thesis using assms(2) by (simp add: after_select_def safe_def)
next
  case t: True
  have "safe_result s t (if res \<noteq> 0 then fd_loop env t rd wr FD_SETSIZE 0 s else Some (True, s))"
    using fd_loop_ok [OF assms, of 0 FD_SETSIZE t] assms(2) t by (simp add: safe_resultI)
  then obtain go s1 where s1: "(if res \<noteq> 0 then fd_loop env t rd wr FD_SETSIZE 0 s else Some (True, s)) = Some (go, s1)"
    "select_ok s1" "keeps_select s s1" "go \<longrightarrow> select_consistency_number s1 = t" unfolding safe_result_def by blast
  show ?thesis
  proof (cases go)
    case False
    then show ?thesis using t s1 by (simp add: after_select_def safe_def split del: if_split)
  next
    case go: True
    obtain go' s2 where s2: "run_tasks env t s1 = Some (go', s2)" "select_ok s2" "keeps_select s1 s2"
      using run_tasks_ok [OF assms(1) s1(2), of t] s1(4) go unfolding safe_result_def by blast
    let ?s = "if go' then s2\<lparr>select_consistency_number := select_consistency_number s2 + 1\<rparr> else s2"
    have "keeps_select s2 ?s" by (simp add: keeps_select_def task_at_def)
    then have "keeps_select s ?s" using keeps_select_trans [OF s1(3)] keeps_select_trans [OF s2(3)] by blast
    moreover have "select_ok ?s" using s2(2) by simp
    moreover have "after_select env t res rd wr s = Some ?s"
      using t s1(1) s2(1) go by (simp add: after_select_def split del: if_split)
    ultimately show ?thesis by (simp add: safe_def)
  qed
qed

lemma drop_bad_ok:
  "select_ok s \<Longrightarrow> select_ok (snd (drop_bad env rd s)) \<and> keeps_select s (snd (drop_bad env rd s))"
  by (auto simp: drop_bad_def Let_def select_ok_def table_ok_def intro: keeps_select_number)

lemma safe_trans: "keeps_select s s1 \<Longrightarrow> safe s1 r \<Longrightarrow> safe s r"
  unfolding safe_def using keeps_select_trans by blast

lemma safe_Some [simp]: "safe s (Some s') \<longleftrightarrow> select_ok s' \<and> keeps_select s s'"
  by (simp add: safe_def)

lemma socket_select_ok:
  assumes env: "funcs_ok env" "select_works env" and ok: "select_ok s" and lock: "sel_cm s \<noteq> None" "sel_locked s"
  shows "safe s (socket_select env sec usec s)"
proof (cases "sel_closed s")
  case True
  then show ?thesis using ok by (simp add: socket_select_def return_closed_def keeps_select_def task_at_def)
next
  case live: False
  let ?b = "claim_loop env s"
  let ?w = "wait_time env sec usec ?b"
  let ?c = "sel_emit (Selected ?w) (?b\<lparr>sel_locked := False\<rparr>)"
  have b: "periodic_task_list ?b = periodic_task_list s" "select_consistency_number ?b = select_consistency_number s"
    "sel_item_max ?b = sel_item_max s" "select_ok ?b" using ok by (simp_all add: claim_loop_def Let_def)
  have "select_ok ?c" using b(4) by simp
  then obtain res s1 where s1: "os_select env (sel_item_max ?b + 1) (fdset ?b) (write_set ?b) ?w ?c = Some (res, s1)"
      "res \<noteq> Select_failed E_OTHER" "select_ok s1" "keeps_select ?c s1"
    using env(2) unfolding select_works_def by blast
  let ?s = "s1\<lparr>sel_locked := True\<rparr>"
  have ok1: "select_ok ?s" using s1(3) by simp
  have k1: "keeps_select s ?s" using s1(4) b by (simp add: keeps_select_def task_at_def)
  obtain cm where cm: "sel_cm s = Some cm" using lock(1) by blast
  have run: "socket_select env sec usec s = (if sel_closed ?s then Some (return_closed ?s)
       else case res of
         Ready n rd wr \<Rightarrow> after_select env (select_consistency_number s) n rd wr ?s
       | Select_failed e \<Rightarrow>
           (if e = E_INTR then Some ?s
            else if select_consistency_number ?s \<noteq> select_consistency_number s then Some ?s
            else if e = E_ZERO then Some ?s
            else if e = E_BADF then (let (rd, s') = drop_bad env (fdset ?b) ?s in
              after_select env (select_consistency_number s) (- 1) rd (write_set ?b) s')
            else if e = E_AGAIN then after_select env (select_consistency_number s) (- 1) (fdset ?b) (write_set ?b) ?s
            else None))"
    using live lock(2) cm s1(1) by (simp add: socket_select_def assert_locked_def Let_def split del: if_split)
  have bad: "safe s (let (rd, s') = drop_bad env (fdset ?b) ?s in
      after_select env (select_consistency_number s) (- 1) rd (write_set ?b) s')"
  proof -
    obtain rd s2 where d: "drop_bad env (fdset ?b) ?s = (rd, s2)" by fastforce
    then have "select_ok s2" "keeps_select ?s s2" using drop_bad_ok [OF ok1, of env "fdset ?b"] by simp_all
    then show ?thesis using after_select_ok [OF env(1)] safe_trans [OF keeps_select_trans [OF k1]] d by simp
  qed
  have closed: "select_ok (return_closed ?s)" "keeps_select s (return_closed ?s)"
    using ok1 k1 by (simp_all add: return_closed_def keeps_select_def task_at_def)
  show ?thesis
    unfolding run
    using ok1 k1 closed s1(2) bad safe_trans [OF k1 after_select_ok [OF env(1) ok1]]
    by (cases res; cases "case res of Select_failed e \<Rightarrow> e | _ \<Rightarrow> E_INTR") auto
qed

section \<open>When tasks run\<close>

definition quiet_funcs :: "select_env \<Rightarrow> bool" where
  \<comment> \<open>functions that do nothing to the loop\<close>
  "quiet_funcs env \<longleftrightarrow> (\<forall>f a b s. run_func env f a b s = Some s)"

definition one_shot :: "periodic_task \<Rightarrow> bool" where
  "one_shot k \<longleftrightarrow> period_sec k = 0 \<and> period_usec k = 0"

definition due :: "timeval \<Rightarrow> periodic_task \<Rightarrow> bool" where
  "due now k \<longleftrightarrow> time_less (next_time k) now"

definition ran_effect :: "periodic_task \<Rightarrow> select_effect" where
  "ran_effect k = Run_task (task_func k) (task_arg1 k) (task_arg2 k)"

fun due_pass :: "timeval \<Rightarrow> (addr \<times> periodic_task) list \<Rightarrow> periodic_task list \<times> (addr \<times> periodic_task) list \<times> bool" where
  \<comment> \<open>what one pass should do: what runs, the tasks afterwards, and whether it reached the end\<close>
  "due_pass now [] = ([], [], True)"
| "due_pass now ((h, k) # ts) =
    (if due now k \<and> one_shot k then ([k], ts, False)
     else (case due_pass now ts of (rs, ts', go) \<Rightarrow>
       if due now k then (k # rs, (h, k\<lparr>next_time := next_due k now\<rparr>) # ts', go) else (rs, (h, k) # ts', go)))"

lemma map_other:
  "h \<notin> fst ` set xs \<Longrightarrow> map (\<lambda>(g, k). (g, if g = h then f k else k)) xs = xs"
  by (rule map_idI) force

lemma task_at_split:
  "periodic_task_list s = pre @ (h, k) # ts \<Longrightarrow> h \<notin> fst ` set pre \<Longrightarrow> task_at h s = Some k"
  by (simp add: task_at_def map_add_def map_of_eq_None_iff [THEN iffD2])

lemma mod_task_split:
  assumes "periodic_task_list s = pre @ (h, k) # ts" "h \<notin> fst ` set pre" "h \<notin> fst ` set ts"
  shows "mod_task h f s = Some (s\<lparr>periodic_task_list := pre @ (h, f k) # ts\<rparr>)"
  using assms task_at_split [OF assms(1,2)] map_other [OF assms(2), of f] map_other [OF assms(3), of f]
  by (simp add: mod_task_def)

lemma task_after_here:
  assumes "h \<notin> fst ` set pre"
  shows "task_after h (pre @ (h, k) # ts) = first_of (map fst ts)"
  using assms by (induction pre) (auto simp: first_of_def split: list.splits)

lemma filter_other: "h \<notin> fst ` set xs \<Longrightarrow> filter (\<lambda>(g, _). g \<noteq> h) xs = xs"
  by (rule filter_True) force

lemma run_task_quiet:
  assumes q: "quiet_funcs env" and l: "periodic_task_list s = pre @ (h, k) # ts"
    and h: "h \<notin> fst ` set pre" "h \<notin> fst ` set ts" and k: "executing k = None" and lock: "sel_locked s"
  shows "run_task env h s = Some (first_of (map fst ts),
    if one_shot k then s\<lparr>periodic_task_list := pre @ ts, sel_effects := ran_effect k # sel_effects s,
      select_consistency_number := select_consistency_number s + 1\<rparr>
    else s\<lparr>sel_effects := ran_effect k # sel_effects s\<rparr>)"
proof -
  let ?k1 = "k\<lparr>executing := Some (self_thread env)\<rparr>"
  let ?s1 = "s\<lparr>periodic_task_list := pre @ (h, ?k1) # ts\<rparr>"
  let ?s2 = "(sel_emit (ran_effect k) (?s1\<lparr>sel_locked := False\<rparr>))\<lparr>sel_locked := True\<rparr>"
  have k1: "?k1\<lparr>executing := None\<rparr> = k" using k by simp
  have m1: "mod_task h (\<lambda>k. k\<lparr>executing := Some (self_thread env)\<rparr>) s = Some ?s1" by (rule mod_task_split [OF l h])
  have t1: "task_at h ?s1 = Some ?k1" by (rule task_at_split [OF _ h(1)]) simp
  have "periodic_task_list ?s2 = pre @ (h, ?k1) # ts" by simp
  then have m2: "mod_task h (\<lambda>k. k\<lparr>executing := None\<rparr>) ?s2 = Some (?s2\<lparr>periodic_task_list := pre @ (h, k) # ts\<rparr>)"
    using mod_task_split [OF _ h, of ?s2 ?k1 "\<lambda>k. k\<lparr>executing := None\<rparr>"] k1 by simp
  let ?s3 = "?s2\<lparr>periodic_task_list := pre @ (h, k) # ts\<rparr>"
  have s3: "?s3 = s\<lparr>sel_effects := ran_effect k # sel_effects s\<rparr>"
    using l lock by (simp add: sel_emit_def)
  have t3: "task_at h ?s3 = Some k" by (rule task_at_split [OF _ h(1)]) simp
  have rm: "remove_periodic_task env h ?s3 = Some (True, ?s3\<lparr>periodic_task_list := pre @ ts,
      select_consistency_number := select_consistency_number ?s3 + 1\<rparr>)"
    using t3 k filter_other [OF h(1)] filter_other [OF h(2)] by (simp add: remove_periodic_task_def)
  have "run_task env h s = (if one_shot k
      then do { (found, s) \<leftarrow> remove_periodic_task env h ?s3; Some (first_of (map fst ts), s) }
      else Some (first_of (map fst ts), ?s3))"
    using m1 t1 m2 t3 q task_after_here [OF h(1), of k ts]
    by (simp add: run_task_def quiet_funcs_def ran_effect_def one_shot_def Let_def)
  then show ?thesis using rm s3 by simp
qed

definition pass_state :: "timeval \<Rightarrow> (addr \<times> periodic_task) list \<Rightarrow> (addr \<times> periodic_task) list \<Rightarrow> select_data \<Rightarrow> select_data" where
  \<comment> \<open>the loop after a pass over ts, with pre before it\<close>
  "pass_state now pre ts s =
    (case due_pass now ts of (rs, ts', go) \<Rightarrow>
       s\<lparr>periodic_task_list := pre @ ts', sel_effects := rev (map ran_effect rs) @ sel_effects s,
         select_consistency_number := select_consistency_number s + (if go then 0 else 1)\<rparr>)"

lemma pass_state_skip:
  assumes "periodic_task_list s = pre @ (h, k) # ts" "\<not> due now k"
  shows "pass_state now pre ((h, k) # ts) s = pass_state now (pre @ [(h, k)]) ts s"
  using assms by (simp add: pass_state_def split: prod.splits)

lemma pass_state_run:
  assumes "due now k" "\<not> one_shot k"
  shows "pass_state now pre ((h, k) # ts) s = pass_state now (pre @ [(h, k\<lparr>next_time := next_due k now\<rparr>)]) ts
    (s\<lparr>periodic_task_list := pre @ (h, k\<lparr>next_time := next_due k now\<rparr>) # ts, sel_effects := ran_effect k # sel_effects s\<rparr>)"
  using assms by (simp add: pass_state_def split: prod.splits)

lemma pass_state_shot:
  assumes "due now k" "one_shot k"
  shows "pass_state now pre ((h, k) # ts) s = s\<lparr>periodic_task_list := pre @ ts, sel_effects := ran_effect k # sel_effects s,
    select_consistency_number := select_consistency_number s + 1\<rparr>"
  using assms by (simp add: pass_state_def)

lemma due_pass_go_Cons:
  "snd (snd (due_pass now ((h, k) # ts))) \<longleftrightarrow> \<not> (due now k \<and> one_shot k) \<and> snd (snd (due_pass now ts))"
  by (simp split: prod.splits)

declare due_pass.simps [simp del]

lemma task_loop_due:
  assumes q: "quiet_funcs env" and l: "periodic_task_list s = pre @ ts" and d: "distinct (map fst (pre @ ts))"
    and idle: "\<forall>(h, k) \<in> set ts. executing k = None" and lock: "sel_locked s" and c: "\<not> sel_closed s"
    and t: "t = select_consistency_number s"
  shows "task_loop env t now (first_of (map fst ts)) s = Some (snd (snd (due_pass now ts)), pass_state now pre ts s)"
  using l d idle lock c t
proof (induction ts arbitrary: pre s)
  case Nil
  then show ?case by (subst task_loop.simps) (simp add: first_of_def pass_state_def due_pass.simps)
next
  case (Cons a ts)
  obtain h k where a: "a = (h, k)" by (cases a)
  note l = Cons.prems(1) [unfolded a]
  have h: "h \<notin> fst ` set pre" "h \<notin> fst ` set ts" and dd: "distinct (map fst (pre @ ts))"
    using Cons.prems(2) a by auto
  have k: "executing k = None" and idle: "\<forall>(h, k) \<in> set ts. executing k = None" using Cons.prems(3) a by auto
  note lock = Cons.prems(4) and c = Cons.prems(5) and t = Cons.prems(6)
  have f: "first_of (map fst (a # ts)) = Some h" using a by (simp add: first_of_def)
  have at: "task_at h s = Some k" by (rule task_at_split [OF l h(1)])
  show ?case
  proof (cases "due now k")
    case False
    have "task_loop env t now (Some h) s = task_loop env t now (first_of (map fst ts)) s"
      by (subst task_loop.simps) (use False at t in \<open>simp add: due_def task_after_here [OF h(1)] l Let_def\<close>)
    moreover have "task_loop env t now (first_of (map fst ts)) s
        = Some (snd (snd (due_pass now ts)), pass_state now (pre @ [(h, k)]) ts s)"
      using Cons.IH [of s "pre @ [(h, k)]"] l dd h idle lock c t by auto
    ultimately show ?thesis using pass_state_skip [OF l False] False due_pass_go_Cons [of now h k ts] a f by simp
  next
    case True
    let ?k = "k\<lparr>next_time := next_due k now\<rparr>"
    let ?s1 = "s\<lparr>periodic_task_list := pre @ (h, ?k) # ts\<rparr>"
    have m: "mod_task h (\<lambda>k. k\<lparr>next_time := next_due k now\<rparr>) s = Some ?s1" by (rule mod_task_split [OF l h])
    have r: "run_task env h ?s1 = Some (first_of (map fst ts),
      if one_shot k then s\<lparr>periodic_task_list := pre @ ts, sel_effects := ran_effect k # sel_effects s,
        select_consistency_number := select_consistency_number s + 1\<rparr>
      else ?s1\<lparr>sel_effects := ran_effect k # sel_effects s\<rparr>)"
      using run_task_quiet [OF q _ h, of ?s1 ?k] k lock by (simp add: one_shot_def ran_effect_def)
    show ?thesis
    proof (cases "one_shot k")
      case shot: True
      have "task_loop env t now (Some h) s = Some (False, pass_state now pre ((h, k) # ts) s)"
        by (subst task_loop.simps)
          (use True at t m r shot c k in \<open>simp add: due_def pass_state_shot Let_def\<close>)
      then show ?thesis using a f True shot due_pass_go_Cons [of now h k ts] by simp
    next
      case shot: False
      let ?s2 = "?s1\<lparr>sel_effects := ran_effect k # sel_effects s\<rparr>"
      have "task_loop env t now (Some h) s = task_loop env t now (first_of (map fst ts)) ?s2"
        by (subst task_loop.simps) (use True at t m r shot c k in \<open>simp add: due_def Let_def\<close>)
      moreover have "task_loop env t now (first_of (map fst ts)) ?s2
          = Some (snd (snd (due_pass now ts)), pass_state now (pre @ [(h, ?k)]) ts ?s2)"
        using Cons.IH [of ?s2 "pre @ [(h, ?k)]"] dd h idle lock c t by auto
      ultimately show ?thesis using pass_state_run [OF True shot, of pre h ts s] shot a f due_pass_go_Cons [of now h k ts] by simp
    qed
  qed
qed

definition shot :: "timeval \<Rightarrow> addr \<times> periodic_task \<Rightarrow> bool" where
  \<comment> \<open>a delayed task that is due: it runs, is removed and ends the pass\<close>
  "shot now = (\<lambda>(h, k). due now k \<and> one_shot k)"

definition rescheduled :: "timeval \<Rightarrow> addr \<times> periodic_task \<Rightarrow> addr \<times> periodic_task" where
  "rescheduled now = (\<lambda>(h, k). (h, if due now k then k\<lparr>next_time := next_due k now\<rparr> else k))"

definition reached :: "timeval \<Rightarrow> (addr \<times> periodic_task) list \<Rightarrow> (addr \<times> periodic_task) list" where
  \<comment> \<open>the tasks of the list that a pass gets to\<close>
  "reached now ts = takeWhile (\<lambda>x. \<not> shot now x) ts @ take 1 (dropWhile (\<lambda>x. \<not> shot now x) ts)"

lemma due_pass_reached:
  "due_pass now ts = (filter (due now) (map snd (reached now ts)),
     map (rescheduled now) (takeWhile (\<lambda>x. \<not> shot now x) ts) @ drop 1 (dropWhile (\<lambda>x. \<not> shot now x) ts),
     \<forall>x \<in> set ts. \<not> shot now x)"
proof (induction ts)
  case Nil
  then show ?case by (simp add: due_pass.simps reached_def)
next
  case (Cons x ts)
  obtain h k where x: "x = (h, k)" by (cases x)
  show ?case using Cons by (auto simp: x due_pass.simps reached_def shot_def rescheduled_def)
qed

lemma run_tasks_due:
  assumes "quiet_funcs env" "distinct (map fst (periodic_task_list s))"
    "\<forall>(h, k) \<in> set (periodic_task_list s). executing k = None" "sel_locked s" "\<not> sel_closed s"
  shows "run_tasks env (select_consistency_number s) s =
    Some (snd (snd (due_pass (sel_clock s) (periodic_task_list s))), pass_state (sel_clock s) [] (periodic_task_list s) s)"
proof (cases "periodic_task_list s = []")
  case True
  then show ?thesis by (simp add: run_tasks_def due_pass.simps pass_state_def)
next
  case False
  have "first_task s = first_of (map fst (periodic_task_list s))"
    by (auto simp: first_task_def first_of_def split: list.splits prod.splits)
  then show ?thesis
    using False task_loop_due [of env s "[]" "periodic_task_list s"] assms by (simp add: run_tasks_def)
qed

lemma wait_blocking:
  assumes "normal_time (sel_clock s)" "\<forall>(h, k) \<in> set (periodic_task_list s). normal_time (next_time k)"
    "filter idle (periodic_task_list s) \<noteq> []"
  shows "\<exists>t. wait_time env (- 1) 0 s = Some t \<and> normal_time t \<and>
    microsecs t = Min ((\<lambda>(h, k). delay_until (sel_clock s) k) ` {x \<in> set (periodic_task_list s). idle x})"
proof -
  let ?t = "set_soonest_timeout \<lparr>tv_sec = - 1, tv_usec = 0\<rparr> (periodic_task_list s) (sel_clock s)"
  have "time_ok ?t" and w: "waiting_of ?t = foldl shorter None (map (\<lambda>(h, k). delay_until (sel_clock s) k) (filter idle (periodic_task_list s)))"
    using soonest_fold [OF assms(1) _ assms(2), of "\<lparr>tv_sec = - 1, tv_usec = 0\<rparr>"] by (simp_all add: time_ok_def waiting_of_def)
  then have m: "waiting_of ?t = Some (Min ((\<lambda>(h, k). delay_until (sel_clock s) k) ` {x \<in> set (periodic_task_list s). idle x}))"
    using assms(3) by (simp add: foldl_shorter)
  then have "tv_sec ?t \<noteq> - 1" by (auto simp: waiting_of_def split: if_splits)
  moreover have "periodic_task_list s \<noteq> []" using assms(3) by auto
  ultimately show ?thesis using m \<open>time_ok ?t\<close> by (auto simp: wait_time_def Let_def waiting_of_def time_ok_def)
qed

lemma wait_polling:
  assumes "normal_time (sel_clock s)" "\<forall>(h, k) \<in> set (periodic_task_list s). normal_time (next_time k)"
  shows "\<exists>t. wait_time env 0 0 s = Some t \<and> normal_time t \<and> microsecs t = 0"
proof -
  let ?t = "set_soonest_timeout \<lparr>tv_sec = 0, tv_usec = 0\<rparr> (periodic_task_list s) (sel_clock s)"
  let ?ds = "map (\<lambda>(h, k). delay_until (sel_clock s) k) (filter idle (periodic_task_list s))"
  have "time_ok ?t" and w: "waiting_of ?t = foldl shorter (Some 0) ?ds"
    using soonest_fold [OF assms(1) _ assms(2), of "\<lparr>tv_sec = 0, tv_usec = 0\<rparr>"]
    by (simp_all add: time_ok_def waiting_of_def normal_time_def microsecs_def)
  have "Min (insert 0 (set ?ds)) = 0" by (rule Min_eqI) (auto simp: delay_until_def)
  then have m: "waiting_of ?t = Some 0" using w by (simp add: foldl_shorter)
  then have "tv_sec ?t \<noteq> - 1" by (auto simp: waiting_of_def split: if_splits)
  then show ?thesis using m \<open>time_ok ?t\<close> by (auto simp: wait_time_def Let_def waiting_of_def time_ok_def)
qed

definition sleeping_os :: "select_env \<Rightarrow> bool" where
  \<comment> \<open>no descriptor becomes ready; select returns after the timeout\<close>
  "sleeping_os env \<longleftrightarrow> (\<forall>n rd wr d s. normal_time d \<longrightarrow> normal_time (sel_clock s) \<longrightarrow>
    (\<exists>c. os_select env n rd wr (Some d) s = Some (Ready 0 {} {}, s\<lparr>sel_clock := c\<rparr>) \<and>
      normal_time c \<and> microsecs (sel_clock s) + microsecs d < microsecs c))"

lemma socket_select_sleeps:
  assumes os: "sleeping_os env" and q: "quiet_funcs env" and w: "wait_time env sec usec s = Some d" "normal_time d"
    and now: "normal_time (sel_clock s)" and ok: "sel_cm s \<noteq> None" "sel_locked s" "\<not> sel_closed s"
    and tasks: "distinct (map fst (periodic_task_list s))" "\<forall>(h, k) \<in> set (periodic_task_list s). executing k = None"
  shows "\<exists>c s'. socket_select env sec usec s = Some s' \<and> normal_time c \<and> microsecs (sel_clock s) + microsecs d < microsecs c \<and>
    (case due_pass c (periodic_task_list s) of (rs, ts, go) \<Rightarrow>
      periodic_task_list s' = ts \<and>
      sel_effects s' = rev (map ran_effect rs) @ Selected (Some d) # sel_effects (claim_loop env s))"
proof -
  let ?b = "claim_loop env s"
  have b: "periodic_task_list ?b = periodic_task_list s" "sel_clock ?b = sel_clock s" "sel_closed ?b = sel_closed s"
    "select_consistency_number ?b = select_consistency_number s" "sel_item_max ?b = sel_item_max s"
    "wait_time env sec usec ?b = wait_time env sec usec s"
    by (simp_all add: claim_loop_def Let_def wait_time_def)
  let ?c = "sel_emit (Selected (Some d)) (?b\<lparr>sel_locked := False\<rparr>)"
  have now': "normal_time (sel_clock ?c)" using now b(2) by simp
  obtain c where c: "os_select env (sel_item_max ?b + 1) (fdset ?b) (write_set ?b) (Some d) ?c = Some (Ready 0 {} {}, ?c\<lparr>sel_clock := c\<rparr>)"
      "normal_time c" "microsecs (sel_clock s) + microsecs d < microsecs c"
    using os [unfolded sleeping_os_def, rule_format, OF w(2) now', of "sel_item_max ?b + 1" "fdset ?b" "write_set ?b"] b(2) by auto
  let ?s = "?c\<lparr>sel_clock := c, sel_locked := True\<rparr>"
  obtain cm where cm: "sel_cm s = Some cm" using ok(1) by blast
  have "socket_select env sec usec s = after_select env (select_consistency_number s) 0 {} {} ?s"
    using cm ok(2,3) c(1) w(1) b by (simp add: socket_select_def assert_locked_def Let_def)
  moreover have "run_tasks env (select_consistency_number s) ?s =
      Some (snd (snd (due_pass c (periodic_task_list s))), pass_state c [] (periodic_task_list s) ?s)"
    using run_tasks_due [OF q, of ?s] tasks b ok(3) by simp
  moreover obtain rs ts go where p: "due_pass c (periodic_task_list s) = (rs, ts, go)" by (metis prod_cases3)
  ultimately have "socket_select env sec usec s = Some (let s' = pass_state c [] (periodic_task_list s) ?s in
      if go then s'\<lparr>select_consistency_number := select_consistency_number s' + 1\<rparr> else s')"
    using b by (simp add: after_select_def Let_def)
  then show ?thesis using c p by (intro exI [of _ c]) (auto simp: pass_state_def Let_def)
qed

lemma delayed_task_first:
  assumes "due c k" "one_shot k"
  shows "due_pass c ((h, k) # ts) = ([k], ts, False)"
  using assms by (simp add: due_pass.simps)

lemma delayed_task_alone_waits:
  assumes "normal_time (sel_clock s)" "normal_time (next_time k)" "executing k = None"
    and "periodic_task_list s = (h, k) # ts"
    and "\<forall>(g, j) \<in> set ts. normal_time (next_time j) \<and> executing j = None \<and> microsecs (next_time k) \<le> microsecs (next_time j)"
  shows "\<exists>d. wait_time env (- 1) 0 s = Some d \<and> normal_time d \<and> microsecs d = delay_until (sel_clock s) k"
proof -
  let ?f = "\<lambda>(h, k). delay_until (sel_clock s) k"
  obtain d where d: "wait_time env (- 1) 0 s = Some d" "normal_time d"
      "microsecs d = Min (?f ` {x \<in> set (periodic_task_list s). idle x})"
    using wait_blocking [OF assms(1), of env] assms by (fastforce simp: idle_def)
  have "{x \<in> set (periodic_task_list s). idle x} = insert (h, k) (set ts)"
    using assms(3,4,5) by (auto simp: idle_def)
  moreover have "Min (insert (delay_until (sel_clock s) k) (?f ` set ts)) = delay_until (sel_clock s) k"
    using assms(5) by (intro Min_eqI) (auto simp: delay_until_def)
  ultimately show ?thesis using d by auto
qed

end
