(* ===== verification/Spec2Isabelle.thy ===== *)
theory Spec2Isabelle
  imports Ev_Instances Dfg_Example Chr_Time CM_Transfer CM_Contact CM_Formats_Ok CM_Select_Ok
begin

text \<open>
  Event paths and dataflow graphs of EVPath.

  EVPath builds event paths out of stones. A stone has a queue of events and actions; an event
  submitted to a stone is queued there, matched against the stone's actions through its response
  cache, and then handed to the application (terminal and filter actions), sent on to other
  stones (split, store, immediate actions), to other threads (thread bridges) or to other
  processes (bridges). All of this state belongs to one CManager and is protected by its lock.
  Above this layer (src/evp.c with the data of src/ev_internal.h) a master process builds a graph
  of stones for many processes, deploys it with messages, notices failures and decides on the
  shutdown (src/ev_dfg.c with src/ev_dfg_internal.h). What a stone does is given by a
  specification string, printed and parsed by src/response.c; both layers wait on the condition
  variables of src/cm_control.c. Between processes messages travel over connections: src/cm.c puts
  headers and checksums on them, writes them to a transport (src/cmsockets.c) and collects the
  bytes that arrive into messages again. This development models these layers.

  Theories and code
  Ev_Prelude      crashes as None, bounded arrays, searches; shared lemmas
  Ev_Types        the structs and enums of ev_internal.h as records and datatypes; the state
                  record evp is struct _event_path_data; effects lists what the code does to its
                  environment; env holds the code outside the layer (FFS, ATL, network, handlers)
  Ev_Event        event items: get_free_event, reference_event, return_event, encode_event,
                  decode_action, ensure_ev_owned, reassign_memory_event, take and return of event
                  buffers; the reference-count invariant rc_ok
  Ev_Interfaces   the contracts (locales) between components
  Ev_Lookup       stone table and global id table: stone_struct, INT_EValloc_stone,
                  add_stone_to_lookup, remove_stone_from_lookup
  Ev_Queue        queues of stones and of stores as lists
  Ev_Queue_Ptr    the same queues with the pointers of the code, and the refinement
  Ev_Stone        actions, response cache, outputs: the INT_EVassoc and INT_EVcreate functions,
                  check_response_cache, determine_action, INT_EVfree_stone
  Ev_Stone_Free   INT_EVfree_stone and INT_EVclear_stored give back every reference
  Ev_Backpressure foreach_source, backpressure_transition, backpressure_check, control messages
  Ev_Process      enqueue_event, process_events_stone, do_bridge_action, process_local_actions
  Ev_Api          submission, stores, freezing, draining, destroying, transfer, lost connections
  Ev_Safe, Ev_Safe_Loop, Ev_Safe_Api
                  every operation keeps reference safety (rc_safe), as rules on all results of a
                  step; env_safe says what is expected of handlers and libraries
  Ev_Deliver      what processing does to events queued on a terminal stone, exactly
  C_String        the C library's string scanning and printing into bounded buffers; the locale
                  codec: a printer and a parser that reads back what it printed
  Response_Spec   response.c: INT_create_filter/router/transform/multityped/bridge_action_spec,
                  install_response_handler (install_response), action_type (action_type_of)
  Ev_General      evp.c: INT_EVassoc_general_action, INT_EVcreate_stone_action
  CM_Control      cm_control.c: conditions, INT_CMCondition_get, signal, fail, wait
  Dfg_Types       ev_dfg_internal.h; the state record world holds the event paths, the condition
                  list, the master, the client and the graph of one process; dfg_env holds the
                  application handlers and the connection manager
  Dfg_Config      find_stone_state, EVdfg_add_act_to_queue, EVdfg_perform_act_on_state with one
                  definition per kind of action
  Dfg_Build       INT_EVdfg_create, the stone, link and attribute functions, INT_EVdfg_realize,
                  add_bridge_stones, copy_dfg_state
  Dfg_Client      dfg_deploy_handler, dfg_ready_handler, dfg_shutdown_handler and the client's waits
  Dfg_Master      deployment, acknowledgements, signal_ready, possibly_signal_shutdown
  Dfg_Queue       action_model, handle_queued_messages, the handlers of the master's messages,
                  client association and shutdown
  Dfg_Machine     the master as a step relation, its message queue, the shutdown decision
  Dfg_Bridge      well-formed graphs, kept by everything that builds a graph
  Dfg_Cross       add_bridge_stones puts a bridge into every link between two nodes
  Dfg_Link        finding stones, what linking a port changes
  Chr_Time        chr_time.c: differences and sums of times
  CM_Buffer       cm.c: cm_get_data_buf, cm_return_data_buf, INT_CMtake_buffer, INT_CMreturn_buffer
  CM_Wire         cm.c: the headers the writers make (record_vectors: INT_CMwrite_attr, event_vectors:
                  internal_write_event, evcontrol_vectors, handshake_bytes; perf_vectors: cm_perf.c),
                  stamp: the checksum of INT_CMwrite_raw; CMact_on_data up to the receivers
  CM_Read         cm.c: CMDataAvailable; read_step is one turn of its loop, a read_call its locals
  CM_Stream       what a reader makes of a stream of messages, over the locales byte_source and
                  eager_source
  CM_Socket       cmsockets.c: read_to_buffer over the read of the operating system
  CM_Write        cm.c: INT_CMwrite_raw, queue_remaining_write, CMWriteQueuedData, write callbacks
  CM_Sink         what a writer puts on a connection, over the locale byte_sink
  CM_Socket_Write cmsockets.c: writev and NBwritev over the writev of the operating system
  CM_Transfer     events from one end of a socket to the other
  CM_Conn         cm.c: connections of a CManager: CMConnection_create, reference counts,
                  INT_CMConnection_failed, INT_CMConnection_close, INT_CManager_close and its tasks
  CM_Conn_Refs    the invariant conns_ok of the reference counts, kept by every operation
  CM_Handshake    cm.c: generate_CManager_ID, send_and_maybe_wait_for_handshake, CMdo_handshake
  CM_Contact      cm.c, cm_transport.c: split_transport_attributes, load_transport, CMinternal_listen,
                  contact lists, CMinternal_initiate_conn, CMinternal_get_conn; cmsockets.c: the
                  connections that initiating and accepting make
  CM_Formats      cm_formats.c, cm_evol.c, cm.c: INT_CMregister_format, INT_CMregister_handler, the
                  dispatch of records (dispatch_record: CMact_on_data), CMformat_preload
  CM_Formats_Ok   registry_ok: formats in the order of their names, one per FFS format
  CM_Select       cmselect.c: descriptors, periodic and delayed tasks, socket_select
  CM_Select_Ok    select_ok, kept by every turn of the loop; how long it waits and which tasks run
  Ev_Example, Ev_Instances, Dfg_Example
                  concrete states on which the properties are evaluated

  State. Events live in a heap indexed by address and count their references; queue items carry
  their address, so the pointer comparisons of the code are comparisons of addresses. A stone
  pointer is the index of its slot in the stone table. A NULL or stale pointer, an index outside
  an array, a wrong union member and a failed assert are None; the error codes of the code are
  values inside Some. Counters are unbounded integers. In a graph a stone pointer is a position in
  the stones array, a stone handle is its id, 0x80000000 or-ed with a counter and stored in an int
  (dfg_stone_id wraps it to 32 bits); a message is a value, so that copying and freeing it is not
  visible; a field read before it is set (node_for_action of an ACT_destroy) is None. Waiting lets
  network_step or other_thread, steps on the whole world, run.

  Invariants. rc_ok held e: the count of every live event is the number of queue entries, store
  entries and taken-list entries that refer to it plus held, the references of running code.
  rc_safe b e: the same with at least b held, so that leaked references are allowed and lost ones
  are not. stones_wf: a stone's id is its slot plus the base number. graph_ok: the stone count is
  the number of stones, the stone at position k has the k-th id, every link is unlinked or leads
  to an existing stone. shut: the master is in DFG_Shutting_Down, kept by every master_step.

  Loops. Loops over arrays are structural. Loops that the code does not bound (queues that
  handlers refill, restarts of process_local_actions, the draining of stores) are partial
  functions into option. foreach_source_inner takes a depth, one more than the number of stones,
  which foreach_depth shows is never reached. backpressure_transition re-enters itself only
  to unstall one more stone; its bound bp_depth is the number of stones plus two. drain_loop
  sleeps at most 21 times, as in the code. handle_loop (messages arrive while one is handled),
  poll_loop (a wait) and bridge_stones_from (it visits the stones it creates) are partial functions;
  bridges_between_nodes and wait_returns_once_decided show when the last two return. A graph has
  less than 2^31 - 1 stones in the properties that speak of ids.

  Lemmas. The rc lemmas (Ev_Event to Ev_Stone) are exact for one operation each; the wp rules
  (Ev_Safe to Ev_Safe_Api) compose them over the processing loops; the rel lemmas of Ev_Queue_Ptr
  relate pointers and lists; the locale flag_invariant of Ev_Backpressure proves at once that
  stalling keeps any invariant that does not look at its flags.

  Messages. A message is a list of bytes; its vectors a list of these. An int is four bytes in the
  order of the host (int_bytes, bytes_int), int64 lengths are ints kept within 64 bits (int64_ok).
  A connection is seen by its reader (the reading half: reader) and its writer (writer); locks and
  hooks are not modelled. What the operating system has for a socket is the locale quiet_os
  (socket_os where it may fail or wait), what it takes socket_out; kernel_read and kernel_write are
  queues that satisfy them. whole_message says that some bytes are one message; at_stage and
  stream_at how far a reader is in a stream.

  Connections. Connections live in a heap and count their references. conns_ok F held s: the count
  of a connection is one for the list of the CManager, one for its transport until it fails, and
  held for everyone else; F are those failing at the moment. Close handlers, shutdown functions and
  waits are steps on the CManager; handlers_ok says that a close handler gives back only references
  that are held. fewer and later compare what is held and what has happened before and after a step.

  Select loop. Its state is select_data; functions of descriptors and tasks, select and other
  threads are steps on it (select_env), which funcs_ok and select_works bind to the interface: tables
  in order, executing tasks not removed (keeps_select). task_loop, which functions may prolong, is a
  partial function; due_pass is what a pass does when they do not.

  Contracts. first_match_table, the locale of tables searched from the front, is instantiated by
  the global id table and the stones of a configuration; fifo_queue by the linked queues;
  flag_invariant by the reference counts, their safety and the stone ids; codec by fields,
  formats and format lists; byte_source, eager_source and byte_sink by the sockets (sublocales of
  socket_os, quiet_os and socket_out, which the kernel queues interpret).

  Not modelled. Dump functions, GraphML and trace output, the FFS tables of message formats, free
  functions run at shutdown (free_evp, free_master, free_client, free_dfg). The handlers response.c
  compiles with COD or loads, the connection manager as evp.c sees it, thread bridges to another
  CManager, FFS and ATL are parameters (env, dfg_env). Of the connection manager
  the network loop, format negotiation and user formats; of the transports all but reading,
  writing and the connections of sockets.
\<close>

section \<open>Delivery\<close>





section \<open>References are never lost while they are needed\<close>

text \<open>C3: Processing all queued events keeps reference safety, whatever handlers do through the
  interface: afterwards every event that a queue, a store, the list of taken events or running
  code refers to is live and counts at least these references.\<close>

theorem processing_keeps_references:
  assumes "env_safe env" "rc_safe b e" "do_local_actions env e = Some e'"
  shows "rc_safe b e' \<and>
    (\<forall>i. b i > 0 \<or> evp_refs e' i > 0 \<longrightarrow>
      (\<exists>v. events e' i = Some v \<and> int (evp_refs e' i + b i) \<le> ref_count v))"
proof -
  have "post (do_local_actions env e) (rc_safe b)"
    by (rule wp_do_local_actions) (use assms in auto)
  then have "rc_safe b e'" using assms(3) by (rule postD)
  then show ?thesis using rc_safe_live by blast
qed

theorem processing_keeps_references_witness:
  "\<exists>e'. do_local_actions env1 ex_two = Some e' \<and> rc_safe (\<lambda>_. 0) e'"
  using processing_keeps_references [OF env_safe_env1 rc_ex_two] ex_two_run by blast

text \<open>C4: INT_EVsubmit keeps reference safety, including the copy it makes of application-owned
  data that is still queued somewhere when it returns.\<close>

theorem submit_keeps_references:
  assumes "env_safe env" "rc_safe b e" "INT_EVsubmit env src data attrs e = Some e'"
  shows "rc_safe b e' \<and>
    (\<forall>i. evp_refs e' i > 0 \<longrightarrow> (\<exists>v. events e' i = Some v \<and> int (evp_refs e' i) \<le> ref_count v))"
proof -
  have "post (INT_EVsubmit env src data attrs e) (rc_safe b)"
    by (rule wp_INT_EVsubmit) (use assms in auto)
  then have s: "rc_safe b e'" using assms(3) by (rule postD)
  have "\<exists>v. events e' i = Some v \<and> int (evp_refs e' i) \<le> ref_count v" if "evp_refs e' i > 0" for i
    using rc_safe_live [OF s, of i] that by auto
  then show ?thesis using s by blast
qed

theorem submit_keeps_references_witness:
  "\<exists>e'. INT_EVsubmit env1 2 (Some 90) None ex_term = Some e' \<and> rc_safe (\<lambda>_. 0) e'"
  using ex_term_run submit_keeps_references [OF env_safe_env1 rc_ex_term] by blast

section \<open>Distributed dataflow graphs\<close>

text \<open>C5: add_bridge_stones, run on a well-formed graph whose stones are all on nodes that can be
  reached, returns; afterwards the graph is still well formed, every link of a stone that is no
  bridge leads to a stone on the same node, and every link of an old stone is what it was or goes
  through a new bridge stone on the same node that targets what the link led to.\<close>

theorem bridges_between_nodes:
  assumes "w_master w = Some m" "w_dfg w = Some d" "graph_ok d"
    and "placed m (stones (working_state d))" "work_from 0 (stones (working_state d)) < 2 ^ 31 - 1"
  shows "\<exists>w' d'. add_bridge_stones w = Some w' \<and> w_dfg w' = Some d' \<and> graph_ok d' \<and>
    extends (stones (working_state d)) (stones (working_state d')) \<and>
    all_local (length (stones (working_state d'))) (stones (working_state d'))"
  using add_bridge_stones_ok [OF assms] by blast

theorem bridges_between_nodes_witness:
  "\<exists>w' d'. add_bridge_stones ex_world = Some w' \<and> w_dfg w' = Some d' \<and>
     extends [ex_source_stone, ex_sink_stone] (stones (working_state d')) \<and>
     all_local (length (stones (working_state d'))) (stones (working_state d'))"
  using bridges_between_nodes [of ex_world ex_master ex_dfg] ex_graph_ok ex_placed ex_work by auto



text \<open>C7: INT_EVdfg_link_port between two stones of a well-formed graph succeeds; the port then leads
  to the destination, the destination knows the source, and the other ports of the source and
  the links of all other stones are as before, also when the port was in use and its old link is
  dropped first.\<close>

theorem link_port_links:
  assumes "w_dfg w = Some d" "graph_ok d"
    and "s < length (stones (working_state d))" "t < length (stones (working_state d))"
  shows "\<exists>w' d'. INT_EVdfg_link_port (int s - 2 ^ 31) (int p) (int t - 2 ^ 31) w = Some (1, w') \<and>
    w_dfg w' = Some d' \<and> links_to (working_state d') s p t \<and>
    same_other_links (working_state d) (working_state d') s p"
  using link_port_world [OF assms] by blast

theorem link_port_links_witness:
  "\<exists>w' d'. INT_EVdfg_link_port (-2147483647) 3 (-2147483648) ex_world = Some (1, w') \<and>
     w_dfg w' = Some d' \<and> links_to (working_state d') 1 3 0"
  using link_port_links [of ex_world ex_dfg 1 0 3] ex_graph_ok by auto

section \<open>Messages between processes\<close>



text \<open>C9: However the bytes arrive (any pieces, transient errors, reads that stop in the middle of a
  message) and however often CMDataAvailable runs, what it has delivered is a prefix of the events
  that were sent: none is lost, repeated, reordered or damaged.\<close>

theorem stream_prefix_delivered:
  assumes "socket_os os_read arrived"
    and "read_to_buffer env = libcmsockets_LTX_read_to_buffer_func os_read"
    and "data_available_calls env n st = Some st'"
    and "\<forall>ev \<in> set evs. event_fits ev"
    and "buffer_full_point st = 0" "read_bytes st = []"
    and "arrived (kernel (source st)) = concat (map (event_bytes big) evs)"
  shows "\<exists>k \<le> length evs. delivered st' = delivered st @ map received_event (take k evs)"
  using socket_os.stream_prefix [OF assms] .

theorem stream_prefix_delivered_witness:
  "\<exists>st' k. data_available_calls (ex_read_env False 2) 1 (ex_reader (event_bytes True (7, None, [[1]]))) = Some st' \<and>
     k \<le> 1 \<and> delivered st' = map received_event (take k [(7, None, [[1]])])"
proof -
  let ?ev = "(7 :: int32, None :: (byte list \<times> nat) option, [[1]] :: byte list list)"
  have fits: "event_fits ?ev" by (simp add: event_fits_def attrs_fit_def)
  have "\<exists>st'. CMDataAvailable (ex_read_env False 2) (ex_reader (event_bytes True ?ev)) = Some st' \<and>
      \<not> conn_failed st' \<and> delivered st' = delivered (ex_reader (event_bytes True ?ev)) @ map received_event [?ev]"
    by (rule quiet_os.stream_read [OF receive_queue.quiet_os_axioms [of 2], where big' = True])
      (use fits in \<open>simp_all add: ex_cm_simps holds_buffer_def event_bytes_def stamp_def event_vectors_def Let_def\<close>)
  then obtain st' where st': "data_available_calls (ex_read_env False 2) 1 (ex_reader (event_bytes True ?ev)) = Some st'"
    by auto
  have "\<exists>k \<le> length [?ev]. delivered st' = delivered (ex_reader (event_bytes True ?ev)) @
      map received_event (take k [?ev])"
    by (rule stream_prefix_delivered [OF receive_queue.socket_os_axioms [of 2] _ st', where big = True])
      (use fits in \<open>simp_all add: ex_cm_simps\<close>)
  with st' show ?thesis by (auto simp: ex_reader_def)
qed



text \<open>C11: A message that was kept and that one CMWriteQueuedData finishes has reached the operating
  system whole: exactly the bytes that were kept are added to what was sent.\<close>

theorem queued_write_finishes:
  assumes "socket_out os_writev out iov_max"
    and "NBwritev_func env = Some (libcmsockets_LTX_NBwritev_func iov_max os_writev)"
    and "CMWriteQueuedData env w = Some w'" "write_pending w" "\<not> write_pending w'" "\<not> w_failed w'"
    and "one_writev iov_max [rem_header w]" "one_writev iov_max [rem_attr w]"
      "case vector_data w of None \<Rightarrow> True | Some vec \<Rightarrow> one_writev iov_max vec"
  shows "out (kernel (sink w')) = out (kernel (sink w)) @ unsent w"
  using socket_out.socket_queued_finishes [OF assms(1-3,5,6,4)] assms(7-9)
  by (simp split: option.splits add: byte_sink.parts_fit_def [OF socket_out.socket_is_sink [OF assms(1)]])

theorem queued_write_finishes_witness:
  "\<exists>w'. CMWriteQueuedData (ex_write_env True True 99) (ex_writer\<lparr>rem_header := [1, 2], vector_data := Some [[3]],
        write_pending := True\<rparr>) = Some w' \<and> kernel (sink w') = [1, 2, 3]"
proof -
  let ?w = "ex_writer\<lparr>rem_header := [1, 2], vector_data := Some [[3]], write_pending := True\<rparr>"
  obtain w' where w': "CMWriteQueuedData (ex_write_env True True 99) ?w = Some w'" "\<not> write_pending w'" "\<not> w_failed w'"
    by (auto simp: CMWriteQueuedData_def write_attr_def write_vector_def send_vectors_def
        libcmsockets_LTX_NBwritev_func_def NBwritev_loop.simps [of _ _ _ "Suc 0"] NBwritev_loop.simps [of _ _ _ 0]
        set_block_state_def kernel_write_def ex_cm_simps write_done_def cm_wake_any_pending_write_def)
  have "kernel (sink w') = kernel (sink ?w) @ unsent ?w"
    by (rule queued_write_finishes [OF send_buffer.socket_out_axioms [of 99 15] _ w'(1) _ w'(2,3)])
      (simp_all add: ex_cm_simps MAX_RW_COUNT_def)
  with w' show ?thesis by (simp add: ex_cm_simps unsent_def)
qed

text \<open>C12: Messages on the wire begin with a four-byte code that tells their byte order: a record
  written by INT_CMwrite_attr on a host of either order is one message, and is read on a host of
  either order with the attributes and the data that were written; records above 2 gigabytes only
  between hosts of the same order.\<close>

theorem record_wire_roundtrip:
  assumes "length (concat vec) \<le> 0x7fffffff \<or> big = big' \<and> length (concat vec) < 2 ^ 62"
    and "attrs_fit attrs"
  shows "whole_message big (concat (stamp big' (record_vectors big' attrs vec))) \<and>
    CMact_on_data big (concat (stamp big' (record_vectors big' attrs vec))) =
      Some (Data_record (attr_bytes attrs) (concat vec))"
  using record_roundtrip [OF assms] .

theorem record_wire_roundtrip_witness:
  "CMact_on_data False (concat (stamp True (record_vectors True (Some ([5, 0, 0, 0, 0, 0, 0, 0], 1)) [[1], [2]]))) =
     Some (Data_record [5, 0, 0, 0, 0, 0, 0, 0] [1, 2])"
  using record_wire_roundtrip [of "[[1], [2]]" False True "Some ([5, 0, 0, 0, 0, 0, 0, 0], 1)"]
  by (simp add: attrs_fit_def attr_bytes_def round8_def)

text \<open>C13: A message of which only a part has arrived is never acted on: CMact_on_data asks for at
  least one more byte, and never for more than the message has, so that it never waits for, nor
  reads, bytes of the next message.\<close>

theorem partial_message_waits:
  assumes "whole_message big m" "n < length m"
  shows "\<exists>j. CMact_on_data big (take n m) = Some (Need_more j) \<and> 0 < j \<and> n + j \<le> length m"
  using assms by (rule part_of_message)

theorem partial_message_waits_witness:
  "\<exists>j. CMact_on_data True (take 3 (handshake_bytes False True 1 2)) = Some (Need_more j) \<and> 0 < j \<and> 3 + j \<le> 20"
  using partial_message_waits [OF conjunct1 [OF handshake_roundtrip [of True False True 1 2]], of 3]
  by (simp add: handshake_bytes_def Let_def)

text \<open>C14: A damaged payload is discarded: for a message with a checksum (a byte that is not 0 and is
  the sum of the bytes after the first four) a change of any single byte of the attributes or of
  the data makes CMact_on_data report the message as corrupt.\<close>

theorem damaged_payload_discarded:
  assumes "whole_message big m"
    and "get_int big m 0 = Some first" "message_kind first = Some (k, swap)" "k \<noteq> CMH"
    and "sent_checksum big swap m = Some c" "c \<noteq> 0" "byte_sum (drop 4 m) = c"
    and "header_len k \<le> i" "i < length m" "b \<noteq> m ! i"
  shows "CMact_on_data big (m[i := b]) = Some Corrupt"
  using assms by (rule damaged_payload)

theorem damaged_payload_discarded_witness:
  "CMact_on_data False [26, 76, 77, 67, 3, 0, 0, 0, 0, 0, 0, 0, 7, 0, 0, 0, 5, 5, 7] = Some Corrupt"
proof -
  let ?m = "[26, 76, 77, 67, 3, 0, 0, 0, 0, 0, 0, 0, 7, 0, 0, 0, 5, 5, 6] :: byte list"
  have m: "?m = event_bytes False (7, None, [[5, 5], [6]])"
    by (simp add: event_bytes_def stamp_def event_vectors_def Let_def ints_def int_bytes_def bytes_int_def
        byte_sum_def checksum_limit_def)
  have w: "whole_message False ?m"
    unfolding m using event_arrives [of "(7, None, [[5, 5], [6]])" False False]
    by (simp add: sent_ok_def event_fits_def attrs_fit_def)
  have "CMact_on_data False (?m[18 := 7]) = Some Corrupt"
    by (rule damaged_payload_discarded [OF w, where k = CML and swap = False and c = 26 and first = "0x434d4C1a"])
      (simp_all add: get_int_def bytes_int_def message_kind_def sent_checksum_def get_byte_def byte_sum_def
        header_len_def get_attrs_def short_length_def Let_def)
  then show ?thesis by simp
qed

text \<open>C15: cm_get_data_buf, as long as memory lasts, gives a buffer that is in the list, is large
  enough, that nobody else refers to, and whose count is one; it leaves every other buffer as it
  is, calls no return callback and keeps the list in order.\<close>

theorem data_buffer_is_exclusive:
  assumes "bufs_ok s" "\<And>a n s. CMrealloc me a n s \<noteq> None"
  shows "\<exists>i s'. cm_get_data_buf me len s = Some (Some i, s') \<and> bufs_ok s' \<and> i \<in> set (cm_buffer_list s') \<and>
    (\<exists>b. buf_heap s' i = Some b \<and> cb_ref_count b = 1 \<and> len \<le> cb_size b) \<and>
    (\<forall>b. buf_heap s i = Some b \<longrightarrow> cb_ref_count b \<le> 0) \<and>
    (\<forall>j. j \<noteq> i \<longrightarrow> buf_heap s' j = buf_heap s j) \<and> callbacks s' = callbacks s"
  using get_data_buf_ok [OF assms, of len] unfolding handed_out_def by blast

theorem data_buffer_is_exclusive_witness:
  "\<exists>i s'. cm_get_data_buf ex_mem 40 ex_bufs = Some (Some i, s') \<and> i \<in> set (cm_buffer_list s')"
  using data_buffer_is_exclusive [of ex_bufs ex_mem 40] by (auto simp: ex_mem_def ex_bufs_def bufs_ok_def)


section \<open>Connections\<close>



text \<open>C17: INT_CMConnection_close gives back the caller's reference and marks the connection closed,
  and that is all: a connection that has not failed stays in the list of the CManager, its
  transport is not shut down and none of its close handlers is called.\<close>

theorem closing_is_not_disconnecting:
  assumes "conns_ok F held s" "0 < held c" "c \<in> set (conn_list s)"
  shows "\<exists>s'. INT_CMConnection_close env c s = Some s' \<and> conns_ok F (lose c held) s' \<and>
    conn_list s' = conn_list s \<and> conn_effects s' = conn_effects s \<and>
    (\<exists>k k'. conn_heap s c = Some k \<and> conn_heap s' c = Some k' \<and> is_closed k' \<and> is_failed k' = is_failed k)"
  using close_held [OF assms(1,2), of env] assms(3) by blast

theorem closing_is_not_disconnecting_witness:
  "\<exists>s'. INT_CMConnection_close ex_conn_env 4 (ex_manager 7) = Some s' \<and> conn_list s' = [4] \<and> conn_effects s' = []"
  using closing_is_not_disconnecting [OF ex_manager_ok, of 4 7 ex_conn_env]
  by (auto simp: ex_shake_held_def ex_manager_def)



text \<open>C19: The loop with which INT_CManager_close closes the connections ends: every connection of the
  CManager has been shut down, the list is empty, and only connections that somebody still holds
  have not been freed.\<close>

theorem manager_close_ends:
  assumes "handlers_ok env" "conns_ok {} held s"
  shows "\<exists>s' held'. close_connections env s = Some s' \<and> conn_list s' = [] \<and> fewer held' held \<and>
    (\<forall>c \<in> set (conn_list s). Shutdown_conn c \<in> set (conn_effects s')) \<and>
    (\<forall>c. conn_heap s' c \<noteq> None \<longleftrightarrow> 0 < held' c)"
proof -
  obtain s' held' where s': "close_connections env s = Some s'" "conn_list s' = []" "conns_ok {} held' s'"
      "fewer held' held" "later s s'"
    using close_connections_ends [OF assms] by blast
  then have "\<forall>c \<in> set (conn_list s). Shutdown_conn c \<in> set (conn_effects s')" by (auto simp: later_def)
  with s' empty_list_held [OF s'(3,2)] show ?thesis by blast
qed

theorem manager_close_ends_witness:
  "\<exists>s'. close_connections ex_conn_env (ex_manager 7) = Some s' \<and> conn_list s' = [] \<and>
     Shutdown_conn 4 \<in> set (conn_effects s')"
  using manager_close_ends [OF ex_handlers_ok ex_manager_ok, of 7] by (auto simp: ex_manager_def)

text \<open>C20: The handshake of two CManagers takes one message each way: the end that starts waits until
  the other has answered, then each knows the format server and the id of the other, and neither
  sends anything more. The two hosts may differ in byte order.\<close>

theorem handshake_exchange:
  assumes a: "conn_heap sa ca = Some ka" "\<not> known ka" "\<not> is_write_pending ka" "\<not> is_closed ka"
    and b: "conn_heap sb cb = Some kb" "\<not> known kb" "\<not> is_write_pending kb" "handshake_condition kb = -1"
    and send: "quiet_send ea ca" "quiet_send eb cb" "transport_is_reliable ea ca"
    and ids: "\<not> bit (CManager_ID sa) 31" "\<not> bit (CManager_ID sb) 31"
    and msgs: "msg = handshake_bytes (h_host_big ea) False (server_id sa) (CManager_ID sa)"
      "reply = handshake_bytes (h_host_big eb) True (server_id sb) (CManager_ID sb)"
    and wait: "manager_wait (receive_handshake ea ca reply) (h_wait ea)"
      "\<not> has_thread (cm_control sa)" "server_thread (cm_control sa) = 0" "0 \<le> next_condition_num (cm_control sa)"
  shows "\<exists>sa' sb' ka' kb'. receive_handshake eb cb msg sb = Some sb' \<and> conn_heap sb' cb = Some kb' \<and>
    conn_effects sb' = Handshake_sent cb reply # conn_effects sb \<and>
    remote_format_server_ID kb' = server_id sa \<and> remote_CManager_ID kb' = CManager_ID sa \<and>
    send_and_maybe_wait_for_handshake ea ca sa = Some sa' \<and> conn_heap sa' ca = Some ka' \<and>
    conn_effects sa' = Handshake_sent ca msg # conn_effects sa \<and>
    remote_format_server_ID ka' = server_id sb \<and> remote_CManager_ID ka' = CManager_ID sb"
  using handshake_replied [OF b send(2) ids(1), of "h_host_big ea" sa]
    starter_learns [OF a send(1,3) wait(1) [unfolded msgs(2)] ids(2) wait(2-4)] unfolding msgs by auto

theorem handshake_exchange_witness:
  "\<exists>ea sa' ka'. send_and_maybe_wait_for_handshake ea 4 (ex_manager 7) = Some sa' \<and>
     conn_heap sa' 4 = Some ka' \<and> remote_CManager_ID ka' = 9"
proof -
  let ?reply = "handshake_bytes True True (server_id (ex_manager 9)) 9"
  let ?step = "receive_handshake (ex_shake False True (\<lambda>s. None)) 4 ?reply"
  let ?ea = "ex_shake False True ?step" and ?eb = "ex_shake True True (\<lambda>s. None)"
  have st: "receive_handshake ?ea 4 ?reply = ?step" by (rule reply_env) (simp add: ex_shake_def)
  have "manager_wait st (h_wait (ex_shake False True st))" for st by (simp add: manager_wait_def ex_shake_def)
  then have w: "manager_wait (receive_handshake ?ea 4 ?reply) (h_wait ?ea)" unfolding st .
  have i: "\<not> bit (7 :: int32) 31" "\<not> bit (9 :: int32) 31" by simp_all
  have "\<exists>sa' sb' ka' kb'. receive_handshake ?eb 4 (handshake_bytes False False (server_id (ex_manager 7)) 7) (ex_manager 9) = Some sb' \<and>
    conn_heap sb' 4 = Some kb' \<and> conn_effects sb' = Handshake_sent 4 ?reply # conn_effects (ex_manager 9) \<and>
    remote_format_server_ID kb' = server_id (ex_manager 7) \<and> remote_CManager_ID kb' = CManager_ID (ex_manager 7) \<and>
    send_and_maybe_wait_for_handshake ?ea 4 (ex_manager 7) = Some sa' \<and> conn_heap sa' 4 = Some ka' \<and>
    conn_effects sa' = Handshake_sent 4 (handshake_bytes False False (server_id (ex_manager 7)) 7) # conn_effects (ex_manager 7) \<and>
    remote_format_server_ID ka' = server_id (ex_manager 9) \<and> remote_CManager_ID ka' = CManager_ID (ex_manager 9)"
    by (rule handshake_exchange [where ka = ex_connection and kb = ex_connection])
      (use w i in \<open>simp_all add: ex_manager_def ex_connection_def known_def quiet_send_def ex_shake_def ex_shake_cl_def\<close>)
  then show ?thesis by (auto simp: ex_manager_def)
qed

text \<open>C21: The parameters that follow the name of a transport (name=value, separated by commas) are
  read as they were written: names in order, numbers as ints or longs by their size, anything
  else as text.\<close>

theorem transport_parameters_roundtrip:
  assumes "\<forall>p \<in> set ps. plain_param p" "ps \<noteq> []" "CHR '':'' \<notin> set t"
  shows "cut CHR '':'' (t @ '':'' @ show_params ps) = (t, Some (show_params ps)) \<and>
    transport_params (show_params ps) = ps"
  using params_read [OF assms(1,2)] cut_here [OF assms(3)] by simp

theorem transport_parameters_roundtrip_witness:
  "transport_params ''PORT=4711,HOST=left'' = [(''PORT'', Int_param 4711), (''HOST'', String_param ''left'')]"
proof -
  have s: "show_params [(''PORT'', Int_param 4711), (''HOST'', String_param ''left'')] = ''PORT=4711,HOST=left''"
    by (simp add: show_param_def show_int_def show_nat.simps char_of_eq_iff)
  have "isdigit CHR ''l'' = False" "isspace CHR ''l'' = False" "isspace CHR ''t'' = False"
    "isspace CHR ''P'' = False" "isspace CHR ''T'' = False" "isspace CHR ''H'' = False"
    by (simp_all add: isdigit_def isspace_def)
  then have "plain_param (''PORT'', Int_param 4711)" "plain_param (''HOST'', String_param ''left'')"
    by (simp_all add: plain_param_def trimmed_def trim_def strtol_def)
  then have "transport_params (show_params [(''PORT'', Int_param 4711), (''HOST'', String_param ''left'')]) =
      [(''PORT'', Int_param 4711), (''HOST'', String_param ''left'')]"
    using transport_parameters_roundtrip [of "[(''PORT'', Int_param 4711), (''HOST'', String_param ''left'')]" "''sockets''"]
    by simp
  then show ?thesis by (simp only: s)
qed

section \<open>Message formats of a CManager\<close>



text \<open>C23: A handler registered with INT_CMregister_handler for a format that had none gets the records
  of that format: after registration of format and handler, CMact_on_data calls exactly this handler
  with its client data for a record that FFS decodes to the format.\<close>

theorem handler_gets_records:
  assumes "ffs_ok env" "registry_ok env s" "handled_by env (\<lambda>h d. h = None) (Some (FFSset_fixed_target env l)) s"
    and "record_name denv data = Some (list_name env l)"
    and "\<And>u. target_from_encode denv data u = Some (FFSset_fixed_target env l)"
  shows "\<exists>f s1 s2 s3. INT_CMregister_format env (Some l) s = Some (Some f, s1) \<and>
    INT_CMregister_handler env f (Some h) d s1 = Some s2 \<and>
    dispatch_record env denv data s2 = Some (Handled h d, s3) \<and> registry_ok env s3"
proof -
  let ?t = "Some (FFSset_fixed_target env l)" and ?Q = "\<lambda>h' d'. h' = Some h \<and> d' = d"
  obtain f s1 k where f: "INT_CMregister_format env (Some l) s = Some (Some f, s1)" "registry_ok env s1"
      "fmt_heap s1 f = Some k" "target_of env k = ?t" "handled_by env (\<lambda>h d. h = None) ?t s1"
    using register_ok [OF assms(1,2)] assms(3) by metis
  have "entries_ok ?Q (target_of env k) (in_formats s1)" using f(4,5) by (auto simp: handled_by_def entries_ok_def)
  then obtain s2 k2 where g: "INT_CMregister_handler env f (Some h) d s1 = Some s2" "registry_ok env s2"
      "fmt_heap s2 f = Some k2" "target_of env k2 = ?t" "handled_by env ?Q ?t s2"
    using register_handler_ok [OF assms(1) _ f(2,3), of ?Q "Some h" d] f(4) by auto
  have "cm_format_name k2 = list_name env l" by (rule name_of_target [OF assms(1) g(2,3,4)])
  then obtain h' d' s3 where "dispatch_record env denv data s2 = Some (Handled h' d', s3)" "?Q (Some h') d'" "registry_ok env s3"
    using dispatch_ok [OF assms(1) g(2,3,4,5) _ _ assms(5)] assms(4) by auto
  then show ?thesis using f(1) g(1) by auto
qed

theorem handler_gets_records_witness:
  "\<exists>f s1 s2 s3. INT_CMregister_format ex_ffs (Some 7) ex_formats = Some (Some f, s1) \<and>
    INT_CMregister_handler ex_ffs f (Some 70) 71 s1 = Some s2 \<and>
    dispatch_record ex_ffs ex_decode [1, 2] s2 = Some (Handled 70 71, s3)"
proof -
  have "handled_by ex_ffs (\<lambda>h d. h = None) (Some (FFSset_fixed_target ex_ffs 7)) ex_formats"
    by (auto simp: handled_by_def ex_formats_def new_format_def)
  then show ?thesis
    using handler_gets_records [OF ex_ffs_ok ex_formats_ok, of 7 ex_decode "[1, 2]" 70 71]
    by (auto simp: ex_decode_def ex_ffs_def)
qed

section \<open>The select loop\<close>

text \<open>C24: While it blocks, the select loop sleeps until the next task: with no task there is no timeout,
  and otherwise it is exactly the time until the first task is due that no thread executes; polling
  never sleeps.\<close>

theorem wait_ends_with_next_task:
  assumes "normal_time (sel_clock s)" "\<forall>(h, k) \<in> set (periodic_task_list s). normal_time (next_time k)"
  shows "(\<exists>t. wait_time env 0 0 s = Some t \<and> microsecs t = 0) \<and>
    (periodic_task_list s = [] \<longrightarrow> wait_time env (- 1) 0 s = None) \<and>
    (\<forall>h k. (h, k) \<in> set (periodic_task_list s) \<longrightarrow> executing k = None \<longrightarrow>
      (\<exists>t. wait_time env (- 1) 0 s = Some t \<and> normal_time t \<and>
        microsecs t = Min ((\<lambda>(h, k). max 0 (microsecs (next_time k) - microsecs (sel_clock s))) `
          {(h, k). (h, k) \<in> set (periodic_task_list s) \<and> executing k = None})))"
proof (intro conjI allI impI)
  show "\<exists>t. wait_time env 0 0 s = Some t \<and> microsecs t = 0" using wait_polling [OF assms] by blast
  show "wait_time env (- 1) 0 s = None" if "periodic_task_list s = []" using that by (simp add: wait_time_def)
  fix h k
  assume k: "(h, k) \<in> set (periodic_task_list s)" "executing k = None"
  have i: "{x \<in> set (periodic_task_list s). idle x} = {(h, k). (h, k) \<in> set (periodic_task_list s) \<and> executing k = None}"
    by (auto simp: idle_def)
  have "filter idle (periodic_task_list s) \<noteq> []" using k by (auto simp: filter_empty_conv idle_def)
  from wait_blocking [OF assms this]
  show "\<exists>t. wait_time env (- 1) 0 s = Some t \<and> normal_time t \<and>
      microsecs t = Min ((\<lambda>(h, k). max 0 (microsecs (next_time k) - microsecs (sel_clock s))) `
        {(h, k). (h, k) \<in> set (periodic_task_list s) \<and> executing k = None})"
    unfolding i delay_until_def .
qed

definition ex_wake :: "timeval \<Rightarrow> timeval option \<Rightarrow> timeval" where
  "ex_wake now d = (case d of None \<Rightarrow> now | Some d \<Rightarrow> increment_time now (tv_sec d) (tv_usec d + 1))"

definition ex_loop_env :: select_env where
  "ex_loop_env = \<lparr>self_thread = 7,
    os_select = \<lambda>n rd wr d s. Some (Ready 0 {} {}, s\<lparr>sel_clock := ex_wake (sel_clock s) d\<rparr>),
    is_bad_fd = \<lambda>fd s. False, make_pipe = Some (5, 6), run_func = \<lambda>f a b s. Some s, wait_task = \<lambda>h s. Some s\<rparr>"

definition ex_task :: "int \<Rightarrow> int \<Rightarrow> addr \<Rightarrow> periodic_task" where
  "ex_task period at_sec f = \<lparr>period_sec = period, period_usec = 0, executing = None,
    next_time = \<lparr>tv_sec = at_sec, tv_usec = 500\<rparr>, task_func = f, task_arg1 = None, task_arg2 = None\<rparr>"

definition ex_loop :: "(addr \<times> periodic_task) list \<Rightarrow> select_data" where
  "ex_loop ts = \<lparr>sel_thread = 0, fdset = {5}, write_set = {}, sel_item_max = 5,
    select_items = replicate 5 no_item @ [\<lparr>item_func = Some read_wake_fd, item_arg1 = Some 5, item_arg2 = None\<rparr>],
    write_items = replicate 6 no_item, periodic_task_list = ts, sel_closed = False, sel_cm = Some (Some 1),
    select_consistency_number = 1, wake_read_fd = Some 5, wake_write_fd = Some 6, sel_locked = True, next_task = 9,
    sel_clock = \<lparr>tv_sec = 10, tv_usec = 700\<rparr>, sel_effects = []\<rparr>"

theorem wait_ends_with_next_task_witness:
  "\<exists>t. wait_time ex_loop_env (- 1) 0 (ex_loop [(1, ex_task 5 14 20), (2, ex_task 0 12 21)]) = Some t \<and>
    microsecs t = 1999800"
proof -
  let ?s = "ex_loop [(1, ex_task 5 14 20), (2, ex_task 0 12 21)]"
  have "(1, ex_task 5 14 20) \<in> set (periodic_task_list ?s)" "executing (ex_task 5 14 20) = None"
    by (simp_all add: ex_loop_def ex_task_def)
  moreover have "{(h, k). (h, k) \<in> set (periodic_task_list ?s) \<and> executing k = None} = {(1, ex_task 5 14 20), (2, ex_task 0 12 21)}"
    by (auto simp: ex_loop_def ex_task_def)
  ultimately show ?thesis
    using wait_ends_with_next_task [of ?s ex_loop_env]
    by (fastforce simp: ex_loop_def ex_task_def normal_time_def microsecs_def)
qed







section \<open>The master of a dataflow graph\<close>

text \<open>C28: Once the master is shutting down it stays so: no sequence of messages from the network,
  polls of the message queue, stone closings, changes to the graph, registrations of waiting
  clients and notifications brings it back to another state.\<close>

theorem shut_down_is_final:
  assumes "(master_step env)\<^sup>*\<^sup>* w w'" "w_master w = Some m" "state m = DFG_Shutting_Down"
  shows "\<exists>m'. w_master w' = Some m' \<and> state m' = DFG_Shutting_Down"
proof -
  from assms(1) have "shut w \<Longrightarrow> shut w'"
    by (induction rule: rtranclp_induct) (auto intro: shut_step)
  then show ?thesis using assms(2,3) by (simp add: shut_def)
qed

theorem shut_down_is_final_witness:
  "\<exists>w' m'. dfg_master_msg_handler dfg_env0 5 (U_deploy_ack None) ex_shut = Some w' \<and>
     w_master w' = Some m' \<and> state m' = DFG_Shutting_Down"
proof -
  obtain w' where w': "dfg_master_msg_handler dfg_env0 5 (U_deploy_ack None) ex_shut = Some w'"
    using ex_shut_message by blast
  then have "(master_step dfg_env0)\<^sup>*\<^sup>* ex_shut w'" by (blast intro: master_step.message)
  from shut_down_is_final [OF this ex_shut_master(1)] ex_shut_master(2) w' show ?thesis by auto
qed

text \<open>C29: When the contribution of the node a shutdown message comes from completes the tally (no
  node undetermined, some node reporting success or failed) and the message forces nothing,
  possibly_signal_shutdown puts the master into DFG_Shutting_Down, sends every connected node the
  combination of the reported failures exactly once in the order of the nodes, and gives up all
  connections.\<close>

theorem shutdown_completes:
  assumes "w_master w = Some m" "CManager_locked w"
    and "signal_node con (nodes m) 0 (-1) = int i" "i < length (nodes m)"
    and "\<forall>n \<in> set (nodes m). node_conn n \<noteq> None \<or> node_self n" "cm_sleep env = Some"
    and "\<not> forced value" "all_ready ((contributions m)[i := value])"
    and "some_contributed ((contributions m)[i := value])"
  shows "\<exists>w' m'. possibly_signal_shutdown env value con w = Some w' \<and> w_master w' = Some m' \<and>
    state m' = DFG_Shutting_Down \<and> (\<forall>n \<in> set (nodes m'). node_conn n = None) \<and>
    w_effects w' = close_effects env (nodes (contribute i value m))
      @ rev (map (\<lambda>c. CMwrite c (Msg_shutdown (combined ((contributions m)[i := value])))) (connections (nodes m)))
      @ w_effects w"
  using shutdown_performed [OF assms] assms(4) by (simp add: shut_world_def)

theorem shutdown_completes_witness:
  "\<exists>w' m'. possibly_signal_shutdown dfg_env0 0 (Some 5) ex_one_left = Some w' \<and>
     w_master w' = Some m' \<and> state m' = DFG_Shutting_Down \<and>
     w_effects w' = [Conn_close 5, CMwrite 5 (Msg_shutdown 4)]"
  using shutdown_completes [of ex_one_left ex_one_left_master "Some 5" 1 dfg_env0 0] ex_one_left_facts
  by auto

text \<open>C30: When every node has reported and each report is a failure code or no contribution, the
  master does not shut down: failure codes never count as a contribution.\<close>

theorem failures_alone_never_shut_down:
  assumes "w_master w = Some m" "CManager_locked w" "\<not> forced value"
    and "signal_node con (nodes m) 0 (-1) = int i" "i < length (nodes m)"
    and "\<forall>c \<in> set ((contributions m)[i := value]). c = STATUS_NO_CONTRIBUTION \<or> is_failure c"
  shows "\<exists>w' m'. possibly_signal_shutdown env value con w = Some w' \<and> w_master w' = Some m' \<and>
    state m' = state m \<and> w_effects w' = w_effects w"
proof -
  have "\<not> some_contributed ((contributions m)[i := value])"
    using assms(6) by (fastforce simp: some_contributed_def is_failure_def)
  then show ?thesis using shutdown_refused [OF assms(1-5)] by simp
qed

theorem failures_alone_never_shut_down_witness:
  "\<exists>w' m'. possibly_signal_shutdown dfg_env0 1 (Some 5) ex_one_failed = Some w' \<and>
     w_master w' = Some m' \<and> state m' = DFG_Running \<and> w_effects w' = []"
  using failures_alone_never_shut_down [of ex_one_failed ex_one_failed_master 1 "Some 5" 1 dfg_env0]
    ex_one_failed_facts by auto

text \<open>C31: While the master is starting, the deploy acknowledgements of all nodes but the last only
  count; the last one signals the deployment's condition and sets the master running.\<close>

theorem deploy_acks_start:
  assumes "w_master w = Some m" "state m = DFG_Starting" "w_dfg w = Some d"
    and "deploy_ack_count d + int (Suc k) = node_count m"
    and "deploy_ack_condition d = c" "c \<noteq> -1" "locked (w_evp w) = 0"
  shows "(\<forall>j \<le> k. \<exists>w'. acks j w = Some w' \<and> w_master w' = Some m \<and> w_cl w' = w_cl w) \<and>
    (\<exists>w'. acks (Suc k) w = Some w' \<and> w_master w' = Some (m\<lparr>state := DFG_Running\<rparr>) \<and>
       w_cl w' = INT_CMCondition_signal c (w_cl w))"
  using all_acks [OF assms] .

theorem deploy_acks_start_witness:
  "\<exists>w'. acks 2 ex_deploying = Some w' \<and> w_master w' = Some (ex_master\<lparr>state := DFG_Running\<rparr>) \<and>
     w_cl w' = INT_CMCondition_signal 1 ex_cl"
  using deploy_acks_start [of ex_deploying ex_master "ex_dfg\<lparr>deploy_ack_condition := 1\<rparr>" 1 1]
    ex_deploying_facts by (auto simp: numeral_2_eq_2)

text \<open>C32: The message loop, in a state where a handled message stands behind messages that are to
  stay queued, handles it with only the messages after it in the queue: the messages before it,
  which were to be kept for later, are gone.\<close>

theorem queued_messages_lost:
  assumes "w_master w = Some m" "queued_messages m = pre @ msg # rest"
    and "\<forall>x \<in> set pre. action_model (state m) (msg_type x) = Act_Q"
    and "action_model (state m) (msg_type msg) = Act_H"
  shows "handle_loop env 0 w =
    Option.bind (master_msg_handler env msg (w\<lparr>w_master := Some (m\<lparr>queued_messages := rest\<rparr>)\<rparr>))
      (handle_loop env 0)"
  using handle_loop_behind_queued [OF assms] assms(1) by (simp add: with_queue_def)

theorem queued_messages_lost_witness:
  "\<exists>w'. handle_loop dfg_env0 0 ex_mixed = Some w' \<and> queued_messages (the (w_master w')) = []"
  using queued_messages_lost [OF ex_mixed_facts, of dfg_env0] ex_ack_handled by simp

section \<open>Condition variables\<close>

text \<open>C33: A wait on a condition neither signalled nor failed, by the thread that polls, returns as
  soon as some polling step leaves the condition decided, with 1 exactly when it was signalled,
  and the condition is then destroyed.\<close>

theorem wait_returns_once_decided:
  assumes "\<And>cl w. get_cl we (put_cl we cl w) = cl" "cm_locked we w"
    and "CMCondition_find (get_cl we w) n = Some i" "undecided we n w"
    and "\<not> has_thread (get_cl we w)" "server_thread (get_cl we w) = 0"
    and "ws 0 = upd_cl we (\<lambda>cl. (mod_cond i (\<lambda>c. c\<lparr>waiting := waiting c + 1\<rparr>) cl)\<lparr>cond_polling := True\<rparr>) w"
    and "\<And>cl cl' w. put_cl we cl (put_cl we cl' w) = put_cl we cl w"
    and "\<forall>j < k. undecided we n (ws j) \<and> CMcontrol_list_wait we (ws j) = Some (ws (Suc j))"
    and "cond_at (get_cl we (ws k)) n = Some c" "signaled c \<or> failed c"
  shows "\<exists>w'. INT_CMCondition_wait we n w = Some (of_bool (signaled c), w') \<and>
    condition_list (get_cl we w') = destroy_from n (condition_list (get_cl we (ws k)))"
  using wait_decided [OF assms] .

theorem wait_returns_once_decided_witness:
  "\<exists>w'. INT_CMCondition_wait ex_wait_env 1 ex_waiting = Some (1, w') \<and> condition_list w' = []"
proof -
  let ?start = "upd_cl ex_wait_env
    (\<lambda>cl. (mod_cond 0 (\<lambda>c. c\<lparr>waiting := waiting c + 1\<rparr>) cl)\<lparr>cond_polling := True\<rparr>) ex_waiting"
  let ?c = "\<lparr>condition_num = 1, waiting = 1, signaled = True, failed = False, cond_conn = None,
    cond_client_data = None\<rparr>"
  have "\<exists>w'. INT_CMCondition_wait ex_wait_env 1 ex_waiting = Some (of_bool (signaled ?c), w') \<and>
    condition_list (get_cl ex_wait_env w') =
      destroy_from 1 (condition_list (get_cl ex_wait_env ((INT_CMCondition_signal 1 ^^ 1) ?start)))"
    by (rule wait_returns_once_decided [where i = 0 and k = 1 and
          ws = "\<lambda>j. (INT_CMCondition_signal 1 ^^ j) ?start" and c = ?c])
      (simp_all add: ex_wait_env_def ex_waiting_eq ex_cl_def CMCondition_find_def undecided_def
        cond_at_def upd_cl_def mod_cond_def INT_CMCondition_signal_def CMCondition_trigger_def
        wake_if_polling_def cl_emit_def Let_def)
  then show ?thesis
    by (simp add: ex_wait_env_def ex_waiting_eq ex_cl_def CMCondition_find_def
        upd_cl_def mod_cond_def INT_CMCondition_signal_def CMCondition_trigger_def
        wake_if_polling_def cl_emit_def Let_def)
qed


section \<open>Events and stones are released\<close>

text \<open>C34: INT_EVfree_stone on a live stone whose actions and response entries have the union
  members their types say returns, empties the slot of the stone, and gives back exactly the
  references its queue and its stores held: the counts of all events are exact before and after,
  and no event is left that its release function could not free.\<close>

theorem free_stone_releases:
  assumes "rc_ok held e" "ev_ok e" "stones_wf e" "as_ptr e \<noteq> None"
    and "stone_struct n e = Some (Some s)" "stone_at s e = Some st"
    and "\<forall>act \<in> set (proto_actions st). action_wf act" "\<forall>r \<in> set (response_cache st). cache_wf r"
  shows "\<exists>e'. INT_EVfree_stone n e = Some e' \<and> rc_ok held e' \<and> ev_ok e' \<and> stone_at s e' = None"
  using assms by (rule free_stone_ok)

theorem free_stone_releases_witness:
  "\<exists>e'. INT_EVfree_stone 0 ex_queued = Some e' \<and> rc_ok held2 e' \<and> stone_at 0 e' = None"
proof -
  have "rc_ok held2 ex_queued"
    by (simp add: rc_ok_def ref_ok_def evp_refs_def slot_refs_def stone_refs_def queue_refs_def
        ex_queued_eq ex_st_def ex_simps)
  moreover have "ev_ok ex_queued" "stones_wf ex_queued" "as_ptr ex_queued \<noteq> None"
    by (auto simp: ev_ok_def stones_wf_def ex_queued_eq ex_st_def ex_simps free_ok_def stone_at_def
        split: if_splits)
  moreover have "stone_struct 0 ex_queued = Some (Some 0)" "stone_at 0 ex_queued = Some ex_st"
    by (simp_all add: ex_queued_eq stone_at_def stone_struct_def stone_count_def nth_c_def ex_simps)
  moreover have "\<forall>act \<in> set (proto_actions ex_st). action_wf act"
    "\<forall>r \<in> set (response_cache ex_st). cache_wf r"
    by (simp_all add: ex_st_def new_stone_def)
  ultimately show ?thesis using free_stone_releases by blast
qed

section \<open>Queues\<close>

text \<open>C35: The linked queues of evp.c (head and tail pointers, nodes recycled through a free list)
  are first-in first-out: any events enqueued on an empty queue come out in the same order, no
  operation crashes, and the queue is empty again.\<close>

theorem linked_queue_is_fifo:
  assumes "lq_rep q []"
  shows "\<exists>q1 q2. linked_queue.enq_all evs q = Some q1 \<and>
    linked_queue.deq_n (length evs) q1 = Some (evs, q2) \<and> lq_mt q2"
  using assms by (rule linked_queue.fifo)

theorem linked_queue_is_fifo_witness:
  "\<exists>q1 q2. linked_queue.enq_all [5, 6]
     (\<lparr>queue_head = None, queue_tail = None\<rparr>, \<lparr>qheap = \<lambda>_. None, qfree = None, qfresh = 1\<rparr>) = Some q1 \<and>
     linked_queue.deq_n (length [5::nat, 6]) q1 = Some ([5, 6], q2) \<and> lq_mt q2"
proof -
  have "lq_rep (\<lparr>queue_head = None, queue_tail = None\<rparr>, \<lparr>qheap = \<lambda>_. None, qfree = None, qfresh = 1\<rparr>) []"
    unfolding lq_rep_def q_rel_def by (intro exI [of _ "[]"]) simp
  then show ?thesis by (rule linked_queue_is_fifo)
qed

text \<open>C36: dequeue_item on the linked queue refines removal from the list of items: for an item
  anywhere in the queue it returns the event of the item, unlinks exactly that item, keeps head
  and tail consistent and puts the node on the free list.\<close>

theorem linked_dequeue_item_refines:
  assumes "q_rel q m (ys @ x # zs) fs"
  shows "\<exists>q' m'. p_dequeue_item q (Some (qi_addr x)) m = Some (Some (qi_item x), q', m') \<and>
    q_rel q' m' (ys @ zs) (qi_addr x # fs)"
  using assms by (rule p_dequeue_item_rel)

theorem linked_dequeue_item_refines_witness:
  "\<exists>q' m'. p_dequeue_item \<lparr>queue_head = Some 3, queue_tail = Some 4\<rparr> (Some 4)
      \<lparr>qheap = [3 \<mapsto> \<lparr>q_item = 7, q_handled = False, q_next = Some 4\<rparr>,
                4 \<mapsto> \<lparr>q_item = 8, q_handled = False, q_next = None\<rparr>], qfree = None, qfresh = 5\<rparr>
    = Some (Some 8, q', m') \<and> q_rel q' m' [\<lparr>qi_addr = 3, qi_item = 7, qi_handled = False\<rparr>] [4]"
  using linked_dequeue_item_refines [of "\<lparr>queue_head = Some 3, queue_tail = Some 4\<rparr>"
      "\<lparr>qheap = [3 \<mapsto> \<lparr>q_item = 7, q_handled = False, q_next = Some 4\<rparr>,
                4 \<mapsto> \<lparr>q_item = 8, q_handled = False, q_next = None\<rparr>], qfree = None, qfresh = 5\<rparr>"
      "[\<lparr>qi_addr = 3, qi_item = 7, qi_handled = False\<rparr>]" "\<lparr>qi_addr = 4, qi_item = 8, qi_handled = False\<rparr>"
      "[]" "[]"]
  by (simp add: q_rel_def)


section \<open>Action specifications\<close>

text \<open>C37: INT_create_transform_action_spec and install_response_handler are inverse: the text
  created from two format lists and a function body fits its buffers, is taken for a transform
  action, and parses back to the same lists and body, with the first input format registered.\<close>

theorem transform_spec_roundtrip:
  assumes "list_ok l" "list_ok os" "length os < 10 ^ 6"
  shows "\<exists>text. INT_create_transform_action_spec (Some l) (Some os) body = Some text \<and>
    action_type_of (Some text) = Action_Immediate \<and>
    install_response reg text data True =
      Some (Some (Response_Transform (transform_response reg l os body data)),
            Some [if l = [] then None else reg l, None])"
  using create_transform_eq [OF assms] install_transform [OF assms(1,2)]
  by (simp add: action_type_of_def strncmp_eq_def transform_text_def)

theorem transform_spec_roundtrip_witness:
  "\<exists>text. INT_create_transform_action_spec (Some [ex_format]) (Some []) ''{ return 1; }'' = Some text \<and>
     install_response (\<lambda>l. Some 3) text None True =
      Some (Some (Response_Transform (transform_response (\<lambda>l. Some 3) [ex_format] [] ''{ return 1; }'' None)),
            Some [Some 3, None])"
  using transform_spec_roundtrip [of "[ex_format]" "[]" "''{ return 1; }''" "\<lambda>l. Some 3" None]
    ex_format_ok by auto

text \<open>C38: The text INT_create_bridge_action_spec makes is taken for a bridge action and
  parse_bridge_action_spec reads the target stone, negative numbers too, and the contact string
  back.\<close>

theorem bridge_spec_roundtrip:
  assumes "int32 sid"
  shows "\<exists>text. INT_create_bridge_action_spec sid contact = Some text \<and>
    action_type_of (Some text) = Action_Bridge \<and>
    parse_bridge_action_spec text t = Some (sid, contact)"
  using create_bridge_eq [OF assms] bridge_text_type parse_bridge_text by simp

theorem bridge_spec_roundtrip_witness:
  "\<exists>text. INT_create_bridge_action_spec (-2147483647) ''AAIA'' = Some text \<and>
     parse_bridge_action_spec text 0 = Some (-2147483647, ''AAIA'')"
  using bridge_spec_roundtrip [of "-2147483647" "''AAIA''" 0] by (auto simp: int32_def)


section \<open>The response cache\<close>

text \<open>C39: check_response_cache answers the index of the first entry that is eligible for the event
  at this stage (same format and a compatible stage, decoded when the entry requires it, or an
  entry for every format), and -1 exactly when there is none; it never crashes on entries whose
  decode member is set where their type says so.\<close>

theorem response_search:
  assumes "\<forall>r \<in> set cache. decode_wf r"
  shows "check_response_cache cache stage ev =
    Some (case find_index (eligible stage ev) cache of None \<Rightarrow> -1 | Some k \<Rightarrow> int k)"
  using check_from [OF assms, of 0 stage ev] by (simp add: check_response_cache_def split: option.splits)

theorem response_search_witness:
  "check_response_cache (response_cache ex_tst) Immediate
     (empty_event\<lparr>reference_format := Some 50\<rparr>) = Some 0"
  using response_search [of "response_cache ex_tst" Immediate "empty_event\<lparr>reference_format := Some 50\<rparr>"]
  by (simp add: ex_tst_def new_response_def decode_wf_def eligible_def compatible_stages_def empty_event_def)

section \<open>Back pressure\<close>




end
